(* ===== verification/Prelude.thy ===== *)
theory Prelude
  imports Main "HOL-Library.Word"
begin

text \<open>
  Shared vocabulary of the development.

  \<^item> The machine types of the Go code: \<open>u8\<close>, \<open>u16\<close>, \<open>u64\<close> and \<open>u256\<close> are words, a
    \<^verbatim>\<open>common.Hash\<close> ([32]byte) and a \<^verbatim>\<open>common.Address\<close> ([20]byte) are the words their bytes
    spell in big-endian order, a \<^verbatim>\<open>[]byte\<close> is a list of \<open>u8\<close>, a \<^verbatim>\<open>*big.Int\<close> is an \<open>int\<close>.
  \<^item> The outcome of a Go call: it returns, it panics, or (in the functions that carry
    fuel) the fuel of the model runs out. \<open>go_bind\<close> sequences two calls.
  \<^item> Checked accesses to slices, which panic out of range as the Go runtime does.
  \<^item> The collections \<open>go_simps\<close> (evaluation of the outcome type) and the generic lemmas
    on lists, maps and words that the component theories share.
\<close>

unbundle bit_operations_syntax

section \<open>Machine types\<close>

type_synonym u8 = "8 word"
type_synonym u16 = "16 word"
type_synonym u64 = "64 word"
type_synonym u256 = "256 word"
type_synonym address = "160 word"
type_synonym hash = "256 word"
type_synonym bytes = "u8 list"

section \<open>Outcomes of Go calls\<close>

text \<open>A panic carries the value it is raised with: a runtime error (index out of range, nil
  dereference, failed type assertion) or the message of an explicit \<^verbatim>\<open>panic(...)\<close>.\<close>

datatype panic = RuntimeError | PanicMsg string

datatype 'a go = Ret 'a | Panic panic | OutOfFuel

primrec go_bind :: "'a go \<Rightarrow> ('a \<Rightarrow> 'b go) \<Rightarrow> 'b go" where
  "go_bind (Ret x) f = f x"
| "go_bind (Panic p) f = Panic p"
| "go_bind OutOfFuel f = OutOfFuel"

primrec go_map :: "('a \<Rightarrow> 'b) \<Rightarrow> 'a go \<Rightarrow> 'b go" where
  "go_map f (Ret x) = Ret (f x)"
| "go_map f (Panic p) = Panic p"
| "go_map f OutOfFuel = OutOfFuel"

named_theorems go_simps \<open>evaluation and inversion of the outcome type\<close>

lemma go_bind_eq_Ret [go_simps]:
  "go_bind m f = Ret y \<longleftrightarrow> (\<exists>x. m = Ret x \<and> f x = Ret y)"
  by (cases m) auto

lemma go_bind_eq_Panic [go_simps]:
  "go_bind m f = Panic p \<longleftrightarrow> m = Panic p \<or> (\<exists>x. m = Ret x \<and> f x = Panic p)"
  by (cases m) auto

lemma go_bind_eq_OutOfFuel [go_simps]:
  "go_bind m f = OutOfFuel \<longleftrightarrow> m = OutOfFuel \<or> (\<exists>x. m = Ret x \<and> f x = OutOfFuel)"
  by (cases m) auto

lemma go_map_eq_Ret [go_simps]: "go_map f m = Ret y \<longleftrightarrow> (\<exists>x. m = Ret x \<and> y = f x)"
  by (cases m) auto

lemma go_map_eq_Panic [go_simps]: "go_map f m = Panic p \<longleftrightarrow> m = Panic p"
  by (cases m) auto

lemma go_bind_assoc: "go_bind (go_bind m f) g = go_bind m (\<lambda>x. go_bind (f x) g)"
  by (cases m) auto

lemma go_bind_Ret_right [simp]: "go_bind m Ret = m"
  by (cases m) auto

text \<open>The bind is congruent in its continuation, so that recursion through it is accepted.\<close>

lemma go_bind_cong [fundef_cong]:
  "m = m' \<Longrightarrow> (\<And>x. m' = Ret x \<Longrightarrow> f x = f' x) \<Longrightarrow> go_bind m f = go_bind m' f'"
  by (cases m') auto

section \<open>Checked slice accesses\<close>

definition index_go :: "'a list \<Rightarrow> nat \<Rightarrow> 'a go" where
  "index_go xs i = (if i < length xs then Ret (xs ! i) else Panic RuntimeError)"

definition store_go :: "'a list \<Rightarrow> nat \<Rightarrow> 'a \<Rightarrow> 'a list go" where
  "store_go xs i v = (if i < length xs then Ret (xs[i := v]) else Panic RuntimeError)"

text \<open>The slice expression \<^verbatim>\<open>xs[lo:hi]\<close> of a slice whose capacity is its length.\<close>

definition slice_go :: "'a list \<Rightarrow> nat \<Rightarrow> nat \<Rightarrow> 'a list go" where
  "slice_go xs lo hi =
     (if lo \<le> hi \<and> hi \<le> length xs then Ret (take (hi - lo) (drop lo xs)) else Panic RuntimeError)"

lemma index_go_Ret [go_simps]: "index_go xs i = Ret v \<longleftrightarrow> i < length xs \<and> v = xs ! i"
  by (auto simp: index_go_def)

lemma store_go_Ret [go_simps]: "store_go xs i v = Ret ys \<longleftrightarrow> i < length xs \<and> ys = xs[i := v]"
  by (auto simp: store_go_def)

lemma slice_go_Ret [go_simps]:
  "slice_go xs lo hi = Ret ys \<longleftrightarrow>
     lo \<le> hi \<and> hi \<le> length xs \<and> ys = take (hi - lo) (drop lo xs)"
  by (auto simp: slice_go_def)

section \<open>Byte strings\<close>

text \<open>The number a byte string spells in big-endian order.\<close>

definition be_nat :: "bytes \<Rightarrow> nat" where
  "be_nat bs = foldl (\<lambda>n b. 256 * n + unat b) 0 bs"

lemma foldl_be_nat:
  "foldl (\<lambda>n (b::u8). 256 * n + unat b) n bs = n * 256 ^ length bs + be_nat bs"
proof (induction bs arbitrary: n)
  case Nil
  then show ?case by (simp add: be_nat_def)
next
  case (Cons b bs)
  have "be_nat (b # bs) = unat b * 256 ^ length bs + be_nat bs"
    using Cons [of "unat b"] by (simp add: be_nat_def)
  with Cons [of "256 * n + unat b"] show ?case by (simp add: algebra_simps)
qed

lemma be_nat_Nil [simp]: "be_nat [] = 0"
  by (simp add: be_nat_def)

lemma be_nat_Cons: "be_nat (b # bs) = unat b * 256 ^ length bs + be_nat bs"
  using foldl_be_nat [of "unat b" bs] by (simp add: be_nat_def)

lemma be_nat_append: "be_nat (xs @ ys) = be_nat xs * 256 ^ length ys + be_nat ys"
  using foldl_be_nat [of "be_nat xs" ys] by (simp add: be_nat_def)

lemma be_nat_snoc: "be_nat (xs @ [b]) = 256 * be_nat xs + unat b"
  by (simp add: be_nat_def)

lemma unat_u8_less [simp]: "unat (b :: u8) < 256"
  using unsigned_less [of b, where 'a = nat] by simp

lemma be_nat_less: "be_nat bs < 256 ^ length bs"
proof (induction bs)
  case Nil
  then show ?case by simp
next
  case (Cons b bs)
  have "unat b * 256 ^ length bs + be_nat bs < (unat b + 1) * 256 ^ length bs"
    using Cons by simp
  also have "\<dots> \<le> 256 * 256 ^ length bs"
    using unat_u8_less [of b] by (intro mult_right_mono) (simp_all add: less_eq_Suc_le)
  finally show ?case by (simp add: be_nat_Cons)
qed

text \<open>The \<open>k\<close> low bytes of a number in big-endian order.\<close>

primrec be_bytes :: "nat \<Rightarrow> nat \<Rightarrow> bytes" where
  "be_bytes 0 n = []"
| "be_bytes (Suc k) n = be_bytes k (n div 256) @ [word_of_nat n]"

lemma length_be_bytes [simp]: "length (be_bytes k n) = k"
  by (induction k arbitrary: n) auto

lemma be_nat_be_bytes: "be_nat (be_bytes k n) = n mod 256 ^ k"
proof (induction k arbitrary: n)
  case 0
  then show ?case by simp
next
  case (Suc k)
  have "n mod (256 * 256 ^ k) = 256 * (n div 256 mod 256 ^ k) + n mod 256"
    by (rule mod_mult2_eq)
  with Suc [of "n div 256"] show ?case
    by (simp add: be_nat_snoc unat_of_nat)
qed

text \<open>\<^verbatim>\<open>common.Hash.Bytes\<close>, \<^verbatim>\<open>common.Address.Bytes\<close> and their inverses \<^verbatim>\<open>BytesToHash\<close>,
  \<^verbatim>\<open>BytesToAddress\<close>, which keep the last 32 (20) bytes of a longer string.\<close>

definition hash_bytes :: "hash \<Rightarrow> bytes" where
  "hash_bytes h = be_bytes 32 (unat h)"

definition address_bytes :: "address \<Rightarrow> bytes" where
  "address_bytes a = be_bytes 20 (unat a)"

definition BytesToHash :: "bytes \<Rightarrow> hash" where
  "BytesToHash b = word_of_nat (be_nat b)"

definition BytesToAddress :: "bytes \<Rightarrow> address" where
  "BytesToAddress b = word_of_nat (be_nat b)"

lemma length_hash_bytes [simp]: "length (hash_bytes h) = 32"
  by (simp add: hash_bytes_def)

lemma length_address_bytes [simp]: "length (address_bytes a) = 20"
  by (simp add: address_bytes_def)

lemma BytesToHash_hash_bytes [simp]: "BytesToHash (hash_bytes h) = h"
  using unsigned_less [of h, where 'a = nat]
  by (simp add: BytesToHash_def hash_bytes_def be_nat_be_bytes)

lemma BytesToAddress_address_bytes [simp]: "BytesToAddress (address_bytes a) = a"
  using unsigned_less [of a, where 'a = nat]
  by (simp add: BytesToAddress_def address_bytes_def be_nat_be_bytes)

lemma hash_bytes_inj: "hash_bytes h = hash_bytes h' \<longleftrightarrow> h = h'"
  by (metis BytesToHash_hash_bytes)

lemma address_bytes_inj: "address_bytes a = address_bytes b \<longleftrightarrow> a = b"
  by (metis BytesToAddress_address_bytes)

end
