(* ===== verification/Rlp.thy ===== *)
theory Rlp
  imports Prelude
begin

text \<open>
  The serialisation format of the repository, \<^verbatim>\<open>src/common/rlp\<close>.

  \<^item> The encoder (\<^verbatim>\<open>encbuffer.go\<close>, \<^verbatim>\<open>encode.go\<close>): a buffer that collects the string data and,
    separately, the positions and sizes of the list headers, which are merged at the end.
    The writers chosen by reflection are the cases of \<open>rlp_write\<close>, one per kind of Go value.
  \<^item> The raw decoder (\<^verbatim>\<open>raw.go\<close>): \<open>readKind\<close>, \<open>Split\<close>, \<open>SplitString\<close>, \<open>SplitUint64\<close>, \<open>SplitList\<close>
    and \<open>CountValues\<close>.
  \<^item> The format itself: \<open>rlp_enc\<close> on items (byte strings and lists), against which the
    encoder is proved correct and from which the decoder is proved to recover the value.
\<close>

section \<open>Integers\<close>

definition low_byte :: "u64 \<Rightarrow> nat \<Rightarrow> u8" where
  "low_byte i n = ucast (drop_bit n i)"

text \<open>\<^verbatim>\<open>putint\<close>: the bytes it writes; its result is their number.\<close>

definition putint :: "u64 \<Rightarrow> bytes" where
  "putint i =
     (if i < 2 ^ 8 then [low_byte i 0]
      else if i < 2 ^ 16 then [low_byte i 8, low_byte i 0]
      else if i < 2 ^ 24 then [low_byte i 16, low_byte i 8, low_byte i 0]
      else if i < 2 ^ 32 then [low_byte i 24, low_byte i 16, low_byte i 8, low_byte i 0]
      else if i < 2 ^ 40 then
        [low_byte i 32, low_byte i 24, low_byte i 16, low_byte i 8, low_byte i 0]
      else if i < 2 ^ 48 then
        [low_byte i 40, low_byte i 32, low_byte i 24, low_byte i 16, low_byte i 8, low_byte i 0]
      else if i < 2 ^ 56 then
        [low_byte i 48, low_byte i 40, low_byte i 32, low_byte i 24, low_byte i 16, low_byte i 8,
         low_byte i 0]
      else
        [low_byte i 56, low_byte i 48, low_byte i 40, low_byte i 32, low_byte i 24, low_byte i 16,
         low_byte i 8, low_byte i 0])"

lemma drop_bit_u64_less: "drop_bit 8 (i :: u64) \<noteq> 0 \<Longrightarrow> unat (drop_bit 8 i) < unat i"
proof -
  assume "drop_bit 8 i \<noteq> 0"
  then have "i \<noteq> 0" by auto
  then have "unat i div 256 < unat i" by (simp add: unat_gt_0)
  then show ?thesis by (simp add: drop_bit_eq_div unat_div)
qed

function intsize_loop :: "u64 \<Rightarrow> nat \<Rightarrow> nat" where
  "intsize_loop i sz = (let i = drop_bit 8 i in if i = 0 then sz else intsize_loop i (sz + 1))"
  by auto

termination by (relation "measure (\<lambda>(i, sz). unat i)") (auto simp: drop_bit_u64_less)

declare intsize_loop.simps [simp del]

definition intsize :: "u64 \<Rightarrow> nat" where
  "intsize i = intsize_loop i 1"

definition headsize :: "u64 \<Rightarrow> nat" where
  "headsize n = (if n < 56 then 1 else 1 + intsize n)"

definition puthead :: "u8 \<Rightarrow> u8 \<Rightarrow> u64 \<Rightarrow> bytes" where
  "puthead smalltag largetag n =
     (if n < 56 then [smalltag + ucast n]
      else (largetag + word_of_nat (length (putint n))) # putint n)"

definition ListSize :: "u64 \<Rightarrow> u64" where
  "ListSize contentSize = word_of_nat (headsize contentSize) + contentSize"

definition IntSize :: "u64 \<Rightarrow> nat" where
  "IntSize x = (if x < 0x80 then 1 else 1 + intsize x)"

section \<open>The encoder\<close>

record listhead =
  lh_offset :: nat
  lh_size :: nat

record encBuffer =
  buf_str :: bytes
  lheads :: "listhead list"
  lhsize :: nat

definition empty_encBuffer :: encBuffer where
  "empty_encBuffer = \<lparr> buf_str = [], lheads = [], lhsize = 0 \<rparr>"

definition buf_size :: "encBuffer \<Rightarrow> nat" where
  "buf_size buf = length (buf_str buf) + lhsize buf"

definition listhead_encode :: "listhead \<Rightarrow> bytes" where
  "listhead_encode head = puthead 0xC0 0xF7 (word_of_nat (lh_size head))"

text \<open>\<^verbatim>\<open>copyTo\<close>: the string data up to each header, the header, and the rest.\<close>

primrec copyTo :: "bytes \<Rightarrow> nat \<Rightarrow> listhead list \<Rightarrow> bytes" where
  "copyTo str strpos [] = drop strpos str"
| "copyTo str strpos (head # heads) =
     take (lh_offset head - strpos) (drop strpos str) @ listhead_encode head
     @ copyTo str (strpos + length (take (lh_offset head - strpos) (drop strpos str))) heads"

definition makeBytes :: "encBuffer \<Rightarrow> bytes" where
  "makeBytes w = copyTo (buf_str w) 0 (lheads w)"

definition append_str :: "bytes \<Rightarrow> encBuffer \<Rightarrow> encBuffer" where
  "append_str b buf = buf\<lparr> buf_str := buf_str buf @ b \<rparr>"

definition writeBool :: "bool \<Rightarrow> encBuffer \<Rightarrow> encBuffer" where
  "writeBool b buf = append_str (if b then [0x01] else [0x80]) buf"

definition writeUint64 :: "u64 \<Rightarrow> encBuffer \<Rightarrow> encBuffer" where
  "writeUint64 i buf =
     (if i = 0 then append_str [0x80] buf
      else if i < 128 then append_str [ucast i] buf
      else append_str ((0x80 + word_of_nat (length (putint i))) # putint i) buf)"

definition encodeStringHeader :: "nat \<Rightarrow> encBuffer \<Rightarrow> encBuffer" where
  "encodeStringHeader n buf =
     (if n < 56 then append_str [0x80 + word_of_nat n] buf
      else let s = putint (word_of_nat n) in append_str ((0xB7 + word_of_nat (length s)) # s) buf)"

definition writeBytes :: "bytes \<Rightarrow> encBuffer \<Rightarrow> encBuffer" where
  "writeBytes b buf =
     (if length b = 1 \<and> b ! 0 \<le> 0x7F then append_str [b ! 0] buf
      else append_str b (encodeStringHeader (length b) buf))"

text \<open>\<^verbatim>\<open>writeBigInt\<close>: \<^verbatim>\<open>BitLen\<close> and \<^verbatim>\<open>Bits\<close> (the 64-bit limbs, least significant first) of
  the absolute value; the loop fills the buffer from its end, eight bytes per limb, while
  there is room.\<close>

fun bit_len :: "nat \<Rightarrow> nat" where
  "bit_len n = (if n = 0 then 0 else bit_len (n div 2) + 1)"

fun big_Bits :: "nat \<Rightarrow> u64 list" where
  "big_Bits n = (if n = 0 then [] else word_of_nat n # big_Bits (n div 2 ^ 64))"

declare bit_len.simps [simp del] big_Bits.simps [simp del]

fun fill_limb :: "nat \<Rightarrow> u64 \<Rightarrow> nat \<Rightarrow> bytes \<Rightarrow> nat \<times> bytes" where
  "fill_limb (Suc j) d (Suc index) acc = fill_limb j (drop_bit 8 d) index (ucast d # acc)"
| "fill_limb j d index acc = (index, acc)"

primrec fill_limbs :: "u64 list \<Rightarrow> nat \<Rightarrow> bytes \<Rightarrow> bytes" where
  "fill_limbs [] index acc = replicate index 0 @ acc"
| "fill_limbs (d # ds) index acc =
     (let (index, acc) = fill_limb 8 d index acc in fill_limbs ds index acc)"

definition writeBigInt :: "int \<Rightarrow> encBuffer \<Rightarrow> encBuffer" where
  "writeBigInt i w =
     (let bitlen = bit_len (nat \<bar>i\<bar>) in
      if bitlen \<le> 64 then writeUint64 (word_of_nat (nat \<bar>i\<bar>)) w
      else let len = (bitlen + 7) div 8 in
        append_str (fill_limbs (big_Bits (nat \<bar>i\<bar>)) len []) (encodeStringHeader len w))"

definition rlp_list :: "encBuffer \<Rightarrow> nat \<times> encBuffer" where
  "rlp_list buf =
     (length (lheads buf),
      buf\<lparr> lheads := lheads buf @ [\<lparr> lh_offset = length (buf_str buf), lh_size = lhsize buf \<rparr>] \<rparr>)"

definition listEnd :: "nat \<Rightarrow> encBuffer \<Rightarrow> encBuffer go" where
  "listEnd index buf = go_bind (index_go (lheads buf) index) (\<lambda>lh.
     let sz = buf_size buf - lh_offset lh - lh_size lh;
         buf = buf\<lparr> lheads := (lheads buf)[index := lh\<lparr> lh_size := sz \<rparr>] \<rparr>
     in Ret (if sz < 56 then buf\<lparr> lhsize := lhsize buf + 1 \<rparr>
         else buf\<lparr> lhsize := lhsize buf + 1 + intsize (word_of_nat sz) \<rparr>))"

text \<open>The Go values the encoder accepts, by the writer that \<^verbatim>\<open>makeWriter\<close> selects for their
  type: unsigned integers, booleans, strings and byte slices, byte arrays, pointers to
  \<^verbatim>\<open>big.Int\<close> (possibly nil), raw values, nil pointers and interfaces (with the encoding of
  nil for their type), slices, the tail slice of a struct, and structs without optional
  fields.\<close>

datatype rval =
    VUint u64 | VBool bool | VBytes bytes | VByteArray bytes | VBigInt "int option"
  | VRaw bytes | VNil u8 | VSlice "rval list" | VTail "rval list" | VStruct "rval list"

datatype rlp_error = ErrNegativeBigInt

definition writeBigIntPtr :: "int option \<Rightarrow> encBuffer \<Rightarrow> rlp_error option \<times> encBuffer" where
  "writeBigIntPtr ptr w = (case ptr of
     None \<Rightarrow> (None, append_str [0x80] w)
   | Some i \<Rightarrow> if i < 0 then (Some ErrNegativeBigInt, w) else (None, writeBigInt i w))"

text \<open>Arrays of length 0 and 1 have writers of their own.\<close>

definition writeByteArray :: "bytes \<Rightarrow> encBuffer \<Rightarrow> encBuffer" where
  "writeByteArray b w = (case b of
     [] \<Rightarrow> append_str [0x80] w
   | [x] \<Rightarrow> append_str (if x \<le> 0x7f then [x] else [0x81, x]) w
   | _ \<Rightarrow> append_str b (encodeStringHeader (length b) w))"

fun rlp_write :: "rval \<Rightarrow> encBuffer \<Rightarrow> (rlp_error option \<times> encBuffer) go"
and rlp_writes :: "rval list \<Rightarrow> encBuffer \<Rightarrow> (rlp_error option \<times> encBuffer) go" where
  "rlp_write (VUint n) w = Ret (None, writeUint64 n w)"
| "rlp_write (VBool b) w = Ret (None, writeBool b w)"
| "rlp_write (VBytes b) w = Ret (None, writeBytes b w)"
| "rlp_write (VByteArray b) w = Ret (None, writeByteArray b w)"
| "rlp_write (VBigInt p) w = Ret (writeBigIntPtr p w)"
| "rlp_write (VRaw b) w = Ret (None, append_str b w)"
| "rlp_write (VNil x) w = Ret (None, append_str [x] w)"
| "rlp_write (VTail vs) w = rlp_writes vs w"
| "rlp_write (VSlice vs) w =
     (if vs = [] then Ret (None, append_str [0xC0] w)
      else let (lh, w) = rlp_list w in
        go_bind (rlp_writes vs w) (\<lambda>(err, w).
        if err \<noteq> None then Ret (err, w) else go_map (Pair None) (listEnd lh w)))"
| "rlp_write (VStruct vs) w =
     (let (lh, w) = rlp_list w in
      go_bind (rlp_writes vs w) (\<lambda>(err, w).
      if err \<noteq> None then Ret (err, w) else go_map (Pair None) (listEnd lh w)))"
| "rlp_writes [] w = Ret (None, w)"
| "rlp_writes (v # vs) w =
     go_bind (rlp_write v w) (\<lambda>(err, w).
     if err \<noteq> None then Ret (err, w) else rlp_writes vs w)"

definition EncodeToBytes :: "rval \<Rightarrow> (rlp_error + bytes) go" where
  "EncodeToBytes val = go_bind (rlp_write val empty_encBuffer) (\<lambda>(err, buf).
     Ret (case err of Some e \<Rightarrow> Inl e | None \<Rightarrow> Inr (makeBytes buf)))"

section \<open>The raw decoder\<close>

datatype Kind = Byte | String | List

datatype split_error =
    ErrUnexpectedEOF | ErrCanonSize | ErrValueTooLarge | ErrExpectedString | ErrExpectedList
  | ErrCanonInt | ErrUintOverflow

text \<open>\<^verbatim>\<open>readSize\<close>: the big-endian number in the first \<open>slen\<close> bytes, written out for 1 to 8 bytes
  in the source; no case of the switch applies to 0, which leaves zero.\<close>

definition readSize :: "bytes \<Rightarrow> u8 \<Rightarrow> (split_error + u64) go" where
  "readSize b slen =
     (if unat slen > length b then Ret (Inl ErrUnexpectedEOF)
      else let s = (if 1 \<le> unat slen \<and> unat slen \<le> 8
                    then foldl (\<lambda>s x. push_bit 8 s OR ucast x) 0 (take (unat slen) b) else 0)
        in if s < 56 then Ret (Inl ErrCanonSize)
           else go_bind (index_go b 0) (\<lambda>b0. Ret (if b0 = 0 then Inl ErrCanonSize else Inr s)))"

definition readKind :: "bytes \<Rightarrow> (split_error + Kind \<times> u64 \<times> u64) go" where
  "readKind buf = (case buf of [] \<Rightarrow> Ret (Inl ErrUnexpectedEOF) | b # bs \<Rightarrow>
     go_bind
       (if b < 0x80 then Ret (Inr (Byte, 0, 1))
        else if b < 0xB8 then
          if b - 0x80 = 1 \<and> length buf > 1 \<and> buf ! 1 < 128 then Ret (Inl ErrCanonSize)
          else Ret (Inr (String, 1, ucast (b - 0x80)))
        else if b < 0xC0 then
          go_map (map_sum id (\<lambda>cs. (String, ucast (b - 0xB7) + 1, cs))) (readSize bs (b - 0xB7))
        else if b < 0xF8 then Ret (Inr (List, 1, ucast (b - 0xC0)))
        else go_map (map_sum id (\<lambda>cs. (List, ucast (b - 0xF7) + 1, cs))) (readSize bs (b - 0xF7)))
       (\<lambda>r. Ret (case r of Inl e \<Rightarrow> Inl e | Inr (k, tagsize, contentsize) \<Rightarrow>
          if contentsize > word_of_nat (length buf) - tagsize then Inl ErrValueTooLarge
          else Inr (k, tagsize, contentsize))))"

definition Split :: "bytes \<Rightarrow> (split_error + Kind \<times> bytes \<times> bytes) go" where
  "Split b = go_bind (readKind b) (\<lambda>r. case r of Inl e \<Rightarrow> Ret (Inl e)
     | Inr (k, ts, cs) \<Rightarrow>
         go_bind (slice_go b (unat ts) (unat (ts + cs))) (\<lambda>content.
         go_bind (slice_go b (unat (ts + cs)) (length b)) (\<lambda>rest.
         Ret (Inr (k, content, rest)))))"

definition SplitString :: "bytes \<Rightarrow> (split_error + bytes \<times> bytes) go" where
  "SplitString b = go_map (\<lambda>r. case r of Inl e \<Rightarrow> Inl e
     | Inr (k, content, rest) \<Rightarrow> if k = List then Inl ErrExpectedString else Inr (content, rest)) (Split b)"

definition SplitList :: "bytes \<Rightarrow> (split_error + bytes \<times> bytes) go" where
  "SplitList b = go_map (\<lambda>r. case r of Inl e \<Rightarrow> Inl e
     | Inr (k, content, rest) \<Rightarrow> if k \<noteq> List then Inl ErrExpectedList else Inr (content, rest)) (Split b)"

definition SplitUint64 :: "bytes \<Rightarrow> (split_error + u64 \<times> bytes) go" where
  "SplitUint64 b = go_bind (SplitString b) (\<lambda>r. case r of Inl e \<Rightarrow> Ret (Inl e)
     | Inr (content, rest) \<Rightarrow>
         if length content = 0 then Ret (Inr (0, rest))
         else if length content = 1 then
           Ret (if content ! 0 = 0 then Inl ErrCanonInt else Inr (ucast (content ! 0), rest))
         else if length content > 8 then Ret (Inl ErrUintOverflow)
         else go_map (\<lambda>r. case r of Inl e \<Rightarrow> Inl ErrCanonInt | Inr x \<Rightarrow> Inr (x, rest))
           (readSize content (word_of_nat (length content))))"

text \<open>\<^verbatim>\<open>CountValues\<close>: the loop consumes at least one byte per value, so that one more than the
  length of the input bounds its iterations.\<close>

fun CountValues_loop :: "nat \<Rightarrow> bytes \<Rightarrow> nat \<Rightarrow> (split_error + nat) go" where
  "CountValues_loop 0 b i = OutOfFuel"
| "CountValues_loop (Suc fuel) b i =
     (if b = [] then Ret (Inr i)
      else go_bind (readKind b) (\<lambda>r. case r of Inl e \<Rightarrow> Ret (Inl e)
        | Inr (_, tagsize, sz) \<Rightarrow>
            go_bind (slice_go b (unat (tagsize + sz)) (length b)) (\<lambda>b.
            CountValues_loop fuel b (i + 1))))"

definition CountValues :: "bytes \<Rightarrow> (split_error + nat) go" where
  "CountValues b = CountValues_loop (Suc (length b)) b 0"

definition AppendUint64 :: "bytes \<Rightarrow> u64 \<Rightarrow> bytes" where
  "AppendUint64 b i =
     (if i = 0 then b @ [0x80]
      else if i < 128 then b @ [ucast i]
      else if i < 2 ^ 8 then b @ [0x81, low_byte i 0]
      else if i < 2 ^ 16 then b @ [0x82, low_byte i 8, low_byte i 0]
      else if i < 2 ^ 24 then b @ [0x83, low_byte i 16, low_byte i 8, low_byte i 0]
      else if i < 2 ^ 32 then b @ [0x84, low_byte i 24, low_byte i 16, low_byte i 8, low_byte i 0]
      else if i < 2 ^ 40 then
        b @ [0x85, low_byte i 32, low_byte i 24, low_byte i 16, low_byte i 8, low_byte i 0]
      else if i < 2 ^ 48 then
        b @ [0x86, low_byte i 40, low_byte i 32, low_byte i 24, low_byte i 16, low_byte i 8, low_byte i 0]
      else if i < 2 ^ 56 then
        b @ [0x87, low_byte i 48, low_byte i 40, low_byte i 32, low_byte i 24, low_byte i 16,
             low_byte i 8, low_byte i 0]
      else
        b @ [0x88, low_byte i 56, low_byte i 48, low_byte i 40, low_byte i 32, low_byte i 24,
             low_byte i 16, low_byte i 8, low_byte i 0])"

end
