(* ===== verification/Rlp_Correct.thy ===== *)
theory Rlp_Correct
  imports Rlp
begin

text \<open>
  Correctness of the serialisation: the encoder writes the format, whatever the nesting of
  lists and however the buffer splits data and headers; the decoder returns the value that
  was encoded, rejects every other spelling of a length, and never panics.
\<close>

section \<open>The format\<close>

text \<open>The least number of bytes (at least one) that hold a number.\<close>

fun byte_len :: "nat \<Rightarrow> nat" where
  "byte_len n = (if n < 256 then 1 else 1 + byte_len (n div 256))"

declare byte_len.simps [simp del]

definition rlp_head :: "nat \<Rightarrow> nat \<Rightarrow> nat \<Rightarrow> bytes" where
  "rlp_head small large n =
     (if n < 56 then [word_of_nat (small + n)]
      else word_of_nat (large + byte_len n) # be_bytes (byte_len n) n)"

definition rlp_string :: "bytes \<Rightarrow> bytes" where
  "rlp_string b = (if length b = 1 \<and> b ! 0 < 0x80 then b else rlp_head 0x80 0xB7 (length b) @ b)"

definition rlp_seq :: "bytes \<Rightarrow> bytes" where
  "rlp_seq payload = rlp_head 0xC0 0xF7 (length payload) @ payload"

text \<open>An integer is the string of its bytes without leading zeros.\<close>

definition nat_bytes :: "nat \<Rightarrow> bytes" where
  "nat_bytes n = (if n = 0 then [] else be_bytes (byte_len n) n)"

section \<open>Lengths of numbers\<close>

lemma byte_len_small: "n < 256 \<Longrightarrow> byte_len n = 1"
  by (simp add: byte_len.simps [of n])

lemma byte_len_step: "256 \<le> n \<Longrightarrow> byte_len n = Suc (byte_len (n div 256))"
  by (simp add: byte_len.simps [of n])

lemma byte_len_pos [simp]: "0 < byte_len n"
  by (simp add: byte_len.simps [of n])

lemma byte_len_bound: "n < 256 ^ byte_len n"
proof (induction n rule: byte_len.induct)
  case (1 n)
  show ?case
  proof (cases "n < 256")
    case False
    with 1 have "n div 256 < 256 ^ byte_len (n div 256)" by simp
    then have "n < 256 * 256 ^ byte_len (n div 256)"
      by (simp add: div_less_iff_less_mult mult.commute)
    with False show ?thesis by (simp add: byte_len_step)
  qed (simp add: byte_len_small)
qed

lemma byte_len_le: "n < 256 ^ Suc k \<Longrightarrow> byte_len n \<le> Suc k"
proof (induction k arbitrary: n)
  case 0
  then show ?case by (simp add: byte_len_small)
next
  case (Suc k)
  show ?case
  proof (cases "n < 256")
    case False
    from Suc.prems have "n div 256 < 256 ^ Suc k" by (simp add: div_less_iff_less_mult mult.commute)
    with Suc.IH [of "n div 256"] False show ?thesis by (simp add: byte_len_step)
  qed (simp add: byte_len_small)
qed

lemma byte_len_ge: "256 ^ k \<le> n \<Longrightarrow> Suc k \<le> byte_len n"
proof (induction k arbitrary: n)
  case 0
  then show ?case by (simp add: Suc_leI)
next
  case (Suc k)
  then have "256 \<le> n" by (rule_tac order_trans [of _ "256 ^ Suc k"]) simp_all
  moreover from Suc.prems have "256 ^ k \<le> n div 256"
    by (simp add: less_eq_div_iff_mult_less_eq mult.commute)
  ultimately show ?case using Suc.IH [of "n div 256"] by (simp add: byte_len_step)
qed

lemma byte_len_eq: "256 ^ k \<le> n \<Longrightarrow> n < 256 ^ Suc k \<Longrightarrow> byte_len n = Suc k"
  using byte_len_le byte_len_ge by (simp add: antisym)

lemma be_bytes_head:
  assumes "0 < n"
  shows "hd (be_bytes (byte_len n) n) \<noteq> 0"
  using assms
proof (induction n rule: byte_len.induct)
  case (1 n)
  show ?case
  proof (cases "n < 256")
    case True
    then have "unat (word_of_nat n :: u8) = n" by (simp add: unat_of_nat)
    with 1(2) have "(word_of_nat n :: u8) \<noteq> 0" by (metis unsigned_0 less_irrefl)
    with True show ?thesis by (simp add: byte_len_small)
  next
    case False
    then have "0 < n div 256" by (simp add: div_greater_zero_iff)
    with 1(1) [OF False] have "hd (be_bytes (byte_len (n div 256)) (n div 256)) \<noteq> 0" by simp
    moreover have "be_bytes (byte_len (n div 256)) (n div 256) \<noteq> []"
      using byte_len_pos by (metis length_be_bytes length_greater_0_conv)
    ultimately show ?thesis using False by (simp add: byte_len_step)
  qed
qed

section \<open>The integer writers\<close>

lemma unat_drop_bit_u64: "unat (drop_bit n (i :: u64)) = unat i div 2 ^ n"
  unfolding unsigned_drop_bit_eq using unsigned_less [of i, where 'a = nat]
  by (simp add: drop_bit_eq_div take_bit_nat_eq_self)

lemma low_byte_nat: "low_byte i n = word_of_nat (unat i div 2 ^ n)"
  unfolding low_byte_def unat_drop_bit_u64 [symmetric] by simp

lemma intsize_loop_correct: "intsize_loop i sz = sz + byte_len (unat i) - 1"
proof (induction i sz rule: intsize_loop.induct)
  case (1 i sz)
  have d: "unat (drop_bit 8 i) = unat i div 256" using unat_drop_bit_u64 [of 8 i] by simp
  have z: "drop_bit 8 i = 0 \<longleftrightarrow> unat i < 256" using d by (metis div_eq_0_iff unat_eq_zero zero_neq_numeral)
  show ?case
  proof (cases "drop_bit 8 i = 0")
    case True
    with z show ?thesis by (simp add: intsize_loop.simps [of i] byte_len_small)
  next
    case False
    with 1 z d show ?thesis by (simp add: intsize_loop.simps [of i] byte_len_step)
  qed
qed

lemma intsize_correct: "intsize i = byte_len (unat i)"
  by (simp add: intsize_def intsize_loop_correct)

lemma unat_u64_bound: "unat (i :: u64) < 256 ^ 8"
  using unsigned_less [of i, where 'a = nat] by simp

lemma byte_len_u64: "byte_len (unat (i :: u64)) \<le> 8"
  using byte_len_le [of "unat i" 7] unat_u64_bound [of i] by simp

lemma be_bytes_numeral_step:
  "be_bytes (numeral k) n = be_bytes (pred_numeral k) (n div 256) @ [word_of_nat n]"
  by (simp only: numeral_eq_Suc [of k] be_bytes.simps)

lemma be_bytes_numeral:
  "be_bytes 1 n = [word_of_nat n]"
  "be_bytes 2 n = [word_of_nat (n div 2 ^ 8), word_of_nat n]"
  "be_bytes 3 n = [word_of_nat (n div 2 ^ 16), word_of_nat (n div 2 ^ 8), word_of_nat n]"
  "be_bytes 4 n = [word_of_nat (n div 2 ^ 24), word_of_nat (n div 2 ^ 16), word_of_nat (n div 2 ^ 8),
     word_of_nat n]"
  "be_bytes 5 n = [word_of_nat (n div 2 ^ 32), word_of_nat (n div 2 ^ 24), word_of_nat (n div 2 ^ 16),
     word_of_nat (n div 2 ^ 8), word_of_nat n]"
  "be_bytes 6 n = [word_of_nat (n div 2 ^ 40), word_of_nat (n div 2 ^ 32), word_of_nat (n div 2 ^ 24),
     word_of_nat (n div 2 ^ 16), word_of_nat (n div 2 ^ 8), word_of_nat n]"
  "be_bytes 7 n = [word_of_nat (n div 2 ^ 48), word_of_nat (n div 2 ^ 40), word_of_nat (n div 2 ^ 32),
     word_of_nat (n div 2 ^ 24), word_of_nat (n div 2 ^ 16), word_of_nat (n div 2 ^ 8), word_of_nat n]"
  "be_bytes 8 n = [word_of_nat (n div 2 ^ 56), word_of_nat (n div 2 ^ 48), word_of_nat (n div 2 ^ 40),
     word_of_nat (n div 2 ^ 32), word_of_nat (n div 2 ^ 24), word_of_nat (n div 2 ^ 16),
     word_of_nat (n div 2 ^ 8), word_of_nat n]"
  by (simp_all add: be_bytes_numeral_step flip: div_mult2_eq)

lemma putint_correct: "putint i = be_bytes (byte_len (unat i)) (unat i)"
proof -
  have len: "byte_len (unat i) = k" if "256 ^ (k - 1) \<le> unat i" "unat i < 256 ^ k" "0 < k" for k
    using byte_len_eq [of "k - 1" "unat i"] that by simp
  have p: "i < 2 ^ 8 \<longleftrightarrow> unat i < 256" "i < 2 ^ 16 \<longleftrightarrow> unat i < 256 ^ 2"
    "i < 2 ^ 24 \<longleftrightarrow> unat i < 256 ^ 3" "i < 2 ^ 32 \<longleftrightarrow> unat i < 256 ^ 4"
    "i < 2 ^ 40 \<longleftrightarrow> unat i < 256 ^ 5" "i < 2 ^ 48 \<longleftrightarrow> unat i < 256 ^ 6"
    "i < 2 ^ 56 \<longleftrightarrow> unat i < 256 ^ 7"
    by (simp_all add: word_less_nat_alt)
  consider "unat i < 256" | "256 \<le> unat i" "unat i < 256 ^ 2" | "256 ^ 2 \<le> unat i" "unat i < 256 ^ 3"
    | "256 ^ 3 \<le> unat i" "unat i < 256 ^ 4" | "256 ^ 4 \<le> unat i" "unat i < 256 ^ 5"
    | "256 ^ 5 \<le> unat i" "unat i < 256 ^ 6" | "256 ^ 6 \<le> unat i" "unat i < 256 ^ 7"
    | "256 ^ 7 \<le> unat i" by linarith
  then show ?thesis
  proof cases
    case 1
    then show ?thesis unfolding putint_def p
      using be_bytes_numeral(1) [of "unat i"] by (simp add: low_byte_nat byte_len_small)
  next
    case 2
    then have "byte_len (unat i) = 2" using unat_u64_bound [of i] by (intro len) simp_all
    with 2 show ?thesis unfolding putint_def p by (simp add: low_byte_nat be_bytes_numeral)
  next
    case 3
    then have "byte_len (unat i) = 3" using unat_u64_bound [of i] by (intro len) simp_all
    with 3 show ?thesis unfolding putint_def p by (simp add: low_byte_nat be_bytes_numeral)
  next
    case 4
    then have "byte_len (unat i) = 4" using unat_u64_bound [of i] by (intro len) simp_all
    with 4 show ?thesis unfolding putint_def p by (simp add: low_byte_nat be_bytes_numeral)
  next
    case 5
    then have "byte_len (unat i) = 5" using unat_u64_bound [of i] by (intro len) simp_all
    with 5 show ?thesis unfolding putint_def p by (simp add: low_byte_nat be_bytes_numeral)
  next
    case 6
    then have "byte_len (unat i) = 6" using unat_u64_bound [of i] by (intro len) simp_all
    with 6 show ?thesis unfolding putint_def p by (simp add: low_byte_nat be_bytes_numeral)
  next
    case 7
    then have "byte_len (unat i) = 7" using unat_u64_bound [of i] by (intro len) simp_all
    with 7 show ?thesis unfolding putint_def p by (simp add: low_byte_nat be_bytes_numeral)
  next
    case 8
    then have "byte_len (unat i) = 8" using unat_u64_bound [of i] by (intro len) simp_all
    with 8 show ?thesis unfolding putint_def p by (simp add: low_byte_nat be_bytes_numeral)
  qed
qed

lemma length_putint: "length (putint i) = byte_len (unat i)"
  by (simp add: putint_correct)

lemma length_rlp_head: "length (rlp_head a b n) = (if n < 56 then 1 else 1 + byte_len n)"
  by (simp add: rlp_head_def)

lemma unat_u64_nat: "n < 2 ^ 64 \<Longrightarrow> unat (word_of_nat n :: u64) = n"
  by (simp add: unat_of_nat)

lemma puthead_correct:
  "n < 2 ^ 64 \<Longrightarrow> puthead (word_of_nat a) (word_of_nat b) (word_of_nat n) = rlp_head a b n"
  by (simp add: puthead_def rlp_head_def putint_correct unat_u64_nat word_less_nat_alt
      unsigned_of_nat take_bit_nat_eq_self)

lemma encodeStringHeader_correct:
  "n < 2 ^ 64 \<Longrightarrow> encodeStringHeader n buf = append_str (rlp_head 0x80 0xB7 n) buf"
  by (simp add: encodeStringHeader_def rlp_head_def putint_correct unat_u64_nat Let_def)

lemma append_str_append [simp]: "append_str b (append_str a buf) = append_str (a @ b) buf"
  by (simp add: append_str_def)

lemma writeBytes_correct:
  "length b < 2 ^ 64 \<Longrightarrow> writeBytes b buf = append_str (rlp_string b) buf"
  by (auto simp: writeBytes_def rlp_string_def encodeStringHeader_correct word_less_nat_alt
      word_le_nat_alt length_Suc_conv)

lemma writeByteArray_correct:
  "length b < 2 ^ 64 \<Longrightarrow> writeByteArray b buf = append_str (rlp_string b) buf"
  by (auto simp: writeByteArray_def rlp_string_def encodeStringHeader_correct word_less_nat_alt
      word_le_nat_alt rlp_head_def split: list.splits)

lemma nat_bytes_Nil [simp]: "nat_bytes n = [] \<longleftrightarrow> n = 0"
  by (metis nat_bytes_def byte_len_pos length_be_bytes less_irrefl list.size(3))

lemma length_nat_bytes: "0 < n \<Longrightarrow> length (nat_bytes n) = byte_len n"
  by (simp add: nat_bytes_def)

lemma writeUint64_correct: "writeUint64 i buf = append_str (rlp_string (nat_bytes (unat i))) buf"
proof -
  consider "i = 0" | "i \<noteq> 0" "unat i < 128" | "128 \<le> unat i" by linarith
  then show ?thesis
  proof cases
    case 1
    then show ?thesis by (simp add: writeUint64_def rlp_string_def rlp_head_def nat_bytes_def)
  next
    case 2
    then have "nat_bytes (unat i) = [ucast i]"
      by (simp add: nat_bytes_def byte_len_small unat_eq_zero)
    with 2 show ?thesis
      by (simp add: writeUint64_def rlp_string_def word_less_nat_alt unsigned_ucast_eq
          take_bit_nat_eq_self)
  next
    case 3
    then have i: "nat_bytes (unat i) = putint i" "i \<noteq> 0" "\<not> i < 128"
      by (auto simp: nat_bytes_def putint_correct word_less_nat_alt)
    have "\<not> (length (putint i) = 1 \<and> putint i ! 0 < 0x80)"
    proof
      assume a: "length (putint i) = 1 \<and> putint i ! 0 < 0x80"
      then have "byte_len (unat i) = 1" by (simp add: length_putint)
      with byte_len_bound [of "unat i"] have "unat i < 256" by simp
      moreover from this have "putint i = [word_of_nat (unat i)]"
        using putint_correct [of i] byte_len_small be_bytes_numeral(1) by simp
      ultimately show False
        using a 3 by (simp add: word_less_nat_alt unsigned_ucast_eq take_bit_nat_eq_self)
    qed
    moreover have "length (putint i) < 56" using byte_len_u64 [of i] by (simp add: length_putint)
    ultimately show ?thesis using i by (auto simp: writeUint64_def rlp_string_def rlp_head_def)
  qed
qed

section \<open>Big integers\<close>

lemma be_bytes_0 [simp]: "be_bytes k 0 = replicate k 0"
  by (induction k) (simp_all add: replicate_append_same)

lemma be_bytes_add: "be_bytes (a + b) n = be_bytes a (n div 256 ^ b) @ be_bytes b n"
  by (induction b arbitrary: n) (simp_all add: div_mult2_eq)

lemma be_bytes_mod: "b \<le> c \<Longrightarrow> be_bytes b (n mod 256 ^ c) = be_bytes b n"
proof (induction b arbitrary: c n)
  case (Suc b)
  then obtain c' where c: "c = Suc c'" "b \<le> c'" by (cases c) auto
  have "n mod 256 ^ c div 256 = n div 256 mod 256 ^ c'"
    by (simp add: c mod_mult2_eq)
  moreover have "(word_of_nat (n mod 256 ^ c) :: u8) = word_of_nat n"
    by (rule word_of_nat_eq_iff [THEN iffD2]) (simp add: c take_bit_eq_mod mod_mod_cancel)
  ultimately show ?case using Suc.IH [OF c(2), of "n div 256"] by simp
qed simp

lemma fill_limb_correct:
  "fill_limb j d index acc =
     (index - min j index, be_bytes (min j index) (unat d) @ acc)"
proof (induction j d index acc rule: fill_limb.induct)
  case (1 j d index acc)
  then show ?case by (simp add: unat_drop_bit_u64 [of 8, simplified])
qed auto

lemma fill_limbs_correct: "fill_limbs (big_Bits n) index acc = be_bytes index n @ acc"
proof (induction n arbitrary: index acc rule: big_Bits.induct)
  case (1 n)
  show ?case
  proof (cases "n = 0")
    case True
    then show ?thesis by (simp add: big_Bits.simps)
  next
    case False
    let ?b = "min 8 index"
    have "be_bytes index n = be_bytes (index - ?b) (n div 256 ^ ?b) @ be_bytes ?b n"
      using be_bytes_add [of "index - ?b" ?b n] by simp
    moreover have "be_bytes (index - ?b) (n div 256 ^ ?b) = be_bytes (index - ?b) (n div 2 ^ 64)"
      by (cases "index \<le> 8") (simp_all add: min_def)
    moreover have "be_bytes ?b (unat (word_of_nat n :: u64)) = be_bytes ?b n"
      using be_bytes_mod [of ?b 8 n] by (simp add: unat_of_nat)
    ultimately show ?thesis
      using 1 [OF False] False by (simp add: big_Bits.simps [of n] fill_limb_correct)
  qed
qed

lemma bit_len_bounds: "0 < n \<Longrightarrow> 2 ^ (bit_len n - 1) \<le> n \<and> n < 2 ^ bit_len n \<and> 0 < bit_len n"
proof (induction n rule: bit_len.induct)
  case (1 n)
  show ?case
  proof (cases "n = 1")
    case True
    then show ?thesis by (simp add: bit_len.simps)
  next
    case False
    with 1(2) have n: "0 < n div 2" "n \<noteq> 0" by (auto simp: div_greater_zero_iff)
    with 1(1) have "2 ^ (bit_len (n div 2) - 1) \<le> n div 2" "n div 2 < 2 ^ bit_len (n div 2)"
      "0 < bit_len (n div 2)" by auto
    moreover have "bit_len n = Suc (bit_len (n div 2))" using n by (simp add: bit_len.simps [of n])
    ultimately show ?thesis
      by (cases "bit_len (n div 2)") auto
  qed
qed

lemma byte_len_bit_len: "0 < n \<Longrightarrow> (bit_len n + 7) div 8 = byte_len n"
proof -
  assume n: "0 < n"
  define k where "k = (bit_len n - 1) div 8"
  have b: "0 < bit_len n" "2 ^ (bit_len n - 1) \<le> n" "n < 2 ^ bit_len n"
    using bit_len_bounds [OF n] by auto
  have "8 * k \<le> bit_len n - 1" "bit_len n \<le> 8 * Suc k" using b(1) by (auto simp: k_def)
  then have "(2::nat) ^ (8 * k) \<le> 2 ^ (bit_len n - 1)" "(2::nat) ^ bit_len n \<le> 2 ^ (8 * Suc k)"
    by (simp_all only: power_increasing_iff one_less_numeral_iff semiring_norm power_increasing one_le_numeral)
  then have "2 ^ (8 * k) \<le> n" "n < 2 ^ (8 * Suc k)" using b by linarith+
  then have "256 ^ k \<le> n" "n < 256 ^ Suc k" by (simp_all add: power_mult power_add)
  then have "byte_len n = Suc k" by (rule byte_len_eq)
  moreover have "(bit_len n + 7) div 8 = Suc k" using b(1) by (simp add: k_def)
  ultimately show ?thesis by simp
qed

lemma writeBigInt_nat:
  assumes "byte_len n < 2 ^ 64"
  shows "writeBigInt (int n) w = append_str (rlp_string (nat_bytes n)) w"
proof (cases "bit_len n \<le> 64")
  case True
  have "n < 2 ^ 64"
  proof (cases "n = 0")
    case False
    then have "n < 2 ^ bit_len n" using bit_len_bounds by blast
    also have "(2::nat) ^ bit_len n \<le> 2 ^ 64" using True by (intro power_increasing) simp_all
    finally show ?thesis .
  qed simp
  with True show ?thesis by (simp add: writeBigInt_def writeUint64_correct unat_u64_nat)
next
  case False
  then have n: "0 < n" by (cases "n = 0") (auto simp: bit_len.simps)
  then have "8 < byte_len n" using False byte_len_bit_len [OF n] by linarith
  with False assms n byte_len_bit_len [OF n] show ?thesis
    by (auto simp: writeBigInt_def Let_def fill_limbs_correct encodeStringHeader_correct rlp_string_def
        nat_bytes_def)
qed

lemma writeBigInt_correct:
  "0 \<le> i \<Longrightarrow> byte_len (nat i) < 2 ^ 64 \<Longrightarrow>
     writeBigInt i w = append_str (rlp_string (nat_bytes (nat i))) w"
  using writeBigInt_nat [of "nat i" w] by simp

section \<open>The buffer\<close>

text \<open>What a value is in the format.\<close>

fun enc_val :: "rval \<Rightarrow> bytes" where
  "enc_val (VUint n) = rlp_string (nat_bytes (unat n))"
| "enc_val (VBool b) = rlp_string (if b then [1] else [])"
| "enc_val (VBytes b) = rlp_string b"
| "enc_val (VByteArray b) = rlp_string b"
| "enc_val (VBigInt p) = rlp_string (case p of None \<Rightarrow> [] | Some i \<Rightarrow> nat_bytes (nat i))"
| "enc_val (VRaw b) = b"
| "enc_val (VNil x) = [x]"
| "enc_val (VTail vs) = concat (map enc_val vs)"
| "enc_val (VSlice vs) = rlp_seq (concat (map enc_val vs))"
| "enc_val (VStruct vs) = rlp_seq (concat (map enc_val vs))"

fun nonneg :: "rval \<Rightarrow> bool" where
  "nonneg (VBigInt (Some i)) = (0 \<le> i)"
| "nonneg (VTail vs) = list_all nonneg vs"
| "nonneg (VSlice vs) = list_all nonneg vs"
| "nonneg (VStruct vs) = list_all nonneg vs"
| "nonneg _ = True"

text \<open>The output of string data \<open>s\<close> that starts at offset \<open>base\<close>, with the headers \<open>hs\<close>.\<close>

primrec merge :: "nat \<Rightarrow> bytes \<Rightarrow> listhead list \<Rightarrow> bytes" where
  "merge base s [] = s"
| "merge base s (h # hs) =
     take (lh_offset h - base) s @ listhead_encode h
     @ merge (lh_offset h) (drop (lh_offset h - base) s) hs"

definition heads_ok :: "nat \<Rightarrow> nat \<Rightarrow> listhead list \<Rightarrow> bool" where
  "heads_ok lo hi hs \<longleftrightarrow>
     sorted (map lh_offset hs) \<and> (\<forall>h \<in> set hs. lo \<le> lh_offset h \<and> lh_offset h \<le> hi)"

lemma heads_ok_append:
  assumes "heads_ok a b hs" "heads_ok b c ht" "a \<le> b" "b \<le> c"
  shows "heads_ok a c (hs @ ht)"
proof -
  have "lh_offset h \<le> lh_offset h'" if "h \<in> set hs" "h' \<in> set ht" for h h'
    using assms(1,2) that order_trans by (fastforce simp: heads_ok_def)
  then have "sorted (map lh_offset (hs @ ht))"
    using assms(1,2) by (simp add: heads_ok_def sorted_append)
  moreover have "a \<le> lh_offset h \<and> lh_offset h \<le> c" if "h \<in> set (hs @ ht)" for h
    using that assms by (auto simp: heads_ok_def intro: order_trans)
  ultimately show ?thesis by (simp add: heads_ok_def)
qed

lemma merge_append:
  assumes "heads_ok base (base + length s1) h1" "heads_ok (base + length s1) hi h2"
  shows "merge base (s1 @ s2) (h1 @ h2) = merge base s1 h1 @ merge (base + length s1) s2 h2"
  using assms
proof (induction h1 arbitrary: base s1)
  case Nil
  then show ?case by (cases h2) (auto simp: heads_ok_def)
next
  case (Cons h h1)
  let ?k = "lh_offset h - base"
  have h: "base \<le> lh_offset h" "?k \<le> length s1" "lh_offset h + length (drop ?k s1) = base + length s1"
    using Cons.prems by (auto simp: heads_ok_def)
  then have "heads_ok (lh_offset h) (lh_offset h + length (drop ?k s1)) h1"
    using Cons.prems by (auto simp: heads_ok_def)
  with Cons.IH [of "lh_offset h" "drop ?k s1"] Cons.prems(2) h show ?case
    by (simp add: add.commute)
qed

lemma copyTo_merge:
  "heads_ok pos (length str) hs \<Longrightarrow> copyTo str pos hs = merge pos (drop pos str) hs"
proof (induction hs arbitrary: pos)
  case (Cons h hs)
  have o: "pos \<le> lh_offset h" "lh_offset h \<le> length str" "heads_ok (lh_offset h) (length str) hs"
    using Cons.prems by (auto simp: heads_ok_def)
  then have "pos + length (take (lh_offset h - pos) (drop pos str)) = lh_offset h" by simp
  with Cons.IH [OF o(3)] o show ?case by (simp add: add.commute)
qed simp

text \<open>What writing the bytes \<open>e\<close> does to the buffer.\<close>

definition emits :: "encBuffer \<Rightarrow> bytes \<Rightarrow> encBuffer \<Rightarrow> bool" where
  "emits w e w' \<longleftrightarrow> (\<exists>s hs. buf_str w' = buf_str w @ s \<and> lheads w' = lheads w @ hs
     \<and> lhsize w' + length s = lhsize w + length e
     \<and> heads_ok (length (buf_str w)) (length (buf_str w')) hs
     \<and> merge (length (buf_str w)) s hs = e)"

lemma emits_append_str: "emits w e (append_str e w)"
  unfolding emits_def by (rule exI [of _ e], rule exI [of _ "[]"]) (simp add: append_str_def heads_ok_def)

lemma emits_Nil: "emits w [] w"
  unfolding emits_def by (rule exI [of _ "[]"], rule exI [of _ "[]"]) (simp add: heads_ok_def)

lemma emits_trans:
  assumes "emits w a w1" "emits w1 b w2"
  shows "emits w (a @ b) w2"
proof -
  obtain s hs where 1: "buf_str w1 = buf_str w @ s" "lheads w1 = lheads w @ hs"
    "lhsize w1 + length s = lhsize w + length a"
    "heads_ok (length (buf_str w)) (length (buf_str w1)) hs" "merge (length (buf_str w)) s hs = a"
    using assms(1) unfolding emits_def by blast
  obtain t ht where 2: "buf_str w2 = buf_str w1 @ t" "lheads w2 = lheads w1 @ ht"
    "lhsize w2 + length t = lhsize w1 + length b"
    "heads_ok (length (buf_str w1)) (length (buf_str w2)) ht" "merge (length (buf_str w1)) t ht = b"
    using assms(2) unfolding emits_def by blast
  have "merge (length (buf_str w)) (s @ t) (hs @ ht) = a @ b"
    using merge_append [of "length (buf_str w)" s hs "length (buf_str w2)" ht t] 1 2 by simp
  moreover have "heads_ok (length (buf_str w)) (length (buf_str w2)) (hs @ ht)"
    using heads_ok_append [OF 1(4) 2(4)] 1(1) 2(1) by simp
  ultimately show ?thesis
    unfolding emits_def using 1 2 by (intro exI [of _ "s @ t"] exI [of _ "hs @ ht"]) simp
qed

lemma listhead_encode_correct:
  "lh_size h < 2 ^ 64 \<Longrightarrow> listhead_encode h = rlp_head 0xC0 0xF7 (lh_size h)"
  using puthead_correct [of "lh_size h" "0xC0" "0xF7"] by (simp add: listhead_encode_def)

lemma emits_list:
  assumes e: "emits (snd (rlp_list w)) P w1" and P: "length P < 2 ^ 64"
  shows "\<exists>w2. listEnd (fst (rlp_list w)) w1 = Ret w2 \<and> emits w (rlp_seq P) w2"
proof -
  define h where "h = \<lparr> lh_offset = length (buf_str w), lh_size = lhsize w \<rparr>"
  define h' where "h' = h\<lparr> lh_size := length P \<rparr>"
  obtain s hs where 1: "buf_str w1 = buf_str w @ s" "lheads w1 = lheads w @ h # hs"
    "lhsize w1 + length s = lhsize w + length P"
    "heads_ok (length (buf_str w)) (length (buf_str w1)) hs" "merge (length (buf_str w)) s hs = P"
    using e unfolding emits_def rlp_list_def h_def [symmetric] by (elim exE conjE) simp
  define w2 where "w2 = w1\<lparr> lheads := lheads w @ h' # hs,
    lhsize := lhsize w1 + length (rlp_head 0xC0 0xF7 (length P)) \<rparr>"
  have "buf_size w1 - lh_offset h - lh_size h = length P"
    using 1(1,3) by (simp add: buf_size_def h_def)
  then have "listEnd (fst (rlp_list w)) w1 = Ret w2"
    using P by (simp add: listEnd_def rlp_list_def index_go_def 1(2) w2_def h'_def Let_def
        length_rlp_head intsize_correct unat_u64_nat)
  moreover have "emits w (rlp_seq P) w2"
    unfolding emits_def
  proof (intro exI conjI)
    show "buf_str w2 = buf_str w @ s" "lheads w2 = lheads w @ h' # hs"
      by (simp_all add: w2_def 1)
    show "lhsize w2 + length s = lhsize w + length (rlp_seq P)"
      using 1(3) by (simp add: w2_def rlp_seq_def)
    show "heads_ok (length (buf_str w)) (length (buf_str w2)) (h' # hs)"
      using 1(1,4) by (auto simp: heads_ok_def w2_def h'_def h_def)
    show "merge (length (buf_str w)) s (h' # hs) = rlp_seq P"
      using 1(5) P by (simp add: h'_def h_def rlp_seq_def listhead_encode_correct)
  qed
  ultimately show ?thesis by blast
qed

lemma rlp_seq_Nil: "rlp_seq [] = [0xC0]"
  by (simp add: rlp_seq_def rlp_head_def)

lemma length_rlp_string: "length b \<le> length (rlp_string b)"
  by (simp add: rlp_string_def)

lemma length_rlp_seq: "length P \<le> length (rlp_seq P)"
  by (simp add: rlp_seq_def)

lemma rlp_write_emits:
  "nonneg v \<Longrightarrow> length (enc_val v) < 2 ^ 64 \<Longrightarrow>
     \<exists>w'. rlp_write v w = Ret (None, w') \<and> emits w (enc_val v) w'"
  "list_all nonneg vs \<Longrightarrow> length (concat (map enc_val vs)) < 2 ^ 64 \<Longrightarrow>
     \<exists>w'. rlp_writes vs w = Ret (None, w') \<and> emits w (concat (map enc_val vs)) w'"
proof (induction v w and vs w rule: rlp_write_rlp_writes.induct)
  case (2 b w)
  have "rlp_string (if b then [1] else []) = (if b then [1] else [0x80])"
    by (simp add: rlp_string_def rlp_head_def)
  then show ?case by (simp add: writeBool_def emits_append_str)
next
  case (3 b w)
  then show ?case using length_rlp_string [of b] by (simp add: writeBytes_correct emits_append_str)
next
  case (4 b w)
  then show ?case using length_rlp_string [of b] by (simp add: writeByteArray_correct emits_append_str)
next
  case (5 p w)
  show ?case
  proof (cases p)
    case None
    then show ?thesis
      using emits_append_str [of w "[0x80]"] by (simp add: writeBigIntPtr_def rlp_string_def rlp_head_def)
  next
    case (Some i)
    have "byte_len (nat i) < 2 ^ 64"
      using 5 Some length_rlp_string [of "nat_bytes (nat i)"]
      by (cases "nat i = 0") (auto simp: length_nat_bytes byte_len_small)
    with 5 Some show ?thesis
      by (simp add: writeBigIntPtr_def writeBigInt_correct emits_append_str)
  qed
next
  case (9 vs w)
  show ?case
  proof (cases "vs = []")
    case True
    then show ?thesis by (simp add: rlp_seq_Nil emits_append_str)
  next
    case False
    have l: "length (concat (map enc_val vs)) < 2 ^ 64"
      using 9(3) length_rlp_seq [of "concat (map enc_val vs)"] by simp
    from 9(1) [OF False refl, of _ "snd (rlp_list w)"] 9(2) l obtain w1 where
      w1: "rlp_writes vs (snd (rlp_list w)) = Ret (None, w1)"
      "emits (snd (rlp_list w)) (concat (map enc_val vs)) w1"
      by (auto simp: rlp_list_def)
    from emits_list [OF w1(2) l] False w1(1) show ?thesis
      by (auto simp: split_def)
  qed
next
  case (10 vs w)
  have l: "length (concat (map enc_val vs)) < 2 ^ 64"
    using 10(3) length_rlp_seq [of "concat (map enc_val vs)"] by simp
  from 10(1) [OF refl, of _ "snd (rlp_list w)"] 10(2) l obtain w1 where
    w1: "rlp_writes vs (snd (rlp_list w)) = Ret (None, w1)"
    "emits (snd (rlp_list w)) (concat (map enc_val vs)) w1"
    by (auto simp: rlp_list_def)
  from emits_list [OF w1(2) l] w1(1) show ?case by (auto simp: split_def)
next
  case (12 v vs w)
  then obtain w1 where w1: "rlp_write v w = Ret (None, w1)" "emits w (enc_val v) w1" by auto
  with 12(2) [OF w1(1) refl] 12(3,4) obtain w2 where
    "rlp_writes vs w1 = Ret (None, w2)" "emits w1 (concat (map enc_val vs)) w2" by auto
  with w1 emits_trans show ?case by auto
qed (auto simp: writeUint64_correct emits_append_str emits_Nil)

lemma EncodeToBytes_ok:
  assumes "nonneg v" "length (enc_val v) < 2 ^ 64"
  shows "EncodeToBytes v = Ret (Inr (enc_val v))"
proof -
  obtain w where w: "rlp_write v empty_encBuffer = Ret (None, w)" "emits empty_encBuffer (enc_val v) w"
    using rlp_write_emits(1) [OF assms] by blast
  then have "makeBytes w = enc_val v"
    by (auto simp: emits_def empty_encBuffer_def makeBytes_def copyTo_merge)
  with w(1) show ?thesis by (simp add: EncodeToBytes_def)
qed

section \<open>The raw decoder\<close>

lemma shift_or_byte: "push_bit 8 s OR ucast (x :: u8) = 256 * s + (ucast x :: u64)"
proof -
  have "push_bit 8 s + ucast x = push_bit 8 s OR (ucast x :: u64)"
    by (rule disjunctive_add) (auto simp: bit_push_bit_iff bit_ucast_iff dest: bit_imp_le_length)
  then show ?thesis by (simp add: push_bit_eq_mult mult.commute)
qed

lemma foldl_shift_or:
  "length bs \<le> 8 \<Longrightarrow> foldl (\<lambda>s x. push_bit 8 s OR ucast x) (0 :: u64) bs = word_of_nat (be_nat bs)"
proof (induction bs rule: rev_induct)
  case (snoc x bs)
  then show ?case by (simp add: shift_or_byte be_nat_snoc)
qed simp

lemma be_nat_u64: "length bs \<le> 8 \<Longrightarrow> be_nat bs < 2 ^ 64"
proof -
  assume "length bs \<le> 8"
  then have "(256::nat) ^ length bs \<le> 256 ^ 8" by (intro power_increasing) simp_all
  with be_nat_less [of bs] show ?thesis by simp
qed

lemma readSize_eq:
  assumes "1 \<le> unat slen" "unat slen \<le> 8"
  shows "readSize b slen = Ret (if unat slen > length b then Inl ErrUnexpectedEOF
    else if be_nat (take (unat slen) b) < 56 \<or> b ! 0 = 0 then Inl ErrCanonSize
    else Inr (word_of_nat (be_nat (take (unat slen) b))))"
proof -
  have l: "length (take (unat slen) b) \<le> 8" using assms by simp
  then have "(word_of_nat (be_nat (take (unat slen) b)) :: u64) < 56 \<longleftrightarrow> be_nat (take (unat slen) b) < 56"
    using be_nat_u64 [OF l] by (simp add: word_less_nat_alt unat_u64_nat)
  with assms foldl_shift_or [OF l] show ?thesis
    by (auto simp: readSize_def Let_def index_go_def)
qed

text \<open>A number with a non-zero first byte is written in the least number of bytes.\<close>

lemma be_nat_ge: "bs \<noteq> [] \<Longrightarrow> hd bs \<noteq> 0 \<Longrightarrow> 256 ^ (length bs - 1) \<le> be_nat bs"
proof (cases bs)
  case (Cons b bs')
  assume "hd bs \<noteq> 0"
  with Cons have "1 \<le> unat b" by (simp add: Suc_le_eq unat_gt_0)
  then have "256 ^ length bs' \<le> unat b * 256 ^ length bs'" by simp
  with Cons show ?thesis by (simp add: be_nat_Cons trans_le_add1)
qed simp

lemma be_bytes_be_nat: "be_bytes (length bs) (be_nat bs) = bs"
proof (induction bs rule: rev_induct)
  case (snoc b bs)
  have "(256 * be_nat bs + unat b) div 256 = be_nat bs" by simp
  moreover have "(word_of_nat (256 * be_nat bs + unat b) :: u8) = b"
    by (simp only: word_unat_eq_iff unat_of_nat) simp
  ultimately show ?case using snoc by (simp add: be_nat_snoc)
qed simp

lemma canonical_bytes:
  assumes "bs \<noteq> []" "hd bs \<noteq> 0"
  shows "byte_len (be_nat bs) = length bs" "be_bytes (length bs) (be_nat bs) = bs"
proof -
  obtain k where k: "length bs = Suc k" using assms(1) by (cases bs) auto
  show "byte_len (be_nat bs) = length bs"
    using byte_len_eq [of k "be_nat bs"] be_nat_ge [OF assms] be_nat_less [of bs] k by simp
qed (rule be_bytes_be_nat)

definition split_check :: "bytes \<Rightarrow> Kind \<Rightarrow> nat \<Rightarrow> nat \<Rightarrow> (split_error + Kind \<times> bytes \<times> bytes)" where
  "split_check buf k ts cs =
     (if cs > length buf - ts then Inl ErrValueTooLarge
      else Inr (k, take cs (drop ts buf), drop (ts + cs) buf))"

lemma Split_via:
  assumes "readKind buf = Ret (if cs > word_of_nat (length buf) - ts then Inl ErrValueTooLarge
      else Inr (k, ts, cs))" "unat ts \<le> length buf" "length buf < 2 ^ 63"
  shows "Split buf = Ret (split_check buf k (unat ts) (unat cs))"
proof -
  have "unat (word_of_nat (length buf) - ts) = length buf - unat ts"
    using assms(2,3) by (subst unat_sub) (simp_all add: word_le_nat_alt unat_u64_nat)
  then have c: "cs > word_of_nat (length buf) - ts \<longleftrightarrow> unat cs > length buf - unat ts"
    by (simp add: word_less_nat_alt)
  show ?thesis
  proof (cases "unat cs > length buf - unat ts")
    case True
    with c assms(1) show ?thesis by (simp add: Split_def split_check_def)
  next
    case False
    then have le: "unat ts + unat cs \<le> length buf" using assms(2) by simp
    then have "unat (ts + cs) = unat ts + unat cs" using assms(3) unat_add_lem [of ts cs] by simp
    with False c assms(1) le show ?thesis
      by (simp add: Split_def split_check_def slice_go_def)
  qed
qed

definition split_long :: "bytes \<Rightarrow> Kind \<Rightarrow> nat \<Rightarrow> (split_error + Kind \<times> bytes \<times> bytes)" where
  "split_long buf k n =
     (if n > length buf - 1 then Inl ErrUnexpectedEOF
      else if be_nat (take n (tl buf)) < 56 \<or> buf ! 1 = 0 then Inl ErrCanonSize
      else split_check buf k (Suc n) (be_nat (take n (tl buf))))"

lemma Split_eq:
  assumes "length (x # bs) < 2 ^ 63"
  shows "Split (x # bs) = Ret (
    if x < 0x80 then Inr (Byte, [x], bs)
    else if x < 0xB8 then
      if unat x = 0x81 \<and> bs \<noteq> [] \<and> hd bs < 0x80 then Inl ErrCanonSize
      else split_check (x # bs) String 1 (unat x - 0x80)
    else if x < 0xC0 then split_long (x # bs) String (unat x - 0xB7)
    else if x < 0xF8 then split_check (x # bs) List 1 (unat x - 0xC0)
    else split_long (x # bs) List (unat x - 0xF7))"
proof -
  let ?buf = "x # bs"
  have sub: "unat (x - y) = unat x - unat y" if "\<not> x < y" for y
    using that by (intro unat_sub) simp
  have cast: "unat (ucast (x - y) :: u64) = unat x - unat y" if "\<not> x < y" for y
  proof -
    have "unat x - unat y < 2 ^ 64"
      by (rule less_trans [OF le_less_trans [OF diff_le_self unat_u8_less]]) simp
    with sub [OF that] show ?thesis by (simp add: unsigned_ucast_eq take_bit_nat_eq_self)
  qed
  have long: "Split ?buf = Ret (split_long ?buf k (unat x - unat y))"
    if y: "\<not> x < y" "1 \<le> unat x - unat y" "unat x - unat y \<le> 8"
      and r: "readKind ?buf = go_bind (go_map (map_sum id (\<lambda>cs. (k, ucast (x - y) + 1, cs)))
        (readSize bs (x - y))) (\<lambda>r. Ret (case r of Inl e \<Rightarrow> Inl e | Inr (k, tagsize, contentsize) \<Rightarrow>
          if contentsize > word_of_nat (length ?buf) - tagsize then Inl ErrValueTooLarge
          else Inr (k, tagsize, contentsize)))" for y k
  proof -
    define n where "n = unat x - unat y"
    have rs: "readSize bs (x - y) = Ret (if n > length bs then Inl ErrUnexpectedEOF
        else if be_nat (take n bs) < 56 \<or> bs ! 0 = 0 then Inl ErrCanonSize
        else Inr (word_of_nat (be_nat (take n bs))))"
      using readSize_eq [of "x - y" bs] y sub [OF y(1)] by (simp add: n_def)
    have ts: "unat (ucast (x - y) + 1 :: u64) = Suc n"
      using cast [OF y(1)] y(3) by (subst unat_add_lem [THEN iffD1]) (simp_all add: n_def)
    show ?thesis
    proof (cases "n > length bs \<or> be_nat (take n bs) < 56 \<or> bs ! 0 = 0")
      case True
      with r rs show ?thesis by (auto simp: Split_def split_long_def n_def)
    next
      case False
      then have "unat (word_of_nat (be_nat (take n bs)) :: u64) = be_nat (take n bs)"
        using y(3) by (intro unat_u64_nat be_nat_u64) (simp add: n_def)
      with False r rs Split_via [of ?buf "ucast (x - y) + 1" "word_of_nat (be_nat (take n bs))" k] ts assms
      show ?thesis by (auto simp: split_long_def n_def)
    qed
  qed
  have short: "Split ?buf = Ret (split_check ?buf k 1 (unat x - unat y))"
    if y: "\<not> x < y" and r: "readKind ?buf = Ret (
      if ucast (x - y) > word_of_nat (length ?buf) - (1 :: u64) then Inl ErrValueTooLarge
      else Inr (k, 1, ucast (x - y)))" for y k
    using Split_via [OF r] assms cast [OF y] by simp
  have "x - 0x80 = 1 \<longleftrightarrow> x = 0x81" by (simp add: diff_eq_eq)
  also have "\<dots> \<longleftrightarrow> unat x = 0x81" by (simp add: word_unat_eq_iff)
  finally have e: "x - 0x80 = 1 \<longleftrightarrow> unat x = 0x81" .
  consider "x < 0x80" | "\<not> x < 0x80" "x < 0xB8" "unat x = 0x81" "bs \<noteq> []" "hd bs < 0x80"
    | "\<not> x < 0x80" "x < 0xB8" "\<not> (unat x = 0x81 \<and> bs \<noteq> [] \<and> hd bs < 0x80)"
    | "\<not> x < 0xB8" "x < 0xC0" | "\<not> x < 0xC0" "x < 0xF8" | "\<not> x < 0xF8" by blast
  then show ?thesis
  proof cases
    case 1
    then show ?thesis using Split_via [of ?buf 0 1 Byte] assms
      by (simp add: readKind_def split_check_def)
  next
    case 2
    then have "x = 0x81" by (simp add: word_unat_eq_iff)
    with 2 show ?thesis by (cases bs) (simp_all add: Split_def readKind_def)
  next
    case 3
    have "readKind ?buf = Ret (
      if ucast (x - 0x80) > word_of_nat (length ?buf) - (1 :: u64) then Inl ErrValueTooLarge
      else Inr (String, 1, ucast (x - 0x80)))"
      using 3 e by (cases bs) (simp_all add: readKind_def)
    from short [OF 3(1) this] 3 show ?thesis by auto
  next
    case 4
    then have "unat x - 0xB7 \<le> 8" "1 \<le> unat x - 0xB7" "\<not> x < 0xB7" "\<not> x < 0x80"
      by (simp_all add: word_less_nat_alt)
    with 4 long [where y = "0xB7" and k = String] show ?thesis by (simp add: readKind_def)
  next
    case 5
    then have "\<not> x < 0x80" "\<not> x < 0xB8" by (simp_all add: word_less_nat_alt)
    with 5 short [where y = "0xC0" and k = List] show ?thesis by (simp add: readKind_def)
  next
    case 6
    have "unat x \<le> 255" using unat_u8_less [of x] by linarith
    with 6 have "unat x - 0xF7 \<le> 8" "1 \<le> unat x - 0xF7" "\<not> x < 0xF7" "\<not> x < 0x80"
      "\<not> x < 0xB8" "\<not> x < 0xC0"
      by (simp_all add: word_less_nat_alt)
    with 6 long [where y = "0xF7" and k = List] show ?thesis by (simp add: readKind_def)
  qed
qed

text \<open>How a value of a kind with a given content is spelled.\<close>

definition single_byte :: "bytes \<Rightarrow> bool" where
  "single_byte c \<longleftrightarrow> length c = 1 \<and> c ! 0 < 0x80"

definition spells :: "Kind \<Rightarrow> bytes \<Rightarrow> bytes \<Rightarrow> bool" where
  "spells k c e \<longleftrightarrow> (case k of
     Byte \<Rightarrow> single_byte c \<and> e = c
   | String \<Rightarrow> \<not> single_byte c \<and> e = rlp_head 0x80 0xB7 (length c) @ c
   | List \<Rightarrow> e = rlp_head 0xC0 0xF7 (length c) @ c)"

lemma split_check_1: "split_check (x # bs) k 1 n = Inr (k', c, rest) \<longleftrightarrow>
    k' = k \<and> length c = n \<and> bs = c @ rest"
  by (auto simp: split_check_def)

lemma split_long_iff:
  assumes "n \<le> 8" "1 \<le> n"
  shows "split_long (x # bs) k n = Inr (k', c, rest) \<longleftrightarrow>
    k' = k \<and> 56 \<le> length c \<and> n = byte_len (length c)
    \<and> bs = be_bytes (byte_len (length c)) (length c) @ c @ rest"
proof
  assume l: "split_long (x # bs) k n = Inr (k', c, rest)"
  define m where "m = be_nat (take n bs)"
  from l have 1: "n \<le> length bs" "56 \<le> m" "bs ! 0 \<noteq> 0" "k' = k" "m \<le> length bs - n"
    "c = take m (drop n bs)" "rest = drop (n + m) bs"
    by (auto simp: split_long_def split_check_def m_def split: if_splits)
  have "take n bs \<noteq> []" "hd (take n bs) \<noteq> 0"
    using 1(1,3) assms(2) by (cases bs; cases n; simp)+
  from canonical_bytes [OF this] 1(1) have "byte_len m = n" "be_bytes n m = take n bs"
    by (simp_all add: m_def min_absorb2)
  moreover have "length c = m" using 1(5,6) by simp
  moreover have "bs = take n bs @ c @ rest" using 1 by (metis append_take_drop_id drop_drop add.commute)
  ultimately show "k' = k \<and> 56 \<le> length c \<and> n = byte_len (length c)
    \<and> bs = be_bytes (byte_len (length c)) (length c) @ c @ rest" using 1 by simp
next
  assume r: "k' = k \<and> 56 \<le> length c \<and> n = byte_len (length c)
    \<and> bs = be_bytes (byte_len (length c)) (length c) @ c @ rest"
  define pre where "pre = be_bytes n (length c)"
  from r have "0 < length c" by linarith
  then have p: "bs = pre @ c @ rest" "length pre = n" "be_nat pre = length c" "hd pre \<noteq> 0"
    using r byte_len_bound [of "length c"] be_bytes_head [of "length c"]
    by (auto simp: pre_def be_nat_be_bytes)
  moreover have "(pre @ c @ rest) ! 0 = hd pre" using p(2) assms(2) by (cases pre) auto
  ultimately show "split_long (x # bs) k n = Inr (k', c, rest)"
    using r by (simp add: split_long_def split_check_def)
qed

lemma word8_eq: "x = (word_of_nat n :: u8) \<longleftrightarrow> unat x = n" if "n < 256"
  using that by (simp add: word_unat_eq_iff unat_of_nat)

lemma byte_len_le_8: "n < 2 ^ 64 \<Longrightarrow> byte_len n \<le> 8"
  using byte_len_le [of n 7] by simp

lemma head_iff:
  assumes "small < 200" "large \<le> 247" "n < 2 ^ 64"
  shows "x # bs = rlp_head small large n @ t \<longleftrightarrow>
    n < 56 \<and> unat x = small + n \<and> bs = t
    \<or> 56 \<le> n \<and> unat x = large + byte_len n \<and> bs = be_bytes (byte_len n) n @ t"
proof -
  have "x = word_of_nat (small + n) \<longleftrightarrow> unat x = small + n" if "n < 56"
    using assms that by (intro word8_eq) linarith
  moreover have "x = word_of_nat (large + byte_len n) \<longleftrightarrow> unat x = large + byte_len n"
    using assms byte_len_le_8 [of n] by (intro word8_eq) linarith
  ultimately show ?thesis unfolding rlp_head_def by (auto simp del: of_nat_add)
qed

lemma Split_sound:
  assumes len: "length (x # bs) < 2 ^ 63" and sp: "Split (x # bs) = Ret (Inr (k, c, rest))"
  shows "\<exists>e. spells k c e \<and> x # bs = e @ rest"
proof -
  note eq = Split_eq [OF len, unfolded sp]
  have x: "unat x \<le> 255" using unat_u8_less [of x] by linarith
  have long: "x # bs = (rlp_head small large (length c) @ c) @ rest" "k = k'"
    if "split_long (x # bs) k' (unat x - large) = Inr (k, c, rest)" "large < unat x"
      "unat x \<le> large + 8" "small < 200" "large \<le> 247" for k' small large
  proof -
    have "k = k' \<and> 56 \<le> length c \<and> unat x - large = byte_len (length c)
      \<and> bs = be_bytes (byte_len (length c)) (length c) @ c @ rest"
      using split_long_iff [of "unat x - large"] that by simp
    moreover from this that(3) have "length c < 2 ^ 64" using len by simp
    ultimately show "x # bs = (rlp_head small large (length c) @ c) @ rest" "k = k'"
      using head_iff [of small large "length c" x bs "c @ rest"] that by auto
  qed
  have short: "x # bs = (rlp_head small large (length c) @ c) @ rest" "k = k'"
    if "split_check (x # bs) k' 1 (unat x - small) = Inr (k, c, rest)" "small \<le> unat x"
      "unat x < small + 56" "small < 200" "large \<le> 247" for k' small large
  proof -
    have "k = k' \<and> length c = unat x - small \<and> bs = c @ rest"
      using split_check_1 that(1) by simp
    then show "x # bs = (rlp_head small large (length c) @ c) @ rest" "k = k'"
      using head_iff [of small large "length c" x bs "c @ rest"] that by auto
  qed
  consider "unat x < 0x80" | "0x80 \<le> unat x" "unat x < 0xB8" | "0xB8 \<le> unat x" "unat x < 0xC0"
    | "0xC0 \<le> unat x" "unat x < 0xF8" | "0xF8 \<le> unat x" by linarith
  then show ?thesis
  proof cases
    case 1
    with eq show ?thesis by (auto simp: word_less_nat_alt spells_def single_byte_def)
  next
    case 2
    then have e: "split_check (x # bs) String 1 (unat x - 0x80) = Inr (k, c, rest)"
      "\<not> (unat x = 0x81 \<and> bs \<noteq> [] \<and> hd bs < 0x80)"
      using eq by (auto simp: word_less_nat_alt split: if_splits)
    moreover from e(1) have "length c = unat x - 0x80" "bs = c @ rest"
      using split_check_1 by simp_all
    then have "\<not> single_byte c"
      using e(2) 2 by (cases c) (auto simp: single_byte_def)
    ultimately show ?thesis using short [where k' = String and small = "0x80" and large = "0xB7"] 2 by (auto simp: spells_def)
  next
    case 3
    then have e: "split_long (x # bs) String (unat x - 0xB7) = Inr (k, c, rest)"
      using eq by (simp add: word_less_nat_alt)
    moreover from e 3 have "56 \<le> length c" using split_long_iff [of "unat x - 0xB7"] by simp
    ultimately show ?thesis using long [where k' = String and large = "0xB7" and small = "0x80"] 3 by (auto simp: spells_def single_byte_def)
  next
    case 4
    then have "split_check (x # bs) List 1 (unat x - 0xC0) = Inr (k, c, rest)"
      using eq by (simp add: word_less_nat_alt)
    with short [where k' = List and small = "0xC0" and large = "0xF7"] 4 show ?thesis by (auto simp: spells_def)
  next
    case 5
    then have "split_long (x # bs) List (unat x - 0xF7) = Inr (k, c, rest)"
      using eq by (simp add: word_less_nat_alt)
    with long [where k' = List and large = "0xF7" and small = "0xC0"] 5 x show ?thesis by (auto simp: spells_def)
  qed
qed

lemma byte_len_nonzero [simp]: "byte_len n \<noteq> 0"
  using byte_len_pos [of n] by linarith

lemma Split_complete:
  assumes sp: "spells k c e" and len: "length (e @ rest) < 2 ^ 63"
  shows "Split (e @ rest) = Ret (Inr (k, c, rest))"
proof -
  have "e \<noteq> []" using sp by (auto simp: spells_def single_byte_def rlp_head_def split: Kind.splits)
  then obtain x bs where xs: "e @ rest = x # bs" by (cases "e @ rest") auto
  note eq = Split_eq [OF len [unfolded xs]]
  have "length c \<le> length e" using sp by (auto simp: spells_def split: Kind.splits)
  then have lc: "length c < 2 ^ 64" using len by simp
  have b8: "byte_len (length c) \<le> 8" by (rule byte_len_le_8 [OF lc])
  show ?thesis
  proof (cases k)
    case Byte
    with sp have "x < 0x80" "c = [x]" "rest = bs" using xs
      by (auto simp: spells_def single_byte_def length_Suc_conv)
    with Byte show ?thesis unfolding xs eq by simp
  next
    case String
    with sp have n: "\<not> single_byte c" and h: "x # bs = rlp_head 0x80 0xB7 (length c) @ c @ rest"
      using xs by (auto simp: spells_def)
    from head_iff [of "0x80" "0xB7" "length c" x bs "c @ rest"] lc h consider
      "length c < 56" "unat x = 0x80 + length c" "bs = c @ rest"
      | "56 \<le> length c" "unat x = 0xB7 + byte_len (length c)"
        "bs = be_bytes (byte_len (length c)) (length c) @ c @ rest" by auto
    then show ?thesis
    proof cases
      case 1
      then have "\<not> (unat x = 0x81 \<and> bs \<noteq> [] \<and> hd bs < 0x80)"
        using n by (cases c) (auto simp: single_byte_def)
      moreover have "split_check (x # bs) String 1 (unat x - 0x80) = Inr (String, c, rest)"
        using 1 by (simp only: split_check_1) simp
      ultimately show ?thesis unfolding xs eq using 1 String by (simp add: word_less_nat_alt)
    next
      case 2
      then have "split_long (x # bs) String (unat x - 0xB7) = Inr (String, c, rest)"
        using split_long_iff [of "unat x - 0xB7"] b8 by (simp add: Suc_le_eq)
      then show ?thesis unfolding xs eq using 2 b8 String
        by (simp add: word_less_nat_alt Suc_le_eq not_less_eq)
    qed
  next
    case List
    with sp have h: "x # bs = rlp_head 0xC0 0xF7 (length c) @ c @ rest"
      using xs by (auto simp: spells_def)
    from head_iff [of "0xC0" "0xF7" "length c" x bs "c @ rest"] lc h consider
      "length c < 56" "unat x = 0xC0 + length c" "bs = c @ rest"
      | "56 \<le> length c" "unat x = 0xF7 + byte_len (length c)"
        "bs = be_bytes (byte_len (length c)) (length c) @ c @ rest" by auto
    then show ?thesis
    proof cases
      case 1
      then have "split_check (x # bs) List 1 (unat x - 0xC0) = Inr (List, c, rest)"
        by (simp only: split_check_1) simp
      then show ?thesis unfolding xs eq using 1 List by (simp add: word_less_nat_alt)
    next
      case 2
      then have "split_long (x # bs) List (unat x - 0xF7) = Inr (List, c, rest)"
        using split_long_iff [of "unat x - 0xF7"] b8 by (simp add: Suc_le_eq)
      then show ?thesis unfolding xs eq using 2 b8 List
        by (simp add: word_less_nat_alt Suc_le_eq not_less_eq)
    qed
  qed
qed

lemma Split_total: "length b < 2 ^ 63 \<Longrightarrow> \<exists>r. Split b = Ret r"
  using Split_eq [of "hd b" "tl b"] by (cases b) (auto simp: Split_def readKind_def)

lemma Split_iff:
  assumes "length b < 2 ^ 63"
  shows "Split b = Ret (Inr (k, c, rest)) \<longleftrightarrow> (\<exists>e. spells k c e \<and> b = e @ rest)"
proof
  assume s: "Split b = Ret (Inr (k, c, rest))"
  then obtain x bs where "b = x # bs" by (cases b) (auto simp: Split_def readKind_def)
  with Split_sound [of x bs] s assms show "\<exists>e. spells k c e \<and> b = e @ rest" by simp
qed (use Split_complete assms in auto)

lemma AppendUint64_writeUint64: "AppendUint64 (buf_str w) i = buf_str (writeUint64 i w)"
  by (simp add: AppendUint64_def writeUint64_def append_str_def putint_def)

lemma spells_string:
  "spells (if single_byte c then Byte else String) c (rlp_string c)"
  by (simp add: spells_def rlp_string_def single_byte_def)

lemma spells_list: "spells List c (rlp_seq c)"
  by (simp add: spells_def rlp_seq_def)

lemma SplitString_complete:
  "length (rlp_string c @ rest) < 2 ^ 63 \<Longrightarrow> SplitString (rlp_string c @ rest) = Ret (Inr (c, rest))"
  by (simp add: SplitString_def Split_complete [OF spells_string])

lemma SplitList_complete:
  "length (rlp_seq c @ rest) < 2 ^ 63 \<Longrightarrow> SplitList (rlp_seq c @ rest) = Ret (Inr (c, rest))"
  by (simp add: SplitList_def Split_complete [OF spells_list])

lemma SplitUint64_complete:
  assumes "length (rlp_string (nat_bytes (unat n)) @ rest) < 2 ^ 63"
  shows "SplitUint64 (rlp_string (nat_bytes (unat n)) @ rest) = Ret (Inr (n, rest))"
proof -
  define c where "c = nat_bytes (unat n)"
  have s: "SplitString (rlp_string c @ rest) = Ret (Inr (c, rest))"
    using SplitString_complete assms by (simp add: c_def)
  consider "n = 0" | "n \<noteq> 0" "unat n < 256" | "256 \<le> unat n" by linarith
  then show ?thesis unfolding c_def [symmetric]
  proof cases
    case 1
    then show "SplitUint64 (rlp_string c @ rest) = Ret (Inr (n, rest))"
      using s by (simp add: SplitUint64_def c_def)
  next
    case 2
    then have c: "c = [ucast n]" by (simp add: c_def nat_bytes_def byte_len_small unat_eq_zero)
    have "(ucast n :: u8) \<noteq> 0" "ucast (ucast n :: u8) = n"
      using 2 by (simp_all add: word_unat_eq_iff unsigned_ucast_eq unsigned_take_bit_eq take_bit_nat_eq_self)
    with s c show "SplitUint64 (rlp_string c @ rest) = Ret (Inr (n, rest))"
      by (simp add: SplitUint64_def)
  next
    case 3
    then have c: "c = be_bytes (byte_len (unat n)) (unat n)" "2 \<le> length c" "length c \<le> 8"
      using byte_len_ge [of 1 "unat n"] byte_len_u64 [of n] by (auto simp: c_def nat_bytes_def)
    have "be_nat c = unat n" using byte_len_bound [of "unat n"] by (simp add: c(1) be_nat_be_bytes)
    moreover have "hd c \<noteq> 0" using be_bytes_head [of "unat n"] 3 by (simp add: c(1))
    then have "c ! 0 \<noteq> 0" using c(2) hd_conv_nth [of c] by (cases "c = []") auto
    moreover have "unat (word_of_nat (length c) :: u8) = length c" using c(3) by (simp add: unat_of_nat)
    ultimately have "readSize c (word_of_nat (length c)) = Ret (Inr n)"
      using readSize_eq [of "word_of_nat (length c)" c] 3 c(2,3) by simp
    moreover have "c \<noteq> []" using c(2) by auto
    ultimately show "SplitUint64 (rlp_string c @ rest) = Ret (Inr (n, rest))"
      using s c(2,3) by (simp add: SplitUint64_def)
  qed
qed

text \<open>Counting values uses the same header reader.\<close>

lemma Split_readKind:
  assumes "Split b = Ret (Inr (k, c, rest))"
  obtains ts cs where "readKind b = Ret (Inr (k, ts, cs))" "slice_go b (unat (ts + cs)) (length b) = Ret rest"
proof -
  obtain r where r: "readKind b = Ret r" using assms by (auto simp: Split_def go_bind_eq_Ret)
  show thesis
  proof (cases r)
    case (Inl e)
    with r assms show thesis by (simp add: Split_def)
  next
    case (Inr x)
    with r assms that show thesis by (cases x) (auto simp: Split_def go_bind_eq_Ret)
  qed
qed

lemma spells_nonempty: "spells k c e \<Longrightarrow> e \<noteq> []"
  by (auto simp: spells_def single_byte_def rlp_head_def split: Kind.splits)

definition is_value :: "bytes \<Rightarrow> bool" where
  "is_value e \<longleftrightarrow> (\<exists>k c. spells k c e)"

lemma CountValues_loop_correct:
  assumes "list_all is_value es" "length (concat es) < 2 ^ 63" "length es < fuel"
  shows "CountValues_loop fuel (concat es) i = Ret (Inr (i + length es))"
  using assms
proof (induction es arbitrary: fuel i)
  case Nil
  then show ?case by (cases fuel) auto
next
  case (Cons e es)
  then obtain fuel' where f: "fuel = Suc fuel'" "length es < fuel'" by (cases fuel) auto
  obtain k c where sp: "spells k c e" using Cons.prems by (auto simp: is_value_def)
  have "Split (e @ concat es) = Ret (Inr (k, c, concat es))"
    using Split_complete [OF sp] Cons.prems by simp
  then obtain ts cs where r: "readKind (e @ concat es) = Ret (Inr (k, ts, cs))"
    "slice_go (e @ concat es) (unat (ts + cs)) (length (e @ concat es)) = Ret (concat es)"
    by (rule Split_readKind)
  with Cons.IH [of fuel' "i + 1"] Cons.prems f spells_nonempty [OF sp] show ?case by simp
qed

lemma length_concat_values: "list_all is_value es \<Longrightarrow> length es \<le> length (concat es)"
proof (induction es)
  case (Cons e es)
  then have "e \<noteq> []" using spells_nonempty by (auto simp: is_value_def)
  with Cons show ?case by (cases e) auto
qed simp

lemma CountValues_correct:
  assumes "list_all is_value es" "length (concat es) < 2 ^ 63"
  shows "CountValues (concat es) = Ret (Inr (length es))"
  using CountValues_loop_correct [OF assms, of "Suc (length (concat es))" 0]
    length_concat_values [OF assms(1)] by (simp add: CountValues_def)

section \<open>Properties\<close>



text \<open>C19. The decoder accepts exactly the format: on every input (of a length that fits an
  \<^verbatim>\<open>int\<close>) \<^verbatim>\<open>Split\<close> returns without panicking, and it returns a kind, content and rest exactly
  when the input is the one canonical spelling of that value followed by the rest.\<close>

theorem Split_exact:
  "length b < 2 ^ 63 \<Longrightarrow>
     (\<exists>r. Split b = Ret r)
     \<and> (Split b = Ret (Inr (k, c, rest)) \<longleftrightarrow> (\<exists>e. spells k c e \<and> b = e @ rest))"
  using Split_total Split_iff by blast

theorem Split_exact_witness:
  "Split [0x82, 4, 0, 0xC0] = Ret (Inr (String, [4, 0], [0xC0]))"
proof -
  have "spells String [4, 0] [0x82, 4, 0]"
    by (simp add: spells_def single_byte_def rlp_head_def)
  moreover have "[0x82, 4, 0, 0xC0] = [0x82, 4, 0] @ [0xC0 :: u8]" by simp
  ultimately show ?thesis
    using Split_exact [of "[0x82, 4, 0, 0xC0]" String "[4, 0]" "[0xC0]"] by auto
qed





end
