(* ===== verification/State_Access_List.thy ===== *)
theory State_Access_List
  imports Prelude
begin

text \<open>
  The per-transaction access list of \<^verbatim>\<open>src/blockchain/state/access_list.go\<close>: a map from addresses to
  indices (-1: no slots) into a list of slot sets. \<open>al_ok\<close> is its invariant; deletions in the
  reverse order of the additions undo them.
\<close>

record accessList =
  addresses :: "address \<Rightarrow> int option"
  slots :: "hash set list"

definition ContainsAddress :: "address \<Rightarrow> accessList \<Rightarrow> bool" where
  "ContainsAddress address al = (addresses al address \<noteq> None)"

text \<open>An index into the slice of slot sets; a negative one is out of range.\<close>

definition slots_at :: "int \<Rightarrow> accessList \<Rightarrow> hash set go" where
  "slots_at idx al = (if 0 \<le> idx then index_go (slots al) (nat idx) else Panic RuntimeError)"

definition Contains :: "address \<Rightarrow> hash \<Rightarrow> accessList \<Rightarrow> (bool \<times> bool) go" where
  "Contains address slot al =
     (case addresses al address of
        None \<Rightarrow> Ret (False, False)
      | Some idx \<Rightarrow>
          if idx = -1 then Ret (True, False)
          else go_bind (slots_at idx al) (\<lambda>slotmap. Ret (True, slot \<in> slotmap)))"

definition newAccessList :: accessList where
  "newAccessList = \<lparr> addresses = (\<lambda>_. None), slots = [] \<rparr>"

definition AddAddress :: "address \<Rightarrow> accessList \<Rightarrow> bool \<times> accessList" where
  "AddAddress address al =
     (if addresses al address \<noteq> None then (False, al)
      else (True, al\<lparr> addresses := (addresses al)(address \<mapsto> -1) \<rparr>))"

definition AddSlot :: "address \<Rightarrow> hash \<Rightarrow> accessList \<Rightarrow> ((bool \<times> bool) \<times> accessList) go" where
  "AddSlot address slot al =
     (let new_slots = al\<lparr> addresses := (addresses al)(address \<mapsto> int (length (slots al))),
                          slots := slots al @ [{slot}] \<rparr>
      in case addresses al address of
           None \<Rightarrow> Ret ((True, True), new_slots)
         | Some idx \<Rightarrow>
             if idx = -1 then Ret ((False, True), new_slots)
             else go_bind (slots_at idx al) (\<lambda>slotmap.
               if slot \<notin> slotmap
               then Ret ((False, True), al\<lparr> slots := (slots al)[nat idx := insert slot slotmap] \<rparr>)
               else Ret ((False, False), al)))"

definition DeleteSlot :: "address \<Rightarrow> hash \<Rightarrow> accessList \<Rightarrow> accessList go" where
  "DeleteSlot address slot al =
     (case addresses al address of
        None \<Rightarrow> Panic (PanicMsg ''reverting slot change, address not present in list'')
      | Some idx \<Rightarrow>
          go_bind (slots_at idx al) (\<lambda>slotmap.
            let slotmap = slotmap - {slot} in
            if slotmap = {} then
              Ret (al\<lparr> slots := take (nat idx) (slots al), addresses := (addresses al)(address \<mapsto> -1) \<rparr>)
            else Ret (al\<lparr> slots := (slots al)[nat idx := slotmap] \<rparr>)))"

definition DeleteAddress :: "address \<Rightarrow> accessList \<Rightarrow> accessList" where
  "DeleteAddress address al = al\<lparr> addresses := (addresses al)(address := None) \<rparr>"

section \<open>The invariant\<close>

text \<open>Every index is in range, and the slot set it points to is not empty.\<close>

definition al_ok :: "accessList \<Rightarrow> bool" where
  "al_ok al \<longleftrightarrow> (\<forall>a idx. addresses al a = Some idx \<longrightarrow>
     idx = -1 \<or> 0 \<le> idx \<and> nat idx < length (slots al) \<and> slots al ! nat idx \<noteq> {})"

lemma al_okI:
  "(\<And>a idx. addresses al a = Some idx \<Longrightarrow> idx \<noteq> -1 \<Longrightarrow>
     0 \<le> idx \<and> nat idx < length (slots al) \<and> slots al ! nat idx \<noteq> {}) \<Longrightarrow> al_ok al"
  by (auto simp: al_ok_def)

lemma al_okD:
  "al_ok al \<Longrightarrow> addresses al a = Some idx \<Longrightarrow> idx \<noteq> -1 \<Longrightarrow>
     0 \<le> idx \<and> nat idx < length (slots al) \<and> slots al ! nat idx \<noteq> {}"
  unfolding al_ok_def by blast

lemma al_ok_new: "al_ok newAccessList"
  by (simp add: al_ok_def newAccessList_def)

lemma slots_at_ok:
  "al_ok al \<Longrightarrow> addresses al a = Some idx \<Longrightarrow> idx \<noteq> -1 \<Longrightarrow>
   slots_at idx al = Ret (slots al ! nat idx) \<and> nat idx < length (slots al) \<and> slots al ! nat idx \<noteq> {}"
  using al_okD [of al a idx] by (simp add: slots_at_def index_go_def)

lemma Contains_ok: "al_ok al \<Longrightarrow> \<exists>r. Contains a slot al = Ret r"
  using slots_at_ok [of al a] by (auto simp: Contains_def split: option.splits)

lemma AddAddress_ok: "al_ok al \<Longrightarrow> AddAddress a al = (b, al') \<Longrightarrow> al_ok al'"
  by (auto simp: AddAddress_def intro!: al_okI dest: al_okD split: if_splits)

lemma AddAddress_undo: "AddAddress a al = (True, al') \<Longrightarrow> DeleteAddress a al' = al"
  by (auto simp: AddAddress_def DeleteAddress_def fun_upd_idem split: if_splits)

text \<open>Adding a slot never fails, and \<open>DeleteSlot\<close>, followed by \<open>DeleteAddress\<close> when the address was
  new, undoes it.\<close>

definition undo_slot :: "bool \<Rightarrow> bool \<Rightarrow> address \<Rightarrow> hash \<Rightarrow> accessList \<Rightarrow> accessList go" where
  "undo_slot addrMod slotMod a slot al =
     go_bind (if slotMod then DeleteSlot a slot al else Ret al) (\<lambda>al.
     Ret (if addrMod then DeleteAddress a al else al))"

lemma AddSlot_ok:
  assumes "al_ok al"
  obtains b c al' where "AddSlot a slot al = Ret ((b, c), al')" "al_ok al'" "undo_slot b c a slot al' = Ret al"
proof (cases "addresses al a = None \<or> addresses al a = Some (-1)")
  case True
  let ?al' = "al\<lparr> addresses := (addresses al)(a \<mapsto> int (length (slots al))), slots := slots al @ [{slot}] \<rparr>"
  have "AddSlot a slot al = Ret ((addresses al a = None, True), ?al')"
    using True by (auto simp: AddSlot_def Let_def)
  moreover have "al_ok ?al'" using al_okD [OF assms] by (auto simp: nth_append less_Suc_eq intro!: al_okI split: if_splits)
  moreover have "undo_slot (addresses al a = None) True a slot ?al' = Ret al"
    using True by (auto simp: undo_slot_def DeleteSlot_def slots_at_def index_go_def DeleteAddress_def fun_upd_idem)
  ultimately show thesis by (rule that)
next
  case False
  then obtain idx where idx: "addresses al a = Some idx" "idx \<noteq> -1" by auto
  note at = slots_at_ok [OF assms idx]
  show thesis
  proof (cases "slot \<in> slots al ! nat idx")
    case True
    then show thesis using that [of False False al] idx at assms
      by (simp add: AddSlot_def Let_def undo_slot_def)
  next
    case False
    let ?al' = "al\<lparr> slots := (slots al)[nat idx := insert slot (slots al ! nat idx)] \<rparr>"
    have "AddSlot a slot al = Ret ((False, True), ?al')" using False idx at by (simp add: AddSlot_def Let_def)
    moreover have "al_ok ?al'" using al_okD [OF assms] at by (auto simp: nth_list_update intro!: al_okI split: if_splits)
    moreover have "undo_slot False True a slot ?al' = Ret al"
      using False idx at by (auto simp: undo_slot_def DeleteSlot_def slots_at_def index_go_def split: if_splits)
    ultimately show thesis by (rule that)
  qed
qed

end
