(* ===== verification/State_Object.thy ===== *)
theory State_Object
  imports Rlp_Correct
begin

text \<open>
  Accounts: \<^verbatim>\<open>src/blockchain/state/state_object.go\<close> and \<^verbatim>\<open>src/blockchain/model/state_account.go\<close>.

  \<^item> \<^verbatim>\<open>StateDatabase\<close>, \<^verbatim>\<open>Trie\<close> and \<^verbatim>\<open>snapshot.Snapshot\<close> are Go interfaces: records of the operations
    that reading the state uses, over an abstract type \<open>'t\<close> of tries. A Go result with an error is a
    pair.
  \<^item> A state object is a value; the database keeps it under its address. A nil code is the empty
    byte string (\<^verbatim>\<open>Code\<close> returns the same for both).
  \<^item> \<^verbatim>\<open>newObject\<close> gives nil fields of an account their defaults: the model's accounts have a balance
    and a code hash, so that only the zero storage root is left to replace.
  \<^item> The trie prefetcher and the time measurements, which do not change any result, are left out.
\<close>

section \<open>Interfaces\<close>

record StateAccount =
  acc_Nonce :: u64
  acc_Balance :: int
  acc_Root :: hash
  acc_CodeHash :: hash

record 't StateDatabase =
  Keccak256 :: "bytes \<Rightarrow> hash"
  OpenTrie :: "hash \<Rightarrow> string + 't"
  OpenStorageTrie :: "hash \<Rightarrow> hash \<Rightarrow> string + 't"
  CopyTrie :: "'t \<Rightarrow> 't"
  ContractCode :: "hash \<Rightarrow> hash \<Rightarrow> bytes \<times> string option"
  ContractCodeSize :: "hash \<Rightarrow> hash \<Rightarrow> nat \<times> string option"
  TryGet :: "'t \<Rightarrow> bytes \<Rightarrow> bytes \<times> string option"
  DecodeAccount :: "bytes \<Rightarrow> StateAccount option"

record slim_account =
  slim_Nonce :: u64
  slim_Balance :: int
  slim_Root :: bytes
  slim_CodeHash :: bytes

record snapshot =
  snap_Account :: "hash \<Rightarrow> slim_account option \<times> string option"
  snap_Storage :: "hash \<Rightarrow> hash \<Rightarrow> bytes \<times> string option"

datatype state_error =
    DbError string
  | StorageTrieError string
  | CodeError hash string
  | CodeSizeError hash string
  | SlotError split_error
  | AccountError address string

section \<open>State objects\<close>

type_synonym storage = "hash \<Rightarrow> hash option"

record 't stateObject =
  so_address :: address
  so_addrHash :: hash
  so_data :: StateAccount
  so_dbErr :: "state_error option"
  so_trie :: "'t option"
  so_code :: bytes
  originStorage :: storage
  pendingStorage :: storage
  dirtyStorage :: storage
  fakeStorage :: "storage option"
  dirtyCode :: bool
  suicided :: bool
  deleted :: bool

definition emptyRoot :: hash where
  "emptyRoot = 0x56e81f171bcc55a6ff8345e692c0f86e5b48e01b996cadc001622fb5e363b421"

definition obj_emptyCodeHash :: "'t StateDatabase \<Rightarrow> hash" where
  "obj_emptyCodeHash sdb = Keccak256 sdb []"

definition empty_obj :: "'t StateDatabase \<Rightarrow> 't stateObject \<Rightarrow> bool" where
  "empty_obj sdb obj =
     (acc_Nonce (so_data obj) = 0 \<and> acc_Balance (so_data obj) = 0
      \<and> acc_CodeHash (so_data obj) = obj_emptyCodeHash sdb)"

text \<open>\<^verbatim>\<open>model.StateAccount{}\<close>.\<close>

definition empty_account :: "'t StateDatabase \<Rightarrow> StateAccount" where
  "empty_account sdb = \<lparr> acc_Nonce = 0, acc_Balance = 0, acc_Root = 0, acc_CodeHash = obj_emptyCodeHash sdb \<rparr>"

definition newObject :: "'t StateDatabase \<Rightarrow> address \<Rightarrow> StateAccount \<Rightarrow> 't stateObject" where
  "newObject sdb addr data =
     \<lparr> so_address = addr, so_addrHash = Keccak256 sdb (address_bytes addr),
       so_data = (if acc_Root data = 0 then data\<lparr> acc_Root := emptyRoot \<rparr> else data),
       so_dbErr = None, so_trie = None, so_code = [],
       originStorage = (\<lambda>_. None), pendingStorage = (\<lambda>_. None), dirtyStorage = (\<lambda>_. None),
       fakeStorage = None, dirtyCode = False, suicided = False, deleted = False \<rparr>"

definition obj_setError :: "state_error \<Rightarrow> 't stateObject \<Rightarrow> 't stateObject" where
  "obj_setError err obj = (if so_dbErr obj = None then obj\<lparr> so_dbErr := Some err \<rparr> else obj)"

definition markSuicided :: "'t stateObject \<Rightarrow> 't stateObject" where
  "markSuicided obj = obj\<lparr> suicided := True \<rparr>"

text \<open>Opening the storage trie; when even the empty trie cannot be opened the result is nil, and
  its first use fails.\<close>

definition getTrie :: "'t StateDatabase \<Rightarrow> 't stateObject \<Rightarrow> ('t \<times> 't stateObject) go" where
  "getTrie sdb obj =
     (case so_trie obj of
        Some t \<Rightarrow> Ret (t, obj)
      | None \<Rightarrow>
          (case OpenStorageTrie sdb (so_addrHash obj) (acc_Root (so_data obj)) of
             Inr t \<Rightarrow> Ret (t, obj\<lparr> so_trie := Some t \<rparr>)
           | Inl err \<Rightarrow>
               (case OpenStorageTrie sdb (so_addrHash obj) 0 of
                  Inr t \<Rightarrow> Ret (t, obj_setError (StorageTrieError err) (obj\<lparr> so_trie := Some t \<rparr>))
                | Inl _ \<Rightarrow> Panic RuntimeError)))"

text \<open>The encoded slot, or nothing after an error: from the snapshot, or from the storage trie
  when there is no snapshot or it fails.\<close>

definition trie_slot :: "'t StateDatabase \<Rightarrow> hash \<Rightarrow> 't stateObject \<Rightarrow> (bytes option \<times> 't stateObject) go" where
  "trie_slot sdb key obj =
     go_bind (getTrie sdb obj) (\<lambda>(t, obj).
     case TryGet sdb t (hash_bytes key) of
       (_, Some err) \<Rightarrow> Ret (None, obj_setError (DbError err) obj)
     | (enc, None) \<Rightarrow> Ret (Some enc, obj))"

definition read_slot ::
  "'t StateDatabase \<Rightarrow> snapshot option \<Rightarrow> hash \<Rightarrow> 't stateObject \<Rightarrow> (bytes option \<times> 't stateObject) go" where
  "read_slot sdb snap key obj =
     (case snap of
        None \<Rightarrow> trie_slot sdb key obj
      | Some sn \<Rightarrow>
          (case snap_Storage sn (so_addrHash obj) (Keccak256 sdb (hash_bytes key)) of
             (enc, None) \<Rightarrow> Ret (Some enc, obj)
           | (_, Some _) \<Rightarrow> trie_slot sdb key obj))"

definition cache_slot :: "hash \<Rightarrow> bytes \<Rightarrow> 't stateObject \<Rightarrow> (hash \<times> 't stateObject) go" where
  "cache_slot key enc obj =
     go_bind (if 0 < length enc then
                go_bind (Split enc) (\<lambda>r. case r of
                  Inl err \<Rightarrow> Ret (BytesToHash [], obj_setError (SlotError err) obj)
                | Inr (_, content, _) \<Rightarrow> Ret (BytesToHash content, obj))
              else Ret (0, obj)) (\<lambda>(value, obj).
     Ret (value, obj\<lparr> originStorage := (originStorage obj)(key \<mapsto> value) \<rparr>))"

definition obj_GetCommittedState ::
  "'t StateDatabase \<Rightarrow> snapshot option \<Rightarrow> hash set \<Rightarrow> hash \<Rightarrow> 't stateObject \<Rightarrow> (hash \<times> 't stateObject) go" where
  "obj_GetCommittedState sdb snap snapDestructs key obj =
     (case fakeStorage obj of
        Some fake \<Rightarrow> Ret (case fake key of None \<Rightarrow> 0 | Some v \<Rightarrow> v, obj)
      | None \<Rightarrow>
          (case pendingStorage obj key of
             Some value \<Rightarrow> Ret (value, obj)
           | None \<Rightarrow>
               (case originStorage obj key of
                  Some value \<Rightarrow> Ret (value, obj)
                | None \<Rightarrow>
                    if snap \<noteq> None \<and> so_addrHash obj \<in> snapDestructs then Ret (0, obj)
                    else go_bind (read_slot sdb snap key obj) (\<lambda>(enc, obj). case enc of
                      None \<Rightarrow> Ret (0, obj)
                    | Some enc \<Rightarrow> cache_slot key enc obj))))"

definition obj_GetState ::
  "'t StateDatabase \<Rightarrow> snapshot option \<Rightarrow> hash set \<Rightarrow> hash \<Rightarrow> 't stateObject \<Rightarrow> (hash \<times> 't stateObject) go" where
  "obj_GetState sdb snap snapDestructs key obj =
     (case fakeStorage obj of
        Some fake \<Rightarrow> Ret (case fake key of None \<Rightarrow> 0 | Some v \<Rightarrow> v, obj)
      | None \<Rightarrow>
          (case dirtyStorage obj key of
             Some value \<Rightarrow> Ret (value, obj)
           | None \<Rightarrow> obj_GetCommittedState sdb snap snapDestructs key obj))"

definition obj_SetStorage :: "storage \<Rightarrow> 't stateObject \<Rightarrow> 't stateObject" where
  "obj_SetStorage storage obj =
     obj\<lparr> fakeStorage := Some ((case fakeStorage obj of None \<Rightarrow> (\<lambda>_. None) | Some f \<Rightarrow> f) ++ storage) \<rparr>"

definition setState :: "hash \<Rightarrow> hash \<Rightarrow> 't stateObject \<Rightarrow> 't stateObject" where
  "setState key value obj = obj\<lparr> dirtyStorage := (dirtyStorage obj)(key \<mapsto> value) \<rparr>"

definition finalise :: "'t stateObject \<Rightarrow> 't stateObject" where
  "finalise obj =
     obj\<lparr> pendingStorage := pendingStorage obj ++ dirtyStorage obj, dirtyStorage := (\<lambda>_. None) \<rparr>"

definition setBalance :: "int \<Rightarrow> 't stateObject \<Rightarrow> 't stateObject" where
  "setBalance amount obj = obj\<lparr> so_data := (so_data obj)\<lparr> acc_Balance := amount \<rparr> \<rparr>"

definition deepCopy :: "'t StateDatabase \<Rightarrow> 't stateObject \<Rightarrow> 't stateObject" where
  "deepCopy sdb obj =
     (newObject sdb (so_address obj) (so_data obj))
       \<lparr> so_trie := map_option (CopyTrie sdb) (so_trie obj), so_code := so_code obj,
         dirtyStorage := dirtyStorage obj, originStorage := originStorage obj,
         pendingStorage := pendingStorage obj, suicided := suicided obj,
         dirtyCode := dirtyCode obj, deleted := deleted obj \<rparr>"

definition obj_Code :: "'t StateDatabase \<Rightarrow> 't stateObject \<Rightarrow> bytes \<times> 't stateObject" where
  "obj_Code sdb obj =
     (if so_code obj \<noteq> [] then (so_code obj, obj)
      else if acc_CodeHash (so_data obj) = obj_emptyCodeHash sdb then ([], obj)
      else let (code, err) = ContractCode sdb (so_addrHash obj) (acc_CodeHash (so_data obj));
               obj = (case err of None \<Rightarrow> obj
                      | Some e \<Rightarrow> obj_setError (CodeError (acc_CodeHash (so_data obj)) e) obj)
           in (code, obj\<lparr> so_code := code \<rparr>))"

definition obj_CodeSize :: "'t StateDatabase \<Rightarrow> 't stateObject \<Rightarrow> nat \<times> 't stateObject" where
  "obj_CodeSize sdb obj =
     (if so_code obj \<noteq> [] then (length (so_code obj), obj)
      else if acc_CodeHash (so_data obj) = obj_emptyCodeHash sdb then (0, obj)
      else let (sz, err) = ContractCodeSize sdb (so_addrHash obj) (acc_CodeHash (so_data obj))
           in (sz, case err of None \<Rightarrow> obj
                   | Some e \<Rightarrow> obj_setError (CodeSizeError (acc_CodeHash (so_data obj)) e) obj))"

definition setCode :: "hash \<Rightarrow> bytes \<Rightarrow> 't stateObject \<Rightarrow> 't stateObject" where
  "setCode codeHash code obj =
     obj\<lparr> so_code := code, so_data := (so_data obj)\<lparr> acc_CodeHash := codeHash \<rparr>, dirtyCode := True \<rparr>"

definition setNonce :: "u64 \<Rightarrow> 't stateObject \<Rightarrow> 't stateObject" where
  "setNonce nonce obj = obj\<lparr> so_data := (so_data obj)\<lparr> acc_Nonce := nonce \<rparr> \<rparr>"

end
