(* ===== verification/Uint256.thy ===== *)
theory Uint256
  imports Prelude "HOL-Library.Signed_Division" "HOL-Library.Log_Nat"
begin

text \<open>
  The interface of the third-party package \<^verbatim>\<open>github.com/holiman/uint256\<close>, which the EVM
  calls for its 256-bit arithmetic. The package is not part of the repository: every
  definition of the EVM that calls it takes it as a parameter, a record with one field per
  method the EVM uses. A \<^verbatim>\<open>uint256.Int\<close> ([4]uint64) is the word its limbs spell. A method
  that overwrites its receiver returns the new value.

  \<open>uint256_documented\<close> states the documented behaviour of these methods; it is the
  hypothesis under which properties of the EVM's arithmetic hold. \<open>uint256_words\<close> is an
  instance that has it, on which the witnesses evaluate.
\<close>

record uint256_arith =
  u_Add :: "u256 \<Rightarrow> u256 \<Rightarrow> u256"
  u_Sub :: "u256 \<Rightarrow> u256 \<Rightarrow> u256"
  u_Mul :: "u256 \<Rightarrow> u256 \<Rightarrow> u256"
  u_Div :: "u256 \<Rightarrow> u256 \<Rightarrow> u256"
  u_SDiv :: "u256 \<Rightarrow> u256 \<Rightarrow> u256"
  u_Mod :: "u256 \<Rightarrow> u256 \<Rightarrow> u256"
  u_SMod :: "u256 \<Rightarrow> u256 \<Rightarrow> u256"
  u_Exp :: "u256 \<Rightarrow> u256 \<Rightarrow> u256"
  u_ExtendSign :: "u256 \<Rightarrow> u256 \<Rightarrow> u256"

record uint256_bits = uint256_arith +
  u_Not :: "u256 \<Rightarrow> u256"
  u_And :: "u256 \<Rightarrow> u256 \<Rightarrow> u256"
  u_Or :: "u256 \<Rightarrow> u256 \<Rightarrow> u256"
  u_Xor :: "u256 \<Rightarrow> u256 \<Rightarrow> u256"
  u_Byte :: "u256 \<Rightarrow> u256 \<Rightarrow> u256"
  u_AddMod :: "u256 \<Rightarrow> u256 \<Rightarrow> u256 \<Rightarrow> u256"
  u_MulMod :: "u256 \<Rightarrow> u256 \<Rightarrow> u256 \<Rightarrow> u256"
  u_Lsh :: "u256 \<Rightarrow> u64 \<Rightarrow> u256"
  u_Rsh :: "u256 \<Rightarrow> u64 \<Rightarrow> u256"
  u_SRsh :: "u256 \<Rightarrow> u64 \<Rightarrow> u256"

record uint256_cmp = uint256_bits +
  u_Lt :: "u256 \<Rightarrow> u256 \<Rightarrow> bool"
  u_Gt :: "u256 \<Rightarrow> u256 \<Rightarrow> bool"
  u_Slt :: "u256 \<Rightarrow> u256 \<Rightarrow> bool"
  u_Sgt :: "u256 \<Rightarrow> u256 \<Rightarrow> bool"
  u_Eq :: "u256 \<Rightarrow> u256 \<Rightarrow> bool"
  u_IsZero :: "u256 \<Rightarrow> bool"
  u_Sign :: "u256 \<Rightarrow> int"
  u_LtUint64 :: "u256 \<Rightarrow> u64 \<Rightarrow> bool"
  u_GtUint64 :: "u256 \<Rightarrow> u64 \<Rightarrow> bool"
  u_IsUint64 :: "u256 \<Rightarrow> bool"
  u_Uint64 :: "u256 \<Rightarrow> u64"
  u_Uint64WithOverflow :: "u256 \<Rightarrow> u64 \<times> bool"

record uint256_lib = uint256_cmp +
  u_BitLen :: "u256 \<Rightarrow> nat"
  u_Clear :: u256
  u_SetOne :: u256
  u_SetAllOne :: u256
  u_SetUint64 :: "u64 \<Rightarrow> u256"
  u_SetBytes :: "bytes \<Rightarrow> u256"
  u_Bytes32 :: "u256 \<Rightarrow> hash"
  u_Bytes20 :: "u256 \<Rightarrow> address"
  u_ToBig :: "u256 \<Rightarrow> int"
  u_FromBig :: "int \<Rightarrow> u256"

text \<open>Signed quotient and remainder truncate towards zero; a zero divisor gives zero. The sign
  extension replicates the top bit of byte \<open>b\<close> (counted from the least significant one).\<close>

definition sdiv256 :: "u256 \<Rightarrow> u256 \<Rightarrow> u256" where
  "sdiv256 x y = (if y = 0 then 0 else word_of_int (sint x sdiv sint y))"

definition smod256 :: "u256 \<Rightarrow> u256 \<Rightarrow> u256" where
  "smod256 x y = (if y = 0 then 0 else word_of_int (sint x smod sint y))"

definition extend256 :: "u256 \<Rightarrow> u256 \<Rightarrow> u256" where
  "extend256 x b =
     (if unat b < 31 then word_of_int (signed_take_bit (8 * unat b + 7) (uint x)) else x)"

definition byte256 :: "u256 \<Rightarrow> u256 \<Rightarrow> u256" where
  "byte256 x n = (if unat n < 32 then word_of_nat (unat x div 256 ^ (31 - unat n) mod 256) else 0)"

fun pow256 :: "u256 \<Rightarrow> nat \<Rightarrow> u256" where
  "pow256 b e = (if e = 0 then 1
     else let h = pow256 (b * b) (e div 2) in if odd e then b * h else h)"

declare pow256.simps [simp del]

lemma pow256_power: "pow256 b e = b ^ e"
proof (induction b e rule: pow256.induct)
  case (1 b e)
  show ?case
  proof (cases "e = 0")
    case True
    then show ?thesis by (simp add: pow256.simps)
  next
    case False
    have "b ^ e = (b * b) ^ (e div 2) * b ^ (e mod 2)"
      by (metis power_add power_mult power2_eq_square mult_div_mod_eq)
    with 1 [OF False] False show ?thesis
      by (auto simp: pow256.simps [of b e] Let_def odd_iff_mod_2_eq_one mult.commute)
  qed
qed

definition uint256_documented :: "uint256_lib \<Rightarrow> bool" where
  "uint256_documented U \<longleftrightarrow>
     u_Add U = (+) \<and> u_Sub U = (-) \<and> u_Mul U = (*)
     \<and> u_Div U = (\<lambda>x y. if y = 0 then 0 else x div y) \<and> u_SDiv U = sdiv256
     \<and> u_Mod U = (\<lambda>x y. if y = 0 then 0 else x mod y) \<and> u_SMod U = smod256
     \<and> u_Exp U = (\<lambda>b e. b ^ unat e) \<and> u_ExtendSign U = extend256
     \<and> u_Not U = NOT \<and> u_And U = (AND) \<and> u_Or U = (OR) \<and> u_Xor U = (XOR)
     \<and> u_Byte U = byte256
     \<and> u_AddMod U = (\<lambda>x y m. if m = 0 then 0 else word_of_nat ((unat x + unat y) mod unat m))
     \<and> u_MulMod U = (\<lambda>x y m. if m = 0 then 0 else word_of_nat ((unat x * unat y) mod unat m))
     \<and> u_Lsh U = (\<lambda>x n. push_bit (unat n) x) \<and> u_Rsh U = (\<lambda>x n. drop_bit (unat n) x)
     \<and> u_SRsh U = (\<lambda>x n. signed_drop_bit (unat n) x)
     \<and> u_Lt U = (<) \<and> u_Gt U = (\<lambda>x y. y < x)
     \<and> u_Slt U = (\<lambda>x y. sint x < sint y) \<and> u_Sgt U = (\<lambda>x y. sint y < sint x)
     \<and> u_Eq U = (=) \<and> u_IsZero U = (\<lambda>x. x = 0) \<and> u_Sign U = (\<lambda>x. sgn (sint x))
     \<and> u_LtUint64 U = (\<lambda>x n. unat x < unat n) \<and> u_GtUint64 U = (\<lambda>x n. unat n < unat x)
     \<and> u_IsUint64 U = (\<lambda>x. unat x < 2 ^ 64) \<and> u_Uint64 U = ucast
     \<and> u_Uint64WithOverflow U = (\<lambda>x. (ucast x, \<not> unat x < 2 ^ 64))
     \<and> u_BitLen U = (\<lambda>x. floorlog 2 (unat x))
     \<and> u_Clear U = 0 \<and> u_SetOne U = 1 \<and> u_SetAllOne U = - 1
     \<and> u_SetUint64 U = ucast \<and> u_SetBytes U = (\<lambda>b. word_of_nat (be_nat b))
     \<and> u_Bytes32 U = (\<lambda>x. x) \<and> u_Bytes20 U = ucast
     \<and> u_ToBig U = uint \<and> u_FromBig U = word_of_int"

definition uint256_words :: uint256_lib where
  "uint256_words = \<lparr>
     u_Add = (+), u_Sub = (-), u_Mul = (*),
     u_Div = (\<lambda>x y. if y = 0 then 0 else x div y), u_SDiv = sdiv256,
     u_Mod = (\<lambda>x y. if y = 0 then 0 else x mod y), u_SMod = smod256,
     u_Exp = (\<lambda>b e. pow256 b (unat e)), u_ExtendSign = extend256,
     u_Not = NOT, u_And = (AND), u_Or = (OR), u_Xor = (XOR), u_Byte = byte256,
     u_AddMod = (\<lambda>x y m. if m = 0 then 0 else word_of_nat ((unat x + unat y) mod unat m)),
     u_MulMod = (\<lambda>x y m. if m = 0 then 0 else word_of_nat ((unat x * unat y) mod unat m)),
     u_Lsh = (\<lambda>x n. push_bit (unat n) x), u_Rsh = (\<lambda>x n. drop_bit (unat n) x),
     u_SRsh = (\<lambda>x n. signed_drop_bit (unat n) x),
     u_Lt = (<), u_Gt = (\<lambda>x y. y < x),
     u_Slt = (\<lambda>x y. sint x < sint y), u_Sgt = (\<lambda>x y. sint y < sint x),
     u_Eq = (=), u_IsZero = (\<lambda>x. x = 0), u_Sign = (\<lambda>x. sgn (sint x)),
     u_LtUint64 = (\<lambda>x n. unat x < unat n), u_GtUint64 = (\<lambda>x n. unat n < unat x),
     u_IsUint64 = (\<lambda>x. unat x < 2 ^ 64), u_Uint64 = ucast,
     u_Uint64WithOverflow = (\<lambda>x. (ucast x, \<not> unat x < 2 ^ 64)),
     u_BitLen = (\<lambda>x. floorlog 2 (unat x)),
     u_Clear = 0, u_SetOne = 1, u_SetAllOne = - 1,
     u_SetUint64 = ucast, u_SetBytes = (\<lambda>b. word_of_nat (be_nat b)),
     u_Bytes32 = (\<lambda>x. x), u_Bytes20 = ucast, u_ToBig = uint, u_FromBig = word_of_int \<rparr>"

lemma uint256_words_documented: "uint256_documented uint256_words"
  by (simp add: uint256_documented_def uint256_words_def pow256_power)

text \<open>The documented behaviour as rewrite rules, for use under the hypothesis.\<close>

lemma uint256_rules:
  assumes "uint256_documented U"
  shows "u_Add U x y = x + y" "u_IsZero U x \<longleftrightarrow> x = 0" "u_IsUint64 U x \<longleftrightarrow> unat x < 2 ^ 64"
    "u_Uint64 U x = ucast x" "u_Uint64WithOverflow U x = (ucast x, \<not> unat x < 2 ^ 64)"
    "u_Sign U x = sgn (sint x)" "u_ToBig U x = uint x" "u_FromBig U i = word_of_int i"
    "u_Clear U = 0" "u_SetOne U = 1" "u_SetAllOne U = - 1" "u_Bytes32 U x = x"
    "u_Bytes20 U x = ucast x" "u_SetUint64 U n = ucast n" "u_SetBytes U b = word_of_nat (be_nat b)"
    "u_LtUint64 U x n \<longleftrightarrow> unat x < unat n" "u_GtUint64 U x n \<longleftrightarrow> unat n < unat x"
    "u_Lsh U x n = push_bit (unat n) x" "u_Rsh U x n = drop_bit (unat n) x"
    "u_SRsh U x n = signed_drop_bit (unat n) x"
  using assms by (simp_all add: uint256_documented_def)

end
