(* ===== verification/Evm_Memory.thy ===== *)
theory Evm_Memory
  imports Uint256
begin

text \<open>
  The data areas of the virtual machine and the helpers around them:
  \<^verbatim>\<open>src/evm/stack.go\<close>, \<^verbatim>\<open>src/evm/memory.go\<close>, \<^verbatim>\<open>src/evm/common.go\<close>, the overflow-checked
  arithmetic of \<^verbatim>\<open>src/common/mathutil/integer.go\<close>, the padding functions of
  \<^verbatim>\<open>src/common/bytes.go\<close> and the errors of \<^verbatim>\<open>src/evm/errors.go\<close>.

  The stack is the list of its items with the TOP FIRST: the element \<^verbatim>\<open>data[len-1-n]\<close> of the
  Go slice is the element \<open>n\<close> of the list. A pointer obtained by \<^verbatim>\<open>peek\<close> is only used to
  overwrite the top of the stack, which is \<open>poke\<close>. An \<^verbatim>\<open>int64\<close> is a 64-bit word read with
  \<open>sint\<close>. The capacity of a slice is taken to be its length, so that an access between the
  two is a panic here; the safety theorems show that no such access happens.
\<close>

section \<open>Errors\<close>

datatype vm_error =
    ErrOutOfGas | ErrCodeStoreOutOfGas | ErrDepth | ErrInsufficientBalance
  | ErrContractAddressCollision | ErrExecutionReverted | ErrMaxCodeSizeExceeded
  | ErrInvalidJump | ErrWriteProtection | ErrReturnDataOutOfBounds | ErrGasUintOverflow
  | ErrInvalidCode | ErrNonceUintOverflow | errStopToken
  | ErrStackUnderflow nat nat | ErrStackOverflow nat nat | ErrInvalidOpCode u8
  | ErrReentrancySentry

section \<open>Checked arithmetic and byte strings\<close>

definition SafeSub :: "u64 \<Rightarrow> u64 \<Rightarrow> u64 \<times> bool" where
  "SafeSub x y = (x - y, x < y)"

definition SafeAdd :: "u64 \<Rightarrow> u64 \<Rightarrow> u64 \<times> bool" where
  "SafeAdd x y = (x + y, 2 ^ 64 \<le> unat x + unat y)"

definition SafeMul :: "u64 \<Rightarrow> u64 \<Rightarrow> u64 \<times> bool" where
  "SafeMul x y = (x * y, 2 ^ 64 \<le> unat x * unat y)"

definition RightPadBytes :: "bytes \<Rightarrow> int \<Rightarrow> bytes" where
  "RightPadBytes bs l =
     (if l \<le> int (length bs) then bs else bs @ replicate (nat l - length bs) 0)"

definition LeftPadBytes :: "bytes \<Rightarrow> int \<Rightarrow> bytes" where
  "LeftPadBytes bs l =
     (if l \<le> int (length bs) then bs else replicate (nat l - length bs) 0 @ bs)"

text \<open>\<^verbatim>\<open>copy(dst[off:], src)\<close>: as many bytes of the source as fit.\<close>

definition copy_at :: "bytes \<Rightarrow> nat \<Rightarrow> bytes \<Rightarrow> bytes" where
  "copy_at dst off src =
     take off dst @ take (length dst - off) src @ drop (off + length src) dst"

text \<open>\<^verbatim>\<open>xs[lo:hi]\<close> with bounds of type \<^verbatim>\<open>int64\<close>, and \<^verbatim>\<open>make([]byte, n)\<close>.\<close>

definition slice_int :: "'a list \<Rightarrow> int \<Rightarrow> int \<Rightarrow> 'a list go" where
  "slice_int xs lo hi = (if 0 \<le> lo \<and> 0 \<le> hi then slice_go xs (nat lo) (nat hi) else Panic RuntimeError)"

definition make_bytes :: "int \<Rightarrow> bytes go" where
  "make_bytes n = (if 0 \<le> n \<and> n < 2 ^ 63 then Ret (replicate (nat n) 0) else Panic RuntimeError)"

section \<open>The stack\<close>

type_synonym stack = "u256 list"

definition push :: "u256 \<Rightarrow> stack \<Rightarrow> stack" where
  "push d st = d # st"

definition pop :: "stack \<Rightarrow> (u256 \<times> stack) go" where
  "pop st = (case st of [] \<Rightarrow> Panic RuntimeError | x # xs \<Rightarrow> Ret (x, xs))"

definition peek :: "stack \<Rightarrow> u256 go" where
  "peek st = index_go st 0"

definition poke :: "u256 \<Rightarrow> stack \<Rightarrow> stack go" where
  "poke v st = store_go st 0 v"

definition Back :: "nat \<Rightarrow> stack \<Rightarrow> u256 go" where
  "Back n st = index_go st n"

definition dup :: "nat \<Rightarrow> stack \<Rightarrow> stack go" where
  "dup n st = (if 1 \<le> n \<and> n \<le> length st then Ret (push (st ! (n - 1)) st) else Panic RuntimeError)"

definition swap :: "nat \<Rightarrow> stack \<Rightarrow> stack go" where
  "swap n st = (if 1 \<le> n \<and> n \<le> length st
     then Ret (st[0 := st ! (n - 1), n - 1 := st ! 0]) else Panic RuntimeError)"

section \<open>The memory\<close>

record Memory =
  store :: bytes
  lastGasCost :: u64

definition NewMemory :: Memory where
  "NewMemory = \<lparr> store = [], lastGasCost = 0 \<rparr>"

definition Memory_Set :: "u64 \<Rightarrow> u64 \<Rightarrow> bytes \<Rightarrow> Memory \<Rightarrow> Memory go" where
  "Memory_Set offset sz value m =
     (if sz > 0 then
        if offset + sz > word_of_nat (length (store m))
        then Panic (PanicMsg ''invalid memory: store empty'')
        else go_bind (slice_go (store m) (unat offset) (unat (offset + sz)))
          (\<lambda>_. Ret (m\<lparr> store := copy_at (store m) (unat offset) (take (unat sz) value) \<rparr>))
      else Ret m)"

definition Set32 :: "uint256_lib \<Rightarrow> u64 \<Rightarrow> u256 \<Rightarrow> Memory \<Rightarrow> Memory go" where
  "Set32 U offset val m =
     (if offset + 32 > word_of_nat (length (store m))
      then Panic (PanicMsg ''invalid memory: store empty'')
      else go_bind (slice_go (store m) (unat offset) (length (store m)))
        (\<lambda>_. Ret (m\<lparr> store := copy_at (store m) (unat offset) (hash_bytes (u_Bytes32 U val)) \<rparr>)))"

definition Memory_Len :: "Memory \<Rightarrow> nat" where
  "Memory_Len m = length (store m)"

definition Resize :: "u64 \<Rightarrow> Memory \<Rightarrow> Memory" where
  "Resize sz m =
     (if word_of_nat (Memory_Len m) < sz
      then m\<lparr> store := store m @ replicate (unat (sz - word_of_nat (Memory_Len m))) 0 \<rparr>
      else m)"

definition GetCopy :: "u64 \<Rightarrow> u64 \<Rightarrow> Memory \<Rightarrow> bytes go" where
  "GetCopy offset sz m =
     (if sz = 0 then Ret []
      else if int (length (store m)) > sint offset then
        go_bind (make_bytes (sint sz)) (\<lambda>cpy.
        go_bind (slice_int (store m) (sint offset) (sint (offset + sz))) (\<lambda>src.
        Ret (copy_at cpy 0 src)))
      else Ret [])"

definition GetPtr :: "u64 \<Rightarrow> u64 \<Rightarrow> Memory \<Rightarrow> bytes go" where
  "GetPtr offset sz m =
     (if sz = 0 then Ret []
      else if int (length (store m)) > sint offset
        then slice_int (store m) (sint offset) (sint (offset + sz))
      else Ret [])"

section \<open>Sizes\<close>

definition calcMemSize64WithUint :: "uint256_lib \<Rightarrow> u256 \<Rightarrow> u64 \<Rightarrow> u64 \<times> bool" where
  "calcMemSize64WithUint U off length64 =
     (if length64 = 0 then (0, False)
      else let (offset64, overflow) = u_Uint64WithOverflow U off in
        if overflow then (0, True)
        else let val = offset64 + length64 in (val, val < offset64))"

definition calcMemSize64 :: "uint256_lib \<Rightarrow> u256 \<Rightarrow> u256 \<Rightarrow> u64 \<times> bool" where
  "calcMemSize64 U off l =
     (if \<not> u_IsUint64 U l then (0, True) else calcMemSize64WithUint U off (u_Uint64 U l))"

definition getData :: "bytes \<Rightarrow> u64 \<Rightarrow> u64 \<Rightarrow> bytes go" where
  "getData data start sz =
     (let len = word_of_nat (length data);
          start = (if start > len then len else start);
          end' = start + sz;
          end' = (if end' > len then len else end')
      in go_bind (slice_go data (unat start) (unat end')) (\<lambda>d. Ret (RightPadBytes d (sint sz))))"

definition toWordSize :: "u64 \<Rightarrow> u64" where
  "toWordSize sz = (if sz > (- 1) - 31 then (- 1) div 32 + 1 else (sz + 31) div 32)"

definition allZero :: "bytes \<Rightarrow> bool" where
  "allZero b = list_all (\<lambda>x. x = 0) b"

section \<open>Word arithmetic without wrap-around\<close>

lemma unat_u64_less [simp]: "unat (x :: u64) < 2 ^ 64"
  using unsigned_less [of x, where 'a = nat] by simp

lemma unat_u64_add:
  "unat (x :: u64) + unat y < 2 ^ 64 \<Longrightarrow> unat (x + y) = unat x + unat y"
  using unat_add_lem [of x y] by simp

lemma unat_u64_mult:
  "unat (x :: u64) * unat y < 2 ^ 64 \<Longrightarrow> unat (x * y) = unat x * unat y"
  using unat_mult_lem [of x y] by simp

lemma unat_u64_sub: "y \<le> (x :: u64) \<Longrightarrow> unat (x - y) = unat x - unat y"
  by (rule unat_sub)

lemma unat_u64_of_nat: "n < 2 ^ 64 \<Longrightarrow> unat (word_of_nat n :: u64) = n"
  by (simp add: unat_of_nat)

lemma sint_u64_unat:
  assumes "unat (x :: u64) < 2 ^ 63"
  shows "sint x = int (unat x)"
proof -
  have u: "uint x = int (unat x)" by simp
  from assms have "int (unat x) < 2 ^ 63" by (metis of_nat_less_iff of_nat_numeral of_nat_power)
  with u have "uint x < 2 ^ 63" by simp
  moreover have "- (2 ^ 63) \<le> uint x" by (rule order_trans [OF _ unsigned_greater_eq]) simp
  ultimately show ?thesis by (simp add: sint_uint signed_take_bit_int_eq_self_iff)
qed

lemma sint_u64_rules:
  assumes "unat (x :: u64) < 2 ^ 63"
  shows "0 \<le> sint x" "nat (sint x) = unat x" "sint x < int n \<longleftrightarrow> unat x < n"
    "sint x \<le> int n \<longleftrightarrow> unat x \<le> n" "sint x < 2 ^ 63"
proof -
  obtain k where k: "unat x = k" "sint x = int k" using sint_u64_unat [OF assms] by blast
  show "0 \<le> sint x" "nat (sint x) = unat x" "sint x < int n \<longleftrightarrow> unat x < n"
    "sint x \<le> int n \<longleftrightarrow> unat x \<le> n" "sint x < 2 ^ 63"
    using k assms by auto
qed

lemma unat_ucast_u64: "unat (x :: u256) < 2 ^ 64 \<Longrightarrow> unat (ucast x :: u64) = unat x"
  by (simp add: unsigned_ucast_eq take_bit_nat_eq_self)

lemma unat_u64_add_wraps:
  assumes "2 ^ 64 \<le> unat (x :: u64) + unat y"
  shows "unat (x + y) = unat x + unat y - 2 ^ 64"
proof -
  have "unat x + unat y - 2 ^ 64 < 2 ^ 64"
    using assms unat_u64_less [of x] unat_u64_less [of y] by linarith
  moreover have "unat (x + y) = (unat x + unat y) mod 2 ^ 64" by (simp add: unat_word_ariths)
  ultimately show ?thesis using assms by (simp only: le_mod_geq mod_less)
qed

lemma u64_add_less_iff: "(x :: u64) + y < x \<longleftrightarrow> 2 ^ 64 \<le> unat x + unat y"
proof (cases "unat x + unat y < 2 ^ 64")
  case True
  then show ?thesis by (simp add: word_less_nat_alt unat_u64_add)
next
  case False
  then have "unat (x + y) = unat x + unat y - 2 ^ 64" by (intro unat_u64_add_wraps) simp
  with False unat_u64_less [of y] show ?thesis by (simp add: word_less_nat_alt)
qed

lemma SafeAdd_False: "SafeAdd x y = (z, False) \<longleftrightarrow> z = x + y \<and> unat x + unat y < 2 ^ 64"
  by (auto simp: SafeAdd_def)

lemma SafeMul_False: "SafeMul x y = (z, False) \<longleftrightarrow> z = x * y \<and> unat x * unat y < 2 ^ 64"
  by (auto simp: SafeMul_def)

lemma toWordSize_unat: "unat (toWordSize n) = (unat n + 31) div 32"
proof (cases "n > (- 1) - 31")
  case True
  then have "2 ^ 64 - 32 < unat n" by (simp add: word_less_nat_alt)
  then have "(unat n + 31) div 32 = 2 ^ 59"
    using unat_u64_less [of n] by (intro div_nat_eqI) simp_all
  moreover have "unat ((- 1 :: u64) div 32 + 1) = 2 ^ 59" by (simp add: unat_div)
  ultimately show ?thesis using True by (simp add: toWordSize_def)
next
  case False
  then have "unat n \<le> 2 ^ 64 - 32" by (simp add: word_less_nat_alt)
  then have "unat (n + 31) = unat n + 31" by (subst unat_u64_add) simp_all
  with False show ?thesis by (simp add: toWordSize_def unat_div)
qed

section \<open>The stack operations\<close>

lemma pop_Ret [go_simps]: "pop st = Ret (x, st') \<longleftrightarrow> st = x # st'"
  by (auto simp: pop_def split: list.splits)

lemma pop_Cons [simp]: "pop (x # xs) = Ret (x, xs)"
  by (simp add: pop_def)

lemma peek_Cons [simp]: "peek (x # xs) = Ret x"
  by (simp add: peek_def index_go_def)

lemma poke_Cons [simp]: "poke v (x # xs) = Ret (v # xs)"
  by (simp add: poke_def store_go_def)

lemma Back_less [simp]: "n < length st \<Longrightarrow> Back n st = Ret (st ! n)"
  by (simp add: Back_def index_go_def)

section \<open>The memory operations\<close>

lemma length_copy_at [simp]:
  "off + length src \<le> length dst \<Longrightarrow> length (copy_at dst off src) = length dst"
  by (simp add: copy_at_def)

lemma copy_at_nth:
  assumes "off + length src \<le> length dst" "i < length dst"
  shows "copy_at dst off src ! i = (if off \<le> i \<and> i < off + length src then src ! (i - off) else dst ! i)"
  using assms by (auto simp: copy_at_def nth_append min_def)

lemma Memory_Set_Ret:
  assumes "sz = 0 \<or> unat offset + unat sz \<le> length (store m)" "length (store m) < 2 ^ 64"
  shows "Memory_Set offset sz value m =
    Ret (m\<lparr> store := copy_at (store m) (unat offset) (take (unat sz) value) \<rparr>)"
proof (cases "sz = 0")
  case True
  then show ?thesis by (simp add: Memory_Set_def copy_at_def)
next
  case False
  with assms have l: "unat offset + unat sz \<le> length (store m)" by simp
  with assms have "unat (offset + sz) = unat offset + unat sz" by (intro unat_u64_add) simp
  with l False assms(2) show ?thesis
    by (simp add: Memory_Set_def slice_go_def word_less_nat_alt unat_u64_of_nat unat_gt_0)
qed

lemma Set32_Ret:
  assumes "unat offset + 32 \<le> length (store m)" "length (store m) < 2 ^ 64"
  shows "Set32 U offset val m =
    Ret (m\<lparr> store := copy_at (store m) (unat offset) (hash_bytes (u_Bytes32 U val)) \<rparr>)"
proof -
  have "unat (offset + 32) = unat offset + 32" using assms by (subst unat_u64_add) simp_all
  with assms show ?thesis
    by (simp add: Set32_def slice_go_def word_less_nat_alt unat_u64_of_nat)
qed

lemma slice_int_sint:
  assumes "unat offset + unat sz \<le> length xs" "length xs < 2 ^ 63"
  shows "slice_int xs (sint (offset :: u64)) (sint (offset + sz)) =
    Ret (take (unat sz) (drop (unat offset) xs))"
proof -
  have "unat (offset + sz) = unat offset + unat sz" using assms by (intro unat_u64_add) simp
  moreover have "unat offset < 2 ^ 63" "unat (offset + sz) < 2 ^ 63"
    using calculation assms by linarith+
  ultimately show ?thesis using assms by (simp add: slice_int_def slice_go_def sint_u64_rules)
qed

lemma GetPtr_Ret:
  assumes "sz = 0 \<or> unat offset + unat sz \<le> length (store m)" "length (store m) < 2 ^ 63"
  shows "GetPtr offset sz m = Ret (take (unat sz) (drop (unat offset) (store m)))"
proof (cases "sz = 0")
  case False
  then have z: "0 < unat sz" by (simp add: unat_gt_0)
  with False assms have "unat offset < length (store m)" "unat offset < 2 ^ 63" by linarith+
  with False assms z show ?thesis by (simp add: GetPtr_def slice_int_sint sint_u64_rules)
qed (simp add: GetPtr_def)

lemma GetCopy_Ret:
  assumes "sz = 0 \<or> unat offset + unat sz \<le> length (store m)" "length (store m) < 2 ^ 63"
  shows "GetCopy offset sz m = Ret (take (unat sz) (drop (unat offset) (store m)))"
proof (cases "sz = 0")
  case False
  then have z: "0 < unat sz" by (simp add: unat_gt_0)
  with False assms have "unat offset < length (store m)" "unat offset < 2 ^ 63" "unat sz < 2 ^ 63"
    by linarith+
  with False assms z sint_u64_rules(5) [of sz] show ?thesis
    by (simp add: GetCopy_def slice_int_sint sint_u64_rules make_bytes_def copy_at_def)
qed (simp add: GetCopy_def)

lemma Resize_store:
  assumes "length (store m) < 2 ^ 64"
  shows "store (Resize sz m) = store m @ replicate (unat sz - length (store m)) 0"
proof (cases "word_of_nat (length (store m)) < sz")
  case True
  then have "unat (sz - word_of_nat (length (store m))) = unat sz - length (store m)"
    using assms by (simp add: unat_u64_sub unat_u64_of_nat)
  with True show ?thesis by (simp add: Resize_def Memory_Len_def)
next
  case False
  with assms show ?thesis
    by (simp add: Resize_def Memory_Len_def word_less_nat_alt unat_u64_of_nat)
qed

lemma lastGasCost_Resize [simp]: "lastGasCost (Resize sz m) = lastGasCost m"
  by (simp add: Resize_def)

lemma length_Resize:
  "length (store m) < 2 ^ 64 \<Longrightarrow> length (store (Resize sz m)) = max (length (store m)) (unat sz)"
  by (simp add: Resize_store max_def)

section \<open>The size calculations\<close>

lemma calcMemSize64WithUint_ok:
  assumes U: "uint256_documented U" and r: "calcMemSize64WithUint U off n = (sz, False)"
  shows "n = 0 \<and> sz = 0 \<or> n \<noteq> 0 \<and> unat off < 2 ^ 64 \<and> unat sz = unat off + unat n"
  using r U
  by (auto simp: calcMemSize64WithUint_def uint256_rules [OF U] Let_def u64_add_less_iff
      unat_u64_add unat_ucast_u64 split: if_splits)

lemma calcMemSize64_ok:
  assumes U: "uint256_documented U" and r: "calcMemSize64 U off l = (sz, False)"
  shows "unat l < 2 ^ 64 \<and>
    (l = 0 \<and> sz = 0 \<or> l \<noteq> 0 \<and> unat off < 2 ^ 64 \<and> unat sz = unat off + unat l)"
proof -
  from r U have l: "unat l < 2 ^ 64"
    by (auto simp: calcMemSize64_def uint256_rules [OF U] split: if_splits)
  then have ul: "unat (ucast l :: u64) = unat l" by (rule unat_ucast_u64)
  then have "(ucast l :: u64) = 0 \<longleftrightarrow> l = 0" by (metis unat_eq_zero)
  with l ul calcMemSize64WithUint_ok [OF U, of off "ucast l" sz] r show ?thesis
    by (auto simp: calcMemSize64_def uint256_rules [OF U] split: if_splits)
qed

text \<open>What a slice padded with zeros holds.\<close>

definition padded :: "bytes \<Rightarrow> nat \<Rightarrow> nat \<Rightarrow> bytes" where
  "padded data start n =
     take n (drop start data) @ replicate (n - length (take n (drop start data))) 0"

lemma length_padded [simp]: "length (padded data start n) = n"
  by (simp add: padded_def)

lemma RightPadBytes_sint:
  assumes "unat (sz :: u64) < 2 ^ 63" "length d \<le> unat sz"
  shows "RightPadBytes d (sint sz) = d @ replicate (unat sz - length d) 0"
proof -
  have "sint sz \<le> int (length d) \<longleftrightarrow> unat sz \<le> length d" "nat (sint sz) = unat sz"
    using sint_u64_rules [OF assms(1)] by blast+
  with assms(2) show ?thesis unfolding RightPadBytes_def by simp
qed

lemma getData_Ret:
  assumes "length data < 2 ^ 63" "unat sz < 2 ^ 63"
  shows "getData data start sz = Ret (padded data (unat start) (unat sz))"
proof -
  define len :: u64 where "len = word_of_nat (length data)"
  define s where "s = (if start > len then len else start)"
  define e where "e = (if s + sz > len then len else s + sz)"
  have len: "unat len = length data" using assms by (simp add: len_def unat_u64_of_nat)
  have s: "unat s = min (unat start) (length data)"
    by (simp add: s_def word_less_nat_alt min_def len)
  have "unat (s + sz) = unat s + unat sz"
    using assms s by (intro unat_u64_add) simp
  then have e: "unat e = min (unat s + unat sz) (length data)"
    by (simp add: e_def word_less_nat_alt min_def len)
  have d: "take (unat e - unat s) (drop (unat s) data) = take (unat sz) (drop (unat start) data)"
    unfolding e using s by (auto simp: min_def intro: take_all)
  have "getData data start sz =
    go_bind (slice_go data (unat s) (unat e)) (\<lambda>d. Ret (RightPadBytes d (sint sz)))"
    by (simp add: getData_def Let_def s_def e_def len_def)
  also have "slice_go data (unat s) (unat e) = Ret (take (unat sz) (drop (unat start) data))"
    using d s e by (simp add: slice_go_def)
  finally show ?thesis
    using assms by (simp add: padded_def RightPadBytes_sint)
qed

text \<open>Beyond these sizes the end of the range can wrap around: reading \<open>2 ^ 64 - 1\<close> bytes from the end
  of the data fails.\<close>

lemma getData_overflow: "data \<noteq> [] \<Longrightarrow> length data < 2 ^ 63 \<Longrightarrow>
    getData data (word_of_nat (length data)) (- 1) = Panic RuntimeError"
proof -
  assume d: "data \<noteq> []" "length data < 2 ^ 63"
  let ?len = "word_of_nat (length data) :: u64"
  have len: "unat ?len = length data" using d by (simp add: unat_u64_of_nat)
  then have "?len \<noteq> 0" using d by (metis length_0_conv unsigned_0)
  then have "unat (?len - 1) = length data - 1" using len by (simp add: unat_minus_one)
  moreover have "length data - 1 < length data" using d by simp
  ultimately show ?thesis
    using len by (simp add: getData_def Let_def slice_go_def word_less_nat_alt)
qed

end
