(* ===== verification/Evm_Analysis.thy ===== *)
theory Evm_Analysis
  imports Prelude
begin

text \<open>
  The jump destination analysis of \<^verbatim>\<open>src/evm/analysis.go\<close>: \<open>codeBitmap\<close> walks a contract's
  code once and sets, in a bit vector, the bit of every byte that is the argument of a
  PUSH instruction. The setters write two or three bytes at a time; the upper ones are
  assigned and not or-ed, so that the analysis is right only because the walk moves
  forward. The main results: the analysis never indexes out of the vector, and the bit it
  leaves at a position of the code is clear exactly when the position is the start of an
  instruction, as the reference walk \<open>is_instr_start\<close> defines it.
\<close>

section \<open>Bit vectors\<close>

type_synonym bitvec = "u8 list"

definition or_go :: "bitvec \<Rightarrow> nat \<Rightarrow> u8 \<Rightarrow> bitvec go" where
  "or_go bits i a = go_bind (index_go bits i) (\<lambda>b. store_go bits i (b OR a))"

definition set1 :: "bitvec \<Rightarrow> nat \<Rightarrow> bitvec go" where
  "set1 bits pos = or_go bits (pos div 8) (push_bit (pos mod 8) 1)"

definition setN :: "bitvec \<Rightarrow> u16 \<Rightarrow> nat \<Rightarrow> bitvec go" where
  "setN bits flag pos =
     (let a = push_bit (pos mod 8) flag;
          b = (ucast (drop_bit 8 a) :: u8)
      in go_bind (or_go bits (pos div 8) (ucast a))
           (\<lambda>bits. if b \<noteq> 0 then store_go bits (pos div 8 + 1) b else Ret bits))"

definition set8 :: "bitvec \<Rightarrow> nat \<Rightarrow> bitvec go" where
  "set8 bits pos =
     (let a = (push_bit (pos mod 8) 255 :: u8)
      in go_bind (or_go bits (pos div 8) a)
           (\<lambda>bits. store_go bits (pos div 8 + 1) (NOT a)))"

definition set16 :: "bitvec \<Rightarrow> nat \<Rightarrow> bitvec go" where
  "set16 bits pos =
     (let a = (push_bit (pos mod 8) 255 :: u8)
      in go_bind (or_go bits (pos div 8) a)
           (\<lambda>bits. go_bind (store_go bits (pos div 8 + 1) 255)
             (\<lambda>bits. store_go bits (pos div 8 + 2) (NOT a))))"

definition codeSegment :: "bitvec \<Rightarrow> nat \<Rightarrow> bool go" where
  "codeSegment bits pos =
     go_bind (index_go bits (pos div 8)) (\<lambda>b. Ret (drop_bit (pos mod 8) b AND 1 = 0))"

section \<open>The analysis\<close>

definition PUSH1 :: u8 where "PUSH1 = 0x60"

text \<open>The two inner loops of \<^verbatim>\<open>codeBitmapInternal\<close>; they return the bits left to set.\<close>

fun set16_loop :: "bitvec \<Rightarrow> nat \<Rightarrow> nat \<Rightarrow> (bitvec \<times> nat \<times> nat) go" where
  "set16_loop bits numbits pc =
     (if 16 \<le> numbits
      then go_bind (set16 bits pc) (\<lambda>bits. set16_loop bits (numbits - 16) (pc + 16))
      else Ret (bits, numbits, pc))"

fun set8_loop :: "bitvec \<Rightarrow> nat \<Rightarrow> nat \<Rightarrow> (bitvec \<times> nat \<times> nat) go" where
  "set8_loop bits numbits pc =
     (if 8 \<le> numbits
      then go_bind (set8 bits pc) (\<lambda>bits. set8_loop bits (numbits - 8) (pc + 8))
      else Ret (bits, numbits, pc))"

declare set16_loop.simps [simp del] set8_loop.simps [simp del]

text \<open>The final switch on the number of bits that are left.\<close>

definition set_rest :: "bitvec \<Rightarrow> nat \<Rightarrow> nat \<Rightarrow> (bitvec \<times> nat) go" where
  "set_rest bits numbits pc =
     (if numbits = 1 then go_bind (set1 bits pc) (\<lambda>bits. Ret (bits, pc + 1))
      else if numbits = 2 then go_bind (setN bits 0x3 pc) (\<lambda>bits. Ret (bits, pc + 2))
      else if numbits = 3 then go_bind (setN bits 0x7 pc) (\<lambda>bits. Ret (bits, pc + 3))
      else if numbits = 4 then go_bind (setN bits 0xF pc) (\<lambda>bits. Ret (bits, pc + 4))
      else if numbits = 5 then go_bind (setN bits 0x1F pc) (\<lambda>bits. Ret (bits, pc + 5))
      else if numbits = 6 then go_bind (setN bits 0x3F pc) (\<lambda>bits. Ret (bits, pc + 6))
      else if numbits = 7 then go_bind (setN bits 0x7F pc) (\<lambda>bits. Ret (bits, pc + 7))
      else Ret (bits, pc))"

definition set_push :: "bitvec \<Rightarrow> nat \<Rightarrow> nat \<Rightarrow> (bitvec \<times> nat) go" where
  "set_push bits numbits pc =
     go_bind (if 8 \<le> numbits
              then go_bind (set16_loop bits numbits pc)
                     (\<lambda>(bits, numbits, pc). set8_loop bits numbits pc)
              else Ret (bits, numbits, pc))
       (\<lambda>(bits, numbits, pc). set_rest bits numbits pc)"

text \<open>The walk advances by the size of the push it has marked.\<close>

lemma set16_loop_pc:
  "set16_loop bits n pc = Ret (bits', n', pc') \<Longrightarrow> pc' + n' = pc + n \<and> n' < 16"
proof (induction bits n pc rule: set16_loop.induct)
  case (1 bits n pc)
  then show ?case
    by (auto simp: set16_loop.simps [of bits n pc] go_simps split: if_splits)
qed

lemma set8_loop_pc:
  "set8_loop bits n pc = Ret (bits', n', pc') \<Longrightarrow> pc' + n' = pc + n \<and> n' < 8"
proof (induction bits n pc rule: set8_loop.induct)
  case (1 bits n pc)
  then show ?case
    by (auto simp: set8_loop.simps [of bits n pc] go_simps split: if_splits)
qed

lemma set_rest_pc: "set_rest bits n pc = Ret (bits', pc') \<Longrightarrow> n < 8 \<Longrightarrow> pc' = pc + n"
  by (auto simp: set_rest_def go_simps split: if_splits)

lemma set_push_pc: "set_push bits n pc = Ret (bits', pc') \<Longrightarrow> pc' = pc + n"
  by (auto simp: set_push_def go_simps split: if_splits
      dest!: set16_loop_pc set8_loop_pc set_rest_pc)

function codeBitmapInternal :: "bytes \<Rightarrow> bitvec \<Rightarrow> nat \<Rightarrow> bitvec go" where
  "codeBitmapInternal code bits pc =
     (if pc < length code
      then (let op = code ! pc
            in if sint op < sint PUSH1 then codeBitmapInternal code bits (pc + 1)
               else go_bind (set_push bits (unat (op - PUSH1 + 1)) (pc + 1))
                      (\<lambda>(bits, pc). codeBitmapInternal code bits pc))
      else Ret bits)"
  by pat_completeness auto
termination
  by (relation "measure (\<lambda>(code, bits, pc). length code - pc)") (auto dest: set_push_pc)

definition codeBitmap :: "bytes \<Rightarrow> bitvec go" where
  "codeBitmap code = codeBitmapInternal code (replicate (length code div 8 + 1 + 4) 0) 0"

section \<open>The reference walk\<close>

text \<open>
  The length of the instruction an opcode starts: PUSH1 to PUSH32 are followed by one to
  32 bytes of data, every other instruction is one byte. A position is the start of an
  instruction when the walk that skips whole instructions from the start of the code stops
  at it.
\<close>

definition is_push :: "u8 \<Rightarrow> bool" where
  "is_push op = (0x60 \<le> op \<and> op \<le> 0x7F)"

definition instr_len :: "u8 \<Rightarrow> nat" where
  "instr_len op = (if is_push op then unat op - 0x60 + 2 else 1)"

lemma instr_len_pos [simp]: "0 < instr_len op"
  by (simp add: instr_len_def)

function is_instr_start :: "bytes \<Rightarrow> nat \<Rightarrow> nat \<Rightarrow> bool" where
  "is_instr_start code pc pos =
     (if pc < pos \<and> pc < length code
      then is_instr_start code (pc + instr_len (code ! pc)) pos
      else pc = pos)"
  by pat_completeness auto
termination
  by (relation "measure (\<lambda>(code, pc, pos). pos - pc)") (auto simp: diff_less_mono2)

declare codeBitmapInternal.simps [simp del] is_instr_start.simps [simp del]

section \<open>What the setters write\<close>

definition bvget :: "bitvec \<Rightarrow> nat \<Rightarrow> bool" where
  "bvget bits i = bit (bits ! (i div 8)) (i mod 8)"

text \<open>\<open>clear_from bits pos\<close>: no bit at \<open>pos\<close> or after it is set.
  \<open>fills bits bits' pos n\<close>: \<open>bits'\<close> is \<open>bits\<close> with the \<open>n\<close> bits from \<open>pos\<close> on set.\<close>

definition clear_from :: "bitvec \<Rightarrow> nat \<Rightarrow> bool" where
  "clear_from bits pos = (\<forall>i. pos \<le> i \<longrightarrow> i < 8 * length bits \<longrightarrow> \<not> bvget bits i)"

definition fills :: "bitvec \<Rightarrow> bitvec \<Rightarrow> nat \<Rightarrow> nat \<Rightarrow> bool" where
  "fills bits bits' pos n =
     (length bits' = length bits \<and>
      (\<forall>i < 8 * length bits. bvget bits' i = (bvget bits i \<or> pos \<le> i \<and> i < pos + n)))"

lemma fills_clear_from: "fills bits bits' pos n \<Longrightarrow> clear_from bits pos \<Longrightarrow> clear_from bits' (pos + n)"
  by (auto simp: fills_def clear_from_def)

lemma fills_trans:
  "fills a b pos m \<Longrightarrow> fills b c (pos + m) n \<Longrightarrow> fills a c pos (m + n)"
  by (auto simp: fills_def)

lemma fills_0 [simp]: "fills bits bits pos 0"
  by (auto simp: fills_def)

text \<open>It is enough to look at the bits byte by byte.\<close>

lemma fills_bytewise:
  assumes "length bits' = length bits"
    and "\<And>q r. q < length bits \<Longrightarrow> r < 8 \<Longrightarrow>
           bit (bits' ! q) r = (bit (bits ! q) r \<or> pos \<le> 8 * q + r \<and> 8 * q + r < pos + n)"
  shows "fills bits bits' pos n"
  unfolding fills_def bvget_def
proof (intro conjI allI impI)
  fix i assume "i < 8 * length bits"
  then have "i div 8 < length bits" "i mod 8 < 8" by auto
  from assms(2) [OF this] show "bit (bits' ! (i div 8)) (i mod 8) =
      (bit (bits ! (i div 8)) (i mod 8) \<or> pos \<le> i \<and> i < pos + n)"
    by simp
qed (fact assms(1))

lemma clear_fromD:
  "clear_from bits pos \<Longrightarrow> q < length bits \<Longrightarrow> r < 8 \<Longrightarrow> pos \<le> 8 * q + r \<Longrightarrow> \<not> bit (bits ! q) r"
  unfolding clear_from_def bvget_def
  by (drule spec [of _ "8 * q + r"]) auto

lemma u8_255: "(255 :: u8) = mask 8"
  by (simp add: mask_eq_exp_minus_1)

lemma bit_255_u8: "bit (255 :: u8) r \<longleftrightarrow> r < 8"
  unfolding u8_255 by (auto simp: bit_mask_iff)

lemma bit_mask_u8: "bit (push_bit k 255 :: u8) r \<longleftrightarrow> k \<le> r \<and> r < 8"
  unfolding u8_255 by (auto simp: bit_push_bit_iff bit_mask_iff)

lemma or_go_Ret:
  "or_go bits i a = Ret bits' \<longleftrightarrow> i < length bits \<and> bits' = bits[i := bits ! i OR a]"
  by (auto simp: or_go_def go_simps)

lemma or_go_eval: "i < length bits \<Longrightarrow> or_go bits i a = Ret (bits[i := bits ! i OR a])"
  by (simp add: or_go_Ret)

lemma store_go_eval: "i < length xs \<Longrightarrow> store_go xs i v = Ret (xs[i := v])"
  by (simp add: store_go_def)

lemma byte_split: "(pos :: nat) = 8 * (pos div 8) + pos mod 8" "pos mod 8 < 8"
  by auto

lemma set16_fills:
  assumes clear: "clear_from bits pos" and len: "pos div 8 + 2 < length bits"
  shows "\<exists>bits'. set16 bits pos = Ret bits' \<and> fills bits bits' pos 16"
proof -
  define p k where "p = pos div 8" and "k = pos mod 8"
  have pos: "pos = 8 * p + k" "k < 8" by (auto simp: p_def k_def)
  define full where "full = (255 :: u8)"
  have bit_full: "\<And>r. bit full r \<longleftrightarrow> r < 8" unfolding full_def by (rule bit_255_u8)
  define a where "a = push_bit k full"
  have bit_a: "\<And>r. bit a r \<longleftrightarrow> k \<le> r \<and> r < 8" unfolding a_def full_def by (rule bit_mask_u8)
  let ?bits' = "bits[p := bits ! p OR a, p + 1 := full, p + 2 := NOT a]"
  have "set16 bits pos = Ret ?bits'"
    using len by (simp add: set16_def Let_def or_go_eval store_go_eval flip: p_def k_def a_def full_def)
  moreover have "fills bits ?bits' pos 16"
  proof (rule fills_bytewise)
    fix q r :: nat assume q: "q < length bits" and r: "r < 8"
    consider "q = p" | "q = p + 1" | "q = p + 2" | "q < p" | "p + 2 < q" by linarith
    then show "bit (?bits' ! q) r = (bit (bits ! q) r \<or> pos \<le> 8 * q + r \<and> 8 * q + r < pos + 16)"
      using q r pos clear_fromD [OF clear q r]
      by cases (auto simp: nth_list_update bit_or_iff bit_not_iff bit_a bit_full)
  qed simp
  ultimately show ?thesis by blast
qed

lemma set8_fills:
  assumes clear: "clear_from bits pos" and len: "pos div 8 + 1 < length bits"
  shows "\<exists>bits'. set8 bits pos = Ret bits' \<and> fills bits bits' pos 8"
proof -
  define p k where "p = pos div 8" and "k = pos mod 8"
  have pos: "pos = 8 * p + k" "k < 8" by (auto simp: p_def k_def)
  define a where "a = (push_bit k 255 :: u8)"
  let ?bits' = "bits[p := bits ! p OR a, p + 1 := NOT a]"
  have "set8 bits pos = Ret ?bits'"
    using len by (simp add: set8_def Let_def or_go_eval store_go_eval flip: p_def k_def a_def)
  moreover have "fills bits ?bits' pos 8"
  proof (rule fills_bytewise)
    fix q r :: nat assume q: "q < length bits" and r: "r < 8"
    consider "q = p" | "q = p + 1" | "q < p" | "p + 1 < q" by linarith
    then show "bit (?bits' ! q) r = (bit (bits ! q) r \<or> pos \<le> 8 * q + r \<and> 8 * q + r < pos + 8)"
      using q r pos clear_fromD [OF clear q r]
      by cases (auto simp: nth_list_update bit_or_iff bit_not_iff a_def bit_mask_u8)
  qed simp
  ultimately show ?thesis by blast
qed

lemma set1_fills:
  assumes len: "pos div 8 < length bits"
  shows "\<exists>bits'. set1 bits pos = Ret bits' \<and> fills bits bits' pos 1"
proof -
  define p k where "p = pos div 8" and "k = pos mod 8"
  have pos: "pos = 8 * p + k" "k < 8" by (auto simp: p_def k_def)
  let ?bits' = "bits[p := bits ! p OR push_bit k 1]"
  have "set1 bits pos = Ret ?bits'"
    using len by (simp add: set1_def or_go_eval flip: p_def k_def)
  moreover have "fills bits ?bits' pos 1"
  proof (rule fills_bytewise)
    fix q r :: nat assume q: "q < length bits" and r: "r < 8"
    consider "q = p" | "q < p" | "p < q" by linarith
    then show "bit (?bits' ! q) r = (bit (bits ! q) r \<or> pos \<le> 8 * q + r \<and> 8 * q + r < pos + 1)"
      using q r pos by cases (auto simp: nth_list_update bit_simps)
  qed simp
  ultimately show ?thesis by blast
qed

text \<open>The flags of \<^verbatim>\<open>setN\<close> are the masks of two to seven bits.\<close>

lemma setN_fills:
  assumes clear: "clear_from bits pos" and len: "pos + n < 8 * length bits"
    and n: "n \<le> 8" and flag: "flag = mask n"
  shows "\<exists>bits'. setN bits flag pos = Ret bits' \<and> fills bits bits' pos n"
proof -
  define p k where "p = pos div 8" and "k = pos mod 8"
  have pos: "pos = 8 * p + k" "k < 8" by (auto simp: p_def k_def)
  define a where "a = push_bit k flag"
  define b where "b = (ucast (drop_bit 8 a) :: u8)"
  have bit_a: "bit a j \<longleftrightarrow> k \<le> j \<and> j < k + n" if "j < 16" for j
    using that n by (auto simp: a_def flag bit_simps)
  have bit_lo: "bit (ucast a :: u8) r \<longleftrightarrow> k \<le> r \<and> r < k + n" if "r < 8" for r
    using that bit_a [of r] by (simp add: bit_simps)
  have bit_b: "bit b r \<longleftrightarrow> r + 8 < k + n" if "r < 8" for r
    using that bit_a [of "8 + r"] pos by (auto simp: b_def bit_simps)
  have b0: "\<not> bit b r" if "b = 0" for r
    using that by simp
  have lo: "p < length bits" using len pos by linarith
  have hi: "p + 1 < length bits" if "b \<noteq> 0"
  proof -
    from that obtain r where r: "bit b r" by (auto simp: bit_eq_iff)
    then have "r < 8" using bit_imp_le_length [OF r] by simp
    with r bit_b len pos show ?thesis by fastforce
  qed
  let ?lo = "bits[p := bits ! p OR ucast a]"
  let ?bits' = "if b \<noteq> 0 then ?lo[p + 1 := b] else ?lo"
  have "setN bits flag pos = Ret ?bits'"
    using lo hi by (auto simp: setN_def Let_def or_go_eval store_go_eval simp flip: p_def k_def a_def b_def)
  moreover have "fills bits ?bits' pos n"
  proof (rule fills_bytewise)
    fix q r :: nat assume q: "q < length bits" and r: "r < 8"
    consider "q = p" | "q = p + 1" | "q < p" | "p + 1 < q" by linarith
    then show "bit (?bits' ! q) r = (bit (bits ! q) r \<or> pos \<le> 8 * q + r \<and> 8 * q + r < pos + n)"
      using q r pos clear_fromD [OF clear q r] bit_lo [OF r] bit_b [OF r] b0 [of r] n
      by cases (auto simp: nth_list_update bit_or_iff)
  qed simp
  ultimately show ?thesis by blast
qed

lemma set16_loop_fills:
  "clear_from bits pos \<Longrightarrow> pos + n < 8 * length bits \<Longrightarrow>
   \<exists>bits' n' pos'. set16_loop bits n pos = Ret (bits', n', pos') \<and>
     fills bits bits' pos (n - n') \<and> pos' = pos + (n - n') \<and> n' \<le> n \<and> n' < 16"
proof (induction bits n pos rule: set16_loop.induct)
  case (1 bits n pos)
  show ?case
  proof (cases "16 \<le> n")
    case True
    then have "pos div 8 + 2 < length bits" using "1.prems"(2) by linarith
    from set16_fills [OF "1.prems"(1) this]
    obtain bits1 where bits1: "set16 bits pos = Ret bits1" "fills bits bits1 pos 16" by auto
    have len: "length bits1 = length bits" using bits1(2) by (simp add: fills_def)
    obtain bits' n' pos' where r: "set16_loop bits1 (n - 16) (pos + 16) = Ret (bits', n', pos')"
      "fills bits1 bits' (pos + 16) (n - 16 - n')" "pos' = pos + 16 + (n - 16 - n')"
      "n' \<le> n - 16" "n' < 16"
      using "1.IH" [OF True bits1(1)] fills_clear_from [OF bits1(2)] "1.prems" True len by auto
    have "fills bits bits' pos (16 + (n - 16 - n'))" by (rule fills_trans [OF bits1(2) r(2)])
    then show ?thesis using True bits1 r by (auto simp: set16_loop.simps [of bits n pos])
  qed (simp add: set16_loop.simps [of bits n pos])
qed

lemma set8_loop_fills:
  "clear_from bits pos \<Longrightarrow> pos + n < 8 * length bits \<Longrightarrow>
   \<exists>bits' n' pos'. set8_loop bits n pos = Ret (bits', n', pos') \<and>
     fills bits bits' pos (n - n') \<and> pos' = pos + (n - n') \<and> n' \<le> n \<and> n' < 8"
proof (induction bits n pos rule: set8_loop.induct)
  case (1 bits n pos)
  show ?case
  proof (cases "8 \<le> n")
    case True
    then have "pos div 8 + 1 < length bits" using "1.prems"(2) by linarith
    from set8_fills [OF "1.prems"(1) this]
    obtain bits1 where bits1: "set8 bits pos = Ret bits1" "fills bits bits1 pos 8" by auto
    have len: "length bits1 = length bits" using bits1(2) by (simp add: fills_def)
    obtain bits' n' pos' where r: "set8_loop bits1 (n - 8) (pos + 8) = Ret (bits', n', pos')"
      "fills bits1 bits' (pos + 8) (n - 8 - n')" "pos' = pos + 8 + (n - 8 - n')"
      "n' \<le> n - 8" "n' < 8"
      using "1.IH" [OF True bits1(1)] fills_clear_from [OF bits1(2)] "1.prems" True len by auto
    have "fills bits bits' pos (8 + (n - 8 - n'))" by (rule fills_trans [OF bits1(2) r(2)])
    then show ?thesis using True bits1 r by (auto simp: set8_loop.simps [of bits n pos])
  qed (simp add: set8_loop.simps [of bits n pos])
qed

lemma flag_masks:
  "(0x3 :: u16) = mask 2" "(0x7 :: u16) = mask 3" "(0xF :: u16) = mask 4"
  "(0x1F :: u16) = mask 5" "(0x3F :: u16) = mask 6" "(0x7F :: u16) = mask 7"
  by (simp_all add: mask_eq_exp_minus_1)

lemma set_rest_fills:
  assumes "clear_from bits pos" "pos + n < 8 * length bits" "n < 8"
  shows "\<exists>bits'. set_rest bits n pos = Ret (bits', pos + n) \<and> fills bits bits' pos n"
proof -
  have len: "pos div 8 < length bits" using assms(2) by linarith
  note N = setN_fills [OF assms(1)]
  consider "n = 0" | "n = 1" | "n = 2" | "n = 3" | "n = 4" | "n = 5" | "n = 6" | "n = 7"
    using assms(3) by linarith
  then show ?thesis
    using N [OF _ _ flag_masks(1)] N [OF _ _ flag_masks(2)] N [OF _ _ flag_masks(3)]
      N [OF _ _ flag_masks(4)] N [OF _ _ flag_masks(5)] N [OF _ _ flag_masks(6)]
      set1_fills [OF len] assms(2)
    by cases (auto simp: set_rest_def)
qed

text \<open>A whole PUSH: its \<open>n\<close> bytes of data are marked, whatever \<open>n\<close> is.\<close>

lemma set_push_fills:
  assumes clear: "clear_from bits pos" and len: "pos + n < 8 * length bits"
  shows "\<exists>bits'. set_push bits n pos = Ret (bits', pos + n) \<and> fills bits bits' pos n"
proof (cases "8 \<le> n")
  case False
  with set_rest_fills [OF clear len] show ?thesis by (simp add: set_push_def)
next
  case True
  obtain b1 n1 p1 where r1: "set16_loop bits n pos = Ret (b1, n1, p1)"
    "fills bits b1 pos (n - n1)" "p1 = pos + (n - n1)" "n1 \<le> n"
    using set16_loop_fills [OF clear, of n] len by auto
  have len1: "length b1 = length bits" using r1(2) by (simp add: fills_def)
  have c1: "clear_from b1 p1" using fills_clear_from [OF r1(2) clear] r1(3) by simp
  obtain b2 n2 p2 where r2: "set8_loop b1 n1 p1 = Ret (b2, n2, p2)"
    "fills b1 b2 p1 (n1 - n2)" "p2 = p1 + (n1 - n2)" "n2 \<le> n1" "n2 < 8"
    using set8_loop_fills [OF c1, of n1] len len1 r1 by auto
  have len2: "length b2 = length bits" using r2(2) len1 by (simp add: fills_def)
  have c2: "clear_from b2 p2" using fills_clear_from [OF r2(2) c1] r2(3) by simp
  obtain b3 where r3: "set_rest b2 n2 p2 = Ret (b3, p2 + n2)" "fills b2 b3 p2 n2"
    using set_rest_fills [OF c2, of n2] len len2 r1 r2 by auto
  have "fills bits b2 pos (n - n1 + (n1 - n2))"
    using fills_trans [OF r1(2)] r2(2) r1(3) by simp
  then have "fills bits b3 pos (n - n1 + (n1 - n2) + n2)"
    using fills_trans [of bits b2 pos "n - n1 + (n1 - n2)" b3 n2] r3(2) r1(3) r2(3)
    by (simp add: add.assoc)
  then show ?thesis using True r1 r2 r3 by (simp add: set_push_def)
qed

section \<open>The analysis agrees with the reference walk\<close>

lemma signed_byte_less:
  "0 \<le> u \<Longrightarrow> u < 256 \<Longrightarrow> ((u + 128) mod 256 - 128 < 96) = (\<not> (96 \<le> u \<and> u \<le> 127))"
  for u :: int
  using minus_mod_self2 [of "u + 128" 256]
  by (cases "u < 128") (auto simp: mod_pos_pos_trivial)

lemma sint_u8: "sint (op :: u8) = (uint op + 128) mod 256 - 128"
  by (simp add: sint_uint signed_take_bit_eq_take_bit_shift take_bit_eq_mod)

lemma sint_less_PUSH1: "sint (op :: u8) < sint PUSH1 \<longleftrightarrow> \<not> is_push op"
  using signed_byte_less [of "uint op"] uint_lt2p [of op]
  by (simp add: sint_u8 PUSH1_def is_push_def word_le_def)

lemma numbits_push: "is_push op \<Longrightarrow> unat (op - PUSH1 + 1) = instr_len op - 1 \<and> instr_len op \<le> 33"
  by (auto simp: is_push_def instr_len_def PUSH1_def unat_sub word_le_nat_alt)

text \<open>
  \<open>analysed code bits bits' pc\<close>: nothing is written behind the walk, and from \<open>pc\<close> on the
  bits are clear exactly at the starts of instructions. The walk establishes it backwards,
  one instruction at a time.
\<close>

definition analysed :: "bytes \<Rightarrow> bitvec \<Rightarrow> bitvec \<Rightarrow> nat \<Rightarrow> bool" where
  "analysed code bits bits' pc =
     (length bits' = length bits \<and>
      (\<forall>pos < length code. if pc \<le> pos then (\<not> bvget bits' pos) = is_instr_start code pc pos
         else bvget bits' pos = bvget bits pos))"

lemma is_instr_start_refl [simp]: "is_instr_start code pc pc"
  by (simp add: is_instr_start.simps)

lemma is_instr_start_behind: "pos < pc \<Longrightarrow> \<not> is_instr_start code pc pos"
  by (subst is_instr_start.simps) auto

lemma is_instr_start_step:
  "pc < pos \<Longrightarrow> pc < length code \<Longrightarrow>
   is_instr_start code pc pos = is_instr_start code (pc + instr_len (code ! pc)) pos"
  by (simp add: is_instr_start.simps [of code pc pos])

lemma analysed_step:
  assumes pc: "pc < length code" and clear: "\<not> bvget bits pc"
    and len: "length code \<le> 8 * length bits"
    and n: "instr_len (code ! pc) = n + 1" and fills: "fills bits bits1 (pc + 1) n"
    and rest: "analysed code bits1 bits' (pc + 1 + n)"
  shows "analysed code bits bits' pc"
proof -
  have "if pc \<le> pos then (\<not> bvget bits' pos) = is_instr_start code pc pos
        else bvget bits' pos = bvget bits pos" if pos: "pos < length code" for pos
  proof -
    have r: "if pc + 1 + n \<le> pos then (\<not> bvget bits' pos) = is_instr_start code (pc + 1 + n) pos
             else bvget bits' pos = bvget bits1 pos"
      using rest pos by (auto simp: analysed_def)
    have b1: "bvget bits1 pos = (bvget bits pos \<or> pc + 1 \<le> pos \<and> pos < pc + 1 + n)"
      using fills pos len by (auto simp: fills_def)
    show ?thesis
      using r b1 clear is_instr_start_behind [of pos "pc + 1 + n" code]
        is_instr_start_step [of pc pos code] pc n
      by (cases "pc = pos") (auto split: if_splits simp: add.assoc)
  qed
  with rest fills show ?thesis by (auto simp: analysed_def fills_def)
qed

lemma codeBitmapInternal_correct:
  "length bits = length code div 8 + 5 \<Longrightarrow> clear_from bits pc \<Longrightarrow>
   \<exists>bits'. codeBitmapInternal code bits pc = Ret bits' \<and> analysed code bits bits' pc"
proof (induction code bits pc rule: codeBitmapInternal.induct)
  case (1 code bits pc)
  show ?case
  proof (cases "pc < length code")
    case False
    then show ?thesis by (auto simp: codeBitmapInternal.simps [of code bits pc] analysed_def)
  next
    case pc: True
    have c: "\<not> bvget bits pc" and clear: "clear_from bits (pc + 1)"
      and len: "length code \<le> 8 * length bits"
      using "1.prems" pc by (auto simp: clear_from_def)
    show ?thesis
    proof (cases "is_push (code ! pc)")
      case False
      then have s: "sint (code ! pc) < sint PUSH1" and l: "instr_len (code ! pc) = 0 + 1"
        by (simp_all add: sint_less_PUSH1 instr_len_def)
      from "1.IH"(1) [OF pc refl s "1.prems"(1) clear] obtain bits' where
        b: "codeBitmapInternal code bits (pc + 1) = Ret bits'" "analysed code bits bits' (pc + 1 + 0)"
        by auto
      from analysed_step [OF pc c len l fills_0 b(2)] b(1) pc s show ?thesis
        by (simp add: codeBitmapInternal.simps [of code bits pc])
    next
      case True
      then have s: "\<not> sint (code ! pc) < sint PUSH1" by (simp add: sint_less_PUSH1)
      define n where "n = unat (code ! pc - PUSH1 + 1)"
      have n: "instr_len (code ! pc) = n + 1" "n \<le> 32"
        using numbits_push [OF True] instr_len_pos [of "code ! pc"] by (auto simp: n_def)
      have "pc + 1 + n < 8 * length bits" using pc n "1.prems"(1) by linarith
      from set_push_fills [OF clear this] obtain bits1 where
        b1: "set_push bits n (pc + 1) = Ret (bits1, pc + 1 + n)" "fills bits bits1 (pc + 1) n" by auto
      have "length bits1 = length code div 8 + 5" using b1(2) "1.prems"(1) by (simp add: fills_def)
      from "1.IH"(2) [OF pc refl s b1(1) [unfolded n_def] refl this [unfolded n_def]]
        fills_clear_from [OF b1(2) clear] obtain bits' where
        b: "codeBitmapInternal code bits1 (pc + 1 + n) = Ret bits'" "analysed code bits1 bits' (pc + 1 + n)"
        by (auto simp: n_def)
      have "codeBitmapInternal code bits pc = Ret bits'"
        using b b1 pc s by (simp add: codeBitmapInternal.simps [of code bits pc] flip: n_def)
      with analysed_step [OF pc c len n(1) b1(2) b(2)] show ?thesis by blast
    qed
  qed
qed

lemma codeSegment_bvget:
  "i div 8 < length bits \<Longrightarrow> codeSegment bits i = Ret (\<not> bvget bits i)"
  by (simp add: codeSegment_def index_go_def bvget_def and_one_eq bit_iff_odd_drop_bit
      flip: even_iff_mod_2_eq_zero)

lemma codeBitmap_analysed:
  obtains bits where "codeBitmap code = Ret bits"
    "\<And>pos. pos < length code \<Longrightarrow> codeSegment bits pos = Ret (is_instr_start code 0 pos)"
proof -
  let ?bits = "replicate (length code div 8 + 5) 0 :: bitvec"
  have "clear_from ?bits 0" by (auto simp: clear_from_def bvget_def)
  with codeBitmapInternal_correct [of ?bits code 0] obtain bits where
    b: "codeBitmap code = Ret bits" "analysed code ?bits bits 0"
    by (auto simp: codeBitmap_def add.commute)
  have "codeSegment bits pos = Ret (is_instr_start code 0 pos)" if "pos < length code" for pos
    using that b(2) codeSegment_bvget [of pos bits] by (auto simp: analysed_def)
  with b(1) that show thesis by blast
qed

text \<open>C20. The jump destination analysis is right for every code: it never indexes out of its
  bit vector (the four spare bytes are enough for a PUSH32 at the end of the code), and at
  every position of the code its bit says whether the position starts an instruction or is
  the data of a PUSH.\<close>

theorem codeBitmap_correct:
  "\<exists>bits. codeBitmap code = Ret bits \<and>
     (\<forall>pos < length code. codeSegment bits pos = Ret (is_instr_start code 0 pos))"
  by (rule codeBitmap_analysed [of code]) blast

theorem codeBitmap_correct_witness:
  "\<exists>bits. codeBitmap [0x60, 0x5b, 0x5b] = Ret bits
     \<and> codeSegment bits 1 = Ret False \<and> codeSegment bits 2 = Ret True"
proof -
  obtain bits where bits: "codeBitmap [0x60, 0x5b, 0x5b] = Ret bits"
    and seg: "\<forall>pos < length [0x60, 0x5b, 0x5b::u8].
      codeSegment bits pos = Ret (is_instr_start [0x60, 0x5b, 0x5b] 0 pos)"
    using codeBitmap_correct by blast
  have "\<not> is_instr_start [0x60, 0x5b, 0x5b] 0 1" "is_instr_start [0x60, 0x5b, 0x5b] 0 2"
    by code_simp+
  then show ?thesis using bits seg by auto
qed

end
