(* ===== verification/Evm_Contract.thy ===== *)
theory Evm_Contract
  imports Evm_Memory Evm_Analysis
begin

text \<open>
  The execution context of a call: \<^verbatim>\<open>src/evm/contract.go\<close>.

  A \<^verbatim>\<open>ContractRef\<close> is an account address or the calling \<^verbatim>\<open>*Contract\<close>, of which only the
  address, the caller address and the value are ever read through the reference
  (\<^verbatim>\<open>NewContract\<close>, \<^verbatim>\<open>AsDelegate\<close>); these three never change once the contract runs.
  The map \<^verbatim>\<open>jumpdests\<close> is a Go map shared by reference between a contract and the contracts
  it calls, and created anew when the caller is no contract; the operations below take and
  return the shared map. \<^verbatim>\<open>value\<close> is a pointer that \<^verbatim>\<open>DelegateCall\<close> leaves nil until
  \<^verbatim>\<open>AsDelegate\<close>.
\<close>

datatype contract_ref = AccountRef address | ContractRef address address "int option"

type_synonym jumpdests = "hash \<Rightarrow> bitvec option"

record Contract =
  CallerAddress :: address
  caller :: contract_ref
  self :: address
  analysis :: "bitvec option"
  Code :: bytes
  CodeHash :: hash
  CodeAddr :: "address option"
  Input :: bytes
  Gas :: u64
  cvalue :: "int option"

fun ref_Address :: "contract_ref \<Rightarrow> address" where
  "ref_Address (AccountRef a) = a"
| "ref_Address (ContractRef a _ _) = a"

definition contract_as_ref :: "Contract \<Rightarrow> contract_ref" where
  "contract_as_ref c = ContractRef (self c) (CallerAddress c) (cvalue c)"

definition NewContract ::
  "contract_ref \<Rightarrow> address \<Rightarrow> int option \<Rightarrow> u64 \<Rightarrow> jumpdests \<Rightarrow> Contract \<times> jumpdests" where
  "NewContract clr object value gas jds =
     (\<lparr> CallerAddress = ref_Address clr, caller = clr, self = object, analysis = None,
        Code = [], CodeHash = 0, CodeAddr = None, Input = [], Gas = gas, cvalue = value \<rparr>,
      (case clr of ContractRef _ _ _ \<Rightarrow> jds | AccountRef _ \<Rightarrow> Map.empty))"

definition isCode :: "Contract \<Rightarrow> jumpdests \<Rightarrow> u64 \<Rightarrow> (bool \<times> Contract \<times> jumpdests) go" where
  "isCode c jds udest =
     (case analysis c of
        Some bits \<Rightarrow> go_bind (codeSegment bits (unat udest)) (\<lambda>b. Ret (b, c, jds))
      | None \<Rightarrow>
          if CodeHash c \<noteq> 0 then
            go_bind (case jds (CodeHash c) of
                Some bits \<Rightarrow> Ret (bits, jds)
              | None \<Rightarrow> go_bind (codeBitmap (Code c)) (\<lambda>bits. Ret (bits, jds(CodeHash c \<mapsto> bits))))
            (\<lambda>(bits, jds).
            go_bind (codeSegment bits (unat udest)) (\<lambda>b. Ret (b, c\<lparr> analysis := Some bits \<rparr>, jds)))
          else
            go_bind (codeBitmap (Code c)) (\<lambda>bits.
            go_bind (codeSegment bits (unat udest)) (\<lambda>b. Ret (b, c\<lparr> analysis := Some bits \<rparr>, jds))))"

definition JUMPDEST :: u8 where "JUMPDEST = 0x5b"

definition validJumpdest ::
  "uint256_lib \<Rightarrow> Contract \<Rightarrow> jumpdests \<Rightarrow> u256 \<Rightarrow> (bool \<times> Contract \<times> jumpdests) go" where
  "validJumpdest U c jds dest =
     (let (udest, overflow) = u_Uint64WithOverflow U dest in
      if overflow \<or> udest \<ge> word_of_nat (length (Code c)) then Ret (False, c, jds)
      else go_bind (index_go (Code c) (unat udest)) (\<lambda>op.
        if op \<noteq> JUMPDEST then Ret (False, c, jds) else isCode c jds udest))"

text \<open>The type assertion \<^verbatim>\<open>c.caller.(*Contract)\<close> panics when the caller is an account.\<close>

definition AsDelegate :: "Contract \<Rightarrow> Contract go" where
  "AsDelegate c = (case caller c of
     ContractRef _ parentCaller parentValue \<Rightarrow>
       Ret (c\<lparr> CallerAddress := parentCaller, cvalue := parentValue \<rparr>)
   | AccountRef _ \<Rightarrow> Panic RuntimeError)"

definition STOP :: u8 where "STOP = 0"

definition GetOp :: "Contract \<Rightarrow> u64 \<Rightarrow> u8 go" where
  "GetOp c n = (if n < word_of_nat (length (Code c)) then index_go (Code c) (unat n) else Ret STOP)"

definition UseGas :: "u64 \<Rightarrow> Contract \<Rightarrow> bool \<times> Contract" where
  "UseGas gas c = (if Gas c < gas then (False, c) else (True, c\<lparr> Gas := Gas c - gas \<rparr>))"

definition SetCallCode :: "address \<Rightarrow> hash \<Rightarrow> bytes \<Rightarrow> Contract \<Rightarrow> Contract" where
  "SetCallCode addr h code c = c\<lparr> Code := code, CodeHash := h, CodeAddr := Some addr \<rparr>"

record codeAndHash =
  ch_code :: bytes
  ch_hash :: hash

definition SetCodeOptionalHash :: "address \<Rightarrow> codeAndHash \<Rightarrow> Contract \<Rightarrow> Contract" where
  "SetCodeOptionalHash addr ch c =
     c\<lparr> Code := ch_code ch, CodeHash := ch_hash ch, CodeAddr := Some addr \<rparr>"

section \<open>Jump destinations\<close>

text \<open>The cached analyses of a contract belong to its code.\<close>

definition analysis_ok :: "Contract \<Rightarrow> jumpdests \<Rightarrow> bool" where
  "analysis_ok c jds \<longleftrightarrow>
     (\<forall>bits. analysis c = Some bits \<longrightarrow> codeBitmap (Code c) = Ret bits)
     \<and> (\<forall>bits. CodeHash c \<noteq> 0 \<longrightarrow> jds (CodeHash c) = Some bits \<longrightarrow> codeBitmap (Code c) = Ret bits)"

lemma isCode_ok:
  assumes ok: "analysis_ok c jds" and len: "unat udest < length (Code c)"
  obtains bits jds' where "codeBitmap (Code c) = Ret bits"
    "isCode c jds udest =
       Ret (is_instr_start (Code c) 0 (unat udest), c\<lparr> analysis := Some bits \<rparr>, jds')"
    "jds' = jds \<or> CodeHash c \<noteq> 0 \<and> jds' = jds(CodeHash c \<mapsto> bits)"
proof -
  obtain bits where b: "codeBitmap (Code c) = Ret bits"
    "codeSegment bits (unat udest) = Ret (is_instr_start (Code c) 0 (unat udest))"
    using codeBitmap_analysed [of "Code c"] len by metis
  have upd: "c\<lparr> analysis := Some bits \<rparr> = c" if "analysis c = Some bits"
    using that by (cases c) simp
  show thesis
  proof (cases "analysis c")
    case (Some bits')
    with ok b have "bits' = bits" by (auto simp: analysis_ok_def)
    with Some b that [of bits jds] upd show thesis by (auto simp: isCode_def)
  next
    case None
    show thesis
    proof (cases "CodeHash c = 0 \<or> jds (CodeHash c) \<noteq> None")
      case True
      then have "CodeHash c = 0 \<or> jds (CodeHash c) = Some bits"
        using ok b by (auto simp: analysis_ok_def)
      with None b that [of bits jds] show thesis by (auto simp: isCode_def)
    next
      case False
      with None b that [of bits "jds(CodeHash c \<mapsto> bits)"] show thesis by (auto simp: isCode_def)
    qed
  qed
qed

text \<open>The reference: a destination is valid when it is inside the code, the byte there is
  JUMPDEST and it starts an instruction.\<close>

definition jumpdest_spec :: "bytes \<Rightarrow> u256 \<Rightarrow> bool" where
  "jumpdest_spec code dest \<longleftrightarrow>
     unat dest < length code \<and> code ! unat dest = JUMPDEST \<and> is_instr_start code 0 (unat dest)"

text \<open>The contract and the shared map after a lookup: only cached analyses of the same code
  are added.\<close>

definition analysis_step :: "Contract \<Rightarrow> jumpdests \<Rightarrow> Contract \<Rightarrow> jumpdests \<Rightarrow> bool" where
  "analysis_step c jds c' jds' \<longleftrightarrow>
     (\<exists>bits. codeBitmap (Code c) = Ret bits
        \<and> (c' = c \<or> c' = c\<lparr> analysis := Some bits \<rparr>)
        \<and> (jds' = jds \<or> CodeHash c \<noteq> 0 \<and> jds' = jds(CodeHash c \<mapsto> bits)))"

lemma analysis_step_refl: "analysis_step c jds c jds"
  using codeBitmap_analysed [of "Code c"] by (auto simp: analysis_step_def)

lemma analysis_step_ok: "analysis_ok c jds \<Longrightarrow> analysis_step c jds c' jds' \<Longrightarrow> analysis_ok c' jds'"
  by (auto simp: analysis_ok_def analysis_step_def)

lemma analysis_step_frame:
  assumes "analysis_step c jds c' jds'"
  shows "CallerAddress c' = CallerAddress c" "caller c' = caller c" "self c' = self c"
    "Code c' = Code c" "CodeHash c' = CodeHash c" "CodeAddr c' = CodeAddr c"
    "Input c' = Input c" "Gas c' = Gas c" "cvalue c' = cvalue c"
  using assms by (auto simp: analysis_step_def)

lemma validJumpdest_ok:
  assumes U: "uint256_documented U" and ok: "analysis_ok c jds" and len: "length (Code c) < 2 ^ 64"
  obtains c' jds' where "validJumpdest U c jds dest = Ret (jumpdest_spec (Code c) dest, c', jds')"
    "analysis_step c jds c' jds'"
proof (cases "unat dest < length (Code c)")
  case True
  with len have d: "unat (ucast dest :: u64) = unat dest" by (intro unat_ucast_u64) simp
  with True len have lt: "\<not> (ucast dest :: u64) \<ge> word_of_nat (length (Code c))" "unat dest < 2 ^ 64"
    by (simp_all add: word_le_nat_alt unat_u64_of_nat)
  show thesis
  proof (cases "Code c ! unat dest = JUMPDEST")
    case jd: True
    obtain bits jds' where "codeBitmap (Code c) = Ret bits"
      "isCode c jds (ucast dest) =
         Ret (is_instr_start (Code c) 0 (unat dest), c\<lparr> analysis := Some bits \<rparr>, jds')"
      "jds' = jds \<or> CodeHash c \<noteq> 0 \<and> jds' = jds(CodeHash c \<mapsto> bits)"
      using isCode_ok [OF ok, of "ucast dest"] True d by metis
    with that [of "c\<lparr> analysis := Some bits \<rparr>" jds'] True jd lt d show thesis
      by (auto simp: validJumpdest_def uint256_rules [OF U] index_go_def jumpdest_spec_def
          analysis_step_def)
  next
    case False
    with that [of c jds] True lt d analysis_step_refl show thesis
      by (auto simp: validJumpdest_def uint256_rules [OF U] index_go_def jumpdest_spec_def)
  qed
next
  case False
  have "(ucast dest :: u64) \<ge> word_of_nat (length (Code c))" if "unat dest < 2 ^ 64"
    using False len that by (simp add: word_le_nat_alt unat_u64_of_nat unat_ucast_u64)
  with that [of c jds] False analysis_step_refl show thesis
    by (auto simp: validJumpdest_def uint256_rules [OF U] jumpdest_spec_def)
qed

text \<open>C21: A jump is allowed exactly to a JUMPDEST byte inside the code that starts an instruction,
  for every 256-bit destination, whether the code's bitmap is computed anew or found in the
  contract or in the map that the contracts of a call tree share; and the caches stay true to
  the code.\<close>

theorem validJumpdest_correct:
  assumes "uint256_documented U" "analysis_ok c jds" "length (Code c) < 2 ^ 64"
  shows "\<exists>c' jds'. validJumpdest U c jds dest = Ret (jumpdest_spec (Code c) dest, c', jds')
    \<and> analysis_ok c' jds' \<and> Code c' = Code c \<and> Gas c' = Gas c"
proof -
  obtain c' jds' where v: "validJumpdest U c jds dest = Ret (jumpdest_spec (Code c) dest, c', jds')"
    and s: "analysis_step c jds c' jds'"
    by (rule validJumpdest_ok [OF assms])
  show ?thesis
    using v analysis_step_ok [OF assms(2) s] analysis_step_frame [OF s]
    by (intro exI [of _ c'] exI [of _ jds']) simp
qed

theorem validJumpdest_correct_witness:
  "\<exists>c' jds'. validJumpdest uint256_words (fst (NewContract (AccountRef 9) 8 None 100 (\<lambda>_. None))\<lparr> Code := [0x60, 0x5b, 0x5b] \<rparr>)
     (\<lambda>_. None) 1 = Ret (jumpdest_spec [0x60, 0x5b, 0x5b] 1, c', jds')"
  using validJumpdest_correct [OF uint256_words_documented,
      of "fst (NewContract (AccountRef 9) 8 None 100 (\<lambda>_. None))\<lparr> Code := [0x60, 0x5b, 0x5b] \<rparr>" "\<lambda>_. None" 1]
  by (auto simp: NewContract_def analysis_ok_def)

end
