(* ===== verification/Protocol.thy ===== *)
theory Protocol
  imports Prelude
begin

text \<open>
  The protocol constants of \<^verbatim>\<open>src/config/protocol.go\<close> that the virtual machine and the state
  transition use, and the step costs of \<^verbatim>\<open>src/evm/gas.go\<close>.
\<close>

abbreviation CallValueTransferGas :: u64 where "CallValueTransferGas \<equiv> 9000"
abbreviation CallNewAccountGas :: u64 where "CallNewAccountGas \<equiv> 25000"
abbreviation TxGas :: u64 where "TxGas \<equiv> 21000"
abbreviation TxGasContractCreation :: u64 where "TxGasContractCreation \<equiv> 53000"
abbreviation TxDataZeroGas :: u64 where "TxDataZeroGas \<equiv> 4"
abbreviation QuadCoeffDiv :: u64 where "QuadCoeffDiv \<equiv> 512"
abbreviation LogDataGas :: u64 where "LogDataGas \<equiv> 8"
abbreviation CallStipend :: u64 where "CallStipend \<equiv> 2300"
abbreviation Keccak256Gas :: u64 where "Keccak256Gas \<equiv> 30"
abbreviation Keccak256WordGas :: u64 where "Keccak256WordGas \<equiv> 6"
abbreviation NetSstoreNoopGas :: u64 where "NetSstoreNoopGas \<equiv> 200"
abbreviation NetSstoreInitGas :: u64 where "NetSstoreInitGas \<equiv> 20000"
abbreviation NetSstoreCleanGas :: u64 where "NetSstoreCleanGas \<equiv> 5000"
abbreviation NetSstoreDirtyGas :: u64 where "NetSstoreDirtyGas \<equiv> 200"
abbreviation NetSstoreClearRefund :: u64 where "NetSstoreClearRefund \<equiv> 15000"
abbreviation NetSstoreResetRefund :: u64 where "NetSstoreResetRefund \<equiv> 4800"
abbreviation NetSstoreResetClearRefund :: u64 where "NetSstoreResetClearRefund \<equiv> 19800"
abbreviation SstoreSentryGasEIP2200 :: u64 where "SstoreSentryGasEIP2200 \<equiv> 2300"
abbreviation SstoreSetGasEIP2200 :: u64 where "SstoreSetGasEIP2200 \<equiv> 20000"
abbreviation SstoreResetGasEIP2200 :: u64 where "SstoreResetGasEIP2200 \<equiv> 5000"
abbreviation SstoreClearsScheduleRefundEIP2200 :: u64 where "SstoreClearsScheduleRefundEIP2200 \<equiv> 15000"
abbreviation ColdAccountAccessCostEIP2929 :: u64 where "ColdAccountAccessCostEIP2929 \<equiv> 2600"
abbreviation ColdSloadCostEIP2929 :: u64 where "ColdSloadCostEIP2929 \<equiv> 2100"
abbreviation WarmStorageReadCostEIP2929 :: u64 where "WarmStorageReadCostEIP2929 \<equiv> 100"
abbreviation JumpdestGas :: u64 where "JumpdestGas \<equiv> 1"
abbreviation CreateDataGas :: u64 where "CreateDataGas \<equiv> 200"
abbreviation CallCreateDepth :: u64 where "CallCreateDepth \<equiv> 1024"
abbreviation ExpGas :: u64 where "ExpGas \<equiv> 10"
abbreviation LogGas :: u64 where "LogGas \<equiv> 375"
abbreviation CopyGas :: u64 where "CopyGas \<equiv> 3"
abbreviation StackLimit :: u64 where "StackLimit \<equiv> 1024"
abbreviation LogTopicGas :: u64 where "LogTopicGas \<equiv> 375"
abbreviation CreateGas :: u64 where "CreateGas \<equiv> 32000"
abbreviation Create2Gas :: u64 where "Create2Gas \<equiv> 32000"
abbreviation SelfdestructRefundGas :: u64 where "SelfdestructRefundGas \<equiv> 24000"
abbreviation MemoryGas :: u64 where "MemoryGas \<equiv> 3"
abbreviation TxDataNonZeroGasFrontier :: u64 where "TxDataNonZeroGasFrontier \<equiv> 68"
abbreviation TxAccessListAddressGas :: u64 where "TxAccessListAddressGas \<equiv> 2400"
abbreviation TxAccessListStorageKeyGas :: u64 where "TxAccessListStorageKeyGas \<equiv> 1900"
abbreviation CallGasFrontier :: u64 where "CallGasFrontier \<equiv> 40"
abbreviation CallGasEIP150 :: u64 where "CallGasEIP150 \<equiv> 700"
abbreviation BalanceGasFrontier :: u64 where "BalanceGasFrontier \<equiv> 20"
abbreviation BalanceGasEIP150 :: u64 where "BalanceGasEIP150 \<equiv> 400"
abbreviation BalanceGasEIP1884 :: u64 where "BalanceGasEIP1884 \<equiv> 700"
abbreviation ExtcodeSizeGasFrontier :: u64 where "ExtcodeSizeGasFrontier \<equiv> 20"
abbreviation ExtcodeSizeGasEIP150 :: u64 where "ExtcodeSizeGasEIP150 \<equiv> 700"
abbreviation SloadGasFrontier :: u64 where "SloadGasFrontier \<equiv> 50"
abbreviation SloadGasEIP150 :: u64 where "SloadGasEIP150 \<equiv> 200"
abbreviation SloadGasEIP1884 :: u64 where "SloadGasEIP1884 \<equiv> 800"
abbreviation SloadGasEIP2200 :: u64 where "SloadGasEIP2200 \<equiv> 800"
abbreviation ExtcodeHashGasConstantinople :: u64 where "ExtcodeHashGasConstantinople \<equiv> 400"
abbreviation ExtcodeHashGasEIP1884 :: u64 where "ExtcodeHashGasEIP1884 \<equiv> 700"
abbreviation SelfdestructGasEIP150 :: u64 where "SelfdestructGasEIP150 \<equiv> 5000"
abbreviation ExpByteFrontier :: u64 where "ExpByteFrontier \<equiv> 10"
abbreviation ExpByteEIP158 :: u64 where "ExpByteEIP158 \<equiv> 50"
abbreviation ExtcodeCopyBaseFrontier :: u64 where "ExtcodeCopyBaseFrontier \<equiv> 20"
abbreviation ExtcodeCopyBaseEIP150 :: u64 where "ExtcodeCopyBaseEIP150 \<equiv> 700"
abbreviation CreateBySelfdestructGas :: u64 where "CreateBySelfdestructGas \<equiv> 25000"
abbreviation MaxCodeSize :: nat where "MaxCodeSize \<equiv> 24576"
abbreviation EcrecoverGas :: u64 where "EcrecoverGas \<equiv> 3000"
abbreviation Sha256BaseGas :: u64 where "Sha256BaseGas \<equiv> 60"
abbreviation Sha256PerWordGas :: u64 where "Sha256PerWordGas \<equiv> 12"
abbreviation Ripemd160BaseGas :: u64 where "Ripemd160BaseGas \<equiv> 600"
abbreviation Ripemd160PerWordGas :: u64 where "Ripemd160PerWordGas \<equiv> 120"
abbreviation IdentityBaseGas :: u64 where "IdentityBaseGas \<equiv> 15"
abbreviation IdentityPerWordGas :: u64 where "IdentityPerWordGas \<equiv> 3"
abbreviation RefundQuotient :: u64 where "RefundQuotient \<equiv> 2"
abbreviation RefundQuotientEIP3529 :: u64 where "RefundQuotientEIP3529 \<equiv> 5"
abbreviation SstoreClearsScheduleRefundEIP3529 :: u64 where "SstoreClearsScheduleRefundEIP3529 \<equiv> SstoreResetGasEIP2200 - ColdSloadCostEIP2929 + TxAccessListStorageKeyGas"

abbreviation GasQuickStep :: u64 where "GasQuickStep \<equiv> 2"
abbreviation GasFastestStep :: u64 where "GasFastestStep \<equiv> 3"
abbreviation GasFastStep :: u64 where "GasFastStep \<equiv> 5"
abbreviation GasMidStep :: u64 where "GasMidStep \<equiv> 8"
abbreviation GasSlowStep :: u64 where "GasSlowStep \<equiv> 10"
abbreviation GasExtStep :: u64 where "GasExtStep \<equiv> 20"

end
