(* ===== verification/Evm_Env.thy ===== *)
theory Evm_Env
  imports Evm_Contract Protocol
begin

text \<open>
  The environment of the virtual machine: the interface to the state
  (\<^verbatim>\<open>src/evm/interface.go\<close>), the block and transaction contexts and the EVM object
  (\<^verbatim>\<open>src/evm/evm.go\<close>), the interpreter's own state and the per-call scope
  (\<^verbatim>\<open>src/evm/interpreter.go\<close>), and the chain rules (\<^verbatim>\<open>src/config/config.go\<close>).

  \<^item> \<^verbatim>\<open>StateDB\<close> is a Go interface: a record of operations on an abstract state \<open>'s\<close>. Readers return
    the state as well, since the implementation caches what it reads. Any operation may
    panic.
  \<^item> What does not change while a transaction runs is \<open>evm_env\<close>; it also carries the code the
    repository takes from elsewhere (256-bit arithmetic, hash functions, signature
    recovery). What changes is \<open>evm\<close>, which joins the mutable fields of \<^verbatim>\<open>EVM\<close> and
    \<^verbatim>\<open>EVMInterpreter\<close>, and the map of jump destination analyses that the contracts of one
    call tree share.
  \<^item> The flag \<^verbatim>\<open>abort\<close> may be set by another goroutine at any time: the model reads it from a
    schedule, the \<open>n\<close>-th load returning \<open>abort_at n\<close>.
  \<^item> The tracer hooks (\<^verbatim>\<open>Config.Debug\<close>) and log lines have no effect on the machine and are left
    out.
\<close>

record Log =
  log_Address :: address
  log_Topics :: "hash list"
  log_Data :: bytes
  log_BlockNumber :: u64
  log_TxHash :: hash
  log_TxIndex :: nat
  log_Index :: nat

record 's StateDB_account =
  db_CreateAccount :: "address \<Rightarrow> 's \<Rightarrow> 's go"
  db_SubBalance :: "address \<Rightarrow> int \<Rightarrow> 's \<Rightarrow> 's go"
  db_AddBalance :: "address \<Rightarrow> int \<Rightarrow> 's \<Rightarrow> 's go"
  db_GetBalance :: "address \<Rightarrow> 's \<Rightarrow> (int \<times> 's) go"
  db_GetNonce :: "address \<Rightarrow> 's \<Rightarrow> (u64 \<times> 's) go"
  db_SetNonce :: "address \<Rightarrow> u64 \<Rightarrow> 's \<Rightarrow> 's go"
  db_GetCodeHash :: "address \<Rightarrow> 's \<Rightarrow> (hash \<times> 's) go"
  db_GetCode :: "address \<Rightarrow> 's \<Rightarrow> (bytes \<times> 's) go"
  db_SetCode :: "address \<Rightarrow> bytes \<Rightarrow> 's \<Rightarrow> 's go"
  db_GetCodeSize :: "address \<Rightarrow> 's \<Rightarrow> (nat \<times> 's) go"

record 's StateDB_storage = "'s StateDB_account" +
  db_AddRefund :: "u64 \<Rightarrow> 's \<Rightarrow> 's go"
  db_SubRefund :: "u64 \<Rightarrow> 's \<Rightarrow> 's go"
  db_GetRefund :: "'s \<Rightarrow> (u64 \<times> 's) go"
  db_GetCommittedState :: "address \<Rightarrow> hash \<Rightarrow> 's \<Rightarrow> (hash \<times> 's) go"
  db_GetState :: "address \<Rightarrow> hash \<Rightarrow> 's \<Rightarrow> (hash \<times> 's) go"
  db_SetState :: "address \<Rightarrow> hash \<Rightarrow> hash \<Rightarrow> 's \<Rightarrow> 's go"
  db_Suicide :: "address \<Rightarrow> 's \<Rightarrow> (bool \<times> 's) go"
  db_HasSuicided :: "address \<Rightarrow> 's \<Rightarrow> (bool \<times> 's) go"
  db_Exist :: "address \<Rightarrow> 's \<Rightarrow> (bool \<times> 's) go"
  db_Empty :: "address \<Rightarrow> 's \<Rightarrow> (bool \<times> 's) go"

record 's StateDB = "'s StateDB_storage" +
  db_AddressInAccessList :: "address \<Rightarrow> 's \<Rightarrow> (bool \<times> 's) go"
  db_SlotInAccessList :: "address \<Rightarrow> hash \<Rightarrow> 's \<Rightarrow> ((bool \<times> bool) \<times> 's) go"
  db_AddAddressToAccessList :: "address \<Rightarrow> 's \<Rightarrow> 's go"
  db_AddSlotToAccessList :: "address \<Rightarrow> hash \<Rightarrow> 's \<Rightarrow> 's go"
  db_RevertToSnapshot :: "nat \<Rightarrow> 's \<Rightarrow> 's go"
  db_Snapshot :: "'s \<Rightarrow> (nat \<times> 's) go"
  db_AddLog :: "Log \<Rightarrow> 's \<Rightarrow> 's go"
  db_AddPreimage :: "hash \<Rightarrow> bytes \<Rightarrow> 's \<Rightarrow> 's go"

record Rules =
  IsHomestead :: bool
  IsEIP150 :: bool
  IsLondon :: bool
  IsMerge :: bool

record 's BlockContext =
  CanTransfer :: "address \<Rightarrow> int \<Rightarrow> 's \<Rightarrow> (bool \<times> 's) go"
  Transfer :: "address \<Rightarrow> address \<Rightarrow> int \<Rightarrow> 's \<Rightarrow> 's go"
  GetHash :: "u64 \<Rightarrow> hash"
  Coinbase :: address
  GasLimit :: u64
  BlockNumber :: int
  Time :: int
  Difficulty :: int
  BaseFee :: "int option"
  Random :: "hash option"

record TxContext =
  Origin :: address
  GasPrice :: int

text \<open>Code from outside the repository: hash functions and public key recovery (the hash and
  the 65-byte signature give the 65-byte key, or nothing).\<close>

record crypto_lib =
  keccak256 :: "bytes \<Rightarrow> hash"
  sha256 :: "bytes \<Rightarrow> bytes"
  ripemd160 :: "bytes \<Rightarrow> bytes"
  Ecrecover :: "bytes \<Rightarrow> bytes \<Rightarrow> bytes option"

record 's evm_env =
  U :: uint256_lib
  crypto :: crypto_lib
  db :: "'s StateDB"
  Context :: "'s BlockContext"
  TxCtx :: TxContext
  chainID :: "int option"
  chainRules :: Rules
  EnablePreimageRecording :: bool
  abort_at :: "nat \<Rightarrow> bool"

record 's evm =
  statedb :: 's
  depth :: nat
  abort_loads :: nat
  callGasTemp :: u64
  readOnly :: bool
  returnData :: bytes
  jumpdests :: jumpdests

record ScopeContext =
  sc_mem :: Memory
  sc_stack :: stack
  sc_contract :: Contract

text \<open>The types of the interpreter's loop (called for nested frames), of the instructions, of
  the gas functions and of the memory size functions.\<close>

type_synonym 's runner =
  "Contract \<Rightarrow> bytes \<Rightarrow> bool \<Rightarrow> 's evm \<Rightarrow> ((bytes \<times> vm_error option) \<times> Contract \<times> 's evm) go"

type_synonym 's executionFunc =
  "'s runner \<Rightarrow> 's evm_env \<Rightarrow> u64 \<Rightarrow> 's evm \<Rightarrow> ScopeContext
     \<Rightarrow> ((bytes \<times> vm_error option) \<times> u64 \<times> 's evm \<times> ScopeContext) go"

type_synonym 's gasFunc =
  "'s evm_env \<Rightarrow> 's evm \<Rightarrow> Contract \<Rightarrow> stack \<Rightarrow> Memory \<Rightarrow> u64
     \<Rightarrow> ((u64 \<times> vm_error option) \<times> 's evm \<times> Contract \<times> Memory) go"

type_synonym memorySizeFunc = "uint256_lib \<Rightarrow> stack \<Rightarrow> (u64 \<times> bool) go"

text \<open>Calling the state through the interface.\<close>

definition db_get :: "('s \<Rightarrow> ('a \<times> 's) go) \<Rightarrow> 's evm \<Rightarrow> ('a \<times> 's evm) go" where
  "db_get f evm = go_bind (f (statedb evm)) (\<lambda>(x, s). Ret (x, evm\<lparr> statedb := s \<rparr>))"

definition db_do :: "('s \<Rightarrow> 's go) \<Rightarrow> 's evm \<Rightarrow> 's evm go" where
  "db_do f evm = go_bind (f (statedb evm)) (\<lambda>s. Ret (evm\<lparr> statedb := s \<rparr>))"

end
