(* ===== verification/State_DB.thy ===== *)
theory State_DB
  imports State_Access_List State_Object Evm_Env "HOL-Library.AList"
begin

text \<open>
  The state database: \<^verbatim>\<open>src/blockchain/state/statedb.go\<close> and its journal,
  \<^verbatim>\<open>src/blockchain/state/journal.go\<close>.

  \<^item> The record \<open>state_db\<close> holds the fields of \<^verbatim>\<open>StateDB\<close> and of its journal; the maps of dirty and
    pending addresses are lists, as the code ranges over them.
  \<^item> A pointer to a state object is the object the map \<open>stateObjects\<close> holds under its address;
    changing the object through the pointer is putting the changed object back.
  \<^item> \<open>state_db_ops\<close> is the database as the interface \<^verbatim>\<open>evm.StateDB\<close> of the virtual machine.
\<close>

section \<open>The journal entries\<close>

datatype 't journalEntry =
    createObjectChange address
  | resetObjectChange "'t stateObject" bool
  | suicideChange address bool int
  | balanceChange address int
  | nonceChange address u64
  | storageChange address hash hash
  | codeChange address bytes hash
  | refundChange u64
  | addLogChange hash
  | addPreimageChange hash
  | touchChange address
  | accessListAddAccountChange address
  | accessListAddSlotChange address hash

fun dirtied :: "'t journalEntry \<Rightarrow> address option" where
  "dirtied (createObjectChange a) = Some a"
| "dirtied (resetObjectChange _ _) = None"
| "dirtied (suicideChange a _ _) = Some a"
| "dirtied (balanceChange a _) = Some a"
| "dirtied (nonceChange a _) = Some a"
| "dirtied (storageChange a _ _) = Some a"
| "dirtied (codeChange a _ _) = Some a"
| "dirtied (refundChange _) = None"
| "dirtied (addLogChange _) = None"
| "dirtied (addPreimageChange _) = None"
| "dirtied (touchChange a) = Some a"
| "dirtied (accessListAddAccountChange _) = None"
| "dirtied (accessListAddSlotChange _ _) = None"

section \<open>The state\<close>

record revision =
  rev_id :: nat
  journalIndex :: nat

record 't state_objects =
  main_trie :: 't
  originalRoot :: hash
  snap :: "snapshot option"
  snapDestructs :: "hash set"
  snapAccounts :: "hash \<Rightarrow> bytes option"
  snapStorage :: "hash \<Rightarrow> (hash \<Rightarrow> bytes option) option"
  stateObjects :: "address \<Rightarrow> 't stateObject option"
  stateObjectsPending :: "address list"
  stateObjectsDirty :: "address list"
  dbErr :: "state_error option"

record 't state_db = "'t state_objects" +
  refund :: u64
  thash :: hash
  txIndex :: int
  logs :: "hash \<Rightarrow> Log list option"
  logSize :: u64
  preimages :: "hash \<Rightarrow> bytes option"
  accessList_of :: accessList
  entries :: "'t journalEntry list"
  dirties :: "(address \<times> int) list"
  validRevisions :: "revision list"
  nextRevisionId :: nat

text \<open>The tree of snapshots, where there is one, gives the snapshot of a root.\<close>

definition New ::
  "'t StateDatabase \<Rightarrow> hash \<Rightarrow> (hash \<Rightarrow> snapshot option) option \<Rightarrow> string + 't state_db" where
  "New sdb rt snaps =
     (case OpenTrie sdb rt of
        Inl err \<Rightarrow> Inl err
      | Inr tr \<Rightarrow> Inr
          \<lparr> main_trie = tr, originalRoot = rt,
            snap = (case snaps of None \<Rightarrow> None | Some tree \<Rightarrow> tree rt),
            snapDestructs = {}, snapAccounts = (\<lambda>_. None), snapStorage = (\<lambda>_. None),
            stateObjects = (\<lambda>_. None), stateObjectsPending = [], stateObjectsDirty = [], dbErr = None,
            refund = 0, thash = 0, txIndex = 0, logs = (\<lambda>_. None), logSize = 0, preimages = (\<lambda>_. None),
            accessList_of = newAccessList, entries = [], dirties = [], validRevisions = [],
            nextRevisionId = 0 \<rparr>)"

definition setError :: "state_error \<Rightarrow> 't state_db \<Rightarrow> 't state_db" where
  "setError err s = (if dbErr s = None then s\<lparr> dbErr := Some err \<rparr> else s)"

section \<open>Writing the journal\<close>

definition dirties_at :: "address \<Rightarrow> 't state_db \<Rightarrow> int" where
  "dirties_at a s = (case map_of (dirties s) a of None \<Rightarrow> 0 | Some n \<Rightarrow> n)"

definition journal_dirty :: "address \<Rightarrow> 't state_db \<Rightarrow> 't state_db" where
  "journal_dirty a s = s\<lparr> dirties := AList.update a (dirties_at a s + 1) (dirties s) \<rparr>"

definition journal_append :: "'t journalEntry \<Rightarrow> 't state_db \<Rightarrow> 't state_db" where
  "journal_append entry s =
     (let s = s\<lparr> entries := entries s @ [entry] \<rparr> in
      case dirtied entry of None \<Rightarrow> s | Some a \<Rightarrow> journal_dirty a s)"

section \<open>Objects\<close>

definition setStateObject :: "'t stateObject \<Rightarrow> 't state_db \<Rightarrow> 't state_db" where
  "setStateObject obj s = s\<lparr> stateObjects := (stateObjects s)(so_address obj \<mapsto> obj) \<rparr>"

text \<open>The account data behind an address that has no live object: from the snapshot, or from the
  account trie when there is no snapshot or it fails. A missing account and one that does not
  decode are nil; a failing read also leaves an error.\<close>

definition slim_data :: "'t StateDatabase \<Rightarrow> slim_account \<Rightarrow> StateAccount" where
  "slim_data sdb acc =
     \<lparr> acc_Nonce = slim_Nonce acc, acc_Balance = slim_Balance acc,
       acc_Root = (if BytesToHash (slim_Root acc) = 0 then emptyRoot else BytesToHash (slim_Root acc)),
       acc_CodeHash = (if slim_CodeHash acc = [] then obj_emptyCodeHash sdb else BytesToHash (slim_CodeHash acc)) \<rparr>"

definition trie_account ::
  "'t StateDatabase \<Rightarrow> 't \<Rightarrow> address \<Rightarrow> StateAccount option \<times> state_error option" where
  "trie_account sdb tr addr =
     (case TryGet sdb tr (address_bytes addr) of
        (_, Some err) \<Rightarrow> (None, Some (AccountError addr err))
      | (enc, None) \<Rightarrow> (if length enc = 0 then None else DecodeAccount sdb enc, None))"

definition load_account ::
  "'t StateDatabase \<Rightarrow> snapshot option \<Rightarrow> 't \<Rightarrow> address \<Rightarrow> StateAccount option \<times> state_error option" where
  "load_account sdb sn tr addr =
     (case sn of
        None \<Rightarrow> trie_account sdb tr addr
      | Some sn \<Rightarrow>
          (case snap_Account sn (Keccak256 sdb (address_bytes addr)) of
             (acc, None) \<Rightarrow> (map_option (slim_data sdb) acc, None)
           | (_, Some _) \<Rightarrow> trie_account sdb tr addr))"

definition getDeletedStateObject ::
  "'t StateDatabase \<Rightarrow> address \<Rightarrow> 't state_db \<Rightarrow> 't stateObject option \<times> 't state_db" where
  "getDeletedStateObject sdb addr s =
     (case stateObjects s addr of
        Some obj \<Rightarrow> (Some obj, s)
      | None \<Rightarrow>
          (case load_account sdb (snap s) (main_trie s) addr of
             (None, None) \<Rightarrow> (None, s)
           | (None, Some err) \<Rightarrow> (None, setError err s)
           | (Some data, _) \<Rightarrow>
               let obj = newObject sdb addr data in (Some obj, setStateObject obj s)))"

definition getStateObject ::
  "'t StateDatabase \<Rightarrow> address \<Rightarrow> 't state_db \<Rightarrow> 't stateObject option \<times> 't state_db" where
  "getStateObject sdb addr s =
     (case getDeletedStateObject sdb addr s of
        (Some obj, s) \<Rightarrow> (if deleted obj then None else Some obj, s)
      | (None, s) \<Rightarrow> (None, s))"

definition createObject ::
  "'t StateDatabase \<Rightarrow> address \<Rightarrow> 't state_db \<Rightarrow> ('t stateObject \<times> 't stateObject option) \<times> 't state_db" where
  "createObject sdb addr s =
     (let (prevObj, s) = getDeletedStateObject sdb addr s;
          newObj = newObject sdb addr (empty_account sdb)
      in case prevObj of
           None \<Rightarrow>
             let s = setStateObject newObj (journal_append (createObjectChange addr) s) in
             ((newObj, None), s)
         | Some prev \<Rightarrow>
             let prevdestruct = (snap s \<noteq> None \<and> so_addrHash prev \<in> snapDestructs s);
                 s = (if snap s \<noteq> None \<and> \<not> prevdestruct
                      then s\<lparr> snapDestructs := insert (so_addrHash prev) (snapDestructs s) \<rparr> else s);
                 s = setStateObject newObj (journal_append (resetObjectChange prev prevdestruct) s)
             in ((newObj, if deleted prev then None else Some prev), s))"

definition GetOrNewStateObject ::
  "'t StateDatabase \<Rightarrow> address \<Rightarrow> 't state_db \<Rightarrow> 't stateObject \<times> 't state_db" where
  "GetOrNewStateObject sdb addr s =
     (case getStateObject sdb addr s of
        (Some obj, s) \<Rightarrow> (obj, s)
      | (None, s) \<Rightarrow> (case createObject sdb addr s of ((newObj, _), s) \<Rightarrow> (newObj, s)))"

definition CreateAccount :: "'t StateDatabase \<Rightarrow> address \<Rightarrow> 't state_db \<Rightarrow> 't state_db" where
  "CreateAccount sdb addr s =
     (case createObject sdb addr s of
        ((newObj, None), s) \<Rightarrow> s
      | ((newObj, Some prev), s) \<Rightarrow> setStateObject (setBalance (acc_Balance (so_data prev)) newObj) s)"

section \<open>Logs, preimages and refunds\<close>

definition AddLog :: "Log \<Rightarrow> 't state_db \<Rightarrow> 't state_db" where
  "AddLog l s =
     (let s = journal_append (addLogChange (thash s)) s;
          l = l\<lparr> log_TxHash := thash s, log_TxIndex := nat (txIndex s mod 2 ^ 64),
                     log_Index := unat (logSize s) \<rparr>;
          old = (case logs s (thash s) of None \<Rightarrow> [] | Some ls \<Rightarrow> ls)
      in s\<lparr> logs := (logs s)(thash s \<mapsto> old @ [l]), logSize := logSize s + 1 \<rparr>)"

definition AddPreimage :: "hash \<Rightarrow> bytes \<Rightarrow> 't state_db \<Rightarrow> 't state_db" where
  "AddPreimage h preimage s =
     (if preimages s h = None then
        let s = journal_append (addPreimageChange h) s in
        s\<lparr> preimages := (preimages s)(h \<mapsto> preimage) \<rparr>
      else s)"

definition AddRefund :: "u64 \<Rightarrow> 't state_db \<Rightarrow> 't state_db" where
  "AddRefund gas s =
     (let s = journal_append (refundChange (refund s)) s in s\<lparr> refund := refund s + gas \<rparr>)"

definition refund_panic :: panic where
  "refund_panic = PanicMsg ''Refund counter below zero''"

definition SubRefund :: "u64 \<Rightarrow> 't state_db \<Rightarrow> 't state_db go" where
  "SubRefund gas s =
     (let s = journal_append (refundChange (refund s)) s in
      if gas > refund s then Panic refund_panic else Ret (s\<lparr> refund := refund s - gas \<rparr>))"

section \<open>Getters\<close>

text \<open>A getter looks the object up and returns a default when there is none.\<close>

definition with_object ::
  "'t StateDatabase \<Rightarrow> address \<Rightarrow> 'a \<Rightarrow> ('t stateObject \<Rightarrow> ('a \<times> 't stateObject) go) \<Rightarrow> 't state_db
     \<Rightarrow> ('a \<times> 't state_db) go" where
  "with_object sdb addr d f s =
     (case getStateObject sdb addr s of
        (None, s) \<Rightarrow> Ret (d, s)
      | (Some obj, s) \<Rightarrow> go_bind (f obj) (\<lambda>(x, obj). Ret (x, setStateObject obj s)))"

definition Exist :: "'t StateDatabase \<Rightarrow> address \<Rightarrow> 't state_db \<Rightarrow> bool \<times> 't state_db" where
  "Exist sdb addr s = (case getStateObject sdb addr s of (obj, s) \<Rightarrow> (obj \<noteq> None, s))"

definition Empty :: "'t StateDatabase \<Rightarrow> address \<Rightarrow> 't state_db \<Rightarrow> bool \<times> 't state_db" where
  "Empty sdb addr s =
     (case getStateObject sdb addr s of
        (None, s) \<Rightarrow> (True, s) | (Some so, s) \<Rightarrow> (empty_obj sdb so, s))"

definition GetBalance :: "'t StateDatabase \<Rightarrow> address \<Rightarrow> 't state_db \<Rightarrow> int \<times> 't state_db" where
  "GetBalance sdb addr s =
     (case getStateObject sdb addr s of
        (None, s) \<Rightarrow> (0, s) | (Some obj, s) \<Rightarrow> (acc_Balance (so_data obj), s))"

definition GetNonce :: "'t StateDatabase \<Rightarrow> address \<Rightarrow> 't state_db \<Rightarrow> u64 \<times> 't state_db" where
  "GetNonce sdb addr s =
     (case getStateObject sdb addr s of
        (None, s) \<Rightarrow> (0, s) | (Some obj, s) \<Rightarrow> (acc_Nonce (so_data obj), s))"

definition GetCode :: "'t StateDatabase \<Rightarrow> address \<Rightarrow> 't state_db \<Rightarrow> (bytes \<times> 't state_db) go" where
  "GetCode sdb addr = with_object sdb addr [] (\<lambda>obj. Ret (obj_Code sdb obj))"

definition GetCodeSize :: "'t StateDatabase \<Rightarrow> address \<Rightarrow> 't state_db \<Rightarrow> (nat \<times> 't state_db) go" where
  "GetCodeSize sdb addr = with_object sdb addr 0 (\<lambda>obj. Ret (obj_CodeSize sdb obj))"

definition GetCodeHash :: "'t StateDatabase \<Rightarrow> address \<Rightarrow> 't state_db \<Rightarrow> hash \<times> 't state_db" where
  "GetCodeHash sdb addr s =
     (case getStateObject sdb addr s of
        (None, s) \<Rightarrow> (0, s) | (Some obj, s) \<Rightarrow> (acc_CodeHash (so_data obj), s))"

definition GetState :: "'t StateDatabase \<Rightarrow> address \<Rightarrow> hash \<Rightarrow> 't state_db \<Rightarrow> (hash \<times> 't state_db) go" where
  "GetState sdb addr key s =
     with_object sdb addr 0 (obj_GetState sdb (snap s) (snapDestructs s) key) s"

definition GetCommittedState ::
  "'t StateDatabase \<Rightarrow> address \<Rightarrow> hash \<Rightarrow> 't state_db \<Rightarrow> (hash \<times> 't state_db) go" where
  "GetCommittedState sdb addr key s =
     with_object sdb addr 0 (obj_GetCommittedState sdb (snap s) (snapDestructs s) key) s"

definition HasSuicided :: "'t StateDatabase \<Rightarrow> address \<Rightarrow> 't state_db \<Rightarrow> bool \<times> 't state_db" where
  "HasSuicided sdb addr s =
     (case getStateObject sdb addr s of
        (None, s) \<Rightarrow> (False, s) | (Some obj, s) \<Rightarrow> (suicided obj, s))"

section \<open>Setters\<close>

text \<open>The methods of a state object that write the journal of its database.\<close>

definition ripemd :: address where "ripemd = 3"

definition obj_touch :: "'t stateObject \<Rightarrow> 't state_db \<Rightarrow> 't state_db" where
  "obj_touch obj s =
     (let s = journal_append (touchChange (so_address obj)) s in
      if so_address obj = ripemd then journal_dirty (so_address obj) s else s)"

definition obj_SetBalance :: "int \<Rightarrow> 't stateObject \<Rightarrow> 't state_db \<Rightarrow> 't state_db" where
  "obj_SetBalance amount obj s =
     setStateObject (setBalance amount obj)
       (journal_append (balanceChange (so_address obj) (acc_Balance (so_data obj))) s)"

definition obj_AddBalance :: "'t StateDatabase \<Rightarrow> int \<Rightarrow> 't stateObject \<Rightarrow> 't state_db \<Rightarrow> 't state_db" where
  "obj_AddBalance sdb amount obj s =
     (if amount = 0 then if empty_obj sdb obj then obj_touch obj s else s
      else obj_SetBalance (acc_Balance (so_data obj) + amount) obj s)"

definition obj_SubBalance :: "int \<Rightarrow> 't stateObject \<Rightarrow> 't state_db \<Rightarrow> 't state_db" where
  "obj_SubBalance amount obj s =
     (if amount = 0 then s else obj_SetBalance (acc_Balance (so_data obj) - amount) obj s)"

definition obj_SetNonce :: "u64 \<Rightarrow> 't stateObject \<Rightarrow> 't state_db \<Rightarrow> 't state_db" where
  "obj_SetNonce nonce obj s =
     setStateObject (setNonce nonce obj)
       (journal_append (nonceChange (so_address obj) (acc_Nonce (so_data obj))) s)"

definition obj_SetCode ::
  "'t StateDatabase \<Rightarrow> hash \<Rightarrow> bytes \<Rightarrow> 't stateObject \<Rightarrow> 't state_db \<Rightarrow> 't state_db" where
  "obj_SetCode sdb codeHash code obj s =
     (let (prevcode, obj) = obj_Code sdb obj in
      setStateObject (setCode codeHash code obj)
        (journal_append (codeChange (so_address obj) prevcode (acc_CodeHash (so_data obj))) s))"

definition obj_SetState ::
  "'t StateDatabase \<Rightarrow> hash \<Rightarrow> hash \<Rightarrow> 't stateObject \<Rightarrow> 't state_db \<Rightarrow> 't state_db go" where
  "obj_SetState sdb key value obj s =
     (case fakeStorage obj of
        Some fake \<Rightarrow> Ret (setStateObject (obj\<lparr> fakeStorage := Some (fake(key \<mapsto> value)) \<rparr>) s)
      | None \<Rightarrow>
          go_bind (obj_GetState sdb (snap s) (snapDestructs s) key obj) (\<lambda>(prev, obj).
          if prev = value then Ret (setStateObject obj s)
          else Ret (setStateObject (setState key value obj)
                 (journal_append (storageChange (so_address obj) key prev) s))))"

definition AddBalance :: "'t StateDatabase \<Rightarrow> address \<Rightarrow> int \<Rightarrow> 't state_db \<Rightarrow> 't state_db" where
  "AddBalance sdb addr amount s =
     (case GetOrNewStateObject sdb addr s of (obj, s) \<Rightarrow> obj_AddBalance sdb amount obj s)"

definition SubBalance :: "'t StateDatabase \<Rightarrow> address \<Rightarrow> int \<Rightarrow> 't state_db \<Rightarrow> 't state_db" where
  "SubBalance sdb addr amount s =
     (case GetOrNewStateObject sdb addr s of (obj, s) \<Rightarrow> obj_SubBalance amount obj s)"

definition SetBalance :: "'t StateDatabase \<Rightarrow> address \<Rightarrow> int \<Rightarrow> 't state_db \<Rightarrow> 't state_db" where
  "SetBalance sdb addr amount s =
     (case GetOrNewStateObject sdb addr s of (obj, s) \<Rightarrow> obj_SetBalance amount obj s)"

definition SetNonce :: "'t StateDatabase \<Rightarrow> address \<Rightarrow> u64 \<Rightarrow> 't state_db \<Rightarrow> 't state_db" where
  "SetNonce sdb addr nonce s =
     (case GetOrNewStateObject sdb addr s of (obj, s) \<Rightarrow> obj_SetNonce nonce obj s)"

definition SetCode :: "'t StateDatabase \<Rightarrow> address \<Rightarrow> bytes \<Rightarrow> 't state_db \<Rightarrow> 't state_db" where
  "SetCode sdb addr code s =
     (case GetOrNewStateObject sdb addr s of (obj, s) \<Rightarrow> obj_SetCode sdb (Keccak256 sdb code) code obj s)"

definition SetState :: "'t StateDatabase \<Rightarrow> address \<Rightarrow> hash \<Rightarrow> hash \<Rightarrow> 't state_db \<Rightarrow> 't state_db go" where
  "SetState sdb addr key value s =
     (case GetOrNewStateObject sdb addr s of (obj, s) \<Rightarrow> obj_SetState sdb key value obj s)"

definition SetStorage :: "'t StateDatabase \<Rightarrow> address \<Rightarrow> storage \<Rightarrow> 't state_db \<Rightarrow> 't state_db" where
  "SetStorage sdb addr storage s =
     (case GetOrNewStateObject sdb addr s of (obj, s) \<Rightarrow> setStateObject (obj_SetStorage storage obj) s)"

definition Suicide :: "'t StateDatabase \<Rightarrow> address \<Rightarrow> 't state_db \<Rightarrow> bool \<times> 't state_db" where
  "Suicide sdb addr s =
     (case getStateObject sdb addr s of
        (None, s) \<Rightarrow> (False, s)
      | (Some obj, s) \<Rightarrow>
          (True, setStateObject (setBalance 0 (markSuicided obj))
             (journal_append (suicideChange addr (suicided obj) (acc_Balance (so_data obj))) s)))"

section \<open>Undoing changes\<close>

text \<open>Looking up an object that must exist: a nil pointer fails.\<close>

definition on_object ::
  "'t StateDatabase \<Rightarrow> address \<Rightarrow> ('t stateObject \<Rightarrow> 't stateObject) \<Rightarrow> 't state_db \<Rightarrow> 't state_db go" where
  "on_object sdb addr f s =
     (case getStateObject sdb addr s of
        (None, s) \<Rightarrow> Panic RuntimeError
      | (Some obj, s) \<Rightarrow> Ret (setStateObject (f obj) s))"

fun revert_entry :: "'t StateDatabase \<Rightarrow> 't journalEntry \<Rightarrow> 't state_db \<Rightarrow> 't state_db go" where
  "revert_entry sdb (createObjectChange a) s =
     Ret (s\<lparr> stateObjects := (stateObjects s)(a := None),
             stateObjectsDirty := removeAll a (stateObjectsDirty s) \<rparr>)"
| "revert_entry sdb (resetObjectChange prev prevdestruct) s =
     (let s = setStateObject prev s in
      Ret (if \<not> prevdestruct \<and> snap s \<noteq> None
           then s\<lparr> snapDestructs := snapDestructs s - {so_addrHash prev} \<rparr> else s))"
| "revert_entry sdb (suicideChange a prev prevbalance) s =
     (case getStateObject sdb a s of
        (None, s) \<Rightarrow> Ret s
      | (Some obj, s) \<Rightarrow> Ret (setStateObject (setBalance prevbalance (obj\<lparr> suicided := prev \<rparr>)) s))"
| "revert_entry sdb (balanceChange a prev) s = on_object sdb a (setBalance prev) s"
| "revert_entry sdb (nonceChange a prev) s = on_object sdb a (setNonce prev) s"
| "revert_entry sdb (storageChange a key prevalue) s = on_object sdb a (setState key prevalue) s"
| "revert_entry sdb (codeChange a prevcode prevhash) s = on_object sdb a (setCode prevhash prevcode) s"
| "revert_entry sdb (refundChange prev) s = Ret (s\<lparr> refund := prev \<rparr>)"
| "revert_entry sdb (addLogChange txhash) s =
     (case logs s txhash of
        None \<Rightarrow> Panic RuntimeError
      | Some ls \<Rightarrow>
          if length ls = 0 then Panic RuntimeError
          else Ret (s\<lparr> logs := (if length ls = 1 then (logs s)(txhash := None)
                                else (logs s)(txhash \<mapsto> take (length ls - 1) ls)),
                       logSize := logSize s - 1 \<rparr>))"
| "revert_entry sdb (addPreimageChange h) s = Ret (s\<lparr> preimages := (preimages s)(h := None) \<rparr>)"
| "revert_entry sdb (touchChange a) s = Ret s"
| "revert_entry sdb (accessListAddAccountChange a) s =
     Ret (s\<lparr> accessList_of := DeleteAddress a (accessList_of s) \<rparr>)"
| "revert_entry sdb (accessListAddSlotChange a slot) s =
     go_bind (DeleteSlot a slot (accessList_of s)) (\<lambda>al. Ret (s\<lparr> accessList_of := al \<rparr>))"

definition drop_dirty :: "'t journalEntry \<Rightarrow> 't state_db \<Rightarrow> 't state_db" where
  "drop_dirty entry s =
     (case dirtied entry of
        None \<Rightarrow> s
      | Some a \<Rightarrow>
          let n = dirties_at a s - 1 in
          s\<lparr> dirties := (if n = 0 then AList.delete a (dirties s) else AList.update a n (dirties s)) \<rparr>)"

primrec revert_entries :: "'t StateDatabase \<Rightarrow> 't journalEntry list \<Rightarrow> 't state_db \<Rightarrow> 't state_db go" where
  "revert_entries sdb [] s = Ret s"
| "revert_entries sdb (e # es) s =
     go_bind (revert_entry sdb e s) (\<lambda>s. revert_entries sdb es (drop_dirty e s))"

definition journal_revert :: "'t StateDatabase \<Rightarrow> nat \<Rightarrow> 't state_db \<Rightarrow> 't state_db go" where
  "journal_revert sdb n s =
     go_bind (revert_entries sdb (rev (drop n (entries s))) s) (\<lambda>s.
     go_bind (slice_go (entries s) 0 n) (\<lambda>es. Ret (s\<lparr> entries := es \<rparr>)))"

section \<open>Snapshots\<close>

definition Snapshot :: "'t state_db \<Rightarrow> nat \<times> 't state_db" where
  "Snapshot s =
     (nextRevisionId s,
      s\<lparr> nextRevisionId := nextRevisionId s + 1,
         validRevisions := validRevisions s
           @ [\<lparr> rev_id = nextRevisionId s, journalIndex = length (entries s) \<rparr>] \<rparr>)"

text \<open>\<^verbatim>\<open>sort.Search\<close>: the binary search of the Go library.\<close>

function sort_Search_loop :: "(nat \<Rightarrow> bool) \<Rightarrow> nat \<Rightarrow> nat \<Rightarrow> nat" where
  "sort_Search_loop f i j =
     (if i < j then
        let h = (i + j) div 2 in
        if \<not> f h then sort_Search_loop f (h + 1) j else sort_Search_loop f i h
      else i)"
  by pat_completeness auto
termination
  by (relation "measure (\<lambda>(f, i, j). j - i)") auto

declare sort_Search_loop.simps [simp del]

definition sort_Search :: "nat \<Rightarrow> (nat \<Rightarrow> bool) \<Rightarrow> nat" where
  "sort_Search n f = sort_Search_loop f 0 n"

definition revision_panic :: panic where
  "revision_panic = PanicMsg ''revision id cannot be reverted''"

definition RevertToSnapshot :: "'t StateDatabase \<Rightarrow> nat \<Rightarrow> 't state_db \<Rightarrow> 't state_db go" where
  "RevertToSnapshot sdb revid s =
     (let revs = validRevisions s;
          idx = sort_Search (length revs) (\<lambda>i. rev_id (revs ! i) \<ge> revid)
      in if idx = length revs \<or> rev_id (revs ! idx) \<noteq> revid then Panic revision_panic
         else go_bind (journal_revert sdb (journalIndex (revs ! idx)) s) (\<lambda>s.
              Ret (s\<lparr> validRevisions := take idx (validRevisions s) \<rparr>)))"

section \<open>The end of a transaction\<close>

definition clearJournalAndRefund :: "'t state_db \<Rightarrow> 't state_db" where
  "clearJournalAndRefund s =
     (let s = (if 0 < length (entries s) then s\<lparr> entries := [], dirties := [], refund := 0 \<rparr> else s)
      in s\<lparr> validRevisions := [] \<rparr>)"

definition finalise_address ::
  "'t StateDatabase \<Rightarrow> bool \<Rightarrow> address \<Rightarrow> 't state_db \<Rightarrow> 't state_db" where
  "finalise_address sdb deleteEmptyObjects addr s =
     (case stateObjects s addr of
        None \<Rightarrow> s
      | Some obj \<Rightarrow>
          let s = (if suicided obj \<or> deleteEmptyObjects \<and> empty_obj sdb obj then
                     let s = s\<lparr> stateObjects := (stateObjects s)(addr \<mapsto> obj\<lparr> deleted := True \<rparr>) \<rparr> in
                     if snap s \<noteq> None
                     then s\<lparr> snapDestructs := insert (so_addrHash obj) (snapDestructs s),
                             snapAccounts := (snapAccounts s)(so_addrHash obj := None),
                             snapStorage := (snapStorage s)(so_addrHash obj := None) \<rparr>
                     else s
                   else s\<lparr> stateObjects := (stateObjects s)(addr \<mapsto> finalise obj) \<rparr>)
          in s\<lparr> stateObjectsPending := List.insert addr (stateObjectsPending s),
                stateObjectsDirty := List.insert addr (stateObjectsDirty s) \<rparr>)"

definition Finalise :: "'t StateDatabase \<Rightarrow> bool \<Rightarrow> 't state_db \<Rightarrow> 't state_db" where
  "Finalise sdb deleteEmptyObjects s =
     clearJournalAndRefund (fold (finalise_address sdb deleteEmptyObjects) (map fst (dirties s)) s)"

definition Prepare :: "hash \<Rightarrow> int \<Rightarrow> 't state_db \<Rightarrow> 't state_db" where
  "Prepare th ti s = s\<lparr> thash := th, txIndex := ti \<rparr>"

section \<open>The access list\<close>

definition AddAddressToAccessList :: "address \<Rightarrow> 't state_db \<Rightarrow> 't state_db" where
  "AddAddressToAccessList addr s =
     (case AddAddress addr (accessList_of s) of (changed, al) \<Rightarrow>
        let s = s\<lparr> accessList_of := al \<rparr> in
        if changed then journal_append (accessListAddAccountChange addr) s else s)"

definition AddSlotToAccessList :: "address \<Rightarrow> hash \<Rightarrow> 't state_db \<Rightarrow> 't state_db go" where
  "AddSlotToAccessList addr slot s =
     go_bind (AddSlot addr slot (accessList_of s)) (\<lambda>((addrMod, slotMod), al).
     let s = s\<lparr> accessList_of := al \<rparr>;
         s = (if addrMod then journal_append (accessListAddAccountChange addr) s else s);
         s = (if slotMod then journal_append (accessListAddSlotChange addr slot) s else s)
     in Ret s)"

definition AddressInAccessList :: "address \<Rightarrow> 't state_db \<Rightarrow> bool" where
  "AddressInAccessList addr s = ContainsAddress addr (accessList_of s)"

definition SlotInAccessList :: "address \<Rightarrow> hash \<Rightarrow> 't state_db \<Rightarrow> (bool \<times> bool) go" where
  "SlotInAccessList addr slot s = Contains addr slot (accessList_of s)"

primrec add_slots :: "address \<Rightarrow> hash list \<Rightarrow> 't state_db \<Rightarrow> 't state_db go" where
  "add_slots addr [] s = Ret s"
| "add_slots addr (key # keys) s = go_bind (AddSlotToAccessList addr key s) (add_slots addr keys)"

primrec add_tuples :: "(address \<times> hash list) list \<Rightarrow> 't state_db \<Rightarrow> 't state_db go" where
  "add_tuples [] s = Ret s"
| "add_tuples (el # list) s =
     go_bind (add_slots (fst el) (snd el) (AddAddressToAccessList (fst el) s)) (add_tuples list)"

definition PrepareAccessList ::
  "address \<Rightarrow> address option \<Rightarrow> address list \<Rightarrow> (address \<times> hash list) list \<Rightarrow> 't state_db
     \<Rightarrow> 't state_db go" where
  "PrepareAccessList sender dst precompiles list s =
     (let s = AddAddressToAccessList sender (s\<lparr> accessList_of := newAccessList \<rparr>);
          s = (case dst of None \<Rightarrow> s | Some d \<Rightarrow> AddAddressToAccessList d s)
      in add_tuples list (fold AddAddressToAccessList precompiles s))"

section \<open>Copies\<close>

definition copy_object ::
  "'t StateDatabase \<Rightarrow> 't state_db \<Rightarrow> address \<Rightarrow> 't state_db \<Rightarrow> 't state_db go" where
  "copy_object sdb s addr st =
     (case stateObjects st addr of
        Some _ \<Rightarrow> Ret st
      | None \<Rightarrow>
          (case stateObjects s addr of
             None \<Rightarrow> Panic RuntimeError
           | Some obj \<Rightarrow> Ret (st\<lparr> stateObjects := (stateObjects st)(addr \<mapsto> deepCopy sdb obj) \<rparr>)))"

primrec copy_pending ::
  "'t StateDatabase \<Rightarrow> 't state_db \<Rightarrow> address list \<Rightarrow> 't state_db \<Rightarrow> 't state_db go" where
  "copy_pending sdb s [] st = Ret st"
| "copy_pending sdb s (addr # addrs) st =
     go_bind (copy_object sdb s addr st) (\<lambda>st.
     copy_pending sdb s addrs (st\<lparr> stateObjectsPending := List.insert addr (stateObjectsPending st) \<rparr>))"

primrec copy_dirty ::
  "'t StateDatabase \<Rightarrow> 't state_db \<Rightarrow> address list \<Rightarrow> 't state_db \<Rightarrow> 't state_db go" where
  "copy_dirty sdb s [] st = Ret st"
| "copy_dirty sdb s (addr # addrs) st =
     go_bind (copy_object sdb s addr st) (\<lambda>st.
     copy_dirty sdb s addrs (st\<lparr> stateObjectsDirty := List.insert addr (stateObjectsDirty st) \<rparr>))"

definition copy_journalled ::
  "'t StateDatabase \<Rightarrow> 't state_db \<Rightarrow> address \<Rightarrow> 't state_db \<Rightarrow> 't state_db" where
  "copy_journalled sdb s addr st =
     (case stateObjects s addr of
        None \<Rightarrow> st
      | Some obj \<Rightarrow>
          st\<lparr> stateObjects := (stateObjects st)(addr \<mapsto> deepCopy sdb obj),
              stateObjectsDirty := List.insert addr (stateObjectsDirty st),
              stateObjectsPending := List.insert addr (stateObjectsPending st) \<rparr>)"

definition Copy :: "'t StateDatabase \<Rightarrow> 't state_db \<Rightarrow> 't state_db go" where
  "Copy sdb s =
     (let st = \<lparr> main_trie = CopyTrie sdb (main_trie s), originalRoot = originalRoot s,
                 snap = snap s, snapDestructs = snapDestructs s, snapAccounts = snapAccounts s,
                 snapStorage = snapStorage s, stateObjects = (\<lambda>_. None), stateObjectsPending = [],
                 stateObjectsDirty = [], dbErr = None, refund = refund s, thash = 0, txIndex = 0,
                 logs = logs s, logSize = logSize s, preimages = preimages s,
                 accessList_of = accessList_of s, entries = [], dirties = [], validRevisions = [],
                 nextRevisionId = 0 \<rparr>;
          st = fold (copy_journalled sdb s) (map fst (dirties s)) st
      in go_bind (copy_pending sdb s (stateObjectsPending s) st) (copy_dirty sdb s (stateObjectsDirty s)))"

section \<open>The interface of the virtual machine\<close>

definition state_db_ops :: "'t StateDatabase \<Rightarrow> 't state_db StateDB" where
  "state_db_ops sdb =
     \<lparr> db_CreateAccount = (\<lambda>a s. Ret (CreateAccount sdb a s)),
       db_SubBalance = (\<lambda>a v s. Ret (SubBalance sdb a v s)),
       db_AddBalance = (\<lambda>a v s. Ret (AddBalance sdb a v s)),
       db_GetBalance = (\<lambda>a s. Ret (GetBalance sdb a s)),
       db_GetNonce = (\<lambda>a s. Ret (GetNonce sdb a s)),
       db_SetNonce = (\<lambda>a n s. Ret (SetNonce sdb a n s)),
       db_GetCodeHash = (\<lambda>a s. Ret (GetCodeHash sdb a s)),
       db_GetCode = GetCode sdb,
       db_SetCode = (\<lambda>a c s. Ret (SetCode sdb a c s)),
       db_GetCodeSize = GetCodeSize sdb,
       db_AddRefund = (\<lambda>g s. Ret (AddRefund g s)),
       db_SubRefund = SubRefund,
       db_GetRefund = (\<lambda>s. Ret (refund s, s)),
       db_GetCommittedState = GetCommittedState sdb,
       db_GetState = GetState sdb,
       db_SetState = SetState sdb,
       db_Suicide = (\<lambda>a s. Ret (Suicide sdb a s)),
       db_HasSuicided = (\<lambda>a s. Ret (HasSuicided sdb a s)),
       db_Exist = (\<lambda>a s. Ret (Exist sdb a s)),
       db_Empty = (\<lambda>a s. Ret (Empty sdb a s)),
       db_AddressInAccessList = (\<lambda>a s. Ret (AddressInAccessList a s, s)),
       db_SlotInAccessList = (\<lambda>a k s. go_bind (SlotInAccessList a k s) (\<lambda>r. Ret (r, s))),
       db_AddAddressToAccessList = (\<lambda>a s. Ret (AddAddressToAccessList a s)),
       db_AddSlotToAccessList = AddSlotToAccessList,
       db_RevertToSnapshot = RevertToSnapshot sdb,
       db_Snapshot = (\<lambda>s. Ret (Snapshot s)),
       db_AddLog = (\<lambda>l s. Ret (AddLog l s)),
       db_AddPreimage = (\<lambda>h d s. Ret (AddPreimage h d s)) \<rparr>"

text \<open>The transfer functions that \<^verbatim>\<open>NewEVMBlockContext\<close> installs (\<^verbatim>\<open>src/blockchain/evm.go\<close>).\<close>

definition chain_CanTransfer :: "'s StateDB \<Rightarrow> address \<Rightarrow> int \<Rightarrow> 's \<Rightarrow> (bool \<times> 's) go" where
  "chain_CanTransfer dbi addr amount s =
     go_bind (db_GetBalance dbi addr s) (\<lambda>(balance, s). Ret (balance \<ge> amount, s))"

definition chain_Transfer :: "'s StateDB \<Rightarrow> address \<Rightarrow> address \<Rightarrow> int \<Rightarrow> 's \<Rightarrow> 's go" where
  "chain_Transfer dbi sender recipient amount s =
     go_bind (db_SubBalance dbi sender amount s) (db_AddBalance dbi recipient amount)"

end
