(* ===== verification/Go_Spec.thy ===== *)
theory Go_Spec
  imports Prelude
begin

text \<open>
  Total-correctness specifications of Go calls: \<open>go_spec P Q m\<close> says that the call \<open>m\<close> comes to an
  end (it does not run out of fuel), that its result satisfies \<open>Q\<close>, and that it may only panic
  with a value in \<open>P\<close>. The rules turn a specification of a composed call into specifications
  of its parts.
\<close>

primrec go_spec :: "panic set \<Rightarrow> ('a \<Rightarrow> bool) \<Rightarrow> 'a go \<Rightarrow> bool" where
  "go_spec P Q (Ret x) = Q x"
| "go_spec P Q (Panic p) = (p \<in> P)"
| "go_spec P Q OutOfFuel = False"

lemma go_spec_bind [simp]: "go_spec P Q (go_bind m f) = go_spec P (\<lambda>x. go_spec P Q (f x)) m"
  by (cases m) simp_all

lemma go_spec_map [simp]: "go_spec P Q (go_map f m) = go_spec P (\<lambda>x. Q (f x)) m"
  by (cases m) simp_all

lemma go_spec_mono: "go_spec P Q m \<Longrightarrow> (\<And>x. Q x \<Longrightarrow> R x) \<Longrightarrow> go_spec P R m"
  by (cases m) simp_all

lemma go_spec_widen: "go_spec P Q m \<Longrightarrow> P \<subseteq> P' \<Longrightarrow> go_spec P' Q m"
  by (cases m) auto

lemma go_spec_Ret: "go_spec P Q m \<Longrightarrow> m = Ret x \<Longrightarrow> Q x"
  by simp

lemma go_spec_conj: "go_spec P Q m \<Longrightarrow> go_spec P R m \<Longrightarrow> go_spec P (\<lambda>x. Q x \<and> R x) m"
  by (cases m) simp_all

lemma go_spec_index [simp]: "i < length xs \<Longrightarrow> go_spec P Q (index_go xs i) = Q (xs ! i)"
  by (simp add: index_go_def)

lemma go_spec_store [simp]: "i < length xs \<Longrightarrow> go_spec P Q (store_go xs i v) = Q (xs[i := v])"
  by (simp add: store_go_def)

text \<open>What a specification says of the possible outcomes.\<close>

lemma go_specD:
  assumes "go_spec P Q m"
  shows "m \<noteq> OutOfFuel" "m = Ret x \<Longrightarrow> Q x" "m = Panic p \<Longrightarrow> p \<in> P"
  using assms by (cases m; simp)+

lemma go_spec_iff:
  "go_spec P Q m \<longleftrightarrow> (\<exists>x. m = Ret x \<and> Q x) \<or> (\<exists>p. m = Panic p \<and> p \<in> P)"
  by (cases m) simp_all

end
