(* ===== verification/State_View.thy ===== *)
theory State_View
  imports State_DB Go_Spec
begin

text \<open>
  What the state database means, apart from what it has cached: \<open>view\<close> gives for every address the
  account a lookup would find, with its code and its storage as functions, next to the refund
  counter, logs, preimages and access list. Reading fills caches and keeps the view.
\<close>

section \<open>What is read behind the caches\<close>

definition trie_of :: "'t StateDatabase \<Rightarrow> 't stateObject \<Rightarrow> 't" where
  "trie_of sdb obj =
     (case so_trie obj of
        Some t \<Rightarrow> t
      | None \<Rightarrow>
          (case OpenStorageTrie sdb (so_addrHash obj) (acc_Root (so_data obj)) of
             Inr t \<Rightarrow> t
           | Inl _ \<Rightarrow> projr (OpenStorageTrie sdb (so_addrHash obj) 0)))"

definition trie_enc :: "'t StateDatabase \<Rightarrow> 't \<Rightarrow> hash \<Rightarrow> bytes option" where
  "trie_enc sdb t key = (case TryGet sdb t (hash_bytes key) of (enc, None) \<Rightarrow> Some enc | (_, Some _) \<Rightarrow> None)"

definition slot_enc :: "'t StateDatabase \<Rightarrow> snapshot option \<Rightarrow> hash \<Rightarrow> 't \<Rightarrow> hash \<Rightarrow> bytes option" where
  "slot_enc sdb sn h t key =
     (case sn of
        None \<Rightarrow> trie_enc sdb t key
      | Some s \<Rightarrow> (case snap_Storage s h (Keccak256 sdb (hash_bytes key)) of
                     (enc, None) \<Rightarrow> Some enc | (_, Some _) \<Rightarrow> trie_enc sdb t key))"

definition slot_value :: "bytes option \<Rightarrow> hash" where
  "slot_value enc =
     (case enc of
        None \<Rightarrow> 0
      | Some bs \<Rightarrow> if bs = [] then 0
          else (case Split bs of Ret (Inr (_, content, _)) \<Rightarrow> BytesToHash content | _ \<Rightarrow> 0))"

definition committed_of ::
  "'t StateDatabase \<Rightarrow> snapshot option \<Rightarrow> hash set \<Rightarrow> 't stateObject \<Rightarrow> hash \<Rightarrow> hash" where
  "committed_of sdb sn ds obj key =
     (case pendingStorage obj key of
        Some v \<Rightarrow> v
      | None \<Rightarrow>
          (case originStorage obj key of
             Some v \<Rightarrow> v
           | None \<Rightarrow>
               if sn \<noteq> None \<and> so_addrHash obj \<in> ds then 0
               else slot_value (slot_enc sdb sn (so_addrHash obj) (trie_of sdb obj) key)))"

definition state_of ::
  "'t StateDatabase \<Rightarrow> snapshot option \<Rightarrow> hash set \<Rightarrow> 't stateObject \<Rightarrow> hash \<Rightarrow> hash" where
  "state_of sdb sn ds obj key =
     (case dirtyStorage obj key of Some v \<Rightarrow> v | None \<Rightarrow> committed_of sdb sn ds obj key)"

definition code_at :: "'t StateDatabase \<Rightarrow> hash \<Rightarrow> hash \<Rightarrow> bytes \<Rightarrow> bytes" where
  "code_at sdb h codeHash code =
     (if code \<noteq> [] then code else if codeHash = obj_emptyCodeHash sdb then [] else fst (ContractCode sdb h codeHash))"

definition code_of :: "'t StateDatabase \<Rightarrow> 't stateObject \<Rightarrow> bytes" where
  "code_of sdb obj = code_at sdb (so_addrHash obj) (acc_CodeHash (so_data obj)) (so_code obj)"

section \<open>The view\<close>

record account_view =
  av_nonce :: u64
  av_balance :: int
  av_codeHash :: hash
  av_code :: bytes
  av_state :: "hash \<Rightarrow> hash"
  av_committed :: "hash \<Rightarrow> hash"
  av_suicided :: bool
  av_deleted :: bool

record state_view =
  v_accounts :: "address \<Rightarrow> account_view option"
  v_destructs :: "hash set"
  v_refund :: u64
  v_logs :: "hash \<Rightarrow> Log list"
  v_logSize :: u64
  v_preimages :: "hash \<Rightarrow> bytes option"
  v_accessList :: accessList

definition oview :: "'t StateDatabase \<Rightarrow> snapshot option \<Rightarrow> hash set \<Rightarrow> 't stateObject \<Rightarrow> account_view" where
  "oview sdb sn ds obj =
     \<lparr> av_nonce = acc_Nonce (so_data obj), av_balance = acc_Balance (so_data obj),
       av_codeHash = acc_CodeHash (so_data obj), av_code = code_of sdb obj,
       av_state = state_of sdb sn ds obj, av_committed = committed_of sdb sn ds obj,
       av_suicided = suicided obj, av_deleted = deleted obj \<rparr>"

text \<open>The object a lookup would find.\<close>

definition found :: "'t StateDatabase \<Rightarrow> 't state_db \<Rightarrow> address \<Rightarrow> 't stateObject option" where
  "found sdb s a = (case stateObjects s a of
     Some obj \<Rightarrow> Some obj
   | None \<Rightarrow> map_option (newObject sdb a) (fst (load_account sdb (snap s) (main_trie s) a)))"

definition view :: "'t StateDatabase \<Rightarrow> 't state_db \<Rightarrow> state_view" where
  "view sdb s =
     \<lparr> v_accounts = (\<lambda>a. map_option (oview sdb (snap s) (snapDestructs s)) (found sdb s a)),
       v_destructs = snapDestructs s, v_refund = refund s,
       v_logs = (\<lambda>h. case logs s h of None \<Rightarrow> [] | Some ls \<Rightarrow> ls), v_logSize = logSize s,
       v_preimages = preimages s, v_accessList = accessList_of s \<rparr>"

section \<open>Hypotheses on the database\<close>

text \<open>
  What the code relies on of the databases behind the state:
  \<^item> values are Go slices, so that their lengths are 63-bit numbers;
  \<^item> the empty storage trie can always be opened, and holds no value, under both of its roots;
  \<^item> the hash does not identify two addresses;
  \<^item> an account that does not exist has no storage in the snapshot.
\<close>

definition backend_ok :: "'t StateDatabase \<Rightarrow> bool" where
  "backend_ok sdb \<longleftrightarrow>
     (\<forall>h c. length (fst (ContractCode sdb h c)) < 2 ^ 63)
     \<and> (\<forall>t k. length (fst (TryGet sdb t k)) < 2 ^ 63)
     \<and> (\<forall>h. \<exists>t. OpenStorageTrie sdb h 0 = Inr t)
     \<and> (\<forall>h t k. OpenStorageTrie sdb h 0 = Inr t \<or> OpenStorageTrie sdb h emptyRoot = Inr t \<longrightarrow>
          fst (TryGet sdb t k) = [])
     \<and> inj (\<lambda>a. Keccak256 sdb (address_bytes a))"

definition store_ok :: "'t StateDatabase \<Rightarrow> snapshot option \<Rightarrow> 't \<Rightarrow> bool" where
  "store_ok sdb sn tr \<longleftrightarrow> (\<forall>s. sn = Some s \<longrightarrow>
     (\<forall>h k. length (fst (snap_Storage s h k)) < 2 ^ 63)
     \<and> (\<forall>a k. fst (load_account sdb sn tr a) = None \<longrightarrow>
          fst (snap_Storage s (Keccak256 sdb (address_bytes a)) k) = []))"

definition obj_ok :: "'t StateDatabase \<Rightarrow> address \<Rightarrow> 't stateObject \<Rightarrow> bool" where
  "obj_ok sdb a obj \<longleftrightarrow> so_address obj = a \<and> so_addrHash obj = Keccak256 sdb (address_bytes a)
     \<and> fakeStorage obj = None \<and> length (so_code obj) < 2 ^ 63"

lemma backend_okD:
  assumes "backend_ok sdb"
  shows "length (fst (ContractCode sdb h c)) < 2 ^ 63" "length (fst (TryGet sdb t k)) < 2 ^ 63"
    "\<exists>t. OpenStorageTrie sdb h 0 = Inr t"
    "OpenStorageTrie sdb h 0 = Inr t \<Longrightarrow> fst (TryGet sdb t k) = []"
    "OpenStorageTrie sdb h emptyRoot = Inr t \<Longrightarrow> fst (TryGet sdb t k) = []"
    "Keccak256 sdb (address_bytes a) = Keccak256 sdb (address_bytes b) \<longleftrightarrow> a = b"
  using assms unfolding backend_ok_def inj_def by blast+

lemma store_okD:
  assumes "store_ok sdb (Some sn) tr"
  shows "length (fst (snap_Storage sn h k)) < 2 ^ 63"
    "fst (load_account sdb (Some sn) tr a) = None \<Longrightarrow>
       fst (snap_Storage sn (Keccak256 sdb (address_bytes a)) k) = []"
  using assms unfolding store_ok_def by blast+

lemma obj_ok_new: "obj_ok sdb a (newObject sdb a data)"
  by (simp add: obj_ok_def newObject_def)

section \<open>Reading an object\<close>

definition same_obj ::
  "'t StateDatabase \<Rightarrow> snapshot option \<Rightarrow> hash set \<Rightarrow> 't stateObject \<Rightarrow> 't stateObject \<Rightarrow> bool" where
  "same_obj sdb sn ds obj obj' \<longleftrightarrow>
     so_address obj' = so_address obj \<and> so_addrHash obj' = so_addrHash obj \<and> fakeStorage obj' = fakeStorage obj
     \<and> so_code obj' \<in> {so_code obj, code_of sdb obj} \<and> oview sdb sn ds obj' = oview sdb sn ds obj"

lemma same_obj_refl [simp]: "same_obj sdb sn ds obj obj"
  by (simp add: same_obj_def)

lemma getTrie_Ret:
  assumes "backend_ok sdb"
  obtains obj' where "getTrie sdb obj = Ret (trie_of sdb obj, obj')"
    "obj' = obj\<lparr> so_trie := Some (trie_of sdb obj), so_dbErr := so_dbErr obj' \<rparr>"
proof -
  obtain t where t: "OpenStorageTrie sdb (so_addrHash obj) 0 = Inr t"
    using backend_okD(3) [OF assms] by blast
  show thesis
    using that by (cases "so_trie obj"; cases "OpenStorageTrie sdb (so_addrHash obj) (acc_Root (so_data obj))")
      (auto simp: getTrie_def trie_of_def t obj_setError_def)
qed

lemma trie_slot_Ret:
  assumes "backend_ok sdb"
  obtains obj' where "trie_slot sdb key obj = Ret (trie_enc sdb (trie_of sdb obj) key, obj')"
    "obj' = obj\<lparr> so_trie := Some (trie_of sdb obj), so_dbErr := so_dbErr obj' \<rparr>"
proof -
  obtain o1 where o1: "getTrie sdb obj = Ret (trie_of sdb obj, o1)"
    "o1 = obj\<lparr> so_trie := Some (trie_of sdb obj), so_dbErr := so_dbErr o1 \<rparr>"
    by (rule getTrie_Ret [OF assms])
  obtain enc err where g: "TryGet sdb (trie_of sdb obj) (hash_bytes key) = (enc, err)" by fastforce
  show thesis
  proof (cases err)
    case None
    then show thesis using that o1 g by (simp add: trie_slot_def trie_enc_def)
  next
    case (Some e)
    define er where "er = so_dbErr (obj_setError (DbError e) o1)"
    have "obj_setError (DbError e) o1 = o1\<lparr> so_dbErr := er \<rparr>" by (simp add: obj_setError_def er_def)
    also have "\<dots> = obj\<lparr> so_trie := Some (trie_of sdb obj), so_dbErr := er \<rparr>" by (subst o1(2)) simp
    finally have "obj_setError (DbError e) o1 = obj\<lparr> so_trie := Some (trie_of sdb obj), so_dbErr := er \<rparr>" .
    with Some show thesis using that o1(1) g by (simp add: trie_slot_def trie_enc_def er_def)
  qed
qed

text \<open>Growing the caches does not change the view of an object.\<close>

lemma trie_of_cached:
  "tr = so_trie obj \<or> tr = Some (trie_of sdb obj) \<Longrightarrow>
   trie_of sdb (obj\<lparr> so_trie := tr, so_dbErr := e \<rparr>) = trie_of sdb obj"
  "tr = so_trie obj \<or> tr = Some (trie_of sdb obj) \<Longrightarrow>
   trie_of sdb (obj\<lparr> so_trie := tr, so_dbErr := e, originStorage := org \<rparr>) = trie_of sdb obj"
  by (auto simp: trie_of_def cong: option.case_cong sum.case_cong)

lemma same_obj_trie:
  assumes "tr = so_trie obj \<or> tr = Some (trie_of sdb obj)"
  shows "same_obj sdb sn ds obj (obj\<lparr> so_trie := tr, so_dbErr := e \<rparr>)"
proof -
  have "committed_of sdb sn ds (obj\<lparr> so_trie := tr, so_dbErr := e \<rparr>) = committed_of sdb sn ds obj"
    by (rule ext) (simp add: committed_of_def trie_of_cached [OF assms] cong: option.case_cong sum.case_cong)
  then show ?thesis by (auto simp: same_obj_def oview_def code_of_def state_of_def [abs_def] cong: option.case_cong sum.case_cong)
qed

lemma same_obj_slot:
  assumes "tr = so_trie obj \<or> tr = Some (trie_of sdb obj)" "pendingStorage obj key = None"
    "originStorage obj key = None" "v = committed_of sdb sn ds obj key" "\<not> (sn \<noteq> None \<and> so_addrHash obj \<in> ds)"
  shows "same_obj sdb sn ds obj
    (obj\<lparr> so_trie := tr, so_dbErr := e, originStorage := (originStorage obj)(key \<mapsto> v) \<rparr>)"
proof -
  have "committed_of sdb sn ds (obj\<lparr> so_trie := tr, so_dbErr := e,
      originStorage := (originStorage obj)(key \<mapsto> v) \<rparr>) = committed_of sdb sn ds obj"
    using assms by (intro ext) (auto simp: committed_of_def trie_of_cached split: option.splits)
  then show ?thesis by (auto simp: same_obj_def oview_def code_of_def state_of_def [abs_def] cong: option.case_cong sum.case_cong)
qed

lemma read_slot_Ret:
  assumes "backend_ok sdb"
  obtains obj' tr where "read_slot sdb sn key obj = Ret (slot_enc sdb sn (so_addrHash obj) (trie_of sdb obj) key, obj')"
    "obj' = obj\<lparr> so_trie := tr, so_dbErr := so_dbErr obj' \<rparr>" "tr = so_trie obj \<or> tr = Some (trie_of sdb obj)"
proof -
  obtain o1 where o1: "trie_slot sdb key obj = Ret (trie_enc sdb (trie_of sdb obj) key, o1)"
    "o1 = obj\<lparr> so_trie := Some (trie_of sdb obj), so_dbErr := so_dbErr o1 \<rparr>"
    by (rule trie_slot_Ret [OF assms])
  show thesis
  proof (cases sn)
    case None
    then show thesis using that o1 by (simp add: read_slot_def slot_enc_def)
  next
    case (Some s)
    obtain enc err where g: "snap_Storage s (so_addrHash obj) (Keccak256 sdb (hash_bytes key)) = (enc, err)"
      by fastforce
    show thesis
    proof (cases err)
      case None
      then show thesis using that [of obj "so_trie obj"] Some g by (simp add: read_slot_def slot_enc_def)
    next
      case (Some e)
      then show thesis using that o1 \<open>sn = Some s\<close> g by (simp add: read_slot_def slot_enc_def)
    qed
  qed
qed

lemma slot_enc_length:
  assumes "backend_ok sdb" "store_ok sdb sn tr" "slot_enc sdb sn h t key = Some enc"
  shows "length enc < 2 ^ 63"
proof -
  have t: "length enc < 2 ^ 63" if "trie_enc sdb t key = Some enc"
    using that backend_okD(2) [OF assms(1), of t "hash_bytes key"]
    by (auto simp: trie_enc_def split: prod.splits option.splits)
  show ?thesis
  proof (cases sn)
    case None
    then show ?thesis using assms(3) t by (simp add: slot_enc_def)
  next
    case (Some s)
    then show ?thesis using assms t store_okD(1) [of sdb s tr h "Keccak256 sdb (hash_bytes key)"]
      by (auto simp: slot_enc_def split: prod.splits option.splits)
  qed
qed

lemma cache_slot_Ret:
  assumes "length enc < 2 ^ 63"
  obtains e where "cache_slot key enc obj = Ret (slot_value (Some enc),
    obj\<lparr> so_dbErr := e, originStorage := (originStorage obj)(key \<mapsto> slot_value (Some enc)) \<rparr>)"
proof (cases "enc = []")
  case True
  then show thesis using that [of "so_dbErr obj"] by (simp add: cache_slot_def slot_value_def)
next
  case False
  obtain r where r: "Split enc = Ret r" using Split_total [OF assms] by blast
  show thesis
  proof (cases r)
    case (Inl er)
    then show thesis using False r that [of "so_dbErr (obj_setError (SlotError er) obj)"]
      by (simp add: cache_slot_def slot_value_def BytesToHash_def obj_setError_def)
  next
    case (Inr x)
    then show thesis using False r that [of "so_dbErr obj"]
      by (cases x) (simp add: cache_slot_def slot_value_def)
  qed
qed

lemma GetCommittedState_Ret:
  assumes "backend_ok sdb" "store_ok sdb sn tr" "fakeStorage obj = None"
  obtains obj' where "obj_GetCommittedState sdb sn ds key obj = Ret (committed_of sdb sn ds obj key, obj')"
    "same_obj sdb sn ds obj obj'"
proof (cases "pendingStorage obj key \<noteq> None \<or> originStorage obj key \<noteq> None \<or> sn \<noteq> None \<and> so_addrHash obj \<in> ds")
  case True
  then show thesis using that [of obj] assms(3)
    by (auto simp: obj_GetCommittedState_def committed_of_def split: option.splits)
next
  case False
  let ?enc = "slot_enc sdb sn (so_addrHash obj) (trie_of sdb obj) key"
  have v: "committed_of sdb sn ds obj key = slot_value ?enc"
    using False by (auto simp: committed_of_def)
  obtain o1 t where o1: "read_slot sdb sn key obj = Ret (?enc, o1)"
    "o1 = obj\<lparr> so_trie := t, so_dbErr := so_dbErr o1 \<rparr>" "t = so_trie obj \<or> t = Some (trie_of sdb obj)"
    by (rule read_slot_Ret [OF assms(1)])
  show thesis
  proof (cases ?enc)
    case None
    have "same_obj sdb sn ds obj o1" by (subst o1(2)) (rule same_obj_trie [OF o1(3)])
    with False None o1(1) v assms(3) show thesis
      using that [of o1] by (auto simp: obj_GetCommittedState_def slot_value_def)
  next
    case (Some enc)
    obtain e where e: "cache_slot key enc o1 = Ret (slot_value (Some enc),
        o1\<lparr> so_dbErr := e, originStorage := (originStorage o1)(key \<mapsto> slot_value (Some enc)) \<rparr>)"
      by (rule cache_slot_Ret [OF slot_enc_length [OF assms(1,2) Some]])
    let ?o2 = "obj\<lparr> so_trie := t, so_dbErr := e, originStorage := (originStorage obj)(key \<mapsto> slot_value (Some enc)) \<rparr>"
    have "o1\<lparr> so_dbErr := e, originStorage := (originStorage o1)(key \<mapsto> slot_value (Some enc)) \<rparr> = ?o2"
      by (subst o1(2), subst (2) o1(2)) simp
    moreover have "same_obj sdb sn ds obj ?o2"
      by (rule same_obj_slot [OF o1(3)]) (use False v Some in auto)
    ultimately show thesis
      using False Some o1(1) v e assms(3) that [of ?o2] by (auto simp: obj_GetCommittedState_def)
  qed
qed

lemma GetState_Ret:
  assumes "backend_ok sdb" "store_ok sdb sn tr" "fakeStorage obj = None"
  obtains obj' where "obj_GetState sdb sn ds key obj = Ret (state_of sdb sn ds obj key, obj')"
    "same_obj sdb sn ds obj obj'"
proof (cases "dirtyStorage obj key")
  case None
  then show thesis using GetCommittedState_Ret [OF assms] that assms(3)
    by (metis (no_types, lifting) obj_GetState_def option.simps(4) state_of_def)
next
  case (Some v)
  then show thesis using that [of obj] assms(3) by (simp add: obj_GetState_def state_of_def)
qed

lemma same_obj_Code:
  "obj_Code sdb obj = (code_of sdb obj, snd (obj_Code sdb obj)) \<and> same_obj sdb sn ds obj (snd (obj_Code sdb obj))"
proof -
  have c: "committed_of sdb sn ds (obj\<lparr> so_dbErr := e, so_code := c \<rparr>) = committed_of sdb sn ds obj"
    "state_of sdb sn ds (obj\<lparr> so_dbErr := e, so_code := c \<rparr>) = state_of sdb sn ds obj" for e c
    by (rule ext, simp add: committed_of_def state_of_def trie_of_def cong: option.case_cong sum.case_cong)+
  obtain code err where g: "ContractCode sdb (so_addrHash obj) (acc_CodeHash (so_data obj)) = (code, err)" by fastforce
  show ?thesis
    using c [where e = "so_dbErr obj" and c = code]
      c [where e = "Some (CodeError (acc_CodeHash (so_data obj)) (the err))" and c = code]
    by (cases err) (auto simp: obj_Code_def g same_obj_def oview_def code_of_def code_at_def obj_setError_def Let_def)
qed

end
