(* ===== verification/State_Journal.thy ===== *)
theory State_Journal
  imports State_View
begin

text \<open>
  The journal: every change that an operation of the database makes to the view is undone by the
  entries it appends. \<open>undo\<close> says what reverting an entry means for the view; \<open>journalled s s'\<close> says
  that the entries appended between \<open>s\<close> and \<open>s'\<close> lead back from the view of \<open>s'\<close> to that of \<open>s\<close>.
\<close>

section \<open>Undoing on views\<close>

definition on_account :: "address \<Rightarrow> (account_view \<Rightarrow> account_view) \<Rightarrow> state_view \<Rightarrow> state_view go" where
  "on_account a f v =
     (case v_accounts v a of
        None \<Rightarrow> Panic RuntimeError
      | Some x \<Rightarrow> if av_deleted x then Panic RuntimeError
                  else Ret (v\<lparr> v_accounts := (v_accounts v)(a \<mapsto> f x) \<rparr>))"

fun undo :: "'t StateDatabase \<Rightarrow> snapshot option \<Rightarrow> 't journalEntry \<Rightarrow> state_view \<Rightarrow> state_view go" where
  "undo sdb sn (createObjectChange a) v = Ret (v\<lparr> v_accounts := (v_accounts v)(a := None) \<rparr>)"
| "undo sdb sn (resetObjectChange prev prevdestruct) v =
     (let ds = (if \<not> prevdestruct \<and> sn \<noteq> None then v_destructs v - {so_addrHash prev} else v_destructs v) in
      Ret (v\<lparr> v_accounts := (v_accounts v)(so_address prev \<mapsto> oview sdb sn ds prev), v_destructs := ds \<rparr>))"
| "undo sdb sn (suicideChange a prev prevbalance) v =
     (case v_accounts v a of
        None \<Rightarrow> Ret v
      | Some x \<Rightarrow> if av_deleted x then Ret v
          else Ret (v\<lparr> v_accounts := (v_accounts v)(a \<mapsto> x\<lparr> av_suicided := prev, av_balance := prevbalance \<rparr>) \<rparr>))"
| "undo sdb sn (balanceChange a prev) v = on_account a (\<lambda>x. x\<lparr> av_balance := prev \<rparr>) v"
| "undo sdb sn (nonceChange a prev) v = on_account a (\<lambda>x. x\<lparr> av_nonce := prev \<rparr>) v"
| "undo sdb sn (storageChange a key prev) v = on_account a (\<lambda>x. x\<lparr> av_state := (av_state x)(key := prev) \<rparr>) v"
| "undo sdb sn (codeChange a prevcode prevhash) v =
     on_account a (\<lambda>x. x\<lparr> av_codeHash := prevhash,
       av_code := code_at sdb (Keccak256 sdb (address_bytes a)) prevhash prevcode \<rparr>) v"
| "undo sdb sn (refundChange prev) v = Ret (v\<lparr> v_refund := prev \<rparr>)"
| "undo sdb sn (addLogChange h) v =
     (if v_logs v h = [] then Panic RuntimeError
      else Ret (v\<lparr> v_logs := (v_logs v)(h := butlast (v_logs v h)), v_logSize := v_logSize v - 1 \<rparr>))"
| "undo sdb sn (addPreimageChange h) v = Ret (v\<lparr> v_preimages := (v_preimages v)(h := None) \<rparr>)"
| "undo sdb sn (touchChange a) v = Ret v"
| "undo sdb sn (accessListAddAccountChange a) v =
     Ret (v\<lparr> v_accessList := DeleteAddress a (v_accessList v) \<rparr>)"
| "undo sdb sn (accessListAddSlotChange a slot) v =
     go_bind (DeleteSlot a slot (v_accessList v)) (\<lambda>al. Ret (v\<lparr> v_accessList := al \<rparr>))"

primrec undos :: "'t StateDatabase \<Rightarrow> snapshot option \<Rightarrow> 't journalEntry list \<Rightarrow> state_view \<Rightarrow> state_view go" where
  "undos sdb sn [] v = Ret v"
| "undos sdb sn (e # es) v = go_bind (undo sdb sn e v) (undos sdb sn es)"

lemma undos_append: "undos sdb sn (xs @ ys) v = go_bind (undos sdb sn xs v) (undos sdb sn ys)"
proof (induction xs arbitrary: v)
  case (Cons e xs)
  have "undos sdb sn (xs @ ys) = (\<lambda>v. go_bind (undos sdb sn xs v) (undos sdb sn ys))"
    using Cons by (rule ext)
  then show ?case by (simp add: go_bind_assoc)
qed simp

section \<open>Objects and the view\<close>

definition objs_ok :: "'t StateDatabase \<Rightarrow> 't state_db \<Rightarrow> bool" where
  "objs_ok sdb s \<longleftrightarrow> (\<forall>a obj. stateObjects s a = Some obj \<longrightarrow> obj_ok sdb a obj)"

text \<open>The fields that only snapshots change, or nothing before the end of the transaction.\<close>

definition kept :: "'t state_db \<Rightarrow> 't state_db \<Rightarrow> bool" where
  "kept s s' \<longleftrightarrow> snap s' = snap s \<and> main_trie s' = main_trie s
     \<and> validRevisions s' = validRevisions s \<and> nextRevisionId s' = nextRevisionId s"

lemma kept_refl [simp]: "kept s s"
  by (simp add: kept_def)

lemma kept_trans: "kept s s' \<Longrightarrow> kept s' s'' \<Longrightarrow> kept s s''"
  by (simp add: kept_def)

lemma found_ok: "objs_ok sdb s \<Longrightarrow> found sdb s a = Some obj \<Longrightarrow> obj_ok sdb a obj"
  by (auto simp: found_def objs_ok_def obj_ok_new split: option.splits)

lemma found_set: "found sdb (setStateObject obj s) = (found sdb s)(so_address obj \<mapsto> obj)"
  by (rule ext) (simp add: found_def setStateObject_def cong: option.case_cong)

lemma append_fields [simp]:
  "snap (journal_append e s) = snap s" "main_trie (journal_append e s) = main_trie s"
  "stateObjects (journal_append e s) = stateObjects s" "snapDestructs (journal_append e s) = snapDestructs s"
  "refund (journal_append e s) = refund s" "logs (journal_append e s) = logs s"
  "logSize (journal_append e s) = logSize s" "preimages (journal_append e s) = preimages s"
  "accessList_of (journal_append e s) = accessList_of s" "thash (journal_append e s) = thash s"
  "txIndex (journal_append e s) = txIndex s"
  "validRevisions (journal_append e s) = validRevisions s"
  "nextRevisionId (journal_append e s) = nextRevisionId s"
  "entries (journal_append e s) = entries s @ [e]"
  by (simp_all add: journal_append_def journal_dirty_def Let_def split: option.splits)

lemma dirty_fields [simp]:
  "snap (journal_dirty a s) = snap s" "main_trie (journal_dirty a s) = main_trie s"
  "stateObjects (journal_dirty a s) = stateObjects s" "validRevisions (journal_dirty a s) = validRevisions s"
  "nextRevisionId (journal_dirty a s) = nextRevisionId s" "entries (journal_dirty a s) = entries s"
  "snapDestructs (journal_dirty a s) = snapDestructs s" "refund (journal_dirty a s) = refund s"
  "logs (journal_dirty a s) = logs s" "logSize (journal_dirty a s) = logSize s"
  "preimages (journal_dirty a s) = preimages s" "accessList_of (journal_dirty a s) = accessList_of s"
  by (simp_all add: journal_dirty_def)

lemma set_fields [simp]:
  "snap (setStateObject obj s) = snap s" "main_trie (setStateObject obj s) = main_trie s"
  "stateObjects (setStateObject obj s) = (stateObjects s)(so_address obj \<mapsto> obj)"
  "snapDestructs (setStateObject obj s) = snapDestructs s"
  "validRevisions (setStateObject obj s) = validRevisions s"
  "nextRevisionId (setStateObject obj s) = nextRevisionId s" "entries (setStateObject obj s) = entries s"
  "accessList_of (setStateObject obj s) = accessList_of s"
  by (simp_all add: setStateObject_def)

lemma found_cong:
  "stateObjects s' = stateObjects s \<Longrightarrow> snap s' = snap s \<Longrightarrow> main_trie s' = main_trie s \<Longrightarrow>
   found sdb s' = found sdb s"
  by (rule ext) (simp add: found_def cong: option.case_cong)

lemma view_cong:
  "found sdb s' = found sdb s \<Longrightarrow> snap s' = snap s \<Longrightarrow> snapDestructs s' = snapDestructs s \<Longrightarrow>
   refund s' = refund s \<Longrightarrow> logs s' = logs s \<Longrightarrow> logSize s' = logSize s \<Longrightarrow> preimages s' = preimages s \<Longrightarrow>
   accessList_of s' = accessList_of s \<Longrightarrow> view sdb s' = view sdb s"
  by (simp add: view_def)

lemma found_append [simp]:
  "found sdb (journal_append e s) = found sdb s" "found sdb (journal_dirty a s) = found sdb s"
  by (rule found_cong; simp)+

lemma view_append [simp]: "view sdb (journal_append e s) = view sdb s" "view sdb (journal_dirty a s) = view sdb s"
  by (rule view_cong; simp)+

lemma view_set:
  "view sdb (setStateObject obj s) = (view sdb s)\<lparr> v_accounts :=
     (v_accounts (view sdb s))(so_address obj \<mapsto> oview sdb (snap s) (snapDestructs s) obj) \<rparr>"
  by (simp add: view_def found_set fun_eq_iff) (simp add: setStateObject_def)

lemma found_updates [simp]:
  "found sdb (s\<lparr> refund := r \<rparr>) = found sdb s" "found sdb (s\<lparr> logs := l \<rparr>) = found sdb s"
  "found sdb (s\<lparr> logSize := n \<rparr>) = found sdb s" "found sdb (s\<lparr> preimages := p \<rparr>) = found sdb s"
  "found sdb (s\<lparr> accessList_of := al \<rparr>) = found sdb s" "found sdb (s\<lparr> entries := es \<rparr>) = found sdb s"
  "found sdb (s\<lparr> dirties := d \<rparr>) = found sdb s" "found sdb (s\<lparr> nextRevisionId := i \<rparr>) = found sdb s"
  "found sdb (s\<lparr> validRevisions := v \<rparr>) = found sdb s"
  by (rule found_cong; simp)+

lemma view_updates [simp]:
  "view sdb (s\<lparr> refund := r \<rparr>) = (view sdb s)\<lparr> v_refund := r \<rparr>"
  "view sdb (s\<lparr> logs := l \<rparr>) = (view sdb s)\<lparr> v_logs := (\<lambda>h. case l h of None \<Rightarrow> [] | Some ls \<Rightarrow> ls) \<rparr>"
  "view sdb (s\<lparr> logSize := n \<rparr>) = (view sdb s)\<lparr> v_logSize := n \<rparr>"
  "view sdb (s\<lparr> preimages := p \<rparr>) = (view sdb s)\<lparr> v_preimages := p \<rparr>"
  "view sdb (s\<lparr> accessList_of := al \<rparr>) = (view sdb s)\<lparr> v_accessList := al \<rparr>"
  "view sdb (s\<lparr> entries := es \<rparr>) = view sdb s" "view sdb (s\<lparr> dirties := d \<rparr>) = view sdb s"
  "view sdb (s\<lparr> nextRevisionId := i \<rparr>) = view sdb s" "view sdb (s\<lparr> validRevisions := v \<rparr>) = view sdb s"
  by (simp_all add: view_def)

lemma view_fields [simp]:
  "v_refund (view sdb s) = refund s" "v_logSize (view sdb s) = logSize s" "v_preimages (view sdb s) = preimages s"
  "v_accessList (view sdb s) = accessList_of s" "v_destructs (view sdb s) = snapDestructs s"
  "v_logs (view sdb s) = (\<lambda>h. case logs s h of None \<Rightarrow> [] | Some ls \<Rightarrow> ls)"
  by (simp_all add: view_def)

lemma view_same [simp]:
  "(view sdb s)\<lparr> v_refund := refund s \<rparr> = view sdb s"
  "(view sdb s)\<lparr> v_preimages := preimages s \<rparr> = view sdb s"
  "(view sdb s)\<lparr> v_accessList := accessList_of s \<rparr> = view sdb s"
  by (simp_all add: view_def)

lemma v_accounts_view:
  "v_accounts (view sdb s) a = map_option (oview sdb (snap s) (snapDestructs s)) (found sdb s a)"
  by (simp add: view_def)

lemma objs_ok_set: "objs_ok sdb s \<Longrightarrow> obj_ok sdb (so_address obj) obj \<Longrightarrow> objs_ok sdb (setStateObject obj s)"
  by (simp add: objs_ok_def)

lemma objs_ok_append [simp]: "objs_ok sdb (journal_append e s) = objs_ok sdb s"
  by (simp add: objs_ok_def)

section \<open>Quiet steps\<close>

text \<open>A step that only fills caches.\<close>

definition quiet :: "'t StateDatabase \<Rightarrow> 't state_db \<Rightarrow> 't state_db \<Rightarrow> bool" where
  "quiet sdb s s' \<longleftrightarrow> view sdb s' = view sdb s \<and> entries s' = entries s \<and> kept s s' \<and> objs_ok sdb s'"

lemma quiet_refl: "objs_ok sdb s \<Longrightarrow> quiet sdb s s"
  by (simp add: quiet_def)

lemma quiet_trans: "quiet sdb s s' \<Longrightarrow> quiet sdb s' s'' \<Longrightarrow> quiet sdb s s''"
  by (auto simp: quiet_def intro: kept_trans)

lemma setError_fields [simp]:
  "snap (setError e s) = snap s" "main_trie (setError e s) = main_trie s"
  "stateObjects (setError e s) = stateObjects s" "snapDestructs (setError e s) = snapDestructs s"
  "validRevisions (setError e s) = validRevisions s" "nextRevisionId (setError e s) = nextRevisionId s"
  "entries (setError e s) = entries s" "refund (setError e s) = refund s" "logs (setError e s) = logs s"
  "logSize (setError e s) = logSize s" "preimages (setError e s) = preimages s"
  "accessList_of (setError e s) = accessList_of s"
  by (simp_all add: setError_def)

lemma view_setError [simp]: "view sdb (setError e s) = view sdb s"
  by (rule view_cong, rule found_cong) simp_all

lemma getDeletedStateObject_quiet:
  assumes "objs_ok sdb s"
  obtains s' where "getDeletedStateObject sdb a s = (found sdb s a, s')" "quiet sdb s s'"
    "stateObjects s' a = found sdb s a" "snapDestructs s' = snapDestructs s"
proof (cases "stateObjects s a")
  case None
  obtain d err where l: "load_account sdb (snap s) (main_trie s) a = (d, err)" by fastforce
  show thesis
  proof (cases d)
    case None
    then show thesis
      using that [of s] that [of "setError (the err) s"] \<open>stateObjects s a = None\<close> l assms
      by (cases err) (simp_all add: getDeletedStateObject_def found_def quiet_def kept_def objs_ok_def)
  next
    case (Some d)
    let ?obj = "newObject sdb a d" and ?s = "setStateObject (newObject sdb a d) s"
    have f: "found sdb s a = Some ?obj" using Some l \<open>stateObjects s a = None\<close> by (simp add: found_def)
    have adr: "so_address ?obj = a" by (simp add: newObject_def)
    have "view sdb ?s = view sdb s"
      unfolding view_set adr using f by (simp add: v_accounts_view fun_upd_idem)
    then have "quiet sdb s ?s"
      using assms obj_ok_new [of sdb a d] adr by (simp add: quiet_def kept_def objs_ok_set)
    then show thesis using that [of ?s] f adr Some l \<open>stateObjects s a = None\<close>
      by (simp add: getDeletedStateObject_def Let_def)
  qed
next
  case (Some obj)
  then show thesis using that [of s] assms by (simp add: getDeletedStateObject_def found_def quiet_refl)
qed

definition live :: "'t StateDatabase \<Rightarrow> 't state_db \<Rightarrow> address \<Rightarrow> 't stateObject option" where
  "live sdb s a = (case found sdb s a of None \<Rightarrow> None | Some obj \<Rightarrow> if deleted obj then None else Some obj)"

lemma getStateObject_quiet:
  assumes "objs_ok sdb s"
  obtains s' where "getStateObject sdb a s = (live sdb s a, s')" "quiet sdb s s'"
    "stateObjects s' a = found sdb s a" "snapDestructs s' = snapDestructs s"
proof -
  obtain s' where "getDeletedStateObject sdb a s = (found sdb s a, s')" "quiet sdb s s'"
    "stateObjects s' a = found sdb s a" "snapDestructs s' = snapDestructs s"
    by (rule getDeletedStateObject_quiet [OF assms])
  then show thesis using that [of s']
    by (simp add: getStateObject_def live_def split: option.splits)
qed

section \<open>Journalled steps\<close>

fun jentry_ok :: "'t StateDatabase \<Rightarrow> snapshot option \<Rightarrow> 't \<Rightarrow> 't journalEntry \<Rightarrow> bool" where
  "jentry_ok sdb sn tr (createObjectChange a) \<longleftrightarrow> fst (load_account sdb sn tr a) = None"
| "jentry_ok sdb sn tr (resetObjectChange prev _) \<longleftrightarrow> obj_ok sdb (so_address prev) prev"
| "jentry_ok sdb sn tr (codeChange _ prevcode _) \<longleftrightarrow> length prevcode < 2 ^ 63"
| "jentry_ok sdb sn tr _ \<longleftrightarrow> True"

definition journalled :: "'t StateDatabase \<Rightarrow> 't state_db \<Rightarrow> 't state_db \<Rightarrow> bool" where
  "journalled sdb s s' \<longleftrightarrow> kept s s' \<and> objs_ok sdb s'
     \<and> (al_ok (accessList_of s) \<longrightarrow> al_ok (accessList_of s'))
     \<and> (\<exists>es. entries s' = entries s @ es \<and> list_all (jentry_ok sdb (snap s) (main_trie s)) es
          \<and> undos sdb (snap s) (rev es) (view sdb s') = Ret (view sdb s))"

lemma quiet_accessList: "quiet sdb s s' \<Longrightarrow> accessList_of s' = accessList_of s"
  using arg_cong [of "view sdb s'" "view sdb s" v_accessList] by (simp add: quiet_def view_def)

lemma journalled_quiet: "quiet sdb s s' \<Longrightarrow> journalled sdb s s'"
  using quiet_accessList by (force simp: quiet_def journalled_def)

lemma journalled_objs: "journalled sdb s s' \<Longrightarrow> objs_ok sdb s'"
  by (simp add: journalled_def)

lemma journalled_trans:
  assumes "journalled sdb s s'" "journalled sdb s' s''"
  shows "journalled sdb s s''"
proof -
  obtain es es' where e: "entries s' = entries s @ es" "list_all (jentry_ok sdb (snap s) (main_trie s)) es"
      "undos sdb (snap s) (rev es) (view sdb s') = Ret (view sdb s)"
      "entries s'' = entries s' @ es'" "list_all (jentry_ok sdb (snap s') (main_trie s')) es'"
      "undos sdb (snap s') (rev es') (view sdb s'') = Ret (view sdb s')"
    and k: "kept s s'" "kept s' s''" "objs_ok sdb s''"
      "al_ok (accessList_of s) \<longrightarrow> al_ok (accessList_of s'')"
    using assms unfolding journalled_def by blast
  then have "entries s'' = entries s @ (es @ es') \<and> list_all (jentry_ok sdb (snap s) (main_trie s)) (es @ es')
      \<and> undos sdb (snap s) (rev (es @ es')) (view sdb s'') = Ret (view sdb s)"
    by (simp add: undos_append kept_def)
  with k kept_trans show ?thesis unfolding journalled_def by blast
qed

text \<open>A step that appends one entry.\<close>

lemma journalled_entry:
  assumes "entries s' = entries s @ [e]" "jentry_ok sdb (snap s) (main_trie s) e"
    "undo sdb (snap s) e (view sdb s') = Ret (view sdb s)" "kept s s'" "objs_ok sdb s'"
    "al_ok (accessList_of s) \<Longrightarrow> al_ok (accessList_of s')"
  shows "journalled sdb s s'"
  unfolding journalled_def using assms by (auto intro!: exI [of _ "[e]"])

section \<open>Writing to an object\<close>

lemma trie_of_writes [simp]:
  "trie_of sdb (setBalance n obj) = trie_of sdb obj" "trie_of sdb (setNonce m obj) = trie_of sdb obj"
  "trie_of sdb (setState k x obj) = trie_of sdb obj" "trie_of sdb (setCode h c obj) = trie_of sdb obj"
  "trie_of sdb (obj\<lparr> suicided := b \<rparr>) = trie_of sdb obj"
  by (simp_all add: trie_of_def setBalance_def setNonce_def setState_def setCode_def
      cong: option.case_cong sum.case_cong)

lemma committed_writes [simp]:
  "committed_of sdb sn ds (setBalance n obj) = committed_of sdb sn ds obj"
  "committed_of sdb sn ds (setNonce m obj) = committed_of sdb sn ds obj"
  "committed_of sdb sn ds (setState k x obj) = committed_of sdb sn ds obj"
  "committed_of sdb sn ds (setCode h c obj) = committed_of sdb sn ds obj"
  "committed_of sdb sn ds (obj\<lparr> suicided := b \<rparr>) = committed_of sdb sn ds obj"
  by (rule ext, simp add: committed_of_def cong: option.case_cong,
      (simp add: setBalance_def setNonce_def setState_def setCode_def cong: option.case_cong)?)+

lemma state_of_writes [simp]:
  "state_of sdb sn ds (setBalance n obj) = state_of sdb sn ds obj"
  "state_of sdb sn ds (setNonce m obj) = state_of sdb sn ds obj"
  "state_of sdb sn ds (setState k x obj) = (state_of sdb sn ds obj)(k := x)"
  "state_of sdb sn ds (setCode h c obj) = state_of sdb sn ds obj"
  "state_of sdb sn ds (obj\<lparr> suicided := b \<rparr>) = state_of sdb sn ds obj"
  by (rule ext, simp add: state_of_def cong: option.case_cong,
      (simp add: setBalance_def setNonce_def setState_def setCode_def cong: option.case_cong)?)+

lemma oview_writes:
  "oview sdb sn ds (setBalance n obj) = (oview sdb sn ds obj)\<lparr> av_balance := n \<rparr>"
  "oview sdb sn ds (setNonce m obj) = (oview sdb sn ds obj)\<lparr> av_nonce := m \<rparr>"
  "oview sdb sn ds (setState k x obj) =
     (oview sdb sn ds obj)\<lparr> av_state := (av_state (oview sdb sn ds obj))(k := x) \<rparr>"
  "oview sdb sn ds (setCode h c obj) =
     (oview sdb sn ds obj)\<lparr> av_codeHash := h, av_code := code_at sdb (so_addrHash obj) h c \<rparr>"
  "oview sdb sn ds (obj\<lparr> suicided := b \<rparr>) = (oview sdb sn ds obj)\<lparr> av_suicided := b \<rparr>"
  by (simp_all add: oview_def) (simp_all add: setBalance_def setNonce_def setState_def setCode_def code_of_def)

lemma obj_ok_writes [simp]:
  "obj_ok sdb a (setBalance n obj) = obj_ok sdb a obj" "obj_ok sdb a (setNonce m obj) = obj_ok sdb a obj"
  "obj_ok sdb a (setState k x obj) = obj_ok sdb a obj"
  "obj_ok sdb a (obj\<lparr> suicided := b \<rparr>) = obj_ok sdb a obj"
  by (simp_all add: obj_ok_def setBalance_def setNonce_def setState_def setCode_def)

lemma obj_ok_setCode: "obj_ok sdb a obj \<Longrightarrow> length c < 2 ^ 63 \<Longrightarrow> obj_ok sdb a (setCode h c obj)"
  by (simp add: obj_ok_def setCode_def)

lemma code_of_length: "backend_ok sdb \<Longrightarrow> obj_ok sdb a obj \<Longrightarrow> length (code_of sdb obj) < 2 ^ 63"
  using backend_okD(1) by (auto simp: code_of_def code_at_def obj_ok_def)

lemma same_obj_ok:
  "backend_ok sdb \<Longrightarrow> obj_ok sdb a obj \<Longrightarrow> same_obj sdb sn ds obj obj' \<Longrightarrow> obj_ok sdb a obj'"
  using code_of_length [of sdb a obj] by (auto simp: same_obj_def obj_ok_def)

lemma obj_ok_addrHash: "obj_ok sdb a obj \<Longrightarrow> so_addrHash obj = Keccak256 sdb (address_bytes a)"
  by (simp add: obj_ok_def)

lemma obj_ok_address: "obj_ok sdb a obj \<Longrightarrow> so_address obj = a"
  by (simp add: obj_ok_def)

lemma write_fields [simp]:
  "so_address (setBalance n obj) = so_address obj" "so_address (setNonce m obj) = so_address obj"
  "so_address (setState k x obj) = so_address obj" "so_address (setCode h c obj) = so_address obj"
  "deleted (setBalance n obj) = deleted obj" "deleted (setNonce m obj) = deleted obj"
  "deleted (setState k x obj) = deleted obj" "deleted (setCode h c obj) = deleted obj"
  by (simp_all add: setBalance_def setNonce_def setState_def setCode_def)

text \<open>Putting an object back whose caches have grown is quiet.\<close>

lemma set_same_quiet:
  assumes "backend_ok sdb" "objs_ok sdb s" "found sdb s a = Some obj"
    "same_obj sdb (snap s) (snapDestructs s) obj obj'"
  shows "quiet sdb s (setStateObject obj' s)"
proof -
  have ok: "obj_ok sdb a obj" by (rule found_ok [OF assms(2,3)])
  have ok': "obj_ok sdb a obj'" by (rule same_obj_ok [OF assms(1) ok assms(4)])
  then have adr: "so_address obj' = a" by (simp add: obj_ok_def)
  have "view sdb (setStateObject obj' s) = view sdb s"
    unfolding view_set adr using assms(3,4) by (simp add: same_obj_def v_accounts_view fun_upd_idem)
  then show ?thesis using ok' adr assms(2) by (simp add: quiet_def kept_def objs_ok_set)
qed

text \<open>A journalled change of a live object.\<close>

lemma write_journalled:
  assumes "objs_ok sdb s" "found sdb s a = Some obj" "\<not> deleted obj'" "obj_ok sdb a obj'"
    and "\<And>v. undo sdb (snap s) e v = on_account a f v" "jentry_ok sdb (snap s) (main_trie s) e"
    and "f (oview sdb (snap s) (snapDestructs s) obj') = oview sdb (snap s) (snapDestructs s) obj"
  shows "journalled sdb s (setStateObject obj' (journal_append e s))"
proof (rule journalled_entry)
  have adr: "so_address obj' = a" using assms(4) by (simp add: obj_ok_def)
  have del: "\<not> av_deleted (oview sdb (snap s) (snapDestructs s) obj')" using assms(3) by (simp add: oview_def)
  show "undo sdb (snap s) e (view sdb (setStateObject obj' (journal_append e s))) = Ret (view sdb s)"
    unfolding assms(5) view_set adr
    using assms(2,7) del by (simp add: on_account_def v_accounts_view fun_upd_idem)
qed (use assms in \<open>auto simp: kept_def obj_ok_def intro!: objs_ok_set\<close>)

end
