(* ===== verification/State_Ops.thy ===== *)
theory State_Ops
  imports State_Journal
begin

text \<open>
  Every operation of the database that the virtual machine calls is journalled: the readers are
  quiet, the writers append entries that undo them.
\<close>

section \<open>Creating objects\<close>

lemma oview_destructs:
  assumes "so_addrHash obj \<in> ds' \<longleftrightarrow> so_addrHash obj \<in> ds"
  shows "oview sdb sn ds' obj = oview sdb sn ds obj"
proof -
  have c: "committed_of sdb sn ds' obj = committed_of sdb sn ds obj"
    using assms by (intro ext) (auto simp: committed_of_def)
  have "state_of sdb sn ds' obj = state_of sdb sn ds obj"
    by (rule ext) (simp add: state_of_def c cong: option.case_cong)
  with c show ?thesis by (simp add: oview_def)
qed

lemma accounts_destructs:
  assumes "backend_ok sdb" "objs_ok sdb s" "b \<noteq> a"
    "\<And>h. h \<noteq> Keccak256 sdb (address_bytes a) \<Longrightarrow> h \<in> ds \<longleftrightarrow> h \<in> snapDestructs s"
  shows "v_accounts (view sdb (s\<lparr> snapDestructs := ds \<rparr>)) b = v_accounts (view sdb s) b"
proof -
  have f: "found sdb (s\<lparr> snapDestructs := ds \<rparr>) = found sdb s" by (rule found_cong) simp_all
  have "so_addrHash obj \<noteq> Keccak256 sdb (address_bytes a)" if "found sdb s b = Some obj" for obj
    using found_ok [OF assms(2) that] assms(3) backend_okD(6) [OF assms(1), of b a] by (simp add: obj_ok_def)
  with assms(4) show ?thesis
    by (cases "found sdb s b") (simp_all add: v_accounts_view f oview_destructs [where ds' = ds and ds = "snapDestructs s"])
qed

lemma set_over:
  "so_address obj = so_address obj' \<Longrightarrow> setStateObject obj' (setStateObject obj s) = setStateObject obj' s"
  by (simp add: setStateObject_def)

text \<open>Overwriting an account, whose object may still change before the next entry.\<close>

lemma reset_journalled:
  assumes ok: "backend_ok sdb" "objs_ok sdb s" and prev: "stateObjects s a = Some prev"
    and new: "obj_ok sdb a obj"
    and pd: "prevdestruct = (snap s \<noteq> None \<and> so_addrHash prev \<in> snapDestructs s)"
    and s2: "s2 = (if snap s \<noteq> None \<and> \<not> prevdestruct
        then s\<lparr> snapDestructs := insert (so_addrHash prev) (snapDestructs s) \<rparr> else s)"
  shows "journalled sdb s (setStateObject obj (journal_append (resetObjectChange prev prevdestruct) s2))"
proof (rule journalled_entry)
  let ?e = "resetObjectChange prev prevdestruct"
  have p: "obj_ok sdb a prev" using ok(2) prev by (simp add: objs_ok_def)
  then have h: "so_addrHash prev = Keccak256 sdb (address_bytes a)" "so_address prev = a"
    by (simp_all add: obj_ok_def)
  have adr: "so_address obj = a" using new by (simp add: obj_ok_def)
  have s2': "snap s2 = snap s" "main_trie s2 = main_trie s" "entries s2 = entries s"
    "validRevisions s2 = validRevisions s" "nextRevisionId s2 = nextRevisionId s"
    "stateObjects s2 = stateObjects s" "accessList_of s2 = accessList_of s" by (simp_all add: s2)
  have acc: "v_accounts (view sdb s2) b = v_accounts (view sdb s) b" if "b \<noteq> a" for b
    using accounts_destructs [OF ok that, of "insert (so_addrHash prev) (snapDestructs s)"] by (simp add: s2 h)
  have rest: "view sdb s = (view sdb s2)\<lparr> v_accounts := v_accounts (view sdb s), v_destructs := snapDestructs s \<rparr>"
    by (simp add: view_def s2)
  have ds: "(if \<not> prevdestruct \<and> snap s \<noteq> None then snapDestructs s2 - {so_addrHash prev} else snapDestructs s2)
      = snapDestructs s"
    by (auto simp: s2 pd)
  have "v_accounts (view sdb s) a = Some (oview sdb (snap s) (snapDestructs s) prev)"
    using prev by (simp add: v_accounts_view found_def)
  with acc have accs: "(v_accounts (view sdb s2))(a \<mapsto> oview sdb (snap s) (snapDestructs s) prev) = v_accounts (view sdb s)"
    by (intro ext) simp
  let ?v = "view sdb (setStateObject obj (journal_append ?e s2))"
  have v: "?v = (view sdb s2)\<lparr> v_accounts := (v_accounts (view sdb s2))(a \<mapsto> oview sdb (snap s2) (snapDestructs s2) obj) \<rparr>"
    by (simp add: view_set adr)
  have vd: "v_destructs ?v = snapDestructs s2" by (simp add: view_def)
  have "undo sdb (snap s) ?e ?v = Ret (?v\<lparr> v_accounts := (v_accounts ?v)(a \<mapsto> oview sdb (snap s) (snapDestructs s) prev),
      v_destructs := snapDestructs s \<rparr>)"
    unfolding undo.simps Let_def vd ds h(2) ..
  also have "\<dots> = Ret (view sdb s)" unfolding v by (subst rest) (simp add: accs)
  finally show "undo sdb (snap s) ?e ?v = Ret (view sdb s)" .
  show "entries (setStateObject obj (journal_append ?e s2)) = entries s @ [?e]" by (simp add: s2')
  show "jentry_ok sdb (snap s) (main_trie s) ?e" using p h by simp
  show "kept s (setStateObject obj (journal_append ?e s2))" by (simp add: kept_def s2')
  show "objs_ok sdb (setStateObject obj (journal_append ?e s2))"
    using ok(2) new adr s2' by (intro objs_ok_set) (simp_all add: objs_ok_def)
qed (simp add: s2 split: if_splits)

lemma createObject_journalled:
  assumes ok: "backend_ok sdb" "objs_ok sdb s"
  obtains s' where "createObject sdb a s = ((newObject sdb a (empty_account sdb), live sdb s a), s')"
    "stateObjects s' a = Some (newObject sdb a (empty_account sdb))"
    "\<And>obj. obj_ok sdb a obj \<Longrightarrow> journalled sdb s (setStateObject obj s')"
proof -
  let ?new = "newObject sdb a (empty_account sdb)"
  have adr: "so_address ?new = a" by (simp add: newObject_def)
  obtain s1 where s1: "getDeletedStateObject sdb a s = (found sdb s a, s1)" "quiet sdb s s1"
    "stateObjects s1 a = found sdb s a" "snapDestructs s1 = snapDestructs s"
    by (rule getDeletedStateObject_quiet [OF ok(2)])
  have ok1: "objs_ok sdb s1" and j1: "journalled sdb s s1" and sn: "snap s1 = snap s"
    using s1(2) journalled_quiet by (auto simp: quiet_def kept_def)
  show thesis
  proof (cases "found sdb s a")
    case None
    let ?s' = "setStateObject ?new (journal_append (createObjectChange a) s1)"
    have load: "fst (load_account sdb (snap s1) (main_trie s1) a) = None"
      using None s1(2) by (simp add: found_def quiet_def kept_def split: option.splits)
    have acc: "v_accounts (view sdb s1) a = None"
      using s1(2) None by (simp add: quiet_def v_accounts_view)
    have "journalled sdb s1 (setStateObject obj ?s')" if obj: "obj_ok sdb a obj" for obj
    proof (rule journalled_entry)
      show "undo sdb (snap s1) (createObjectChange a) (view sdb (setStateObject obj ?s')) = Ret (view sdb s1)"
        using obj acc by (simp add: obj_ok_address set_over adr view_set fun_upd_idem)
    qed (use load ok1 obj in \<open>auto simp: kept_def obj_ok_address adr objs_ok_def obj_ok_new\<close>)
    then show thesis
      using that [of ?s'] None s1(1) adr journalled_trans [OF j1]
      by (simp add: createObject_def live_def Let_def)
  next
    case (Some prev)
    define pd where "pd = (snap s1 \<noteq> None \<and> so_addrHash prev \<in> snapDestructs s1)"
    define s2 where "s2 = (if snap s1 \<noteq> None \<and> \<not> pd
        then s1\<lparr> snapDestructs := insert (so_addrHash prev) (snapDestructs s1) \<rparr> else s1)"
    let ?s' = "setStateObject ?new (journal_append (resetObjectChange prev pd) s2)"
    have "journalled sdb s1 (setStateObject obj ?s')" if obj: "obj_ok sdb a obj" for obj
      using reset_journalled [OF ok(1) ok1 _ obj pd_def s2_def] Some s1(3) obj
      by (simp add: set_over adr obj_ok_address)
    then show thesis
      using that [of ?s'] Some s1(1) adr journalled_trans [OF j1]
      by (simp add: createObject_def live_def Let_def pd_def s2_def)
  qed
qed

lemma GetOrNewStateObject_journalled:
  assumes ok: "backend_ok sdb" "objs_ok sdb s"
  obtains obj s' where "GetOrNewStateObject sdb a s = (obj, s')" "journalled sdb s s'"
    "stateObjects s' a = Some obj" "\<not> deleted obj" "found sdb s' a = Some obj"
    "obj = (case live sdb s a of Some obj \<Rightarrow> obj | None \<Rightarrow> newObject sdb a (empty_account sdb))"
proof -
  let ?new = "newObject sdb a (empty_account sdb)"
  obtain s1 where s1: "getStateObject sdb a s = (live sdb s a, s1)" "quiet sdb s s1"
    "stateObjects s1 a = found sdb s a" "snapDestructs s1 = snapDestructs s"
    by (rule getStateObject_quiet [OF ok(2)])
  have ok1: "objs_ok sdb s1" and j1: "journalled sdb s s1"
    using s1(2) journalled_quiet by (auto simp: quiet_def)
  show thesis
  proof (cases "live sdb s a")
    case (Some obj)
    then have "found sdb s a = Some obj" "\<not> deleted obj"
      by (auto simp: live_def split: option.splits if_splits)
    moreover from this s1(3) have "stateObjects s1 a = Some obj" by simp
    moreover from this have "found sdb s1 a = Some obj" by (simp add: found_def)
    ultimately show thesis using s1(1) j1 Some by (intro that [of obj s1]) (simp_all add: GetOrNewStateObject_def)
  next
    case None
    obtain s2 where s2: "createObject sdb a s1 = ((?new, live sdb s1 a), s2)" "stateObjects s2 a = Some ?new"
      "\<And>obj. obj_ok sdb a obj \<Longrightarrow> journalled sdb s1 (setStateObject obj s2)"
      using createObject_journalled [OF ok(1) ok1, of a] by blast
    have "setStateObject ?new s2 = s2"
      using s2(2) by (simp add: setStateObject_def newObject_def fun_upd_idem)
    then have "journalled sdb s s2" using s2(3) [OF obj_ok_new] journalled_trans [OF j1] by metis
    moreover from s2(2) have "found sdb s2 a = Some ?new" by (simp add: found_def)
    moreover have "\<not> deleted ?new" by (simp add: newObject_def)
    ultimately show thesis
      using None s1(1) s2(1,2) by (intro that [of ?new s2]) (simp_all add: GetOrNewStateObject_def)
  qed
qed

section \<open>Writers\<close>

lemma obj_SetBalance_journalled:
  assumes "objs_ok sdb s" "found sdb s a = Some obj" "\<not> deleted obj"
  shows "journalled sdb s (obj_SetBalance n obj s)"
proof -
  have ok: "obj_ok sdb a obj" by (rule found_ok [OF assms(1,2)])
  show ?thesis
    unfolding obj_SetBalance_def obj_ok_address [OF ok]
    by (rule write_journalled [OF assms(1,2), where f = "\<lambda>x. x\<lparr> av_balance := acc_Balance (so_data obj) \<rparr>"])
      (use ok assms(3) in \<open>simp_all add: oview_writes\<close>, simp add: oview_def)
qed

lemma obj_SetNonce_journalled:
  assumes "objs_ok sdb s" "found sdb s a = Some obj" "\<not> deleted obj"
  shows "journalled sdb s (obj_SetNonce n obj s)"
proof -
  have ok: "obj_ok sdb a obj" by (rule found_ok [OF assms(1,2)])
  show ?thesis
    unfolding obj_SetNonce_def obj_ok_address [OF ok]
    by (rule write_journalled [OF assms(1,2), where f = "\<lambda>x. x\<lparr> av_nonce := acc_Nonce (so_data obj) \<rparr>"])
      (use ok assms(3) in \<open>simp_all add: oview_writes\<close>, simp add: oview_def)
qed

lemma obj_touch_journalled:
  assumes "objs_ok sdb s"
  shows "journalled sdb s (obj_touch obj s)"
  by (rule journalled_entry [where e = "touchChange (so_address obj)"])
    (use assms in \<open>simp_all add: obj_touch_def Let_def kept_def objs_ok_def\<close>)

lemma with_new_object:
  assumes ok: "backend_ok sdb" "objs_ok sdb s"
    and f: "\<And>obj s'. objs_ok sdb s' \<Longrightarrow> found sdb s' a = Some obj \<Longrightarrow> \<not> deleted obj \<Longrightarrow> kept s s' \<Longrightarrow>
      journalled sdb s' (f obj s')"
  shows "journalled sdb s (case GetOrNewStateObject sdb a s of (obj, s') \<Rightarrow> f obj s')"
proof -
  obtain obj s' where g: "GetOrNewStateObject sdb a s = (obj, s')" "journalled sdb s s'"
    "stateObjects s' a = Some obj" "\<not> deleted obj" "found sdb s' a = Some obj"
    by (rule GetOrNewStateObject_journalled [OF ok])
  then show ?thesis
    using f [of s' obj] journalled_trans [OF g(2)] by (simp add: journalled_def)
qed

lemma obj_SetCode_journalled:
  assumes "backend_ok sdb" "objs_ok sdb s" "found sdb s a = Some obj" "\<not> deleted obj" "length c < 2 ^ 63"
  shows "journalled sdb s (obj_SetCode sdb h c obj s)"
proof -
  have ok: "obj_ok sdb a obj" by (rule found_ok [OF assms(2,3)])
  obtain obj' where c: "obj_Code sdb obj = (code_of sdb obj, obj')"
    and same: "same_obj sdb (snap s) (snapDestructs s) obj obj'"
    using same_obj_Code by (metis snd_conv)
  have ok': "obj_ok sdb a obj'" and v: "oview sdb (snap s) (snapDestructs s) obj' = oview sdb (snap s) (snapDestructs s) obj"
    using same_obj_ok [OF assms(1) ok same] same by (simp_all add: same_obj_def)
  from v have "acc_CodeHash (so_data obj') = acc_CodeHash (so_data obj)" "deleted obj' = deleted obj"
    by (simp_all add: oview_def)
  moreover have "code_at sdb (so_addrHash obj) (acc_CodeHash (so_data obj)) (code_of sdb obj) = code_of sdb obj"
    by (simp add: code_of_def code_at_def)
  moreover have "so_addrHash obj = Keccak256 sdb (address_bytes a)" using ok by (simp add: obj_ok_def)
  ultimately show ?thesis
    unfolding obj_SetCode_def c Let_def prod.case obj_ok_address [OF ok']
    by (intro write_journalled [OF assms(2,3), where f = "\<lambda>x. x\<lparr> av_codeHash := acc_CodeHash (so_data obj),
        av_code := code_at sdb (Keccak256 sdb (address_bytes a)) (acc_CodeHash (so_data obj)) (code_of sdb obj) \<rparr>"])
      (use ok' assms(4,5) v code_of_length [OF assms(1) ok] in \<open>simp_all add: oview_writes obj_ok_setCode\<close>, simp add: oview_def)
qed

lemma obj_SetState_journalled:
  assumes "backend_ok sdb" "store_ok sdb (snap s) (main_trie s)"
    and "objs_ok sdb s" "found sdb s a = Some obj" "\<not> deleted obj"
  obtains s' where "obj_SetState sdb key x obj s = Ret s'" "journalled sdb s s'"
proof -
  have ok: "obj_ok sdb a obj" by (rule found_ok [OF assms(3,4)])
  then have fake: "fakeStorage obj = None" by (simp add: obj_ok_def)
  let ?prev = "state_of sdb (snap s) (snapDestructs s) obj key"
  obtain obj' where g: "obj_GetState sdb (snap s) (snapDestructs s) key obj = Ret (?prev, obj')"
    and same: "same_obj sdb (snap s) (snapDestructs s) obj obj'"
    by (rule GetState_Ret [OF assms(1,2) fake])
  have ok': "obj_ok sdb a obj'" and v: "oview sdb (snap s) (snapDestructs s) obj' = oview sdb (snap s) (snapDestructs s) obj"
    using same_obj_ok [OF assms(1) ok same] same by (simp_all add: same_obj_def)
  from v have del: "deleted obj' = deleted obj" and st: "?prev = av_state (oview sdb (snap s) (snapDestructs s) obj') key"
    by (simp_all add: oview_def)
  show thesis
  proof (cases "?prev = x")
    case True
    then show thesis
      using that journalled_quiet [OF set_same_quiet [OF assms(1,3,4) same]] fake g by (simp add: obj_SetState_def)
  next
    case False
    have "journalled sdb s (setStateObject (setState key x obj') (journal_append (storageChange a key ?prev) s))"
      by (rule write_journalled [OF assms(3,4), where f = "\<lambda>y. y\<lparr> av_state := (av_state y)(key := ?prev) \<rparr>"])
        (use ok' assms(5) del v st in \<open>simp_all add: oview_writes\<close>)
    then show thesis using that False fake g obj_ok_address [OF ok'] by (simp add: obj_SetState_def)
  qed
qed

lemma balance_journalled:
  assumes ok: "backend_ok sdb" "objs_ok sdb s"
  shows "journalled sdb s (AddBalance sdb a n s)" "journalled sdb s (SubBalance sdb a n s)"
    "journalled sdb s (SetBalance sdb a n s)"
  unfolding AddBalance_def SubBalance_def SetBalance_def obj_AddBalance_def obj_SubBalance_def
  by (rule with_new_object [OF ok];
      auto intro!: obj_SetBalance_journalled obj_touch_journalled journalled_quiet [OF quiet_refl])+

lemma SetNonce_journalled: "backend_ok sdb \<Longrightarrow> objs_ok sdb s \<Longrightarrow> journalled sdb s (SetNonce sdb a n s)"
  unfolding SetNonce_def by (rule with_new_object) (auto intro!: obj_SetNonce_journalled)

lemma SetCode_journalled:
  "backend_ok sdb \<Longrightarrow> objs_ok sdb s \<Longrightarrow> length c < 2 ^ 63 \<Longrightarrow> journalled sdb s (SetCode sdb a c s)"
  unfolding SetCode_def by (rule with_new_object) (auto intro!: obj_SetCode_journalled)

lemma SetState_journalled:
  assumes ok: "backend_ok sdb" "objs_ok sdb s" and store: "store_ok sdb (snap s) (main_trie s)"
  obtains s' where "SetState sdb a key x s = Ret s'" "journalled sdb s s'"
proof -
  obtain obj s1 where g: "GetOrNewStateObject sdb a s = (obj, s1)" "journalled sdb s s1"
    "stateObjects s1 a = Some obj" "\<not> deleted obj" "found sdb s1 a = Some obj"
    by (rule GetOrNewStateObject_journalled [OF ok])
  then have ok1: "objs_ok sdb s1" "store_ok sdb (snap s1) (main_trie s1)"
    using store by (simp_all add: journalled_def kept_def)
  obtain s2 where "obj_SetState sdb key x obj s1 = Ret s2" "journalled sdb s1 s2"
    by (rule obj_SetState_journalled [OF ok(1) ok1(2,1) g(5,4)])
  then show thesis using that [of s2] g(1) journalled_trans [OF g(2)] by (simp add: SetState_def)
qed

lemma CreateAccount_journalled:
  assumes ok: "backend_ok sdb" "objs_ok sdb s"
  shows "journalled sdb s (CreateAccount sdb a s)"
proof -
  let ?new = "newObject sdb a (empty_account sdb)"
  obtain s' where s': "createObject sdb a s = ((?new, live sdb s a), s')" "stateObjects s' a = Some ?new"
    "\<And>obj. obj_ok sdb a obj \<Longrightarrow> journalled sdb s (setStateObject obj s')"
    using createObject_journalled [OF ok, of a] by blast
  have same: "setStateObject ?new s' = s'"
    using s'(2) by (simp add: setStateObject_def newObject_def fun_upd_idem)
  show ?thesis
  proof (cases "live sdb s a")
    case None
    then show ?thesis using s'(1) s'(3) [OF obj_ok_new [of sdb a "empty_account sdb"]] same
      by (simp add: CreateAccount_def)
  next
    case (Some prev)
    then show ?thesis using s'(1) s'(3) [of "setBalance (acc_Balance (so_data prev)) ?new"]
      by (simp add: CreateAccount_def obj_ok_new)
  qed
qed

lemma Suicide_journalled:
  assumes "objs_ok sdb s"
  obtains b s' where "Suicide sdb a s = (b, s')" "journalled sdb s s'"
proof -
  obtain s1 where s1: "getStateObject sdb a s = (live sdb s a, s1)" "quiet sdb s s1"
    "stateObjects s1 a = found sdb s a" "snapDestructs s1 = snapDestructs s"
    by (rule getStateObject_quiet [OF assms])
  have ok1: "objs_ok sdb s1" and j1: "journalled sdb s s1"
    using s1(2) journalled_quiet by (auto simp: quiet_def)
  show thesis
  proof (cases "live sdb s a")
    case None
    then show thesis using s1(1) j1 by (intro that [of False s1]) (simp_all add: Suicide_def)
  next
    case (Some obj)
    let ?e = "suicideChange a (suicided obj) (acc_Balance (so_data obj))"
    let ?obj = "setBalance 0 (markSuicided obj)"
    have f: "found sdb s1 a = Some obj" "\<not> deleted obj"
      using Some s1(3) by (auto simp: live_def found_def split: option.splits if_splits)
    have ok: "obj_ok sdb a obj" by (rule found_ok [OF ok1 f(1)])
    have "undo sdb (snap s1) ?e (view sdb (setStateObject ?obj (journal_append ?e s1))) = Ret (view sdb s1)"
      using f ok by (simp add: view_set obj_ok_address markSuicided_def oview_writes)
        (simp add: oview_def fun_upd_idem v_accounts_view)
    then have "journalled sdb s1 (setStateObject ?obj (journal_append ?e s1))"
      by (intro journalled_entry [where e = ?e])
        (use ok ok1 in \<open>auto simp: kept_def markSuicided_def obj_ok_address intro!: objs_ok_set\<close>)
    with s1(1) Some show thesis
      by (intro that [of True] journalled_trans [OF j1]) (simp_all add: Suicide_def)
  qed
qed

lemma AddRefund_journalled: "objs_ok sdb s \<Longrightarrow> journalled sdb s (AddRefund g s)"
  by (rule journalled_entry [where e = "refundChange (refund s)"])
    (auto simp: AddRefund_def Let_def kept_def objs_ok_def)

lemma SubRefund_journalled:
  assumes "objs_ok sdb s" "SubRefund g s = Ret s'"
  shows "journalled sdb s s'"
proof -
  from assms(2) have "s' = (journal_append (refundChange (refund s)) s)\<lparr> refund := refund s - g \<rparr>"
    by (auto simp: SubRefund_def Let_def split: if_splits)
  with assms(1) show ?thesis
    by (intro journalled_entry [where e = "refundChange (refund s)"]) (auto simp: kept_def objs_ok_def)
qed

lemma AddLog_journalled: "objs_ok sdb s \<Longrightarrow> journalled sdb s (AddLog l s)"
  by (rule journalled_entry [where e = "addLogChange (thash s)"])
    (auto simp: AddLog_def Let_def kept_def objs_ok_def view_def fun_eq_iff split: option.splits)

lemma AddPreimage_journalled: "objs_ok sdb s \<Longrightarrow> journalled sdb s (AddPreimage h d s)"
proof (cases "preimages s h")
  case None
  assume "objs_ok sdb s"
  with None show ?thesis
    by (intro journalled_entry [where e = "addPreimageChange h"])
      (auto simp: AddPreimage_def Let_def kept_def objs_ok_def fun_upd_idem)
qed (auto simp: AddPreimage_def intro: journalled_quiet quiet_refl)

lemma AddAddressToAccessList_journalled:
  assumes "objs_ok sdb s"
  shows "journalled sdb s (AddAddressToAccessList a s)"
proof -
  obtain b al where al: "AddAddress a (accessList_of s) = (b, al)" by fastforce
  note ok = AddAddress_ok [OF _ al]
  show ?thesis
  proof (cases b)
    case True
    then have "DeleteAddress a al = accessList_of s" using al AddAddress_undo by simp
    with True assms al ok show ?thesis
      by (intro journalled_entry [where e = "accessListAddAccountChange a"])
        (auto simp: AddAddressToAccessList_def Let_def kept_def objs_ok_def)
  next
    case False
    then have "al = accessList_of s" using al by (auto simp: AddAddress_def split: if_splits)
    with False assms al show ?thesis
      by (intro journalled_quiet) (simp add: AddAddressToAccessList_def quiet_refl)
  qed
qed

lemma AddSlotToAccessList_journalled:
  assumes "objs_ok sdb s" "al_ok (accessList_of s)"
  obtains s' where "AddSlotToAccessList a k s = Ret s'" "journalled sdb s s'"
proof -
  obtain b c al where al: "AddSlot a k (accessList_of s) = Ret ((b, c), al)" "al_ok al"
    "undo_slot b c a k al = Ret (accessList_of s)"
    using AddSlot_ok [OF assms(2)] by blast
  let ?es = "(if b then [accessListAddAccountChange a] else []) @ (if c then [accessListAddSlotChange a k] else [])"
  obtain s' where s': "AddSlotToAccessList a k s = Ret s'" "entries s' = entries s @ ?es" "kept s s'"
    "stateObjects s' = stateObjects s" "accessList_of s' = al" "view sdb s' = (view sdb s)\<lparr> v_accessList := al \<rparr>"
    using that al(1) by (cases b; cases c) (simp_all add: AddSlotToAccessList_def Let_def kept_def)
  have "undos sdb (snap s) (rev ?es) (view sdb s') = Ret (view sdb s)"
    using al(3) s'(6) by (auto simp: undo_slot_def go_simps split: if_splits)
  with s' al(2) assms(1) have "journalled sdb s s'"
    unfolding journalled_def by (intro conjI exI [of _ ?es]) (auto simp: objs_ok_def)
  with s'(1) show thesis by (rule that)
qed

section \<open>Readers\<close>

lemma get_quiet:
  assumes "objs_ok sdb s"
  obtains x s' where "Exist sdb a s = (live sdb s a \<noteq> None, s')" "quiet sdb s s'" "live sdb s' a = live sdb s a"
    "fst (Empty sdb a s) = (case live sdb s a of None \<Rightarrow> True | Some obj \<Rightarrow> empty_obj sdb obj)" "snd (Empty sdb a s) = s'"
    "GetBalance sdb a s = (case live sdb s a of None \<Rightarrow> 0 | Some obj \<Rightarrow> acc_Balance (so_data obj), s')"
    "GetNonce sdb a s = (case live sdb s a of None \<Rightarrow> 0 | Some obj \<Rightarrow> acc_Nonce (so_data obj), s')"
    "GetCodeHash sdb a s = (case live sdb s a of None \<Rightarrow> 0 | Some obj \<Rightarrow> acc_CodeHash (so_data obj), s')"
    "HasSuicided sdb a s = (case live sdb s a of None \<Rightarrow> False | Some obj \<Rightarrow> suicided obj, s')"
proof -
  obtain s' where s': "getStateObject sdb a s = (live sdb s a, s')" "quiet sdb s s'" "stateObjects s' a = found sdb s a"
    by (rule getStateObject_quiet [OF assms])
  have "found sdb s' a = found sdb s a"
    using s'(2,3) by (cases "found sdb s a") (auto simp: found_def quiet_def kept_def split: option.splits)
  then have "live sdb s' a = live sdb s a" by (simp add: live_def)
  with s' show thesis
    by (intro that [of s'])
      (simp_all add: Exist_def Empty_def GetBalance_def GetNonce_def GetCodeHash_def HasSuicided_def split: option.splits)
qed

lemma with_object_quiet:
  assumes ok: "backend_ok sdb" "objs_ok sdb s"
    and f: "\<And>obj. live sdb s a = Some obj \<Longrightarrow> \<exists>obj'. f obj = Ret (g obj, obj')
      \<and> same_obj sdb (snap s) (snapDestructs s) obj obj'"
  obtains s' where "quiet sdb s s'"
    "with_object sdb a d f s = Ret (case live sdb s a of None \<Rightarrow> d | Some obj \<Rightarrow> g obj, s')"
proof -
  obtain s1 where s1: "getStateObject sdb a s = (live sdb s a, s1)" "quiet sdb s s1" "stateObjects s1 a = found sdb s a"
    "snapDestructs s1 = snapDestructs s"
    by (rule getStateObject_quiet [OF ok(2)])
  show thesis
  proof (cases "live sdb s a")
    case None
    then show thesis using s1 by (intro that [of s1]) (simp_all add: with_object_def)
  next
    case (Some obj)
    obtain obj' where o: "f obj = Ret (g obj, obj')" "same_obj sdb (snap s) (snapDestructs s) obj obj'"
      using f [OF Some] by blast
    have "found sdb s1 a = Some obj"
      using Some s1(3) by (auto simp: live_def found_def split: option.splits if_splits)
    moreover have "objs_ok sdb s1" "snap s1 = snap s" using s1(2) by (simp_all add: quiet_def kept_def)
    ultimately have "quiet sdb s1 (setStateObject obj' s1)"
      using o(2) s1(4) by (intro set_same_quiet [OF ok(1)]) simp_all
    with s1 o Some show thesis
      by (intro that [of "setStateObject obj' s1"]) (auto simp: with_object_def intro: quiet_trans)
  qed
qed

lemma live_found: "live sdb s a = Some obj \<Longrightarrow> found sdb s a = Some obj \<and> \<not> deleted obj"
  by (auto simp: live_def split: option.splits if_splits)

lemma GetCode_quiet:
  assumes "backend_ok sdb" "objs_ok sdb s"
  obtains s' where "GetCode sdb a s = Ret (case live sdb s a of None \<Rightarrow> [] | Some obj \<Rightarrow> code_of sdb obj, s')" "quiet sdb s s'"
  unfolding GetCode_def
  by (rule with_object_quiet [OF assms, where f = "\<lambda>obj. Ret (obj_Code sdb obj)" and g = "code_of sdb"])
    (use same_obj_Code in \<open>blast intro: that\<close>)+

lemma GetCode_length:
  assumes "backend_ok sdb" "objs_ok sdb s"
  shows "length (case live sdb s a of None \<Rightarrow> [] | Some obj \<Rightarrow> code_of sdb obj) < 2 ^ 63"
  using code_of_length [OF assms(1) found_ok [OF assms(2)]] by (auto split: option.splits dest!: live_found)

lemma same_obj_CodeSize: "same_obj sdb sn ds obj (snd (obj_CodeSize sdb obj))"
  using same_obj_trie [where tr = "so_trie obj" and obj = obj and sdb = sdb and sn = sn and ds = ds]
  by (simp add: obj_CodeSize_def obj_setError_def split: prod.splits option.splits)

lemma GetCodeSize_quiet:
  assumes "backend_ok sdb" "objs_ok sdb s"
  obtains n s' where "GetCodeSize sdb a s = Ret (n, s')" "quiet sdb s s'"
proof (rule with_object_quiet [OF assms, where f = "\<lambda>obj. Ret (obj_CodeSize sdb obj)"
      and g = "\<lambda>obj. fst (obj_CodeSize sdb obj)" and a = a and d = 0])
  show "\<exists>obj'. Ret (obj_CodeSize sdb obj) = Ret (fst (obj_CodeSize sdb obj), obj')
      \<and> same_obj sdb (snap s) (snapDestructs s) obj obj'" for obj
    by (rule exI [of _ "snd (obj_CodeSize sdb obj)"]) (simp add: same_obj_CodeSize)
qed (rule that, simp_all add: GetCodeSize_def)

lemma GetState_quiet:
  assumes ok: "backend_ok sdb" "objs_ok sdb s" and store: "store_ok sdb (snap s) (main_trie s)"
  obtains s' where "quiet sdb s s'" "GetState sdb a k s =
    Ret (case live sdb s a of None \<Rightarrow> 0 | Some obj \<Rightarrow> state_of sdb (snap s) (snapDestructs s) obj k, s')"
  unfolding GetState_def
proof (rule with_object_quiet [OF ok, where f = "obj_GetState sdb (snap s) (snapDestructs s) k"
      and g = "\<lambda>obj. state_of sdb (snap s) (snapDestructs s) obj k" and a = a and d = 0])
  fix obj assume "live sdb s a = Some obj"
  then have "fakeStorage obj = None" using found_ok [OF ok(2)] by (auto dest!: live_found simp: obj_ok_def)
  then show "\<exists>obj'. obj_GetState sdb (snap s) (snapDestructs s) k obj = Ret (state_of sdb (snap s) (snapDestructs s) obj k, obj')
      \<and> same_obj sdb (snap s) (snapDestructs s) obj obj'"
    by (metis GetState_Ret [OF ok(1) store])
qed (rule that, simp_all add: GetState_def)

lemma GetCommittedState_quiet:
  assumes ok: "backend_ok sdb" "objs_ok sdb s" and store: "store_ok sdb (snap s) (main_trie s)"
  obtains s' where "quiet sdb s s'" "GetCommittedState sdb a k s =
    Ret (case live sdb s a of None \<Rightarrow> 0 | Some obj \<Rightarrow> committed_of sdb (snap s) (snapDestructs s) obj k, s')"
  unfolding GetCommittedState_def
proof (rule with_object_quiet [OF ok, where f = "obj_GetCommittedState sdb (snap s) (snapDestructs s) k"
      and g = "\<lambda>obj. committed_of sdb (snap s) (snapDestructs s) obj k" and a = a and d = 0])
  fix obj assume "live sdb s a = Some obj"
  then have "fakeStorage obj = None" using found_ok [OF ok(2)] by (auto dest!: live_found simp: obj_ok_def)
  then show "\<exists>obj'. obj_GetCommittedState sdb (snap s) (snapDestructs s) k obj
        = Ret (committed_of sdb (snap s) (snapDestructs s) obj k, obj')
      \<and> same_obj sdb (snap s) (snapDestructs s) obj obj'"
    by (metis GetCommittedState_Ret [OF ok(1) store])
qed (rule that, simp_all add: GetCommittedState_def)

end
