(* ===== verification/State_Revert.thy ===== *)
theory State_Revert
  imports State_Ops
begin

text \<open>
  Reverting: undoing an entry in the database (\<open>revert_entry\<close>) does to the view what \<open>undo\<close> says, so
  that \<open>RevertToSnapshot\<close> gives back the view the snapshot was taken of.
\<close>

section \<open>Reverting an entry\<close>

definition reverts :: "'t StateDatabase \<Rightarrow> 't state_db \<Rightarrow> state_view \<Rightarrow> 't state_db \<Rightarrow> bool" where
  "reverts sdb s v s' \<longleftrightarrow> view sdb s' = v \<and> kept s s' \<and> objs_ok sdb s' \<and> entries s' = entries s"

lemma on_object_reverts:
  assumes ok: "objs_ok sdb s" and v: "on_account a f (view sdb s) = Ret v"
    and g: "\<And>obj. obj_ok sdb a obj \<Longrightarrow> obj_ok sdb a (g obj)
      \<and> oview sdb (snap s) (snapDestructs s) (g obj) = f (oview sdb (snap s) (snapDestructs s) obj)"
  obtains s' where "on_object sdb a g s = Ret s'" "reverts sdb s v s'"
proof -
  obtain s1 where s1: "getStateObject sdb a s = (live sdb s a, s1)" "quiet sdb s s1" "stateObjects s1 a = found sdb s a"
    "snapDestructs s1 = snapDestructs s"
    by (rule getStateObject_quiet [OF ok])
  obtain obj where obj: "found sdb s a = Some obj" "\<not> deleted obj"
    and v': "v = (view sdb s)\<lparr> v_accounts := (v_accounts (view sdb s))(a \<mapsto> f (oview sdb (snap s) (snapDestructs s) obj)) \<rparr>"
    using v by (auto simp: on_account_def v_accounts_view oview_def split: option.splits if_splits)
  note g = g [OF found_ok [OF ok obj(1)]]
  then have adr: "so_address (g obj) = a" by (simp add: obj_ok_def)
  have "on_object sdb a g s = Ret (setStateObject (g obj) s1)"
    using s1(1) obj by (simp add: on_object_def live_def)
  moreover have "reverts sdb s v (setStateObject (g obj) s1)"
    using s1(2,4) g adr by (auto simp: reverts_def quiet_def kept_def view_set v' intro!: objs_ok_set)
  ultimately show thesis by (rule that)
qed

lemma revert_create:
  assumes "objs_ok sdb s" "fst (load_account sdb (snap s) (main_trie s) a) = None"
  shows "reverts sdb s ((view sdb s)\<lparr> v_accounts := (v_accounts (view sdb s))(a := None) \<rparr>)
    (s\<lparr> stateObjects := (stateObjects s)(a := None), stateObjectsDirty := d \<rparr>)"
proof -
  let ?s = "s\<lparr> stateObjects := (stateObjects s)(a := None), stateObjectsDirty := d \<rparr>"
  have "found sdb ?s = (found sdb s)(a := None)"
    using assms(2) by (intro ext) (simp add: found_def cong: option.case_cong)
  then have "view sdb ?s = (view sdb s)\<lparr> v_accounts := (v_accounts (view sdb s))(a := None) \<rparr>"
    by (simp add: view_def fun_eq_iff)
  with assms(1) show ?thesis by (simp add: reverts_def kept_def objs_ok_def)
qed

lemma revert_reset:
  assumes ok: "backend_ok sdb" "objs_ok sdb s" and prev: "obj_ok sdb (so_address prev) prev"
    and ds: "ds = (if \<not> pd \<and> snap s \<noteq> None then snapDestructs s - {so_addrHash prev} else snapDestructs s)"
  shows "reverts sdb s ((view sdb s)\<lparr> v_accounts := (v_accounts (view sdb s))(so_address prev \<mapsto> oview sdb (snap s) ds prev),
      v_destructs := ds \<rparr>) ((setStateObject prev s)\<lparr> snapDestructs := ds \<rparr>)"
proof -
  let ?s = "(setStateObject prev s)\<lparr> snapDestructs := ds \<rparr>"
  have set: "?s = setStateObject prev (s\<lparr> snapDestructs := ds \<rparr>)" by (simp add: setStateObject_def)
  have "v_accounts (view sdb (s\<lparr> snapDestructs := ds \<rparr>)) b = v_accounts (view sdb s) b" if "b \<noteq> so_address prev" for b
    using prev by (intro accounts_destructs [OF ok that]) (auto simp: ds obj_ok_def)
  then have acc: "(v_accounts (view sdb (s\<lparr> snapDestructs := ds \<rparr>)))(so_address prev \<mapsto> x)
      = (v_accounts (view sdb s))(so_address prev \<mapsto> x)" for x
    by (intro ext) simp
  have rest: "(view sdb (s\<lparr> snapDestructs := ds \<rparr>))\<lparr> v_accounts := f \<rparr>
      = (view sdb s)\<lparr> v_accounts := f, v_destructs := ds \<rparr>" for f
    by (simp add: view_def)
  have "view sdb ?s = (view sdb s)\<lparr> v_accounts := (v_accounts (view sdb s))(so_address prev \<mapsto> oview sdb (snap s) ds prev),
      v_destructs := ds \<rparr>"
    unfolding set view_set acc rest by simp
  moreover have "objs_ok sdb ?s" unfolding set using ok(2) prev by (intro objs_ok_set) (simp_all add: objs_ok_def)
  ultimately show ?thesis by (simp add: reverts_def kept_def)
qed

lemma revert_suicide:
  assumes ok: "objs_ok sdb s" and v: "undo sdb (snap s) (suicideChange a prev bal) (view sdb s) = Ret v"
  obtains s' where "revert_entry sdb (suicideChange a prev bal) s = Ret s'" "reverts sdb s v s'"
proof -
  obtain s1 where s1: "getStateObject sdb a s = (live sdb s a, s1)" "quiet sdb s s1" "stateObjects s1 a = found sdb s a"
    "snapDestructs s1 = snapDestructs s"
    by (rule getStateObject_quiet [OF ok])
  show thesis
  proof (cases "live sdb s a")
    case None
    then have "v = view sdb s"
      using v by (auto simp: v_accounts_view live_def oview_def split: option.splits if_splits)
    with s1 None show thesis
      by (intro that [of s1]) (simp_all add: reverts_def quiet_def)
  next
    case (Some obj)
    let ?obj = "setBalance bal (obj\<lparr> suicided := prev \<rparr>)"
    have f: "found sdb s a = Some obj" "\<not> deleted obj" using live_found [OF Some] by auto
    have o: "obj_ok sdb a ?obj" using found_ok [OF ok f(1)] by simp
    have "v = (view sdb s)\<lparr> v_accounts := (v_accounts (view sdb s))
        (a \<mapsto> (oview sdb (snap s) (snapDestructs s) obj)\<lparr> av_suicided := prev, av_balance := bal \<rparr>) \<rparr>"
      using v f by (simp add: v_accounts_view) (auto simp: oview_def)
    then have "reverts sdb s v (setStateObject ?obj s1)"
      using s1(2,4) o obj_ok_address [OF o]
      by (auto simp: reverts_def quiet_def kept_def view_set oview_writes intro!: objs_ok_set)
    with s1(1) Some show thesis by (intro that) simp_all
  qed
qed

lemma revert_log:
  assumes ok: "objs_ok sdb s" and v: "undo sdb (snap s) (addLogChange h) (view sdb s) = Ret v"
  obtains s' where "revert_entry sdb (addLogChange h) s = Ret s'" "reverts sdb s v s'"
proof -
  obtain ls where ls: "logs s h = Some ls" "ls \<noteq> []"
    using v by (auto split: option.splits if_splits)
  let ?l = "if length ls = 1 then (logs s)(h := None) else (logs s)(h \<mapsto> take (length ls - 1) ls)"
  have "(\<lambda>h. case ?l h of None \<Rightarrow> [] | Some ls \<Rightarrow> ls)
      = (\<lambda>h. case logs s h of None \<Rightarrow> [] | Some ls \<Rightarrow> ls)(h := butlast ls)"
    using ls by (auto simp: fun_eq_iff butlast_conv_take length_Suc_conv)
  with v ls ok have "reverts sdb s v (s\<lparr> logs := ?l, logSize := logSize s - 1 \<rparr>)"
    by (auto simp: reverts_def kept_def objs_ok_def)
  with ls show thesis by (intro that) simp_all
qed

text \<open>Reverting an entry undoes it on the view, and cannot fail where undoing does not.\<close>

lemma revert_entry_undo:
  assumes ok: "backend_ok sdb" "objs_ok sdb s" and e: "jentry_ok sdb (snap s) (main_trie s) e"
    and v: "undo sdb (snap s) e (view sdb s) = Ret v"
  obtains s' where "revert_entry sdb e s = Ret s'" "reverts sdb s v s'"
proof (cases e)
  case (createObjectChange a)
  then show thesis using e v revert_create [OF ok(2)] by (auto intro!: that)
next
  case (resetObjectChange prev pd)
  define ds where "ds = (if \<not> pd \<and> snap s \<noteq> None then snapDestructs s - {so_addrHash prev} else snapDestructs s)"
  have "revert_entry sdb e s = Ret ((setStateObject prev s)\<lparr> snapDestructs := ds \<rparr>)"
    by (simp add: resetObjectChange Let_def setStateObject_def ds_def)
  moreover have "v = (view sdb s)\<lparr> v_accounts := (v_accounts (view sdb s))(so_address prev \<mapsto> oview sdb (snap s) ds prev),
      v_destructs := ds \<rparr>"
    using v by (simp only: resetObjectChange undo.simps Let_def view_fields ds_def [symmetric] go.inject)
  ultimately show thesis
    using e revert_reset [OF ok _ ds_def] by (intro that) (simp_all add: resetObjectChange)
next
  case (suicideChange a prev bal)
  then show thesis using revert_suicide [OF ok(2)] v that by blast
next
  case (balanceChange a prev)
  then show thesis
    using on_object_reverts [OF ok(2), of a "\<lambda>x. x\<lparr> av_balance := prev \<rparr>" v "setBalance prev"] v that
    by (simp add: oview_writes) blast
next
  case (nonceChange a prev)
  then show thesis
    using on_object_reverts [OF ok(2), of a "\<lambda>x. x\<lparr> av_nonce := prev \<rparr>" v "setNonce prev"] v that
    by (simp add: oview_writes) blast
next
  case (storageChange a k prev)
  then show thesis
    using on_object_reverts [OF ok(2), of a "\<lambda>x. x\<lparr> av_state := (av_state x)(k := prev) \<rparr>" v "setState k prev"] v that
    by (simp add: oview_writes) blast
next
  case (codeChange a c h)
  then show thesis
    using on_object_reverts [OF ok(2), of a "\<lambda>x. x\<lparr> av_codeHash := h,
        av_code := code_at sdb (Keccak256 sdb (address_bytes a)) h c \<rparr>" v "setCode h c"] e v that
    by (simp add: oview_writes obj_ok_setCode obj_ok_addrHash) blast
next
  case (addLogChange h)
  then show thesis using revert_log [OF ok(2)] v that by blast
qed (use v ok(2) in \<open>auto simp: reverts_def kept_def objs_ok_def go_simps intro!: that\<close>)

section \<open>Reverting the journal\<close>

lemma drop_dirty_fields [simp]:
  "view sdb (drop_dirty e s) = view sdb s" "snap (drop_dirty e s) = snap s" "main_trie (drop_dirty e s) = main_trie s"
  "stateObjects (drop_dirty e s) = stateObjects s" "entries (drop_dirty e s) = entries s"
  "validRevisions (drop_dirty e s) = validRevisions s" "nextRevisionId (drop_dirty e s) = nextRevisionId s"
  by (simp_all add: drop_dirty_def Let_def split: option.splits)

lemma revert_entries_undos:
  assumes "backend_ok sdb" "objs_ok sdb s" "list_all (jentry_ok sdb (snap s) (main_trie s)) es"
    "undos sdb (snap s) es (view sdb s) = Ret v"
  obtains s' where "revert_entries sdb es s = Ret s'" "reverts sdb s v s'"
  using assms(2-4)
proof (induction es arbitrary: s thesis)
  case Nil
  then show ?case by (simp add: reverts_def)
next
  case (Cons e es)
  obtain w where w: "undo sdb (snap s) e (view sdb s) = Ret w" "undos sdb (snap s) es w = Ret v"
    using Cons.prems(4) by (auto simp: go_simps)
  obtain s1 where s1: "revert_entry sdb e s = Ret s1" "reverts sdb s w s1"
    using Cons.prems by (auto intro: revert_entry_undo [OF assms(1) Cons.prems(2) _ w(1)])
  let ?s = "drop_dirty e s1"
  have "objs_ok sdb ?s" "list_all (jentry_ok sdb (snap ?s) (main_trie ?s)) es" "undos sdb (snap ?s) es (view sdb ?s) = Ret v"
    using s1(2) Cons.prems(3) w(2) by (simp_all add: reverts_def kept_def objs_ok_def)
  then obtain s' where "revert_entries sdb es ?s = Ret s'" "reverts sdb ?s v s'"
    by (rule Cons.IH [rotated])
  with s1 show ?case
    by (intro Cons.prems(1) [of s']) (simp_all add: reverts_def kept_def)
qed

lemma journal_revert_undos:
  assumes "backend_ok sdb" "objs_ok sdb s" "list_all (jentry_ok sdb (snap s) (main_trie s)) (entries s)"
    "undos sdb (snap s) (rev (drop n (entries s))) (view sdb s) = Ret v" "n \<le> length (entries s)"
  obtains s' where "journal_revert sdb n s = Ret s'" "view sdb s' = v" "kept s s'" "objs_ok sdb s'"
    "entries s' = take n (entries s)"
proof -
  have "list_all (jentry_ok sdb (snap s) (main_trie s)) (rev (drop n (entries s)))"
    using assms(3) by (auto simp: list_all_iff dest: in_set_dropD)
  then obtain s1 where "revert_entries sdb (rev (drop n (entries s))) s = Ret s1" "reverts sdb s v s1"
    using revert_entries_undos [OF assms(1,2) _ assms(4)] by blast
  with assms(5) show thesis
    by (intro that [of "s1\<lparr> entries := take n (entries s1) \<rparr>"])
      (auto simp: journal_revert_def reverts_def slice_go_def kept_def objs_ok_def)
qed

section \<open>The binary search\<close>

lemma sort_Search_loop_least:
  assumes "i \<le> j" "\<And>k l. f k \<Longrightarrow> k \<le> l \<Longrightarrow> l < j \<Longrightarrow> f l"
  shows "i \<le> sort_Search_loop f i j \<and> sort_Search_loop f i j \<le> j
    \<and> (\<forall>k. i \<le> k \<longrightarrow> k < sort_Search_loop f i j \<longrightarrow> \<not> f k)
    \<and> (\<forall>k. sort_Search_loop f i j \<le> k \<longrightarrow> k < j \<longrightarrow> f k)"
  using assms
proof (induction f i j rule: sort_Search_loop.induct)
  case (1 f i j)
  show ?case
  proof (cases "i < j")
    case True
    define h where "h = (i + j) div 2"
    have h: "i \<le> h" "h < j" using True by (auto simp: h_def)
    show ?thesis
    proof (cases "f h")
      case True
      have eq: "sort_Search_loop f i j = sort_Search_loop f i h"
        by (subst sort_Search_loop.simps) (use \<open>i < j\<close> True in \<open>simp add: h_def Let_def\<close>)
      have IH: "i \<le> sort_Search_loop f i h \<and> sort_Search_loop f i h \<le> h
          \<and> (\<forall>k. i \<le> k \<longrightarrow> k < sort_Search_loop f i h \<longrightarrow> \<not> f k)
          \<and> (\<forall>k. sort_Search_loop f i h \<le> k \<longrightarrow> k < h \<longrightarrow> f k)"
        using 1(2) [OF \<open>i < j\<close> h_def] True h 1(4) by (meson order.strict_trans)
      have high: "f k" if "h \<le> k" "k < j" for k using 1(4) [OF True that] .
      have "f k" if "sort_Search_loop f i h \<le> k" "k < j" for k
        using high [of k] IH that by (cases "h \<le> k") auto
      with IH h show ?thesis unfolding eq by auto
    next
      case False
      have eq: "sort_Search_loop f i j = sort_Search_loop f (h + 1) j"
        by (subst sort_Search_loop.simps) (use \<open>i < j\<close> False in \<open>simp add: h_def Let_def\<close>)
      have IH: "h + 1 \<le> sort_Search_loop f (h + 1) j \<and> sort_Search_loop f (h + 1) j \<le> j
          \<and> (\<forall>k. h + 1 \<le> k \<longrightarrow> k < sort_Search_loop f (h + 1) j \<longrightarrow> \<not> f k)
          \<and> (\<forall>k. sort_Search_loop f (h + 1) j \<le> k \<longrightarrow> k < j \<longrightarrow> f k)"
        using 1(1) [OF \<open>i < j\<close> h_def False] h 1(4) by (simp add: Suc_leI)
      have low: "\<not> f k" if "k \<le> h" for k using 1(4) [of k h] False that h by blast
      have "\<not> f k" if "k < sort_Search_loop f (h + 1) j" for k
        using low [of k] IH that by (cases "k \<le> h") auto
      with IH h show ?thesis unfolding eq by auto
    qed
  next
    case False
    with 1(3) show ?thesis by (subst (1 2 3 4) sort_Search_loop.simps) simp
  qed
qed

lemma sort_Search_least:
  assumes "\<And>k l. f k \<Longrightarrow> k \<le> l \<Longrightarrow> l < n \<Longrightarrow> f l"
  shows "sort_Search n f \<le> n" "k < sort_Search n f \<Longrightarrow> \<not> f k" "sort_Search n f \<le> k \<Longrightarrow> k < n \<Longrightarrow> f k"
proof -
  have "0 \<le> sort_Search n f \<and> sort_Search n f \<le> n \<and> (\<forall>k. 0 \<le> k \<longrightarrow> k < sort_Search n f \<longrightarrow> \<not> f k)
      \<and> (\<forall>k. sort_Search n f \<le> k \<longrightarrow> k < n \<longrightarrow> f k)"
    unfolding sort_Search_def by (rule sort_Search_loop_least) (simp, rule assms)
  then show "sort_Search n f \<le> n" "k < sort_Search n f \<Longrightarrow> \<not> f k" "sort_Search n f \<le> k \<Longrightarrow> k < n \<Longrightarrow> f k"
    by blast+
qed

lemma sort_Search_index:
  assumes "sorted_wrt (\<lambda>a b. g a < g b) xs" "i < length xs"
  shows "sort_Search (length xs) (\<lambda>k. (g (xs ! i) :: nat) \<le> g (xs ! k)) = i"
proof -
  let ?f = "\<lambda>k. g (xs ! i) \<le> g (xs ! k)"
  have less: "g (xs ! k) < g (xs ! l)" if "k < l" "l < length xs" for k l
    using assms(1) that by (simp add: sorted_wrt_iff_nth_less)
  then have mono: "?f l" if "?f k" "k \<le> l" "l < length xs" for k l
    using that by (metis le_less order.trans)
  let ?r = "sort_Search (length xs) ?f"
  have least: "?r \<le> length xs" "\<And>k. k < ?r \<Longrightarrow> \<not> ?f k" "\<And>k. ?r \<le> k \<Longrightarrow> k < length xs \<Longrightarrow> ?f k"
    using sort_Search_least [of ?f "length xs"] mono by blast+
  have "\<not> i < ?r" using least(2) [of i] by auto
  moreover have "\<not> ?r < i" using least(3) [of ?r] less [of ?r i] assms(2) by fastforce
  ultimately show ?thesis by simp
qed

end
