(* ===== verification/State_World.thy ===== *)
theory State_World
  imports State_Revert
begin

text \<open>
  What of the state a static call must not change: for every address its nonce, balance, code,
  storage and suicide mark, where an account that is not there is an empty one, and the logs.
  Operations that touch accounts, the access list, the refund counter or the preimages keep it.
\<close>

record world_account =
  w_nonce :: u64
  w_balance :: int
  w_code :: bytes
  w_state :: "hash \<Rightarrow> hash"
  w_suicided :: bool

definition no_account :: world_account where
  "no_account = \<lparr> w_nonce = 0, w_balance = 0, w_code = [], w_state = (\<lambda>_. 0), w_suicided = False \<rparr>"

definition account_world :: "account_view option \<Rightarrow> world_account" where
  "account_world acc = (case acc of
     None \<Rightarrow> no_account
   | Some x \<Rightarrow> if av_deleted x then no_account
       else \<lparr> w_nonce = av_nonce x, w_balance = av_balance x, w_code = av_code x, w_state = av_state x,
              w_suicided = av_suicided x \<rparr>)"

definition state_world :: "state_view \<Rightarrow> (address \<Rightarrow> world_account) \<times> (hash \<Rightarrow> Log list)" where
  "state_world v = (\<lambda>a. account_world (v_accounts v a), v_logs v)"

lemma state_world_updates [simp]:
  "state_world (v\<lparr> v_refund := r \<rparr>) = state_world v" "state_world (v\<lparr> v_preimages := p \<rparr>) = state_world v"
  "state_world (v\<lparr> v_accessList := al \<rparr>) = state_world v"
  by (simp_all add: state_world_def)

text \<open>A created account holds nothing.\<close>

lemma new_object_storage:
  assumes ok: "backend_ok sdb" "store_ok sdb sn tr"
    and new: "sn = None \<or> Keccak256 sdb (address_bytes a) \<in> ds \<or> fst (load_account sdb sn tr a) = None"
  shows "committed_of sdb sn ds (newObject sdb a (empty_account sdb)) k = 0"
proof -
  let ?obj = "newObject sdb a (empty_account sdb)" and ?h = "Keccak256 sdb (address_bytes a)"
  have obj: "so_addrHash ?obj = ?h" "acc_Root (so_data ?obj) = emptyRoot" "so_trie ?obj = None"
    "pendingStorage ?obj k = None" "originStorage ?obj k = None"
    by (simp_all add: newObject_def empty_account_def)
  obtain t0 where t0: "OpenStorageTrie sdb ?h 0 = Inr t0" using backend_okD(3) [OF ok(1)] by blast
  have "fst (TryGet sdb (trie_of sdb ?obj) (hash_bytes k)) = []"
    using backend_okD(4) [OF ok(1) t0] backend_okD(5) [OF ok(1)]
    by (auto simp: trie_of_def obj t0 split: sum.splits)
  then have trie: "slot_value (trie_enc sdb (trie_of sdb ?obj) k) = 0"
    by (auto simp: trie_enc_def slot_value_def split: prod.splits option.splits)
  show ?thesis
  proof (cases sn)
    case None
    then show ?thesis using trie by (simp add: committed_of_def obj slot_enc_def)
  next
    case (Some s)
    obtain enc err where g: "snap_Storage s ?h (Keccak256 sdb (hash_bytes k)) = (enc, err)" by fastforce
    have "enc = []" if "fst (load_account sdb sn tr a) = None"
      using store_okD(2) [of sdb s tr a "Keccak256 sdb (hash_bytes k)"] ok(2) Some that g by simp
    with new Some g trie show ?thesis
      by (cases err) (auto simp: committed_of_def obj slot_enc_def slot_value_def)
  qed
qed

lemma new_object_world:
  assumes "backend_ok sdb" "store_ok sdb sn tr"
    "sn = None \<or> Keccak256 sdb (address_bytes a) \<in> ds \<or> fst (load_account sdb sn tr a) = None"
  shows "account_world (Some (oview sdb sn ds (newObject sdb a (empty_account sdb)))) = no_account"
proof -
  let ?obj = "newObject sdb a (empty_account sdb)"
  have "state_of sdb sn ds ?obj = (\<lambda>_. 0)"
    using new_object_storage [OF assms] by (intro ext) (simp add: state_of_def, simp add: newObject_def)
  then show ?thesis
    by (simp add: account_world_def no_account_def oview_def)
      (simp add: newObject_def empty_account_def code_of_def code_at_def)
qed

lemma quiet_view: "quiet sdb s s' \<Longrightarrow> view sdb s' = view sdb s \<and> snap s' = snap s \<and> main_trie s' = main_trie s"
  by (simp add: quiet_def kept_def)

lemma createObject_world:
  assumes ok: "backend_ok sdb" "objs_ok sdb s" "store_ok sdb (snap s) (main_trie s)" and dead: "live sdb s a = None"
  shows "state_world (view sdb (snd (createObject sdb a s))) = state_world (view sdb s)"
proof -
  let ?new = "newObject sdb a (empty_account sdb)"
  have adr: "so_address ?new = a" by (simp add: newObject_def)
  obtain s1 where s1: "getDeletedStateObject sdb a s = (found sdb s a, s1)" "quiet sdb s s1"
    "stateObjects s1 a = found sdb s a" "snapDestructs s1 = snapDestructs s"
    by (rule getDeletedStateObject_quiet [OF ok(2)])
  note q = quiet_view [OF s1(2)]
  have ok1: "objs_ok sdb s1" using s1(2) by (simp add: quiet_def)
  have acc: "account_world (v_accounts (view sdb s) a) = no_account"
    using dead by (auto simp: v_accounts_view live_def account_world_def oview_def split: option.splits if_splits)
  show ?thesis
  proof (cases "found sdb s a")
    case None
    then have "fst (load_account sdb (snap s) (main_trie s) a) = None"
      by (simp add: found_def split: option.splits)
    then have "account_world (Some (oview sdb (snap s) (snapDestructs s) ?new)) = no_account"
      by (intro new_object_world [OF ok(1,3)]) simp
    then show ?thesis using None s1(1,4) q acc adr
      by (auto simp: createObject_def Let_def view_set state_world_def fun_eq_iff)
  next
    case (Some prev)
    define pd where "pd = (snap s1 \<noteq> None \<and> so_addrHash prev \<in> snapDestructs s1)"
    define ds where "ds = (if snap s1 \<noteq> None \<and> \<not> pd then insert (so_addrHash prev) (snapDestructs s1) else snapDestructs s1)"
    have h: "so_addrHash prev = Keccak256 sdb (address_bytes a)"
      using found_ok [OF ok(2) Some] by (simp add: obj_ok_def)
    have "account_world (Some (oview sdb (snap s) ds ?new)) = no_account"
      by (rule new_object_world [OF ok(1,3)]) (auto simp: ds_def pd_def q h)
    moreover have "v_accounts (view sdb (s1\<lparr> snapDestructs := ds \<rparr>)) b = v_accounts (view sdb s1) b" if "b \<noteq> a" for b
      by (rule accounts_destructs [OF ok(1) ok1 that]) (auto simp: ds_def h)
    moreover have "snd (createObject sdb a s)
        = setStateObject ?new (journal_append (resetObjectChange prev pd) (s1\<lparr> snapDestructs := ds \<rparr>))"
      using Some s1(1) by (simp add: createObject_def Let_def pd_def ds_def)
    moreover have "v_logs (view sdb (s1\<lparr> snapDestructs := ds \<rparr>)) = v_logs (view sdb s1)" by simp
    ultimately show ?thesis using q acc adr
      by (auto simp: view_set state_world_def fun_eq_iff simp del: view_fields)
  qed
qed

lemma GetOrNewStateObject_world:
  assumes ok: "backend_ok sdb" "objs_ok sdb s" "store_ok sdb (snap s) (main_trie s)"
  shows "state_world (view sdb (snd (GetOrNewStateObject sdb a s))) = state_world (view sdb s)"
proof -
  obtain s1 where s1: "getStateObject sdb a s = (live sdb s a, s1)" "quiet sdb s s1"
    "stateObjects s1 a = found sdb s a" "snapDestructs s1 = snapDestructs s"
    by (rule getStateObject_quiet [OF ok(2)])
  note q = quiet_view [OF s1(2)]
  have ok1: "objs_ok sdb s1" using s1(2) by (simp add: quiet_def)
  show ?thesis
  proof (cases "live sdb s a")
    case None
    then have "live sdb s1 a = None"
      using s1(3) q by (auto simp: live_def found_def split: option.splits)
    then have "state_world (view sdb (snd (createObject sdb a s1))) = state_world (view sdb s)"
      using createObject_world [OF ok(1) ok1, of a] ok(3) q by simp
    then show ?thesis using None s1(1) by (auto simp: GetOrNewStateObject_def split: prod.splits)
  next
    case (Some obj)
    then show ?thesis using s1(1) q by (simp add: GetOrNewStateObject_def)
  qed
qed

lemma CreateAccount_world:
  assumes "backend_ok sdb" "objs_ok sdb s" "store_ok sdb (snap s) (main_trie s)" "live sdb s a = None"
  shows "state_world (view sdb (CreateAccount sdb a s)) = state_world (view sdb s)"
proof -
  obtain s' where s': "createObject sdb a s = ((newObject sdb a (empty_account sdb), live sdb s a), s')"
    using createObject_journalled [OF assms(1,2), of a] by blast
  then show ?thesis using createObject_world [OF assms] assms(4) by (simp add: CreateAccount_def)
qed

lemma balance_0_world:
  assumes "backend_ok sdb" "objs_ok sdb s" "store_ok sdb (snap s) (main_trie s)"
  shows "state_world (view sdb (AddBalance sdb a 0 s)) = state_world (view sdb s)"
    "state_world (view sdb (SubBalance sdb a 0 s)) = state_world (view sdb s)"
  using GetOrNewStateObject_world [OF assms, of a]
  by (auto simp: AddBalance_def SubBalance_def obj_AddBalance_def obj_SubBalance_def obj_touch_def Let_def split: prod.splits)

end
