(* ===== verification/Evm_Gas.thy ===== *)
theory Evm_Gas
  imports Evm_Env
begin

text \<open>
  Gas and memory size calculation: \<^verbatim>\<open>src/evm/gas.go\<close>, \<^verbatim>\<open>src/evm/memory_table.go\<close>,
  \<^verbatim>\<open>src/evm/stack_table.go\<close>, \<^verbatim>\<open>src/evm/gas_table.go\<close> and \<^verbatim>\<open>src/evm/operations_acl.go\<close>. A gas function
  returns the dynamic gas and an error, and may change the EVM (the state, its access list
  and refund counter, \<^verbatim>\<open>callGasTemp\<close>), the contract's gas and the memory's cost record.
\<close>

section \<open>Stack bounds\<close>

definition maxStack :: "nat \<Rightarrow> nat \<Rightarrow> nat" where
  "maxStack pops pushes = unat StackLimit + pops - pushes"

definition minStack :: "nat \<Rightarrow> nat \<Rightarrow> nat" where
  "minStack pops pushes = pops"

definition minSwapStack :: "nat \<Rightarrow> nat" where "minSwapStack n = minStack n n"
definition maxSwapStack :: "nat \<Rightarrow> nat" where "maxSwapStack n = maxStack n n"
definition minDupStack :: "nat \<Rightarrow> nat" where "minDupStack n = minStack n (n + 1)"
definition maxDupStack :: "nat \<Rightarrow> nat" where "maxDupStack n = maxStack n (n + 1)"

section \<open>Memory sizes\<close>

definition range_size :: "nat \<Rightarrow> nat \<Rightarrow> memorySizeFunc" where
  "range_size i j u st =
     go_bind (Back i st) (\<lambda>off. go_bind (Back j st) (\<lambda>l. Ret (calcMemSize64 u off l)))"

definition fixed_size :: "nat \<Rightarrow> u64 \<Rightarrow> memorySizeFunc" where
  "fixed_size i n u st = go_bind (Back i st) (\<lambda>off. Ret (calcMemSize64WithUint u off n))"

text \<open>The larger of two ranges; the first overflow ends the calculation.\<close>

definition max_size :: "memorySizeFunc \<Rightarrow> memorySizeFunc \<Rightarrow> memorySizeFunc" where
  "max_size f g u st =
     go_bind (f u st) (\<lambda>(x, overflow). if overflow then Ret (0, True) else
     go_bind (g u st) (\<lambda>(y, overflow). if overflow then Ret (0, True) else
     if x > y then Ret (x, False) else Ret (y, False)))"

definition memoryKeccak256 :: memorySizeFunc where "memoryKeccak256 = range_size 0 1"
definition memoryCallDataCopy :: memorySizeFunc where "memoryCallDataCopy = range_size 0 2"
definition memoryReturnDataCopy :: memorySizeFunc where "memoryReturnDataCopy = range_size 0 2"
definition memoryCodeCopy :: memorySizeFunc where "memoryCodeCopy = range_size 0 2"
definition memoryExtCodeCopy :: memorySizeFunc where "memoryExtCodeCopy = range_size 1 3"
definition memoryMLoad :: memorySizeFunc where "memoryMLoad = fixed_size 0 32"
definition memoryMStore8 :: memorySizeFunc where "memoryMStore8 = fixed_size 0 1"
definition memoryMStore :: memorySizeFunc where "memoryMStore = fixed_size 0 32"
definition memoryCreate :: memorySizeFunc where "memoryCreate = range_size 1 2"
definition memoryCreate2 :: memorySizeFunc where "memoryCreate2 = range_size 1 2"
definition memoryCall :: memorySizeFunc where
  "memoryCall = max_size (range_size 5 6) (range_size 3 4)"
definition memoryDelegateCall :: memorySizeFunc where
  "memoryDelegateCall = max_size (range_size 4 5) (range_size 2 3)"
definition memoryStaticCall :: memorySizeFunc where
  "memoryStaticCall = max_size (range_size 4 5) (range_size 2 3)"
definition memoryReturn :: memorySizeFunc where "memoryReturn = range_size 0 1"
definition memoryRevert :: memorySizeFunc where "memoryRevert = range_size 0 1"
definition memoryLog :: memorySizeFunc where "memoryLog = range_size 0 1"

section \<open>Memory gas\<close>

definition memoryGasCost :: "Memory \<Rightarrow> u64 \<Rightarrow> (u64 \<times> vm_error option) \<times> Memory" where
  "memoryGasCost mem newMemSize =
     (if newMemSize = 0 then ((0, None), mem)
      else if newMemSize > 0x1FFFFFFFE0 then ((0, Some ErrGasUintOverflow), mem)
      else
        let newMemSizeWords = toWordSize newMemSize;
            newMemSize = newMemSizeWords * 32
        in if newMemSize > word_of_nat (Memory_Len mem) then
             let square = newMemSizeWords * newMemSizeWords;
                 linCoef = newMemSizeWords * MemoryGas;
                 quadCoef = square div QuadCoeffDiv;
                 newTotalFee = linCoef + quadCoef;
                 fee = newTotalFee - lastGasCost mem
             in ((fee, None), mem\<lparr> lastGasCost := newTotalFee \<rparr>)
           else ((0, None), mem))"

abbreviation gas_err ::
  "vm_error \<Rightarrow> 's evm \<Rightarrow> Contract \<Rightarrow> Memory
     \<Rightarrow> ((u64 \<times> vm_error option) \<times> 's evm \<times> Contract \<times> Memory) go" where
  "gas_err e evm contract mem \<equiv> Ret ((0, Some e), evm, contract, mem)"

abbreviation gas_ok ::
  "u64 \<Rightarrow> 's evm \<Rightarrow> Contract \<Rightarrow> Memory
     \<Rightarrow> ((u64 \<times> vm_error option) \<times> 's evm \<times> Contract \<times> Memory) go" where
  "gas_ok g evm contract mem \<equiv> Ret ((g, None), evm, contract, mem)"

text \<open>The gas of words of 32 bytes at a price, on top of a base, as the copy and hash
  operations add it.\<close>

definition add_word_gas ::
  "u64 \<Rightarrow> u64 \<Rightarrow> nat \<Rightarrow> 's gasFunc" where
  "add_word_gas gas price pos E evm contract st mem memorySize =
     go_bind (Back pos st) (\<lambda>b.
       let (words, overflow) = u_Uint64WithOverflow (U E) b in
       if overflow then gas_err ErrGasUintOverflow evm contract mem
       else let (words, overflow) = SafeMul (toWordSize words) price in
         if overflow then gas_err ErrGasUintOverflow evm contract mem
         else let (gas, overflow) = SafeAdd gas words in
           if overflow then gas_err ErrGasUintOverflow evm contract mem
           else gas_ok gas evm contract mem)"

definition memoryCopierGas :: "nat \<Rightarrow> 's gasFunc" where
  "memoryCopierGas stackpos E evm contract st mem memorySize =
     (case memoryGasCost mem memorySize of
        ((_, Some err), mem) \<Rightarrow> gas_err err evm contract mem
      | ((gas, None), mem) \<Rightarrow> add_word_gas gas CopyGas stackpos E evm contract st mem memorySize)"

definition gasCallDataCopy :: "'s gasFunc" where "gasCallDataCopy = memoryCopierGas 2"
definition gasCodeCopy :: "'s gasFunc" where "gasCodeCopy = memoryCopierGas 2"
definition gasExtCodeCopy :: "'s gasFunc" where "gasExtCodeCopy = memoryCopierGas 3"
definition gasReturnDataCopy :: "'s gasFunc" where "gasReturnDataCopy = memoryCopierGas 2"

definition gasKeccak256 :: "'s gasFunc" where
  "gasKeccak256 E evm contract st mem memorySize =
     (case memoryGasCost mem memorySize of
        ((_, Some err), mem) \<Rightarrow> gas_err err evm contract mem
      | ((gas, None), mem) \<Rightarrow> add_word_gas gas Keccak256WordGas 1 E evm contract st mem memorySize)"

definition gasCreate2 :: "'s gasFunc" where
  "gasCreate2 E evm contract st mem memorySize =
     (case memoryGasCost mem memorySize of
        ((_, Some err), mem) \<Rightarrow> gas_err err evm contract mem
      | ((gas, None), mem) \<Rightarrow> add_word_gas gas Keccak256WordGas 2 E evm contract st mem memorySize)"

definition pureMemoryGascost :: "'s gasFunc" where
  "pureMemoryGascost E evm contract st mem memorySize =
     (case memoryGasCost mem memorySize of (r, mem) \<Rightarrow> Ret (r, evm, contract, mem))"

definition gasReturn :: "'s gasFunc" where "gasReturn = pureMemoryGascost"
definition gasRevert :: "'s gasFunc" where "gasRevert = pureMemoryGascost"
definition gasMLoad :: "'s gasFunc" where "gasMLoad = pureMemoryGascost"
definition gasMStore8 :: "'s gasFunc" where "gasMStore8 = pureMemoryGascost"
definition gasMStore :: "'s gasFunc" where "gasMStore = pureMemoryGascost"
definition gasCreate :: "'s gasFunc" where "gasCreate = pureMemoryGascost"

definition makeGasLog :: "u64 \<Rightarrow> 's gasFunc" where
  "makeGasLog n E evm contract st mem memorySize =
     go_bind (Back 1 st) (\<lambda>b.
       let (requestedSize, overflow) = u_Uint64WithOverflow (U E) b in
       if overflow then gas_err ErrGasUintOverflow evm contract mem
       else case memoryGasCost mem memorySize of
         ((_, Some err), mem) \<Rightarrow> gas_err err evm contract mem
       | ((gas, None), mem) \<Rightarrow>
           let (gas, overflow) = SafeAdd gas LogGas in
           if overflow then gas_err ErrGasUintOverflow evm contract mem
           else let (gas, overflow) = SafeAdd gas (n * LogTopicGas) in
           if overflow then gas_err ErrGasUintOverflow evm contract mem
           else let (memorySizeGas, overflow) = SafeMul requestedSize LogDataGas in
           if overflow then gas_err ErrGasUintOverflow evm contract mem
           else let (gas, overflow) = SafeAdd gas memorySizeGas in
           if overflow then gas_err ErrGasUintOverflow evm contract mem
           else gas_ok gas evm contract mem)"

definition gasExp :: "u64 \<Rightarrow> 's gasFunc" where
  "gasExp perByte E evm contract st mem memorySize =
     go_bind (Back 1 st) (\<lambda>b.
       let expByteLen = word_of_nat ((u_BitLen (U E) b + 7) div 8);
           gas = expByteLen * perByte;
           (gas, overflow) = SafeAdd gas ExpGas
       in if overflow then gas_err ErrGasUintOverflow evm contract mem
          else gas_ok gas evm contract mem)"

definition gasExpFrontier :: "'s gasFunc" where "gasExpFrontier = gasExp ExpByteFrontier"
definition gasExpEIP158 :: "'s gasFunc" where "gasExpEIP158 = gasExp ExpByteEIP158"

section \<open>Storage gas\<close>

definition gasSStore :: "'s gasFunc" where
  "gasSStore E evm contract st mem memorySize =
     go_bind (Back 1 st) (\<lambda>y. go_bind (Back 0 st) (\<lambda>x.
     go_bind (db_get (db_GetState (db E) (self contract) (u_Bytes32 (U E) x)) evm) (\<lambda>(current, evm).
       let value = u_Bytes32 (U E) y in
       if current = value then gas_ok NetSstoreNoopGas evm contract mem
       else
         go_bind (db_get (db_GetCommittedState (db E) (self contract) (u_Bytes32 (U E) x)) evm)
           (\<lambda>(original, evm).
           if original = current then
             if original = 0 then gas_ok NetSstoreInitGas evm contract mem
             else go_bind (if value = 0 then db_do (db_AddRefund (db E) NetSstoreClearRefund) evm
                           else Ret evm) (\<lambda>evm.
               gas_ok NetSstoreCleanGas evm contract mem)
           else
             go_bind (if original \<noteq> 0 then
                        if current = 0 then db_do (db_SubRefund (db E) NetSstoreClearRefund) evm
                        else if value = 0 then db_do (db_AddRefund (db E) NetSstoreClearRefund) evm
                        else Ret evm
                      else Ret evm) (\<lambda>evm.
             go_bind (if original = value then
                        if original = 0 then db_do (db_AddRefund (db E) NetSstoreResetClearRefund) evm
                        else db_do (db_AddRefund (db E) NetSstoreResetRefund) evm
                      else Ret evm) (\<lambda>evm.
             gas_ok NetSstoreDirtyGas evm contract mem))))))"

definition gasSStoreEIP2200 :: "'s gasFunc" where
  "gasSStoreEIP2200 E evm contract st mem memorySize =
     (if Gas contract \<le> SstoreSentryGasEIP2200 then gas_err ErrReentrancySentry evm contract mem
      else
     go_bind (Back 1 st) (\<lambda>y. go_bind (Back 0 st) (\<lambda>x.
     go_bind (db_get (db_GetState (db E) (self contract) (u_Bytes32 (U E) x)) evm) (\<lambda>(current, evm).
       let value = u_Bytes32 (U E) y in
       if current = value then gas_ok SloadGasEIP2200 evm contract mem
       else
         go_bind (db_get (db_GetCommittedState (db E) (self contract) (u_Bytes32 (U E) x)) evm)
           (\<lambda>(original, evm).
           if original = current then
             if original = 0 then gas_ok SstoreSetGasEIP2200 evm contract mem
             else go_bind (if value = 0
                           then db_do (db_AddRefund (db E) SstoreClearsScheduleRefundEIP2200) evm
                           else Ret evm) (\<lambda>evm.
               gas_ok SstoreResetGasEIP2200 evm contract mem)
           else
             go_bind (if original \<noteq> 0 then
                        if current = 0
                        then db_do (db_SubRefund (db E) SstoreClearsScheduleRefundEIP2200) evm
                        else if value = 0
                        then db_do (db_AddRefund (db E) SstoreClearsScheduleRefundEIP2200) evm
                        else Ret evm
                      else Ret evm) (\<lambda>evm.
             go_bind (if original = value then
                        if original = 0
                        then db_do (db_AddRefund (db E) (SstoreSetGasEIP2200 - SloadGasEIP2200)) evm
                        else db_do (db_AddRefund (db E) (SstoreResetGasEIP2200 - SloadGasEIP2200)) evm
                      else Ret evm) (\<lambda>evm.
             gas_ok SloadGasEIP2200 evm contract mem)))))))"

definition sstore_panic :: panic where
  "sstore_panic =
     PanicMsg ''impossible case: address was not present in access list during sstore op''"

definition makeGasSStoreFunc :: "u64 \<Rightarrow> 's gasFunc" where
  "makeGasSStoreFunc clearingRefund E evm contract st mem memorySize =
     (if Gas contract \<le> SstoreSentryGasEIP2200 then gas_err ErrReentrancySentry evm contract mem
      else
     go_bind (Back 1 st) (\<lambda>y. go_bind (peek st) (\<lambda>x.
     let slot = u_Bytes32 (U E) x in
     go_bind (db_get (db_GetState (db E) (self contract) slot) evm) (\<lambda>(current, evm).
     go_bind (db_get (db_SlotInAccessList (db E) (self contract) slot) evm)
       (\<lambda>((addrPresent, slotPresent), evm).
     go_bind (if \<not> slotPresent then
                go_bind (db_do (db_AddSlotToAccessList (db E) (self contract) slot) evm) (\<lambda>evm.
                if \<not> addrPresent then Panic sstore_panic else Ret (ColdSloadCostEIP2929, evm))
              else Ret (0, evm)) (\<lambda>(cost, evm).
       let value = u_Bytes32 (U E) y in
       if current = value then gas_ok (cost + WarmStorageReadCostEIP2929) evm contract mem
       else
         go_bind (db_get (db_GetCommittedState (db E) (self contract) (u_Bytes32 (U E) x)) evm)
           (\<lambda>(original, evm).
           if original = current then
             if original = 0 then gas_ok (cost + SstoreSetGasEIP2200) evm contract mem
             else go_bind (if value = 0 then db_do (db_AddRefund (db E) clearingRefund) evm
                           else Ret evm) (\<lambda>evm.
               gas_ok (cost + (SstoreResetGasEIP2200 - ColdSloadCostEIP2929)) evm contract mem)
           else
             go_bind (if original \<noteq> 0 then
                        if current = 0 then db_do (db_SubRefund (db E) clearingRefund) evm
                        else if value = 0 then db_do (db_AddRefund (db E) clearingRefund) evm
                        else Ret evm
                      else Ret evm) (\<lambda>evm.
             go_bind (if original = value then
                        if original = 0
                        then db_do (db_AddRefund (db E)
                               (SstoreSetGasEIP2200 - WarmStorageReadCostEIP2929)) evm
                        else db_do (db_AddRefund (db E) ((SstoreResetGasEIP2200
                               - ColdSloadCostEIP2929) - WarmStorageReadCostEIP2929)) evm
                      else Ret evm) (\<lambda>evm.
             gas_ok (cost + WarmStorageReadCostEIP2929) evm contract mem)))))))))"

definition gasSStoreEIP2929 :: "'s gasFunc" where
  "gasSStoreEIP2929 = makeGasSStoreFunc SstoreClearsScheduleRefundEIP2200"

definition gasSStoreEIP3529 :: "'s gasFunc" where
  "gasSStoreEIP3529 = makeGasSStoreFunc SstoreClearsScheduleRefundEIP3529"

definition gasSLoadEIP2929 :: "'s gasFunc" where
  "gasSLoadEIP2929 E evm contract st mem memorySize =
     go_bind (peek st) (\<lambda>loc.
     let slot = u_Bytes32 (U E) loc in
     go_bind (db_get (db_SlotInAccessList (db E) (self contract) slot) evm) (\<lambda>((_, slotPresent), evm).
     if \<not> slotPresent then
       go_bind (db_do (db_AddSlotToAccessList (db E) (self contract) slot) evm) (\<lambda>evm.
       gas_ok ColdSloadCostEIP2929 evm contract mem)
     else gas_ok WarmStorageReadCostEIP2929 evm contract mem))"

section \<open>Account access gas\<close>

definition gasExtCodeCopyEIP2929 :: "'s gasFunc" where
  "gasExtCodeCopyEIP2929 E evm contract st mem memorySize =
     go_bind (gasExtCodeCopy E evm contract st mem memorySize) (\<lambda>((gas, err), evm, contract, mem).
     case err of Some e \<Rightarrow> gas_err e evm contract mem
     | None \<Rightarrow>
       go_bind (peek st) (\<lambda>a.
       let addr = u_Bytes20 (U E) a in
       go_bind (db_get (db_AddressInAccessList (db E) addr) evm) (\<lambda>(present, evm).
       if \<not> present then
         go_bind (db_do (db_AddAddressToAccessList (db E) addr) evm) (\<lambda>evm.
         let (gas, overflow) =
           SafeAdd gas (ColdAccountAccessCostEIP2929 - WarmStorageReadCostEIP2929) in
         if overflow then gas_err ErrGasUintOverflow evm contract mem
         else gas_ok gas evm contract mem)
       else gas_ok gas evm contract mem)))"

definition gasEip2929AccountCheck :: "'s gasFunc" where
  "gasEip2929AccountCheck E evm contract st mem memorySize =
     go_bind (peek st) (\<lambda>a.
     let addr = u_Bytes20 (U E) a in
     go_bind (db_get (db_AddressInAccessList (db E) addr) evm) (\<lambda>(present, evm).
     if \<not> present then
       go_bind (db_do (db_AddAddressToAccessList (db E) addr) evm) (\<lambda>evm.
       gas_ok (ColdAccountAccessCostEIP2929 - WarmStorageReadCostEIP2929) evm contract mem)
     else gas_ok 0 evm contract mem))"

definition makeSelfdestructGasFn :: "bool \<Rightarrow> 's gasFunc" where
  "makeSelfdestructGasFn refundsEnabled E evm contract st mem memorySize =
     go_bind (peek st) (\<lambda>a.
     let address = u_Bytes20 (U E) a in
     go_bind (db_get (db_AddressInAccessList (db E) address) evm) (\<lambda>(present, evm).
     go_bind (if \<not> present then
                go_bind (db_do (db_AddAddressToAccessList (db E) address) evm) (\<lambda>evm.
                Ret (ColdAccountAccessCostEIP2929, evm))
              else Ret (0, evm)) (\<lambda>(gas, evm).
     go_bind (db_get (db_Empty (db E) address) evm) (\<lambda>(empty, evm).
     go_bind (if empty then db_get (db_GetBalance (db E) (self contract)) evm else Ret (0, evm))
       (\<lambda>(balance, evm).
     let gas = (if empty \<and> balance \<noteq> 0 then gas + CreateBySelfdestructGas else gas) in
     go_bind (if refundsEnabled then
                go_bind (db_get (db_HasSuicided (db E) (self contract)) evm) (\<lambda>(dead, evm).
                if \<not> dead then db_do (db_AddRefund (db E) SelfdestructRefundGas) evm else Ret evm)
              else Ret evm) (\<lambda>evm.
     gas_ok gas evm contract mem))))))"

definition gasSelfdestructEIP2929 :: "'s gasFunc" where
  "gasSelfdestructEIP2929 = makeSelfdestructGasFn True"

definition gasSelfdestructEIP3529 :: "'s gasFunc" where
  "gasSelfdestructEIP3529 = makeSelfdestructGasFn False"

definition gasSelfdestruct :: "'s gasFunc" where
  "gasSelfdestruct E evm contract st mem memorySize =
     go_bind (if IsEIP150 (chainRules E) then
                go_bind (Back 0 st) (\<lambda>a.
                go_bind (db_get (db_Exist (db E) (u_Bytes20 (U E) a)) evm) (\<lambda>(exist, evm).
                Ret (if \<not> exist then SelfdestructGasEIP150 + CreateBySelfdestructGas
                     else SelfdestructGasEIP150, evm)))
              else Ret (0, evm)) (\<lambda>(gas, evm).
     go_bind (db_get (db_HasSuicided (db E) (self contract)) evm) (\<lambda>(dead, evm).
     go_bind (if \<not> dead then db_do (db_AddRefund (db E) SelfdestructRefundGas) evm else Ret evm)
       (\<lambda>evm. gas_ok gas evm contract mem)))"

section \<open>Call gas\<close>

definition callGas :: "uint256_lib \<Rightarrow> bool \<Rightarrow> u64 \<Rightarrow> u64 \<Rightarrow> u256 \<Rightarrow> u64 \<times> vm_error option" where
  "callGas u isEip150 availableGas base callCost =
     (let availableGas = (if isEip150 then availableGas - base else availableGas);
          gas = availableGas - availableGas div 64
      in if isEip150 \<and> (\<not> u_IsUint64 u callCost \<or> gas < u_Uint64 u callCost) then (gas, None)
         else if \<not> u_IsUint64 u callCost then (0, Some ErrGasUintOverflow)
         else (u_Uint64 u callCost, None))"

text \<open>The end of the four call gas functions: the gas to pass on is recorded in \<^verbatim>\<open>callGasTemp\<close>
  (zero on an error) and added to the cost.\<close>

definition finish_call_gas :: "u64 \<Rightarrow> 's gasFunc" where
  "finish_call_gas gas E evm contract st mem memorySize =
     go_bind (Back 0 st) (\<lambda>c.
     let (temp, err) = callGas (U E) (IsEIP150 (chainRules E)) (Gas contract) gas c;
         evm = evm\<lparr> callGasTemp := temp \<rparr>
     in case err of Some e \<Rightarrow> gas_err e evm contract mem
        | None \<Rightarrow> let (gas, overflow) = SafeAdd gas (callGasTemp evm) in
            if overflow then gas_err ErrGasUintOverflow evm contract mem
            else gas_ok gas evm contract mem)"

definition gasCall :: "'s gasFunc" where
  "gasCall E evm contract st mem memorySize =
     go_bind (Back 2 st) (\<lambda>v. go_bind (Back 1 st) (\<lambda>a.
     let transfersValue = (\<not> u_IsZero (U E) v); address = u_Bytes20 (U E) a in
     go_bind (db_get (db_Exist (db E) address) evm) (\<lambda>(exist, evm).
     let gas = (if \<not> exist then CallNewAccountGas else 0);
         gas = (if transfersValue then gas + CallValueTransferGas else gas)
     in case memoryGasCost mem memorySize of
          ((_, Some err), mem) \<Rightarrow> gas_err err evm contract mem
        | ((memoryGas, None), mem) \<Rightarrow>
            let (gas, overflow) = SafeAdd gas memoryGas in
            if overflow then gas_err ErrGasUintOverflow evm contract mem
            else finish_call_gas gas E evm contract st mem memorySize)))"

definition gasCallCode :: "'s gasFunc" where
  "gasCallCode E evm contract st mem memorySize =
     (case memoryGasCost mem memorySize of
        ((_, Some err), mem) \<Rightarrow> gas_err err evm contract mem
      | ((memoryGas, None), mem) \<Rightarrow>
          go_bind (Back 2 st) (\<lambda>v.
          let gas = (if u_Sign (U E) v \<noteq> 0 then CallValueTransferGas else 0);
              (gas, overflow) = SafeAdd gas memoryGas
          in if overflow then gas_err ErrGasUintOverflow evm contract mem
             else finish_call_gas gas E evm contract st mem memorySize))"

definition gasDelegateCall :: "'s gasFunc" where
  "gasDelegateCall E evm contract st mem memorySize =
     (case memoryGasCost mem memorySize of
        ((_, Some err), mem) \<Rightarrow> gas_err err evm contract mem
      | ((gas, None), mem) \<Rightarrow> finish_call_gas gas E evm contract st mem memorySize)"

definition gasStaticCall :: "'s gasFunc" where
  "gasStaticCall E evm contract st mem memorySize =
     (case memoryGasCost mem memorySize of
        ((_, Some err), mem) \<Rightarrow> gas_err err evm contract mem
      | ((gas, None), mem) \<Rightarrow> finish_call_gas gas E evm contract st mem memorySize)"

definition makeCallVariantGasCallEIP2929 :: "'s gasFunc \<Rightarrow> 's gasFunc" where
  "makeCallVariantGasCallEIP2929 oldCalculator E evm contract st mem memorySize =
     go_bind (Back 1 st) (\<lambda>a.
     let addr = u_Bytes20 (U E) a in
     go_bind (db_get (db_AddressInAccessList (db E) addr) evm) (\<lambda>(warmAccess, evm).
     let coldCost = ColdAccountAccessCostEIP2929 - WarmStorageReadCostEIP2929 in
     if \<not> warmAccess then
       go_bind (db_do (db_AddAddressToAccessList (db E) addr) evm) (\<lambda>evm.
       let (ok, contract) = UseGas coldCost contract in
       if \<not> ok then gas_err ErrOutOfGas evm contract mem
       else
         go_bind (oldCalculator E evm contract st mem memorySize)
           (\<lambda>((gas, err), evm, contract, mem).
           case err of Some e \<Rightarrow> Ret ((gas, err), evm, contract, mem)
           | None \<Rightarrow> gas_ok (gas + coldCost) evm (contract\<lparr> Gas := Gas contract + coldCost \<rparr>) mem))
     else oldCalculator E evm contract st mem memorySize))"

definition gasCallEIP2929 :: "'s gasFunc" where
  "gasCallEIP2929 = makeCallVariantGasCallEIP2929 gasCall"
definition gasDelegateCallEIP2929 :: "'s gasFunc" where
  "gasDelegateCallEIP2929 = makeCallVariantGasCallEIP2929 gasDelegateCall"
definition gasStaticCallEIP2929 :: "'s gasFunc" where
  "gasStaticCallEIP2929 = makeCallVariantGasCallEIP2929 gasStaticCall"
definition gasCallCodeEIP2929 :: "'s gasFunc" where
  "gasCallCodeEIP2929 = makeCallVariantGasCallEIP2929 gasCallCode"

end
