(* ===== verification/Evm_Call.thy ===== *)
theory Evm_Call
  imports Evm_Gas Rlp
begin

text \<open>
  Calls and contract creation: \<^verbatim>\<open>src/evm/evm.go\<close>, the precompiled contracts it can reach
  (\<^verbatim>\<open>src/evm/contracts.go\<close>), and the address derivation of \<^verbatim>\<open>src/common/crypto/crypto.go\<close>.

  The interpreter's loop is an argument (\<open>run\<close>) of the definitions: a call runs the callee's
  code through it. The results carry the return data, the gas left and the error.
  \<^verbatim>\<open>EVM.precompile\<close> selects the Homestead set in both branches of its switch, so that the
  later sets of \<^verbatim>\<open>contracts.go\<close> are unreachable and not modelled.
\<close>

section \<open>Precompiled contracts\<close>

datatype PrecompiledContract = ecrecover | sha256hash | ripemd160hash | dataCopy

definition PrecompiledContractsHomestead :: "address \<Rightarrow> PrecompiledContract option" where
  "PrecompiledContractsHomestead =
     [BytesToAddress [1] \<mapsto> ecrecover, BytesToAddress [2] \<mapsto> sha256hash,
      BytesToAddress [3] \<mapsto> ripemd160hash, BytesToAddress [4] \<mapsto> dataCopy]"

definition precompile :: "'s evm_env \<Rightarrow> address \<Rightarrow> PrecompiledContract option" where
  "precompile E addr =
     (if IsHomestead (chainRules E) then PrecompiledContractsHomestead addr
      else PrecompiledContractsHomestead addr)"

definition word_gas :: "bytes \<Rightarrow> u64 \<Rightarrow> u64 \<Rightarrow> u64" where
  "word_gas input perWord base = word_of_nat (length input + 31) div 32 * perWord + base"

fun RequiredGas :: "PrecompiledContract \<Rightarrow> bytes \<Rightarrow> u64" where
  "RequiredGas ecrecover input = EcrecoverGas"
| "RequiredGas sha256hash input = word_gas input Sha256PerWordGas Sha256BaseGas"
| "RequiredGas ripemd160hash input = word_gas input Ripemd160PerWordGas Ripemd160BaseGas"
| "RequiredGas dataCopy input = word_gas input IdentityPerWordGas IdentityBaseGas"

definition secp256k1N :: int where
  "secp256k1N = 0xfffffffffffffffffffffffffffffffebaaedce6af48a03bbfd25e8cd0364141"

definition ValidateSignatureValues :: "u8 \<Rightarrow> int \<Rightarrow> int \<Rightarrow> bool \<Rightarrow> bool" where
  "ValidateSignatureValues v r s homestead =
     (if r < 1 \<or> s < 1 then False
      else if homestead \<and> s > secp256k1N div 2 then False
      else r < secp256k1N \<and> s < secp256k1N \<and> (v = 0 \<or> v = 1))"

definition ecrecover_Run :: "crypto_lib \<Rightarrow> bytes \<Rightarrow> (bytes \<times> vm_error option) go" where
  "ecrecover_Run K input =
     (let input = RightPadBytes input 128 in
      go_bind (slice_go input 64 96) (\<lambda>rb.
      go_bind (slice_go input 96 128) (\<lambda>sb.
      go_bind (index_go input 63) (\<lambda>v63.
      go_bind (slice_go input 32 63) (\<lambda>pad.
      go_bind (slice_go input 64 128) (\<lambda>rs.
      go_bind (slice_go input 0 32) (\<lambda>h.
      let r = int (be_nat rb); s = int (be_nat sb); v = v63 - 27 in
      if \<not> allZero pad \<or> \<not> ValidateSignatureValues v r s False then Ret ([], None)
      else case Ecrecover K h (rs @ [v]) of
        None \<Rightarrow> Ret ([], None)
      | Some pubKey \<Rightarrow>
          go_bind (slice_go pubKey 1 (length pubKey)) (\<lambda>key.
          Ret (LeftPadBytes (drop 12 (hash_bytes (keccak256 K key))) 32, None)))))))))"

fun precompile_Run :: "crypto_lib \<Rightarrow> PrecompiledContract \<Rightarrow> bytes \<Rightarrow> (bytes \<times> vm_error option) go" where
  "precompile_Run K ecrecover input = ecrecover_Run K input"
| "precompile_Run K sha256hash input = Ret (sha256 K input, None)"
| "precompile_Run K ripemd160hash input = Ret (LeftPadBytes (ripemd160 K input) 32, None)"
| "precompile_Run K dataCopy input = Ret (input, None)"

definition RunPrecompiledContract ::
  "crypto_lib \<Rightarrow> PrecompiledContract \<Rightarrow> bytes \<Rightarrow> u64 \<Rightarrow> (bytes \<times> u64 \<times> vm_error option) go" where
  "RunPrecompiledContract K p input suppliedGas =
     (let gasCost = RequiredGas p input in
      if suppliedGas < gasCost then Ret ([], 0, Some ErrOutOfGas)
      else go_bind (precompile_Run K p input) (\<lambda>(output, err).
        Ret (output, suppliedGas - gasCost, err)))"

section \<open>Addresses of new contracts\<close>

definition CreateAddress :: "crypto_lib \<Rightarrow> address \<Rightarrow> u64 \<Rightarrow> address go" where
  "CreateAddress K b nonce =
     go_bind (EncodeToBytes (VSlice [VByteArray (address_bytes b), VUint nonce])) (\<lambda>r.
     let data = (case r of Inr d \<Rightarrow> d | Inl _ \<Rightarrow> []) in
     Ret (BytesToAddress (drop 12 (hash_bytes (keccak256 K data)))))"

definition CreateAddress2 :: "crypto_lib \<Rightarrow> address \<Rightarrow> hash \<Rightarrow> bytes \<Rightarrow> address" where
  "CreateAddress2 K b salt inithash =
     BytesToAddress (drop 12 (hash_bytes
       (keccak256 K ([0xff] @ address_bytes b @ hash_bytes salt @ inithash))))"

definition codeAndHash_Hash :: "crypto_lib \<Rightarrow> codeAndHash \<Rightarrow> hash \<times> codeAndHash" where
  "codeAndHash_Hash K c =
     (let c = (if ch_hash c = 0 then c\<lparr> ch_hash := keccak256 K (ch_code c) \<rparr> else c)
      in (ch_hash c, c))"

definition emptyCodeHash :: "crypto_lib \<Rightarrow> hash" where
  "emptyCodeHash K = keccak256 K []"

section \<open>Calls\<close>

text \<open>The end of the four call functions: an error reverts the state to the snapshot, and all
  errors but a revert consume the gas.\<close>

definition finish_call ::
  "'s evm_env \<Rightarrow> nat \<Rightarrow> bytes \<Rightarrow> u64 \<Rightarrow> vm_error option \<Rightarrow> 's evm
     \<Rightarrow> ((bytes \<times> u64 \<times> vm_error option) \<times> 's evm) go" where
  "finish_call E snapshot ret gas err evm =
     (case err of None \<Rightarrow> Ret ((ret, gas, err), evm)
      | Some e \<Rightarrow>
          go_bind (db_do (db_RevertToSnapshot (db E) snapshot) evm) (\<lambda>evm.
          Ret ((ret, if e \<noteq> ErrExecutionReverted then 0 else gas, err), evm)))"

text \<open>Running a new contract: the interpreter's result and the gas the contract is left with.\<close>

definition run_contract ::
  "'s runner \<Rightarrow> Contract \<Rightarrow> bytes \<Rightarrow> bool \<Rightarrow> 's evm
     \<Rightarrow> ((bytes \<times> u64 \<times> vm_error option) \<times> 's evm) go" where
  "run_contract run contract input ro evm =
     go_bind (run contract input ro evm) (\<lambda>((ret, err), contract, evm).
     Ret ((ret, Gas contract, err), evm))"

definition new_contract ::
  "contract_ref \<Rightarrow> address \<Rightarrow> int option \<Rightarrow> u64 \<Rightarrow> 's evm \<Rightarrow> Contract \<times> 's evm" where
  "new_contract clr object value gas evm =
     (let (contract, jds) = NewContract clr object value gas (jumpdests evm)
      in (contract, evm\<lparr> jumpdests := jds \<rparr>))"

text \<open>The precompiled contract or the code of the callee.\<close>

definition call_callee ::
  "'s runner \<Rightarrow> 's evm_env \<Rightarrow> contract_ref \<Rightarrow> address \<Rightarrow> bytes \<Rightarrow> u64 \<Rightarrow> int \<Rightarrow> 's evm
     \<Rightarrow> ((bytes \<times> u64 \<times> vm_error option) \<times> 's evm) go" where
  "call_callee run E clr addr input gas value evm =
     (case precompile E addr of
        Some p \<Rightarrow> go_map (\<lambda>r. (r, evm)) (RunPrecompiledContract (crypto E) p input gas)
      | None \<Rightarrow>
          go_bind (db_get (db_GetCode (db E) addr) evm) (\<lambda>(code, evm).
          if length code = 0 then Ret (([], gas, None), evm)
          else
            let (contract, evm) = new_contract clr addr (Some value) gas evm in
            go_bind (db_get (db_GetCodeHash (db E) addr) evm) (\<lambda>(h, evm).
            run_contract run (SetCallCode addr h code contract) input False evm)))"

definition evm_Call ::
  "'s runner \<Rightarrow> 's evm_env \<Rightarrow> contract_ref \<Rightarrow> address \<Rightarrow> bytes \<Rightarrow> u64 \<Rightarrow> int \<Rightarrow> 's evm
     \<Rightarrow> ((bytes \<times> u64 \<times> vm_error option) \<times> 's evm) go" where
  "evm_Call run E clr addr input gas value evm =
     (if depth evm > unat CallCreateDepth then Ret (([], gas, Some ErrDepth), evm)
      else
      go_bind (if value \<noteq> 0 then db_get (CanTransfer (Context E) (ref_Address clr) value) evm
               else Ret (True, evm)) (\<lambda>(can, evm).
      if \<not> can then Ret (([], gas, Some ErrInsufficientBalance), evm)
      else
      go_bind (db_get (db_Snapshot (db E)) evm) (\<lambda>(snapshot, evm).
      let p = precompile E addr in
      go_bind (db_get (db_Exist (db E) addr) evm) (\<lambda>(exist, evm).
      if \<not> exist \<and> p = None \<and> value = 0 then Ret (([], gas, None), evm)
      else
      go_bind (if \<not> exist then db_do (db_CreateAccount (db E) addr) evm else Ret evm) (\<lambda>evm.
      go_bind (db_do (Transfer (Context E) (ref_Address clr) addr value) evm) (\<lambda>evm.
      go_bind (call_callee run E clr addr input gas value evm)
        (\<lambda>((ret, gas, err), evm). finish_call E snapshot ret gas err evm)))))))"

definition evm_CallCode ::
  "'s runner \<Rightarrow> 's evm_env \<Rightarrow> contract_ref \<Rightarrow> address \<Rightarrow> bytes \<Rightarrow> u64 \<Rightarrow> int \<Rightarrow> 's evm
     \<Rightarrow> ((bytes \<times> u64 \<times> vm_error option) \<times> 's evm) go" where
  "evm_CallCode run E clr addr input gas value evm =
     (if depth evm > unat CallCreateDepth then Ret (([], gas, Some ErrDepth), evm)
      else
      go_bind (db_get (CanTransfer (Context E) (ref_Address clr) value) evm) (\<lambda>(can, evm).
      if \<not> can then Ret (([], gas, Some ErrInsufficientBalance), evm)
      else
      go_bind (db_get (db_Snapshot (db E)) evm) (\<lambda>(snapshot, evm).
      go_bind
        (case precompile E addr of
           Some p \<Rightarrow> go_map (\<lambda>r. (r, evm)) (RunPrecompiledContract (crypto E) p input gas)
         | None \<Rightarrow>
             let (contract, evm) = new_contract clr (ref_Address clr) (Some value) gas evm in
             go_bind (db_get (db_GetCodeHash (db E) addr) evm) (\<lambda>(h, evm).
             go_bind (db_get (db_GetCode (db E) addr) evm) (\<lambda>(code, evm).
             run_contract run (SetCallCode addr h code contract) input False evm)))
        (\<lambda>((ret, gas, err), evm). finish_call E snapshot ret gas err evm))))"

definition evm_DelegateCall ::
  "'s runner \<Rightarrow> 's evm_env \<Rightarrow> contract_ref \<Rightarrow> address \<Rightarrow> bytes \<Rightarrow> u64 \<Rightarrow> 's evm
     \<Rightarrow> ((bytes \<times> u64 \<times> vm_error option) \<times> 's evm) go" where
  "evm_DelegateCall run E clr addr input gas evm =
     (if depth evm > unat CallCreateDepth then Ret (([], gas, Some ErrDepth), evm)
      else
      go_bind (db_get (db_Snapshot (db E)) evm) (\<lambda>(snapshot, evm).
      go_bind
        (case precompile E addr of
           Some p \<Rightarrow> go_map (\<lambda>r. (r, evm)) (RunPrecompiledContract (crypto E) p input gas)
         | None \<Rightarrow>
             let (contract, evm) = new_contract clr (ref_Address clr) None gas evm in
             go_bind (AsDelegate contract) (\<lambda>contract.
             go_bind (db_get (db_GetCodeHash (db E) addr) evm) (\<lambda>(h, evm).
             go_bind (db_get (db_GetCode (db E) addr) evm) (\<lambda>(code, evm).
             run_contract run (SetCallCode addr h code contract) input False evm))))
        (\<lambda>((ret, gas, err), evm). finish_call E snapshot ret gas err evm)))"

definition evm_StaticCall ::
  "'s runner \<Rightarrow> 's evm_env \<Rightarrow> contract_ref \<Rightarrow> address \<Rightarrow> bytes \<Rightarrow> u64 \<Rightarrow> 's evm
     \<Rightarrow> ((bytes \<times> u64 \<times> vm_error option) \<times> 's evm) go" where
  "evm_StaticCall run E clr addr input gas evm =
     (if depth evm > unat CallCreateDepth then Ret (([], gas, Some ErrDepth), evm)
      else
      go_bind (db_get (db_Snapshot (db E)) evm) (\<lambda>(snapshot, evm).
      go_bind (db_do (db_AddBalance (db E) addr 0) evm) (\<lambda>evm.
      go_bind
        (case precompile E addr of
           Some p \<Rightarrow> go_map (\<lambda>r. (r, evm)) (RunPrecompiledContract (crypto E) p input gas)
         | None \<Rightarrow>
             let (contract, evm) = new_contract clr addr (Some 0) gas evm in
             go_bind (db_get (db_GetCodeHash (db E) addr) evm) (\<lambda>(h, evm).
             go_bind (db_get (db_GetCode (db E) addr) evm) (\<lambda>(code, evm).
             run_contract run (SetCallCode addr h code contract) input True evm)))
        (\<lambda>((ret, gas, err), evm). finish_call E snapshot ret gas err evm))))"

section \<open>Contract creation\<close>

text \<open>The checks on the code the constructor returned, and storing it: the error and the
  contract's gas afterwards.\<close>

definition store_code ::
  "'s evm_env \<Rightarrow> address \<Rightarrow> bytes \<Rightarrow> vm_error option \<Rightarrow> Contract \<Rightarrow> 's evm
     \<Rightarrow> (vm_error option \<times> Contract \<times> 's evm) go" where
  "store_code E address ret err contract evm =
     (let err = (if err = None \<and> length ret > MaxCodeSize then Some ErrMaxCodeSizeExceeded else err);
          err = (if err = None \<and> length ret \<ge> 1 \<and> ret ! 0 = 0xEF \<and> IsLondon (chainRules E)
                 then Some ErrInvalidCode else err)
      in if err = None then
           let createDataGas = word_of_nat (length ret) * CreateDataGas;
               (ok, contract) = UseGas createDataGas contract
           in if ok then go_bind (db_do (db_SetCode (db E) address ret) evm) (\<lambda>evm.
                  Ret (None, contract, evm))
              else Ret (Some ErrCodeStoreOutOfGas, contract, evm)
         else Ret (err, contract, evm))"

text \<open>The end of a creation: a failed one is reverted and its gas consumed.\<close>

definition end_create ::
  "'s evm_env \<Rightarrow> nat \<Rightarrow> address \<Rightarrow> bytes \<Rightarrow> vm_error option \<Rightarrow> Contract \<Rightarrow> 's evm
     \<Rightarrow> ((bytes \<times> address \<times> u64 \<times> vm_error option) \<times> 's evm) go" where
  "end_create E snapshot address ret err contract evm =
     (case err of None \<Rightarrow> Ret ((ret, address, Gas contract, err), evm)
      | Some e \<Rightarrow>
          if IsHomestead (chainRules E) \<or> e \<noteq> ErrCodeStoreOutOfGas then
            go_bind (db_do (db_RevertToSnapshot (db E) snapshot) evm) (\<lambda>evm.
            let contract = (if e \<noteq> ErrExecutionReverted then snd (UseGas (Gas contract) contract)
                            else contract)
            in Ret ((ret, address, Gas contract, err), evm))
          else Ret ((ret, address, Gas contract, err), evm))"

definition create_callee ::
  "'s runner \<Rightarrow> 's evm_env \<Rightarrow> contract_ref \<Rightarrow> codeAndHash \<Rightarrow> u64 \<Rightarrow> int \<Rightarrow> address \<Rightarrow> nat \<Rightarrow> 's evm
     \<Rightarrow> ((bytes \<times> address \<times> u64 \<times> vm_error option) \<times> 's evm) go" where
  "create_callee run E clr codeHash gas value address snapshot evm =
     (let (contract, evm) = new_contract clr address (Some value) gas evm in
      go_bind (run (SetCodeOptionalHash address codeHash contract) [] False evm)
        (\<lambda>((ret, err), contract, evm).
      go_bind (store_code E address ret err contract evm) (\<lambda>(err, contract, evm).
      end_create E snapshot address ret err contract evm)))"

definition evm_create ::
  "'s runner \<Rightarrow> 's evm_env \<Rightarrow> contract_ref \<Rightarrow> codeAndHash \<Rightarrow> u64 \<Rightarrow> int \<Rightarrow> address \<Rightarrow> 's evm
     \<Rightarrow> ((bytes \<times> address \<times> u64 \<times> vm_error option) \<times> 's evm) go" where
  "evm_create run E clr codeHash gas value address evm =
     (if depth evm > unat CallCreateDepth then Ret (([], 0, gas, Some ErrDepth), evm)
      else
      go_bind (db_get (CanTransfer (Context E) (ref_Address clr) value) evm) (\<lambda>(can, evm).
      if \<not> can then Ret (([], 0, gas, Some ErrInsufficientBalance), evm)
      else
      go_bind (db_get (db_GetNonce (db E) (ref_Address clr)) evm) (\<lambda>(nonce, evm).
      if nonce + 1 < nonce then Ret (([], 0, gas, Some ErrNonceUintOverflow), evm)
      else
      go_bind (db_do (db_SetNonce (db E) (ref_Address clr) (nonce + 1)) evm) (\<lambda>evm.
      go_bind (db_get (db_GetCodeHash (db E) address) evm) (\<lambda>(contractHash, evm).
      go_bind (db_get (db_GetNonce (db E) address) evm) (\<lambda>(n, evm).
      if n \<noteq> 0 \<or> contractHash \<noteq> 0 \<and> contractHash \<noteq> emptyCodeHash (crypto E)
      then Ret (([], 0, 0, Some ErrContractAddressCollision), evm)
      else
      go_bind (db_get (db_Snapshot (db E)) evm) (\<lambda>(snapshot, evm).
      go_bind (db_do (db_CreateAccount (db E) address) evm) (\<lambda>evm.
      go_bind (db_do (Transfer (Context E) (ref_Address clr) address value) evm) (\<lambda>evm.
      create_callee run E clr codeHash gas value address snapshot evm)))))))))"

definition evm_Create ::
  "'s runner \<Rightarrow> 's evm_env \<Rightarrow> contract_ref \<Rightarrow> bytes \<Rightarrow> u64 \<Rightarrow> int \<Rightarrow> 's evm
     \<Rightarrow> ((bytes \<times> address \<times> u64 \<times> vm_error option) \<times> 's evm) go" where
  "evm_Create run E clr code gas value evm =
     go_bind (db_get (db_GetNonce (db E) (ref_Address clr)) evm) (\<lambda>(nonce, evm).
     go_bind (CreateAddress (crypto E) (ref_Address clr) nonce) (\<lambda>contractAddr.
     evm_create run E clr \<lparr> ch_code = code, ch_hash = 0 \<rparr> gas value contractAddr evm))"

definition evm_Create2 ::
  "'s runner \<Rightarrow> 's evm_env \<Rightarrow> contract_ref \<Rightarrow> bytes \<Rightarrow> u64 \<Rightarrow> int \<Rightarrow> u256 \<Rightarrow> 's evm
     \<Rightarrow> ((bytes \<times> address \<times> u64 \<times> vm_error option) \<times> 's evm) go" where
  "evm_Create2 run E clr code gas endowment salt evm =
     (let (h, ch) = codeAndHash_Hash (crypto E) \<lparr> ch_code = code, ch_hash = 0 \<rparr>;
          contractAddr = CreateAddress2 (crypto E) (ref_Address clr) (u_Bytes32 (U E) salt) (hash_bytes h)
      in evm_create run E clr ch gas endowment contractAddr evm)"

end
