(* ===== verification/Evm_Instructions.thy ===== *)
theory Evm_Instructions
  imports Evm_Call
begin

text \<open>
  The instructions of the virtual machine: \<^verbatim>\<open>src/evm/instructions.go\<close> and the instructions that
  \<^verbatim>\<open>src/evm/eips.go\<close> adds. An instruction takes the interpreter's loop (for the call
  instructions), the environment, the program counter, the EVM and the scope, and returns
  the result bytes, an error, and the new program counter, EVM and scope.
\<close>

type_synonym 's exec_result = "((bytes \<times> vm_error option) \<times> u64 \<times> 's evm \<times> ScopeContext) go"

abbreviation ex_ok :: "u64 \<Rightarrow> 's evm \<Rightarrow> ScopeContext \<Rightarrow> 's exec_result" where
  "ex_ok pc evm sc \<equiv> Ret (([], None), pc, evm, sc)"

abbreviation ex_err :: "vm_error \<Rightarrow> u64 \<Rightarrow> 's evm \<Rightarrow> ScopeContext \<Rightarrow> 's exec_result" where
  "ex_err e pc evm sc \<equiv> Ret (([], Some e), pc, evm, sc)"

section \<open>Patterns\<close>

text \<open>Pop \<open>x\<close>, overwrite the new top \<open>y\<close>; overwrite the top; pop two, overwrite the top; push.\<close>

definition binop :: "(u256 \<Rightarrow> u256 \<Rightarrow> u256) \<Rightarrow> u64 \<Rightarrow> 's evm \<Rightarrow> ScopeContext \<Rightarrow> 's exec_result" where
  "binop f pc evm sc =
     go_bind (pop (sc_stack sc)) (\<lambda>(x, st). go_bind (peek st) (\<lambda>y.
     go_bind (poke (f x y) st) (\<lambda>st. ex_ok pc evm (sc\<lparr> sc_stack := st \<rparr>))))"

definition unop :: "(u256 \<Rightarrow> u256) \<Rightarrow> u64 \<Rightarrow> 's evm \<Rightarrow> ScopeContext \<Rightarrow> 's exec_result" where
  "unop f pc evm sc =
     go_bind (peek (sc_stack sc)) (\<lambda>x.
     go_bind (poke (f x) (sc_stack sc)) (\<lambda>st. ex_ok pc evm (sc\<lparr> sc_stack := st \<rparr>)))"

definition terop ::
  "(u256 \<Rightarrow> u256 \<Rightarrow> u256 \<Rightarrow> u256) \<Rightarrow> u64 \<Rightarrow> 's evm \<Rightarrow> ScopeContext \<Rightarrow> 's exec_result" where
  "terop f pc evm sc =
     go_bind (pop (sc_stack sc)) (\<lambda>(x, st). go_bind (pop st) (\<lambda>(y, st). go_bind (peek st) (\<lambda>z.
     go_bind (poke (f x y z) st) (\<lambda>st. ex_ok pc evm (sc\<lparr> sc_stack := st \<rparr>)))))"

definition pushop :: "u256 \<Rightarrow> u64 \<Rightarrow> 's evm \<Rightarrow> ScopeContext \<Rightarrow> 's exec_result" where
  "pushop v pc evm sc = ex_ok pc evm (sc\<lparr> sc_stack := push v (sc_stack sc) \<rparr>)"

definition of_cond :: "uint256_lib \<Rightarrow> bool \<Rightarrow> u256" where
  "of_cond u b = (if b then u_SetOne u else u_Clear u)"

section \<open>Arithmetic, comparison and bits\<close>

definition opAdd :: "'s executionFunc" where "opAdd run E = binop (u_Add (U E))"
definition opSub :: "'s executionFunc" where "opSub run E = binop (u_Sub (U E))"
definition opMul :: "'s executionFunc" where "opMul run E = binop (u_Mul (U E))"
definition opDiv :: "'s executionFunc" where "opDiv run E = binop (u_Div (U E))"
definition opSdiv :: "'s executionFunc" where "opSdiv run E = binop (u_SDiv (U E))"
definition opMod :: "'s executionFunc" where "opMod run E = binop (u_Mod (U E))"
definition opSmod :: "'s executionFunc" where "opSmod run E = binop (u_SMod (U E))"
definition opExp :: "'s executionFunc" where "opExp run E = binop (u_Exp (U E))"
definition opSignExtend :: "'s executionFunc" where
  "opSignExtend run E = binop (\<lambda>back num. u_ExtendSign (U E) num back)"
definition opNot :: "'s executionFunc" where "opNot run E = unop (u_Not (U E))"

definition opLt :: "'s executionFunc" where
  "opLt run E = binop (\<lambda>x y. of_cond (U E) (u_Lt (U E) x y))"
definition opGt :: "'s executionFunc" where
  "opGt run E = binop (\<lambda>x y. of_cond (U E) (u_Gt (U E) x y))"
definition opSlt :: "'s executionFunc" where
  "opSlt run E = binop (\<lambda>x y. of_cond (U E) (u_Slt (U E) x y))"
definition opSgt :: "'s executionFunc" where
  "opSgt run E = binop (\<lambda>x y. of_cond (U E) (u_Sgt (U E) x y))"
definition opEq :: "'s executionFunc" where
  "opEq run E = binop (\<lambda>x y. of_cond (U E) (u_Eq (U E) x y))"
definition opIszero :: "'s executionFunc" where
  "opIszero run E = unop (\<lambda>x. of_cond (U E) (u_IsZero (U E) x))"

definition opAnd :: "'s executionFunc" where "opAnd run E = binop (u_And (U E))"
definition opOr :: "'s executionFunc" where "opOr run E = binop (u_Or (U E))"
definition opXor :: "'s executionFunc" where "opXor run E = binop (u_Xor (U E))"
definition opByte :: "'s executionFunc" where
  "opByte run E = binop (\<lambda>th val. u_Byte (U E) val th)"
definition opAddmod :: "'s executionFunc" where
  "opAddmod run E = terop (\<lambda>x y z. if u_IsZero (U E) z then u_Clear (U E) else u_AddMod (U E) x y z)"
definition opMulmod :: "'s executionFunc" where
  "opMulmod run E = terop (\<lambda>x y z. u_MulMod (U E) x y z)"

definition opSHL :: "'s executionFunc" where
  "opSHL run E = binop (\<lambda>shift value.
     if u_LtUint64 (U E) shift 256 then u_Lsh (U E) value (u_Uint64 (U E) shift) else u_Clear (U E))"
definition opSHR :: "'s executionFunc" where
  "opSHR run E = binop (\<lambda>shift value.
     if u_LtUint64 (U E) shift 256 then u_Rsh (U E) value (u_Uint64 (U E) shift) else u_Clear (U E))"
definition opSAR :: "'s executionFunc" where
  "opSAR run E = binop (\<lambda>shift value.
     if u_GtUint64 (U E) shift 256
     then if u_Sign (U E) value \<ge> 0 then u_Clear (U E) else u_SetAllOne (U E)
     else u_SRsh (U E) value (u_Uint64 (U E) shift))"

section \<open>Hashing and the environment\<close>

definition opKeccak256 :: "'s executionFunc" where
  "opKeccak256 run E pc evm sc =
     go_bind (pop (sc_stack sc)) (\<lambda>(offset, st). go_bind (peek st) (\<lambda>sz.
     go_bind (GetPtr (u_Uint64 (U E) offset) (u_Uint64 (U E) sz) (sc_mem sc)) (\<lambda>data.
     let hasherBuf = keccak256 (crypto E) data in
     go_bind (if EnablePreimageRecording E then db_do (db_AddPreimage (db E) hasherBuf data) evm
              else Ret evm) (\<lambda>evm.
     go_bind (poke (u_SetBytes (U E) (hash_bytes hasherBuf)) st) (\<lambda>st.
     ex_ok pc evm (sc\<lparr> sc_stack := st \<rparr>))))))"

definition opAddress :: "'s executionFunc" where
  "opAddress run E pc evm sc =
     pushop (u_SetBytes (U E) (address_bytes (self (sc_contract sc)))) pc evm sc"

definition opBalance :: "'s executionFunc" where
  "opBalance run E pc evm sc =
     go_bind (peek (sc_stack sc)) (\<lambda>slot.
     go_bind (db_get (db_GetBalance (db E) (u_Bytes20 (U E) slot)) evm) (\<lambda>(balance, evm).
     go_bind (poke (u_FromBig (U E) balance) (sc_stack sc)) (\<lambda>st.
     ex_ok pc evm (sc\<lparr> sc_stack := st \<rparr>))))"

definition opOrigin :: "'s executionFunc" where
  "opOrigin run E = pushop (u_SetBytes (U E) (address_bytes (Origin (TxCtx E))))"

definition opCaller :: "'s executionFunc" where
  "opCaller run E pc evm sc =
     pushop (u_SetBytes (U E) (address_bytes (CallerAddress (sc_contract sc)))) pc evm sc"

definition opCallValue :: "'s executionFunc" where
  "opCallValue run E pc evm sc = (case cvalue (sc_contract sc) of
     None \<Rightarrow> Panic RuntimeError
   | Some v \<Rightarrow> pushop (u_FromBig (U E) v) pc evm sc)"

definition opCallDataLoad :: "'s executionFunc" where
  "opCallDataLoad run E pc evm sc =
     go_bind (peek (sc_stack sc)) (\<lambda>x.
     let (offset, overflow) = u_Uint64WithOverflow (U E) x in
     if \<not> overflow then
       go_bind (getData (Input (sc_contract sc)) offset 32) (\<lambda>data.
       go_bind (poke (u_SetBytes (U E) data) (sc_stack sc)) (\<lambda>st.
       ex_ok pc evm (sc\<lparr> sc_stack := st \<rparr>)))
     else
       go_bind (poke (u_Clear (U E)) (sc_stack sc)) (\<lambda>st.
       ex_ok pc evm (sc\<lparr> sc_stack := st \<rparr>)))"

definition opCallDataSize :: "'s executionFunc" where
  "opCallDataSize run E pc evm sc =
     pushop (u_SetUint64 (U E) (word_of_nat (length (Input (sc_contract sc))))) pc evm sc"

text \<open>The copy instructions: the offset into the data saturates, the rest was checked when the
  gas was calculated.\<close>

definition copy_data ::
  "'s evm_env \<Rightarrow> bytes \<Rightarrow> u256 \<Rightarrow> u256 \<Rightarrow> u256 \<Rightarrow> u64 \<Rightarrow> 's evm \<Rightarrow> ScopeContext \<Rightarrow> 's exec_result" where
  "copy_data E src memOffset dataOffset len pc evm sc =
     (let (dataOffset64, overflow) = u_Uint64WithOverflow (U E) dataOffset;
          dataOffset64 = (if overflow then 0xffffffffffffffff else dataOffset64);
          memOffset64 = u_Uint64 (U E) memOffset;
          length64 = u_Uint64 (U E) len
      in go_bind (getData src dataOffset64 length64) (\<lambda>data.
         go_bind (Memory_Set memOffset64 length64 data (sc_mem sc)) (\<lambda>mem.
         ex_ok pc evm (sc\<lparr> sc_mem := mem \<rparr>))))"

definition opCallDataCopy :: "'s executionFunc" where
  "opCallDataCopy run E pc evm sc =
     go_bind (pop (sc_stack sc)) (\<lambda>(memOffset, st). go_bind (pop st) (\<lambda>(dataOffset, st).
     go_bind (pop st) (\<lambda>(len, st).
     copy_data E (Input (sc_contract sc)) memOffset dataOffset len pc evm (sc\<lparr> sc_stack := st \<rparr>))))"

definition opReturnDataSize :: "'s executionFunc" where
  "opReturnDataSize run E pc evm sc =
     pushop (u_SetUint64 (U E) (word_of_nat (length (returnData evm)))) pc evm sc"

definition opReturnDataCopy :: "'s executionFunc" where
  "opReturnDataCopy run E pc evm sc =
     go_bind (pop (sc_stack sc)) (\<lambda>(memOffset, st). go_bind (pop st) (\<lambda>(dataOffset, st).
     go_bind (pop st) (\<lambda>(len, st).
     let sc = sc\<lparr> sc_stack := st \<rparr>; (offset64, overflow) = u_Uint64WithOverflow (U E) dataOffset in
     if overflow then ex_err ErrReturnDataOutOfBounds pc evm sc
     else
       let (end64, overflow) = u_Uint64WithOverflow (U E) (u_Add (U E) dataOffset len) in
       if overflow \<or> word_of_nat (length (returnData evm)) < end64
       then ex_err ErrReturnDataOutOfBounds pc evm sc
       else
         go_bind (slice_go (returnData evm) (unat offset64) (unat end64)) (\<lambda>data.
         go_bind (Memory_Set (u_Uint64 (U E) memOffset) (u_Uint64 (U E) len) data (sc_mem sc)) (\<lambda>mem.
         ex_ok pc evm (sc\<lparr> sc_mem := mem \<rparr>))))))"

definition opExtCodeSize :: "'s executionFunc" where
  "opExtCodeSize run E pc evm sc =
     go_bind (peek (sc_stack sc)) (\<lambda>slot.
     go_bind (db_get (db_GetCodeSize (db E) (u_Bytes20 (U E) slot)) evm) (\<lambda>(n, evm).
     go_bind (poke (u_SetUint64 (U E) (word_of_nat n)) (sc_stack sc)) (\<lambda>st.
     ex_ok pc evm (sc\<lparr> sc_stack := st \<rparr>))))"

definition opCodeSize :: "'s executionFunc" where
  "opCodeSize run E pc evm sc =
     pushop (u_SetUint64 (U E) (word_of_nat (length (Code (sc_contract sc))))) pc evm sc"

definition opCodeCopy :: "'s executionFunc" where
  "opCodeCopy run E pc evm sc =
     go_bind (pop (sc_stack sc)) (\<lambda>(memOffset, st). go_bind (pop st) (\<lambda>(codeOffset, st).
     go_bind (pop st) (\<lambda>(len, st).
     copy_data E (Code (sc_contract sc)) memOffset codeOffset len pc evm (sc\<lparr> sc_stack := st \<rparr>))))"

definition opExtCodeCopy :: "'s executionFunc" where
  "opExtCodeCopy run E pc evm sc =
     go_bind (pop (sc_stack sc)) (\<lambda>(a, st). go_bind (pop st) (\<lambda>(memOffset, st).
     go_bind (pop st) (\<lambda>(codeOffset, st). go_bind (pop st) (\<lambda>(len, st).
     go_bind (db_get (db_GetCode (db E) (u_Bytes20 (U E) a)) evm) (\<lambda>(code, evm).
     copy_data E code memOffset codeOffset len pc evm (sc\<lparr> sc_stack := st \<rparr>))))))"

definition opExtCodeHash :: "'s executionFunc" where
  "opExtCodeHash run E pc evm sc =
     go_bind (peek (sc_stack sc)) (\<lambda>slot.
     let address = u_Bytes20 (U E) slot in
     go_bind (db_get (db_Empty (db E) address) evm) (\<lambda>(empty, evm).
     if empty then
       go_bind (poke (u_Clear (U E)) (sc_stack sc)) (\<lambda>st. ex_ok pc evm (sc\<lparr> sc_stack := st \<rparr>))
     else
       go_bind (db_get (db_GetCodeHash (db E) address) evm) (\<lambda>(h, evm).
       go_bind (poke (u_SetBytes (U E) (hash_bytes h)) (sc_stack sc)) (\<lambda>st.
       ex_ok pc evm (sc\<lparr> sc_stack := st \<rparr>)))))"

definition opGasprice :: "'s executionFunc" where
  "opGasprice run E = pushop (u_FromBig (U E) (GasPrice (TxCtx E)))"

text \<open>\<^verbatim>\<open>big.Int.Uint64\<close> is the low 64 bits of the absolute value.\<close>

definition big_Uint64 :: "int \<Rightarrow> u64" where
  "big_Uint64 i = word_of_nat (nat \<bar>i\<bar>)"

definition opBlockhash :: "'s executionFunc" where
  "opBlockhash run E = unop (\<lambda>num.
     let (num64, overflow) = u_Uint64WithOverflow (U E) num in
     if overflow then u_Clear (U E)
     else
       let upper = big_Uint64 (BlockNumber (Context E));
           lower = (if upper < 257 then 0 else upper - 256)
       in if num64 \<ge> lower \<and> num64 < upper
          then u_SetBytes (U E) (hash_bytes (GetHash (Context E) num64))
          else u_Clear (U E))"

definition opCoinbase :: "'s executionFunc" where
  "opCoinbase run E = pushop (u_SetBytes (U E) (address_bytes (Coinbase (Context E))))"
definition opTimestamp :: "'s executionFunc" where
  "opTimestamp run E = pushop (u_FromBig (U E) (Time (Context E)))"
definition opNumber :: "'s executionFunc" where
  "opNumber run E = pushop (u_FromBig (U E) (BlockNumber (Context E)))"
definition opDifficulty :: "'s executionFunc" where
  "opDifficulty run E = pushop (u_FromBig (U E) (Difficulty (Context E)))"
definition opRandom :: "'s executionFunc" where
  "opRandom run E pc evm sc = (case Random (Context E) of
     None \<Rightarrow> Panic RuntimeError
   | Some r \<Rightarrow> pushop (u_SetBytes (U E) (hash_bytes r)) pc evm sc)"
definition opGasLimit :: "'s executionFunc" where
  "opGasLimit run E = pushop (u_SetUint64 (U E) (GasLimit (Context E)))"
definition opSelfBalance :: "'s executionFunc" where
  "opSelfBalance run E pc evm sc =
     go_bind (db_get (db_GetBalance (db E) (self (sc_contract sc))) evm) (\<lambda>(balance, evm).
     pushop (u_FromBig (U E) balance) pc evm sc)"
definition opChainID :: "'s executionFunc" where
  "opChainID run E pc evm sc = (case chainID E of
     None \<Rightarrow> Panic RuntimeError
   | Some i \<Rightarrow> pushop (u_FromBig (U E) i) pc evm sc)"
definition opBaseFee :: "'s executionFunc" where
  "opBaseFee run E pc evm sc = (case BaseFee (Context E) of
     None \<Rightarrow> Panic RuntimeError
   | Some fee \<Rightarrow> pushop (u_FromBig (U E) fee) pc evm sc)"
definition opPush0 :: "'s executionFunc" where
  "opPush0 run E = pushop (u_Clear (U E))"

section \<open>Stack, memory, storage and control flow\<close>

definition opPop :: "'s executionFunc" where
  "opPop run E pc evm sc =
     go_bind (pop (sc_stack sc)) (\<lambda>(_, st). ex_ok pc evm (sc\<lparr> sc_stack := st \<rparr>))"

definition opMload :: "'s executionFunc" where
  "opMload run E pc evm sc =
     go_bind (peek (sc_stack sc)) (\<lambda>v.
     go_bind (GetPtr (u_Uint64 (U E) v) 32 (sc_mem sc)) (\<lambda>data.
     go_bind (poke (u_SetBytes (U E) data) (sc_stack sc)) (\<lambda>st.
     ex_ok pc evm (sc\<lparr> sc_stack := st \<rparr>))))"

definition opMstore :: "'s executionFunc" where
  "opMstore run E pc evm sc =
     go_bind (pop (sc_stack sc)) (\<lambda>(mStart, st). go_bind (pop st) (\<lambda>(val, st).
     go_bind (Set32 (U E) (u_Uint64 (U E) mStart) val (sc_mem sc)) (\<lambda>mem.
     ex_ok pc evm (sc\<lparr> sc_stack := st, sc_mem := mem \<rparr>))))"

definition opMstore8 :: "'s executionFunc" where
  "opMstore8 run E pc evm sc =
     go_bind (pop (sc_stack sc)) (\<lambda>(off, st). go_bind (pop st) (\<lambda>(val, st).
     go_bind (store_go (store (sc_mem sc)) (unat (u_Uint64 (U E) off)) (ucast (u_Uint64 (U E) val)))
       (\<lambda>bs. ex_ok pc evm (sc\<lparr> sc_stack := st, sc_mem := (sc_mem sc)\<lparr> store := bs \<rparr> \<rparr>))))"

definition opSload :: "'s executionFunc" where
  "opSload run E pc evm sc =
     go_bind (peek (sc_stack sc)) (\<lambda>loc.
     go_bind (db_get (db_GetState (db E) (self (sc_contract sc)) (u_Bytes32 (U E) loc)) evm)
       (\<lambda>(val, evm).
     go_bind (poke (u_SetBytes (U E) (hash_bytes val)) (sc_stack sc)) (\<lambda>st.
     ex_ok pc evm (sc\<lparr> sc_stack := st \<rparr>))))"

definition opSstore :: "'s executionFunc" where
  "opSstore run E pc evm sc =
     (if readOnly evm then ex_err ErrWriteProtection pc evm sc
      else
        go_bind (pop (sc_stack sc)) (\<lambda>(loc, st). go_bind (pop st) (\<lambda>(val, st).
        go_bind (db_do (db_SetState (db E) (self (sc_contract sc)) (u_Bytes32 (U E) loc)
          (u_Bytes32 (U E) val)) evm) (\<lambda>evm.
        ex_ok pc evm (sc\<lparr> sc_stack := st \<rparr>)))))"

text \<open>\<^verbatim>\<open>atomic.LoadInt32(&evm.abort) != 0\<close>.\<close>

definition load_abort :: "'s evm_env \<Rightarrow> 's evm \<Rightarrow> bool \<times> 's evm" where
  "load_abort E evm = (abort_at E (abort_loads evm), evm\<lparr> abort_loads := Suc (abort_loads evm) \<rparr>)"

text \<open>The jump itself; the interpreter's loop increments the program counter afterwards.\<close>

definition jump_to :: "'s evm_env \<Rightarrow> u256 \<Rightarrow> u64 \<Rightarrow> 's evm \<Rightarrow> ScopeContext \<Rightarrow> 's exec_result" where
  "jump_to E pos pc evm sc =
     go_bind (validJumpdest (U E) (sc_contract sc) (jumpdests evm) pos) (\<lambda>(ok, contract, jds).
     let sc = sc\<lparr> sc_contract := contract \<rparr>; evm = evm\<lparr> jumpdests := jds \<rparr> in
     if \<not> ok then ex_err ErrInvalidJump pc evm sc
     else ex_ok (u_Uint64 (U E) pos - 1) evm sc)"

definition opJump :: "'s executionFunc" where
  "opJump run E pc evm sc =
     (let (aborted, evm) = load_abort E evm in
      if aborted then ex_err errStopToken pc evm sc
      else
        go_bind (pop (sc_stack sc)) (\<lambda>(pos, st).
        jump_to E pos pc evm (sc\<lparr> sc_stack := st \<rparr>)))"

definition opJumpi :: "'s executionFunc" where
  "opJumpi run E pc evm sc =
     (let (aborted, evm) = load_abort E evm in
      if aborted then ex_err errStopToken pc evm sc
      else
        go_bind (pop (sc_stack sc)) (\<lambda>(pos, st). go_bind (pop st) (\<lambda>(cond, st).
        let sc = sc\<lparr> sc_stack := st \<rparr> in
        if \<not> u_IsZero (U E) cond then jump_to E pos pc evm sc
        else ex_ok pc evm sc)))"

definition opJumpdest :: "'s executionFunc" where
  "opJumpdest run E pc evm sc = ex_ok pc evm sc"

definition opPc :: "'s executionFunc" where
  "opPc run E pc evm sc = pushop (u_SetUint64 (U E) pc) pc evm sc"

definition opMsize :: "'s executionFunc" where
  "opMsize run E pc evm sc =
     pushop (u_SetUint64 (U E) (word_of_nat (Memory_Len (sc_mem sc)))) pc evm sc"

definition opGas :: "'s executionFunc" where
  "opGas run E pc evm sc = pushop (u_SetUint64 (U E) (Gas (sc_contract sc))) pc evm sc"

section \<open>Creating and calling contracts\<close>

definition use_gas :: "u64 \<Rightarrow> ScopeContext \<Rightarrow> ScopeContext" where
  "use_gas g sc = sc\<lparr> sc_contract := snd (UseGas g (sc_contract sc)) \<rparr>"

definition add_gas :: "u64 \<Rightarrow> ScopeContext \<Rightarrow> ScopeContext" where
  "add_gas g sc = sc\<lparr> sc_contract := (sc_contract sc)\<lparr> Gas := Gas (sc_contract sc) + g \<rparr> \<rparr>"

text \<open>The return data buffer after a creation: the data of a revert, cleared otherwise.\<close>

definition finish_create ::
  "bytes \<Rightarrow> vm_error option \<Rightarrow> u64 \<Rightarrow> 's evm \<Rightarrow> ScopeContext \<Rightarrow> 's exec_result" where
  "finish_create res suberr pc evm sc =
     (if suberr = Some ErrExecutionReverted
      then Ret ((res, None), pc, evm\<lparr> returnData := res \<rparr>, sc)
      else ex_ok pc (evm\<lparr> returnData := [] \<rparr>) sc)"

definition opCreate :: "'s executionFunc" where
  "opCreate run E pc evm sc =
     (if readOnly evm then ex_err ErrWriteProtection pc evm sc
      else
        go_bind (pop (sc_stack sc)) (\<lambda>(value, st). go_bind (pop st) (\<lambda>(offset, st).
        go_bind (pop st) (\<lambda>(sz, st).
        go_bind (GetCopy (u_Uint64 (U E) offset) (u_Uint64 (U E) sz) (sc_mem sc)) (\<lambda>input.
        let gas = Gas (sc_contract sc);
            gas = (if IsEIP150 (chainRules E) then gas - gas div 64 else gas);
            sc = use_gas gas (sc\<lparr> sc_stack := st \<rparr>);
            bigVal = (if \<not> u_IsZero (U E) value then u_ToBig (U E) value else 0)
        in
        go_bind (evm_Create run E (contract_as_ref (sc_contract sc)) input gas bigVal evm)
          (\<lambda>((res, addr, returnGas, suberr), evm).
        let stackvalue =
              (if IsHomestead (chainRules E) \<and> suberr = Some ErrCodeStoreOutOfGas then u_Clear (U E)
               else if suberr \<noteq> None \<and> suberr \<noteq> Some ErrCodeStoreOutOfGas then u_Clear (U E)
               else u_SetBytes (U E) (address_bytes addr));
            sc = add_gas returnGas (sc\<lparr> sc_stack := push stackvalue (sc_stack sc) \<rparr>)
        in finish_create res suberr pc evm sc))))))"

definition opCreate2 :: "'s executionFunc" where
  "opCreate2 run E pc evm sc =
     (if readOnly evm then ex_err ErrWriteProtection pc evm sc
      else
        go_bind (pop (sc_stack sc)) (\<lambda>(endowment, st). go_bind (pop st) (\<lambda>(offset, st).
        go_bind (pop st) (\<lambda>(sz, st). go_bind (pop st) (\<lambda>(salt, st).
        go_bind (GetCopy (u_Uint64 (U E) offset) (u_Uint64 (U E) sz) (sc_mem sc)) (\<lambda>input.
        let gas = Gas (sc_contract sc);
            gas = gas - gas div 64;
            sc = use_gas gas (sc\<lparr> sc_stack := st \<rparr>);
            bigEndowment = (if \<not> u_IsZero (U E) endowment then u_ToBig (U E) endowment else 0)
        in
        go_bind (evm_Create2 run E (contract_as_ref (sc_contract sc)) input gas bigEndowment salt evm)
          (\<lambda>((res, addr, returnGas, suberr), evm).
        let stackvalue =
              (if suberr \<noteq> None then u_Clear (U E) else u_SetBytes (U E) (address_bytes addr));
            sc = add_gas returnGas (sc\<lparr> sc_stack := push stackvalue (sc_stack sc) \<rparr>)
        in finish_create res suberr pc evm sc)))))))"

text \<open>The end of the four call instructions: the success flag on the stack, the returned data
  in memory (unless the callee failed with anything but a revert), the gas returned to the
  contract and the return data buffer.\<close>

definition finish_opcall ::
  "'s evm_env \<Rightarrow> u256 \<Rightarrow> u256 \<Rightarrow> bytes \<times> u64 \<times> vm_error option \<Rightarrow> u64 \<Rightarrow> 's evm \<Rightarrow> ScopeContext
     \<Rightarrow> 's exec_result" where
  "finish_opcall E retOffset retSize r pc evm sc =
     (case r of (ret, returnGas, err) \<Rightarrow>
      let temp = (if err \<noteq> None then u_Clear (U E) else u_SetOne (U E));
          sc = sc\<lparr> sc_stack := push temp (sc_stack sc) \<rparr>
      in go_bind (if err = None \<or> err = Some ErrExecutionReverted
                  then Memory_Set (u_Uint64 (U E) retOffset) (u_Uint64 (U E) retSize) ret (sc_mem sc)
                  else Ret (sc_mem sc)) (\<lambda>mem.
         Ret ((ret, None), pc, evm\<lparr> returnData := ret \<rparr>, add_gas returnGas (sc\<lparr> sc_mem := mem \<rparr>))))"

definition opCall :: "'s executionFunc" where
  "opCall run E pc evm sc =
     go_bind (pop (sc_stack sc)) (\<lambda>(_, st).
     let gas = callGasTemp evm in
     go_bind (pop st) (\<lambda>(addr, st). go_bind (pop st) (\<lambda>(value, st).
     go_bind (pop st) (\<lambda>(inOffset, st). go_bind (pop st) (\<lambda>(inSize, st).
     go_bind (pop st) (\<lambda>(retOffset, st). go_bind (pop st) (\<lambda>(retSize, st).
     go_bind (GetPtr (u_Uint64 (U E) inOffset) (u_Uint64 (U E) inSize) (sc_mem sc)) (\<lambda>args.
     let sc = sc\<lparr> sc_stack := st \<rparr> in
     if readOnly evm \<and> \<not> u_IsZero (U E) value then ex_err ErrWriteProtection pc evm sc
     else
       let (gas, bigVal) = (if \<not> u_IsZero (U E) value then (gas + CallStipend, u_ToBig (U E) value)
                            else (gas, 0)) in
       go_bind (evm_Call run E (contract_as_ref (sc_contract sc)) (u_Bytes20 (U E) addr) args gas
         bigVal evm) (\<lambda>(r, evm).
       finish_opcall E retOffset retSize r pc evm sc)))))))))"

definition opCallCode :: "'s executionFunc" where
  "opCallCode run E pc evm sc =
     go_bind (pop (sc_stack sc)) (\<lambda>(_, st).
     let gas = callGasTemp evm in
     go_bind (pop st) (\<lambda>(addr, st). go_bind (pop st) (\<lambda>(value, st).
     go_bind (pop st) (\<lambda>(inOffset, st). go_bind (pop st) (\<lambda>(inSize, st).
     go_bind (pop st) (\<lambda>(retOffset, st). go_bind (pop st) (\<lambda>(retSize, st).
     go_bind (GetPtr (u_Uint64 (U E) inOffset) (u_Uint64 (U E) inSize) (sc_mem sc)) (\<lambda>args.
     let sc = sc\<lparr> sc_stack := st \<rparr>;
         (gas, bigVal) = (if \<not> u_IsZero (U E) value then (gas + CallStipend, u_ToBig (U E) value)
                          else (gas, 0)) in
     go_bind (evm_CallCode run E (contract_as_ref (sc_contract sc)) (u_Bytes20 (U E) addr) args gas
       bigVal evm) (\<lambda>(r, evm).
     finish_opcall E retOffset retSize r pc evm sc)))))))))"

definition opDelegateCall :: "'s executionFunc" where
  "opDelegateCall run E pc evm sc =
     go_bind (pop (sc_stack sc)) (\<lambda>(_, st).
     let gas = callGasTemp evm in
     go_bind (pop st) (\<lambda>(addr, st).
     go_bind (pop st) (\<lambda>(inOffset, st). go_bind (pop st) (\<lambda>(inSize, st).
     go_bind (pop st) (\<lambda>(retOffset, st). go_bind (pop st) (\<lambda>(retSize, st).
     go_bind (GetPtr (u_Uint64 (U E) inOffset) (u_Uint64 (U E) inSize) (sc_mem sc)) (\<lambda>args.
     let sc = sc\<lparr> sc_stack := st \<rparr> in
     go_bind (evm_DelegateCall run E (contract_as_ref (sc_contract sc)) (u_Bytes20 (U E) addr) args
       gas evm) (\<lambda>(r, evm).
     finish_opcall E retOffset retSize r pc evm sc))))))))"

definition opStaticCall :: "'s executionFunc" where
  "opStaticCall run E pc evm sc =
     go_bind (pop (sc_stack sc)) (\<lambda>(_, st).
     let gas = callGasTemp evm in
     go_bind (pop st) (\<lambda>(addr, st).
     go_bind (pop st) (\<lambda>(inOffset, st). go_bind (pop st) (\<lambda>(inSize, st).
     go_bind (pop st) (\<lambda>(retOffset, st). go_bind (pop st) (\<lambda>(retSize, st).
     go_bind (GetPtr (u_Uint64 (U E) inOffset) (u_Uint64 (U E) inSize) (sc_mem sc)) (\<lambda>args.
     let sc = sc\<lparr> sc_stack := st \<rparr> in
     go_bind (evm_StaticCall run E (contract_as_ref (sc_contract sc)) (u_Bytes20 (U E) addr) args
       gas evm) (\<lambda>(r, evm).
     finish_opcall E retOffset retSize r pc evm sc))))))))"

section \<open>Ending a frame\<close>

definition opReturn :: "'s executionFunc" where
  "opReturn run E pc evm sc =
     go_bind (pop (sc_stack sc)) (\<lambda>(offset, st). go_bind (pop st) (\<lambda>(sz, st).
     go_bind (GetPtr (u_Uint64 (U E) offset) (u_Uint64 (U E) sz) (sc_mem sc)) (\<lambda>ret.
     Ret ((ret, Some errStopToken), pc, evm, sc\<lparr> sc_stack := st \<rparr>))))"

definition opRevert :: "'s executionFunc" where
  "opRevert run E pc evm sc =
     go_bind (pop (sc_stack sc)) (\<lambda>(offset, st). go_bind (pop st) (\<lambda>(sz, st).
     go_bind (GetPtr (u_Uint64 (U E) offset) (u_Uint64 (U E) sz) (sc_mem sc)) (\<lambda>ret.
     Ret ((ret, Some ErrExecutionReverted), pc, evm\<lparr> returnData := ret \<rparr>, sc\<lparr> sc_stack := st \<rparr>))))"

definition opUndefined :: "'s executionFunc" where
  "opUndefined run E pc evm sc =
     go_bind (index_go (Code (sc_contract sc)) (unat pc)) (\<lambda>op.
     ex_err (ErrInvalidOpCode op) pc evm sc)"

definition opStop :: "'s executionFunc" where
  "opStop run E pc evm sc = ex_err errStopToken pc evm sc"

definition opSelfdestruct :: "'s executionFunc" where
  "opSelfdestruct run E pc evm sc =
     (if readOnly evm then ex_err ErrWriteProtection pc evm sc
      else
        go_bind (pop (sc_stack sc)) (\<lambda>(beneficiary, st).
        let sc = sc\<lparr> sc_stack := st \<rparr> in
        go_bind (db_get (db_GetBalance (db E) (self (sc_contract sc))) evm) (\<lambda>(balance, evm).
        go_bind (db_do (db_AddBalance (db E) (u_Bytes20 (U E) beneficiary) balance) evm) (\<lambda>evm.
        go_bind (db_get (db_Suicide (db E) (self (sc_contract sc))) evm) (\<lambda>(_, evm).
        ex_err errStopToken pc evm sc)))))"

section \<open>Logs, pushes, duplications and swaps\<close>

primrec pop_topics :: "uint256_lib \<Rightarrow> nat \<Rightarrow> stack \<Rightarrow> (hash list \<times> stack) go" where
  "pop_topics u 0 st = Ret ([], st)"
| "pop_topics u (Suc n) st =
     go_bind (pop st) (\<lambda>(addr, st).
     go_bind (pop_topics u n st) (\<lambda>(topics, st). Ret (u_Bytes32 u addr # topics, st)))"

definition makeLog :: "nat \<Rightarrow> 's executionFunc" where
  "makeLog n run E pc evm sc =
     (if readOnly evm then ex_err ErrWriteProtection pc evm sc
      else
        go_bind (pop (sc_stack sc)) (\<lambda>(mStart, st). go_bind (pop st) (\<lambda>(mSize, st).
        go_bind (pop_topics (U E) n st) (\<lambda>(topics, st).
        go_bind (GetCopy (u_Uint64 (U E) mStart) (u_Uint64 (U E) mSize) (sc_mem sc)) (\<lambda>d.
        go_bind (db_do (db_AddLog (db E)
          \<lparr> log_Address = self (sc_contract sc), log_Topics = topics, log_Data = d,
            log_BlockNumber = big_Uint64 (BlockNumber (Context E)),
            log_TxHash = 0, log_TxIndex = 0, log_Index = 0 \<rparr>) evm) (\<lambda>evm.
        ex_ok pc evm (sc\<lparr> sc_stack := st \<rparr>)))))))"

definition opPush1 :: "'s executionFunc" where
  "opPush1 run E pc evm sc =
     (let codeLen = word_of_nat (length (Code (sc_contract sc))); pc = pc + 1 in
      if pc < codeLen then
        go_bind (index_go (Code (sc_contract sc)) (unat pc)) (\<lambda>b.
        pushop (u_SetUint64 (U E) (ucast b)) pc evm sc)
      else pushop (u_Clear (U E)) pc evm sc)"

text \<open>\<^verbatim>\<open>int(*pc+1)\<close> reads the program counter as a signed number.\<close>

definition makePush :: "u64 \<Rightarrow> nat \<Rightarrow> 's executionFunc" where
  "makePush sz pushByteSize run E pc evm sc =
     (let codeLen = int (length (Code (sc_contract sc)));
          startMin = (if sint (pc + 1) < codeLen then sint (pc + 1) else codeLen);
          endMin = (if startMin + int pushByteSize < codeLen then startMin + int pushByteSize
                    else codeLen)
      in go_bind (slice_int (Code (sc_contract sc)) startMin endMin) (\<lambda>b.
         pushop (u_SetBytes (U E) (RightPadBytes b (int pushByteSize))) (pc + sz) evm sc))"

definition makeDup :: "nat \<Rightarrow> 's executionFunc" where
  "makeDup sz run E pc evm sc =
     go_bind (dup sz (sc_stack sc)) (\<lambda>st. ex_ok pc evm (sc\<lparr> sc_stack := st \<rparr>))"

definition makeSwap :: "nat \<Rightarrow> 's executionFunc" where
  "makeSwap sz run E pc evm sc =
     go_bind (swap (sz + 1) (sc_stack sc)) (\<lambda>st. ex_ok pc evm (sc\<lparr> sc_stack := st \<rparr>))"

end
