(* ===== verification/Evm_Jump_Table.thy ===== *)
theory Evm_Jump_Table
  imports Evm_Instructions
begin

text \<open>
  The instruction tables: \<^verbatim>\<open>src/evm/opcodes.go\<close>, \<^verbatim>\<open>src/evm/jump_table.go\<close>, the activation functions of
  \<^verbatim>\<open>src/evm/eips.go\<close> and the choice of a table by \<^verbatim>\<open>NewEVMInterpreter\<close>
  (\<^verbatim>\<open>src/evm/interpreter.go\<close>).

  \<^verbatim>\<open>JumpTable\<close> is an array of 256 pointers to operations: a function from opcodes, with
  \<^const>\<open>None\<close> for \<^verbatim>\<open>nil\<close>. The functions that build a table call each other and start from fresh
  operations, so there the pointers are modelled by what they point to. \<^verbatim>\<open>NewEVMInterpreter\<close> copies
  the array of a package-level table, not the operations, so there the pointers are explicit
  (\<open>opref\<close>). The statements of the activation functions are values (\<open>edit\<close>), which both views
  execute.
\<close>

section \<open>Opcodes\<close>

abbreviation ADD :: u8 where "ADD \<equiv> 0x01"
abbreviation MUL :: u8 where "MUL \<equiv> 0x02"
abbreviation SUB :: u8 where "SUB \<equiv> 0x03"
abbreviation DIV :: u8 where "DIV \<equiv> 0x04"
abbreviation SDIV :: u8 where "SDIV \<equiv> 0x05"
abbreviation MOD :: u8 where "MOD \<equiv> 0x06"
abbreviation SMOD :: u8 where "SMOD \<equiv> 0x07"
abbreviation ADDMOD :: u8 where "ADDMOD \<equiv> 0x08"
abbreviation MULMOD :: u8 where "MULMOD \<equiv> 0x09"
abbreviation EXP :: u8 where "EXP \<equiv> 0x0a"
abbreviation SIGNEXTEND :: u8 where "SIGNEXTEND \<equiv> 0x0b"
abbreviation LT :: u8 where "LT \<equiv> 0x10"
abbreviation GT :: u8 where "GT \<equiv> 0x11"
abbreviation SLT :: u8 where "SLT \<equiv> 0x12"
abbreviation SGT :: u8 where "SGT \<equiv> 0x13"
abbreviation EQ :: u8 where "EQ \<equiv> 0x14"
abbreviation ISZERO :: u8 where "ISZERO \<equiv> 0x15"
abbreviation AND_op :: u8 where "AND_op \<equiv> 0x16"
abbreviation OR_op :: u8 where "OR_op \<equiv> 0x17"
abbreviation XOR_op :: u8 where "XOR_op \<equiv> 0x18"
abbreviation NOT_op :: u8 where "NOT_op \<equiv> 0x19"
abbreviation BYTE :: u8 where "BYTE \<equiv> 0x1a"
abbreviation SHL :: u8 where "SHL \<equiv> 0x1b"
abbreviation SHR :: u8 where "SHR \<equiv> 0x1c"
abbreviation SAR :: u8 where "SAR \<equiv> 0x1d"
abbreviation KECCAK256 :: u8 where "KECCAK256 \<equiv> 0x20"
abbreviation ADDRESS :: u8 where "ADDRESS \<equiv> 0x30"
abbreviation BALANCE :: u8 where "BALANCE \<equiv> 0x31"
abbreviation ORIGIN :: u8 where "ORIGIN \<equiv> 0x32"
abbreviation CALLER :: u8 where "CALLER \<equiv> 0x33"
abbreviation CALLVALUE :: u8 where "CALLVALUE \<equiv> 0x34"
abbreviation CALLDATALOAD :: u8 where "CALLDATALOAD \<equiv> 0x35"
abbreviation CALLDATASIZE :: u8 where "CALLDATASIZE \<equiv> 0x36"
abbreviation CALLDATACOPY :: u8 where "CALLDATACOPY \<equiv> 0x37"
abbreviation CODESIZE :: u8 where "CODESIZE \<equiv> 0x38"
abbreviation CODECOPY :: u8 where "CODECOPY \<equiv> 0x39"
abbreviation GASPRICE :: u8 where "GASPRICE \<equiv> 0x3a"
abbreviation EXTCODESIZE :: u8 where "EXTCODESIZE \<equiv> 0x3b"
abbreviation EXTCODECOPY :: u8 where "EXTCODECOPY \<equiv> 0x3c"
abbreviation RETURNDATASIZE :: u8 where "RETURNDATASIZE \<equiv> 0x3d"
abbreviation RETURNDATACOPY :: u8 where "RETURNDATACOPY \<equiv> 0x3e"
abbreviation EXTCODEHASH :: u8 where "EXTCODEHASH \<equiv> 0x3f"
abbreviation BLOCKHASH :: u8 where "BLOCKHASH \<equiv> 0x40"
abbreviation COINBASE :: u8 where "COINBASE \<equiv> 0x41"
abbreviation TIMESTAMP :: u8 where "TIMESTAMP \<equiv> 0x42"
abbreviation NUMBER :: u8 where "NUMBER \<equiv> 0x43"
abbreviation DIFFICULTY :: u8 where "DIFFICULTY \<equiv> 0x44"
abbreviation RANDOM :: u8 where "RANDOM \<equiv> 0x44"
abbreviation GASLIMIT :: u8 where "GASLIMIT \<equiv> 0x45"
abbreviation CHAINID :: u8 where "CHAINID \<equiv> 0x46"
abbreviation SELFBALANCE :: u8 where "SELFBALANCE \<equiv> 0x47"
abbreviation BASEFEE :: u8 where "BASEFEE \<equiv> 0x48"
abbreviation POP :: u8 where "POP \<equiv> 0x50"
abbreviation MLOAD :: u8 where "MLOAD \<equiv> 0x51"
abbreviation MSTORE :: u8 where "MSTORE \<equiv> 0x52"
abbreviation MSTORE8 :: u8 where "MSTORE8 \<equiv> 0x53"
abbreviation SLOAD :: u8 where "SLOAD \<equiv> 0x54"
abbreviation SSTORE :: u8 where "SSTORE \<equiv> 0x55"
abbreviation JUMP :: u8 where "JUMP \<equiv> 0x56"
abbreviation JUMPI :: u8 where "JUMPI \<equiv> 0x57"
abbreviation PC :: u8 where "PC \<equiv> 0x58"
abbreviation MSIZE :: u8 where "MSIZE \<equiv> 0x59"
abbreviation GAS :: u8 where "GAS \<equiv> 0x5a"
abbreviation PUSH0 :: u8 where "PUSH0 \<equiv> 0x5f"
abbreviation PUSH2 :: u8 where "PUSH2 \<equiv> 0x61"
abbreviation PUSH3 :: u8 where "PUSH3 \<equiv> 0x62"
abbreviation PUSH4 :: u8 where "PUSH4 \<equiv> 0x63"
abbreviation PUSH5 :: u8 where "PUSH5 \<equiv> 0x64"
abbreviation PUSH6 :: u8 where "PUSH6 \<equiv> 0x65"
abbreviation PUSH7 :: u8 where "PUSH7 \<equiv> 0x66"
abbreviation PUSH8 :: u8 where "PUSH8 \<equiv> 0x67"
abbreviation PUSH9 :: u8 where "PUSH9 \<equiv> 0x68"
abbreviation PUSH10 :: u8 where "PUSH10 \<equiv> 0x69"
abbreviation PUSH11 :: u8 where "PUSH11 \<equiv> 0x6a"
abbreviation PUSH12 :: u8 where "PUSH12 \<equiv> 0x6b"
abbreviation PUSH13 :: u8 where "PUSH13 \<equiv> 0x6c"
abbreviation PUSH14 :: u8 where "PUSH14 \<equiv> 0x6d"
abbreviation PUSH15 :: u8 where "PUSH15 \<equiv> 0x6e"
abbreviation PUSH16 :: u8 where "PUSH16 \<equiv> 0x6f"
abbreviation PUSH17 :: u8 where "PUSH17 \<equiv> 0x70"
abbreviation PUSH18 :: u8 where "PUSH18 \<equiv> 0x71"
abbreviation PUSH19 :: u8 where "PUSH19 \<equiv> 0x72"
abbreviation PUSH20 :: u8 where "PUSH20 \<equiv> 0x73"
abbreviation PUSH21 :: u8 where "PUSH21 \<equiv> 0x74"
abbreviation PUSH22 :: u8 where "PUSH22 \<equiv> 0x75"
abbreviation PUSH23 :: u8 where "PUSH23 \<equiv> 0x76"
abbreviation PUSH24 :: u8 where "PUSH24 \<equiv> 0x77"
abbreviation PUSH25 :: u8 where "PUSH25 \<equiv> 0x78"
abbreviation PUSH26 :: u8 where "PUSH26 \<equiv> 0x79"
abbreviation PUSH27 :: u8 where "PUSH27 \<equiv> 0x7a"
abbreviation PUSH28 :: u8 where "PUSH28 \<equiv> 0x7b"
abbreviation PUSH29 :: u8 where "PUSH29 \<equiv> 0x7c"
abbreviation PUSH30 :: u8 where "PUSH30 \<equiv> 0x7d"
abbreviation PUSH31 :: u8 where "PUSH31 \<equiv> 0x7e"
abbreviation PUSH32 :: u8 where "PUSH32 \<equiv> 0x7f"
abbreviation DUP1 :: u8 where "DUP1 \<equiv> 0x80"
abbreviation DUP2 :: u8 where "DUP2 \<equiv> 0x81"
abbreviation DUP3 :: u8 where "DUP3 \<equiv> 0x82"
abbreviation DUP4 :: u8 where "DUP4 \<equiv> 0x83"
abbreviation DUP5 :: u8 where "DUP5 \<equiv> 0x84"
abbreviation DUP6 :: u8 where "DUP6 \<equiv> 0x85"
abbreviation DUP7 :: u8 where "DUP7 \<equiv> 0x86"
abbreviation DUP8 :: u8 where "DUP8 \<equiv> 0x87"
abbreviation DUP9 :: u8 where "DUP9 \<equiv> 0x88"
abbreviation DUP10 :: u8 where "DUP10 \<equiv> 0x89"
abbreviation DUP11 :: u8 where "DUP11 \<equiv> 0x8a"
abbreviation DUP12 :: u8 where "DUP12 \<equiv> 0x8b"
abbreviation DUP13 :: u8 where "DUP13 \<equiv> 0x8c"
abbreviation DUP14 :: u8 where "DUP14 \<equiv> 0x8d"
abbreviation DUP15 :: u8 where "DUP15 \<equiv> 0x8e"
abbreviation DUP16 :: u8 where "DUP16 \<equiv> 0x8f"
abbreviation SWAP1 :: u8 where "SWAP1 \<equiv> 0x90"
abbreviation SWAP2 :: u8 where "SWAP2 \<equiv> 0x91"
abbreviation SWAP3 :: u8 where "SWAP3 \<equiv> 0x92"
abbreviation SWAP4 :: u8 where "SWAP4 \<equiv> 0x93"
abbreviation SWAP5 :: u8 where "SWAP5 \<equiv> 0x94"
abbreviation SWAP6 :: u8 where "SWAP6 \<equiv> 0x95"
abbreviation SWAP7 :: u8 where "SWAP7 \<equiv> 0x96"
abbreviation SWAP8 :: u8 where "SWAP8 \<equiv> 0x97"
abbreviation SWAP9 :: u8 where "SWAP9 \<equiv> 0x98"
abbreviation SWAP10 :: u8 where "SWAP10 \<equiv> 0x99"
abbreviation SWAP11 :: u8 where "SWAP11 \<equiv> 0x9a"
abbreviation SWAP12 :: u8 where "SWAP12 \<equiv> 0x9b"
abbreviation SWAP13 :: u8 where "SWAP13 \<equiv> 0x9c"
abbreviation SWAP14 :: u8 where "SWAP14 \<equiv> 0x9d"
abbreviation SWAP15 :: u8 where "SWAP15 \<equiv> 0x9e"
abbreviation SWAP16 :: u8 where "SWAP16 \<equiv> 0x9f"
abbreviation LOG0 :: u8 where "LOG0 \<equiv> 0xa0"
abbreviation LOG1 :: u8 where "LOG1 \<equiv> 0xa1"
abbreviation LOG2 :: u8 where "LOG2 \<equiv> 0xa2"
abbreviation LOG3 :: u8 where "LOG3 \<equiv> 0xa3"
abbreviation LOG4 :: u8 where "LOG4 \<equiv> 0xa4"
abbreviation CREATE :: u8 where "CREATE \<equiv> 0xf0"
abbreviation CALL :: u8 where "CALL \<equiv> 0xf1"
abbreviation CALLCODE :: u8 where "CALLCODE \<equiv> 0xf2"
abbreviation RETURN :: u8 where "RETURN \<equiv> 0xf3"
abbreviation DELEGATECALL :: u8 where "DELEGATECALL \<equiv> 0xf4"
abbreviation CREATE2 :: u8 where "CREATE2 \<equiv> 0xf5"
abbreviation STATICCALL :: u8 where "STATICCALL \<equiv> 0xfa"
abbreviation REVERT :: u8 where "REVERT \<equiv> 0xfd"
abbreviation INVALID :: u8 where "INVALID \<equiv> 0xfe"
abbreviation SELFDESTRUCT :: u8 where "SELFDESTRUCT \<equiv> 0xff"

definition IsPush :: "u8 \<Rightarrow> bool" where
  "IsPush op \<longleftrightarrow> op \<in> set (map word_of_nat [0x60..<0x80])"

section \<open>Operations\<close>

record 's operation =
  execute :: "'s executionFunc"
  constantGas :: u64
  dynamicGas :: "'s gasFunc option"
  minStack_of :: nat
  maxStack_of :: nat
  memorySize :: "memorySizeFunc option"

abbreviation fixed_op :: "'s executionFunc \<Rightarrow> u64 \<Rightarrow> nat \<Rightarrow> nat \<Rightarrow> 's operation" where
  "fixed_op ex gas lo hi \<equiv>
     \<lparr> execute = ex, constantGas = gas, dynamicGas = None, minStack_of = lo, maxStack_of = hi,
       memorySize = None \<rparr>"

abbreviation dynamic_op ::
  "'s executionFunc \<Rightarrow> u64 \<Rightarrow> 's gasFunc \<Rightarrow> nat \<Rightarrow> nat \<Rightarrow> 's operation" where
  "dynamic_op ex gas dyn lo hi \<equiv>
     \<lparr> execute = ex, constantGas = gas, dynamicGas = Some dyn, minStack_of = lo, maxStack_of = hi,
       memorySize = None \<rparr>"

abbreviation memory_op ::
  "'s executionFunc \<Rightarrow> u64 \<Rightarrow> 's gasFunc \<Rightarrow> nat \<Rightarrow> nat \<Rightarrow> memorySizeFunc \<Rightarrow> 's operation" where
  "memory_op ex gas dyn lo hi mem \<equiv>
     \<lparr> execute = ex, constantGas = gas, dynamicGas = Some dyn, minStack_of = lo, maxStack_of = hi,
       memorySize = Some mem \<rparr>"

type_synonym 's JumpTable = "u8 \<Rightarrow> 's operation option"

definition opcodes :: "u8 list" where "opcodes = map word_of_nat [0..<256]"

fun validate_entries :: "u8 list \<Rightarrow> 's JumpTable \<Rightarrow> 's JumpTable go" where
  "validate_entries [] jt = Ret jt"
| "validate_entries (i # is) jt =
     (case jt i of
        None \<Rightarrow> Panic (PanicMsg ''op is not set'')
      | Some op \<Rightarrow>
          if memorySize op \<noteq> None \<and> dynamicGas op = None
          then Panic (PanicMsg ''op has dynamic memory but not dynamic gas'')
          else validate_entries is jt)"

definition validate :: "'s JumpTable \<Rightarrow> 's JumpTable go" where
  "validate jt = validate_entries opcodes jt"

section \<open>The Frontier instructions\<close>

definition frontier_arithmetic :: "(u8 \<times> 's operation) list" where
  "frontier_arithmetic =
     [(STOP, fixed_op opStop 0 (minStack 0 0) (maxStack 0 0)),
      (ADD, fixed_op opAdd GasFastestStep (minStack 2 1) (maxStack 2 1)),
      (MUL, fixed_op opMul GasFastStep (minStack 2 1) (maxStack 2 1)),
      (SUB, fixed_op opSub GasFastestStep (minStack 2 1) (maxStack 2 1)),
      (DIV, fixed_op opDiv GasFastStep (minStack 2 1) (maxStack 2 1)),
      (SDIV, fixed_op opSdiv GasFastStep (minStack 2 1) (maxStack 2 1)),
      (MOD, fixed_op opMod GasFastStep (minStack 2 1) (maxStack 2 1)),
      (SMOD, fixed_op opSmod GasFastStep (minStack 2 1) (maxStack 2 1)),
      (ADDMOD, fixed_op opAddmod GasMidStep (minStack 3 1) (maxStack 3 1)),
      (MULMOD, fixed_op opMulmod GasMidStep (minStack 3 1) (maxStack 3 1)),
      (EXP, dynamic_op opExp 0 gasExpFrontier (minStack 2 1) (maxStack 2 1)),
      (SIGNEXTEND, fixed_op opSignExtend GasFastStep (minStack 2 1) (maxStack 2 1))]"

definition frontier_comparison :: "(u8 \<times> 's operation) list" where
  "frontier_comparison =
     [(LT, fixed_op opLt GasFastestStep (minStack 2 1) (maxStack 2 1)),
      (GT, fixed_op opGt GasFastestStep (minStack 2 1) (maxStack 2 1)),
      (SLT, fixed_op opSlt GasFastestStep (minStack 2 1) (maxStack 2 1)),
      (SGT, fixed_op opSgt GasFastestStep (minStack 2 1) (maxStack 2 1)),
      (EQ, fixed_op opEq GasFastestStep (minStack 2 1) (maxStack 2 1)),
      (ISZERO, fixed_op opIszero GasFastestStep (minStack 1 1) (maxStack 1 1)),
      (AND_op, fixed_op opAnd GasFastestStep (minStack 2 1) (maxStack 2 1)),
      (XOR_op, fixed_op opXor GasFastestStep (minStack 2 1) (maxStack 2 1)),
      (OR_op, fixed_op opOr GasFastestStep (minStack 2 1) (maxStack 2 1)),
      (NOT_op, fixed_op opNot GasFastestStep (minStack 1 1) (maxStack 1 1)),
      (BYTE, fixed_op opByte GasFastestStep (minStack 2 1) (maxStack 2 1)),
      (KECCAK256, memory_op opKeccak256 Keccak256Gas gasKeccak256 (minStack 2 1) (maxStack 2 1) memoryKeccak256)]"

definition frontier_environment :: "(u8 \<times> 's operation) list" where
  "frontier_environment =
     [(ADDRESS, fixed_op opAddress GasQuickStep (minStack 0 1) (maxStack 0 1)),
      (BALANCE, fixed_op opBalance BalanceGasFrontier (minStack 1 1) (maxStack 1 1)),
      (ORIGIN, fixed_op opOrigin GasQuickStep (minStack 0 1) (maxStack 0 1)),
      (CALLER, fixed_op opCaller GasQuickStep (minStack 0 1) (maxStack 0 1)),
      (CALLVALUE, fixed_op opCallValue GasQuickStep (minStack 0 1) (maxStack 0 1)),
      (CALLDATALOAD, fixed_op opCallDataLoad GasFastestStep (minStack 1 1) (maxStack 1 1)),
      (CALLDATASIZE, fixed_op opCallDataSize GasQuickStep (minStack 0 1) (maxStack 0 1)),
      (CALLDATACOPY, memory_op opCallDataCopy GasFastestStep gasCallDataCopy (minStack 3 0) (maxStack 3 0) memoryCallDataCopy),
      (CODESIZE, fixed_op opCodeSize GasQuickStep (minStack 0 1) (maxStack 0 1)),
      (CODECOPY, memory_op opCodeCopy GasFastestStep gasCodeCopy (minStack 3 0) (maxStack 3 0) memoryCodeCopy),
      (GASPRICE, fixed_op opGasprice GasQuickStep (minStack 0 1) (maxStack 0 1)),
      (EXTCODESIZE, fixed_op opExtCodeSize ExtcodeSizeGasFrontier (minStack 1 1) (maxStack 1 1)),
      (EXTCODECOPY, memory_op opExtCodeCopy ExtcodeCopyBaseFrontier gasExtCodeCopy (minStack 4 0) (maxStack 4 0) memoryExtCodeCopy)]"

definition frontier_block :: "(u8 \<times> 's operation) list" where
  "frontier_block =
     [(BLOCKHASH, fixed_op opBlockhash GasExtStep (minStack 1 1) (maxStack 1 1)),
      (COINBASE, fixed_op opCoinbase GasQuickStep (minStack 0 1) (maxStack 0 1)),
      (TIMESTAMP, fixed_op opTimestamp GasQuickStep (minStack 0 1) (maxStack 0 1)),
      (NUMBER, fixed_op opNumber GasQuickStep (minStack 0 1) (maxStack 0 1)),
      (DIFFICULTY, fixed_op opDifficulty GasQuickStep (minStack 0 1) (maxStack 0 1)),
      (GASLIMIT, fixed_op opGasLimit GasQuickStep (minStack 0 1) (maxStack 0 1))]"

definition frontier_memory :: "(u8 \<times> 's operation) list" where
  "frontier_memory =
     [(POP, fixed_op opPop GasQuickStep (minStack 1 0) (maxStack 1 0)),
      (MLOAD, memory_op opMload GasFastestStep gasMLoad (minStack 1 1) (maxStack 1 1) memoryMLoad),
      (MSTORE, memory_op opMstore GasFastestStep gasMStore (minStack 2 0) (maxStack 2 0) memoryMStore),
      (MSTORE8, memory_op opMstore8 GasFastestStep gasMStore8 (minStack 2 0) (maxStack 2 0) memoryMStore8),
      (SLOAD, fixed_op opSload SloadGasFrontier (minStack 1 1) (maxStack 1 1)),
      (SSTORE, dynamic_op opSstore 0 gasSStore (minStack 2 0) (maxStack 2 0)),
      (JUMP, fixed_op opJump GasMidStep (minStack 1 0) (maxStack 1 0)),
      (JUMPI, fixed_op opJumpi GasSlowStep (minStack 2 0) (maxStack 2 0)),
      (PC, fixed_op opPc GasQuickStep (minStack 0 1) (maxStack 0 1)),
      (MSIZE, fixed_op opMsize GasQuickStep (minStack 0 1) (maxStack 0 1)),
      (GAS, fixed_op opGas GasQuickStep (minStack 0 1) (maxStack 0 1)),
      (JUMPDEST, fixed_op opJumpdest JumpdestGas (minStack 0 0) (maxStack 0 0))]"

definition frontier_push_low :: "(u8 \<times> 's operation) list" where
  "frontier_push_low =
     [(PUSH1, fixed_op opPush1 GasFastestStep (minStack 0 1) (maxStack 0 1)),
      (PUSH2, fixed_op (makePush 2 2) GasFastestStep (minStack 0 1) (maxStack 0 1)),
      (PUSH3, fixed_op (makePush 3 3) GasFastestStep (minStack 0 1) (maxStack 0 1)),
      (PUSH4, fixed_op (makePush 4 4) GasFastestStep (minStack 0 1) (maxStack 0 1)),
      (PUSH5, fixed_op (makePush 5 5) GasFastestStep (minStack 0 1) (maxStack 0 1)),
      (PUSH6, fixed_op (makePush 6 6) GasFastestStep (minStack 0 1) (maxStack 0 1)),
      (PUSH7, fixed_op (makePush 7 7) GasFastestStep (minStack 0 1) (maxStack 0 1)),
      (PUSH8, fixed_op (makePush 8 8) GasFastestStep (minStack 0 1) (maxStack 0 1)),
      (PUSH9, fixed_op (makePush 9 9) GasFastestStep (minStack 0 1) (maxStack 0 1)),
      (PUSH10, fixed_op (makePush 10 10) GasFastestStep (minStack 0 1) (maxStack 0 1)),
      (PUSH11, fixed_op (makePush 11 11) GasFastestStep (minStack 0 1) (maxStack 0 1)),
      (PUSH12, fixed_op (makePush 12 12) GasFastestStep (minStack 0 1) (maxStack 0 1)),
      (PUSH13, fixed_op (makePush 13 13) GasFastestStep (minStack 0 1) (maxStack 0 1)),
      (PUSH14, fixed_op (makePush 14 14) GasFastestStep (minStack 0 1) (maxStack 0 1)),
      (PUSH15, fixed_op (makePush 15 15) GasFastestStep (minStack 0 1) (maxStack 0 1)),
      (PUSH16, fixed_op (makePush 16 16) GasFastestStep (minStack 0 1) (maxStack 0 1))]"

definition frontier_push_high :: "(u8 \<times> 's operation) list" where
  "frontier_push_high =
     [(PUSH17, fixed_op (makePush 17 17) GasFastestStep (minStack 0 1) (maxStack 0 1)),
      (PUSH18, fixed_op (makePush 18 18) GasFastestStep (minStack 0 1) (maxStack 0 1)),
      (PUSH19, fixed_op (makePush 19 19) GasFastestStep (minStack 0 1) (maxStack 0 1)),
      (PUSH20, fixed_op (makePush 20 20) GasFastestStep (minStack 0 1) (maxStack 0 1)),
      (PUSH21, fixed_op (makePush 21 21) GasFastestStep (minStack 0 1) (maxStack 0 1)),
      (PUSH22, fixed_op (makePush 22 22) GasFastestStep (minStack 0 1) (maxStack 0 1)),
      (PUSH23, fixed_op (makePush 23 23) GasFastestStep (minStack 0 1) (maxStack 0 1)),
      (PUSH24, fixed_op (makePush 24 24) GasFastestStep (minStack 0 1) (maxStack 0 1)),
      (PUSH25, fixed_op (makePush 25 25) GasFastestStep (minStack 0 1) (maxStack 0 1)),
      (PUSH26, fixed_op (makePush 26 26) GasFastestStep (minStack 0 1) (maxStack 0 1)),
      (PUSH27, fixed_op (makePush 27 27) GasFastestStep (minStack 0 1) (maxStack 0 1)),
      (PUSH28, fixed_op (makePush 28 28) GasFastestStep (minStack 0 1) (maxStack 0 1)),
      (PUSH29, fixed_op (makePush 29 29) GasFastestStep (minStack 0 1) (maxStack 0 1)),
      (PUSH30, fixed_op (makePush 30 30) GasFastestStep (minStack 0 1) (maxStack 0 1)),
      (PUSH31, fixed_op (makePush 31 31) GasFastestStep (minStack 0 1) (maxStack 0 1)),
      (PUSH32, fixed_op (makePush 32 32) GasFastestStep (minStack 0 1) (maxStack 0 1))]"

definition frontier_dup :: "(u8 \<times> 's operation) list" where
  "frontier_dup =
     [(DUP1, fixed_op (makeDup 1) GasFastestStep (minDupStack 1) (maxDupStack 1)),
      (DUP2, fixed_op (makeDup 2) GasFastestStep (minDupStack 2) (maxDupStack 2)),
      (DUP3, fixed_op (makeDup 3) GasFastestStep (minDupStack 3) (maxDupStack 3)),
      (DUP4, fixed_op (makeDup 4) GasFastestStep (minDupStack 4) (maxDupStack 4)),
      (DUP5, fixed_op (makeDup 5) GasFastestStep (minDupStack 5) (maxDupStack 5)),
      (DUP6, fixed_op (makeDup 6) GasFastestStep (minDupStack 6) (maxDupStack 6)),
      (DUP7, fixed_op (makeDup 7) GasFastestStep (minDupStack 7) (maxDupStack 7)),
      (DUP8, fixed_op (makeDup 8) GasFastestStep (minDupStack 8) (maxDupStack 8)),
      (DUP9, fixed_op (makeDup 9) GasFastestStep (minDupStack 9) (maxDupStack 9)),
      (DUP10, fixed_op (makeDup 10) GasFastestStep (minDupStack 10) (maxDupStack 10)),
      (DUP11, fixed_op (makeDup 11) GasFastestStep (minDupStack 11) (maxDupStack 11)),
      (DUP12, fixed_op (makeDup 12) GasFastestStep (minDupStack 12) (maxDupStack 12)),
      (DUP13, fixed_op (makeDup 13) GasFastestStep (minDupStack 13) (maxDupStack 13)),
      (DUP14, fixed_op (makeDup 14) GasFastestStep (minDupStack 14) (maxDupStack 14)),
      (DUP15, fixed_op (makeDup 15) GasFastestStep (minDupStack 15) (maxDupStack 15)),
      (DUP16, fixed_op (makeDup 16) GasFastestStep (minDupStack 16) (maxDupStack 16))]"

definition frontier_swap :: "(u8 \<times> 's operation) list" where
  "frontier_swap =
     [(SWAP1, fixed_op (makeSwap 1) GasFastestStep (minSwapStack 2) (maxSwapStack 2)),
      (SWAP2, fixed_op (makeSwap 2) GasFastestStep (minSwapStack 3) (maxSwapStack 3)),
      (SWAP3, fixed_op (makeSwap 3) GasFastestStep (minSwapStack 4) (maxSwapStack 4)),
      (SWAP4, fixed_op (makeSwap 4) GasFastestStep (minSwapStack 5) (maxSwapStack 5)),
      (SWAP5, fixed_op (makeSwap 5) GasFastestStep (minSwapStack 6) (maxSwapStack 6)),
      (SWAP6, fixed_op (makeSwap 6) GasFastestStep (minSwapStack 7) (maxSwapStack 7)),
      (SWAP7, fixed_op (makeSwap 7) GasFastestStep (minSwapStack 8) (maxSwapStack 8)),
      (SWAP8, fixed_op (makeSwap 8) GasFastestStep (minSwapStack 9) (maxSwapStack 9)),
      (SWAP9, fixed_op (makeSwap 9) GasFastestStep (minSwapStack 10) (maxSwapStack 10)),
      (SWAP10, fixed_op (makeSwap 10) GasFastestStep (minSwapStack 11) (maxSwapStack 11)),
      (SWAP11, fixed_op (makeSwap 11) GasFastestStep (minSwapStack 12) (maxSwapStack 12)),
      (SWAP12, fixed_op (makeSwap 12) GasFastestStep (minSwapStack 13) (maxSwapStack 13)),
      (SWAP13, fixed_op (makeSwap 13) GasFastestStep (minSwapStack 14) (maxSwapStack 14)),
      (SWAP14, fixed_op (makeSwap 14) GasFastestStep (minSwapStack 15) (maxSwapStack 15)),
      (SWAP15, fixed_op (makeSwap 15) GasFastestStep (minSwapStack 16) (maxSwapStack 16)),
      (SWAP16, fixed_op (makeSwap 16) GasFastestStep (minSwapStack 17) (maxSwapStack 17))]"

definition frontier_system :: "(u8 \<times> 's operation) list" where
  "frontier_system =
     [(LOG0, memory_op (makeLog 0) 0 (makeGasLog 0) (minStack 2 0) (maxStack 2 0) memoryLog),
      (LOG1, memory_op (makeLog 1) 0 (makeGasLog 1) (minStack 3 0) (maxStack 3 0) memoryLog),
      (LOG2, memory_op (makeLog 2) 0 (makeGasLog 2) (minStack 4 0) (maxStack 4 0) memoryLog),
      (LOG3, memory_op (makeLog 3) 0 (makeGasLog 3) (minStack 5 0) (maxStack 5 0) memoryLog),
      (LOG4, memory_op (makeLog 4) 0 (makeGasLog 4) (minStack 6 0) (maxStack 6 0) memoryLog),
      (CREATE, memory_op opCreate CreateGas gasCreate (minStack 3 1) (maxStack 3 1) memoryCreate),
      (CALL, memory_op opCall CallGasFrontier gasCall (minStack 7 1) (maxStack 7 1) memoryCall),
      (CALLCODE, memory_op opCallCode CallGasFrontier gasCallCode (minStack 7 1) (maxStack 7 1) memoryCall),
      (RETURN, memory_op opReturn 0 gasReturn (minStack 2 0) (maxStack 2 0) memoryReturn),
      (SELFDESTRUCT, dynamic_op opSelfdestruct 0 gasSelfdestruct (minStack 1 0) (maxStack 1 0))]"

definition undefined_op :: "'s operation" where
  "undefined_op = fixed_op opUndefined 0 0 (maxStack 0 0)"

definition frontier_entries :: "(u8 \<times> 's operation) list" where
  "frontier_entries =
     frontier_arithmetic @ frontier_comparison @ frontier_environment @ frontier_block
     @ frontier_memory @ frontier_push_low @ frontier_push_high @ frontier_dup @ frontier_swap
     @ frontier_system"

definition newFrontierInstructionSet :: "'s JumpTable go" where
  "newFrontierInstructionSet =
     (let tbl = map_of frontier_entries in
      validate (\<lambda>i. case tbl i of None \<Rightarrow> Some undefined_op | Some op \<Rightarrow> Some op))"

section \<open>Changes to a table\<close>

text \<open>\<^verbatim>\<open>jt[i] = &operation{...}\<close> and \<^verbatim>\<open>jt[i].field = value\<close>.\<close>

datatype 's edit = Assign u8 "'s operation" | Modify u8 "'s operation \<Rightarrow> 's operation"

primrec apply_edit :: "'s edit \<Rightarrow> 's JumpTable \<Rightarrow> 's JumpTable go" where
  "apply_edit (Assign i op) jt = Ret (jt(i \<mapsto> op))"
| "apply_edit (Modify i f) jt =
     (case jt i of None \<Rightarrow> Panic RuntimeError | Some op \<Rightarrow> Ret (jt(i \<mapsto> f op)))"

primrec apply_edits :: "'s edit list \<Rightarrow> 's JumpTable \<Rightarrow> 's JumpTable go" where
  "apply_edits [] jt = Ret jt"
| "apply_edits (e # es) jt = go_bind (apply_edit e jt) (apply_edits es)"

abbreviation set_constantGas :: "u64 \<Rightarrow> 's operation \<Rightarrow> 's operation" where
  "set_constantGas g op \<equiv> op\<lparr> constantGas := g \<rparr>"

abbreviation set_dynamicGas :: "'s gasFunc \<Rightarrow> 's operation \<Rightarrow> 's operation" where
  "set_dynamicGas f op \<equiv> op\<lparr> dynamicGas := Some f \<rparr>"

definition homestead_edits :: "'s edit list" where
  "homestead_edits =
     [Assign DELEGATECALL (memory_op opDelegateCall CallGasFrontier gasDelegateCall (minStack 6 1)
        (maxStack 6 1) memoryDelegateCall)]"

definition newHomesteadInstructionSet :: "'s JumpTable go" where
  "newHomesteadInstructionSet =
     go_bind newFrontierInstructionSet (\<lambda>jt. go_bind (apply_edits homestead_edits jt) validate)"

definition tangerineWhistle_edits :: "'s edit list" where
  "tangerineWhistle_edits =
     [Modify BALANCE (set_constantGas BalanceGasEIP150),
      Modify EXTCODESIZE (set_constantGas ExtcodeSizeGasEIP150),
      Modify SLOAD (set_constantGas SloadGasEIP150),
      Modify EXTCODECOPY (set_constantGas ExtcodeCopyBaseEIP150),
      Modify CALL (set_constantGas CallGasEIP150),
      Modify CALLCODE (set_constantGas CallGasEIP150),
      Modify DELEGATECALL (set_constantGas CallGasEIP150)]"

definition newTangerineWhistleInstructionSet :: "'s JumpTable go" where
  "newTangerineWhistleInstructionSet =
     go_bind newHomesteadInstructionSet (\<lambda>jt. go_bind (apply_edits tangerineWhistle_edits jt) validate)"

definition spuriousDragon_edits :: "'s edit list" where
  "spuriousDragon_edits = [Modify EXP (set_dynamicGas gasExpEIP158)]"

definition newSpuriousDragonInstructionSet :: "'s JumpTable go" where
  "newSpuriousDragonInstructionSet =
     go_bind newTangerineWhistleInstructionSet (\<lambda>jt. go_bind (apply_edits spuriousDragon_edits jt) validate)"

definition byzantium_edits :: "'s edit list" where
  "byzantium_edits =
     [Assign STATICCALL (memory_op opStaticCall CallGasEIP150 gasStaticCall (minStack 6 1)
        (maxStack 6 1) memoryStaticCall),
      Assign RETURNDATASIZE (fixed_op opReturnDataSize GasQuickStep (minStack 0 1) (maxStack 0 1)),
      Assign RETURNDATACOPY (memory_op opReturnDataCopy GasFastestStep gasReturnDataCopy
        (minStack 3 0) (maxStack 3 0) memoryReturnDataCopy),
      Assign REVERT (memory_op opRevert 0 gasRevert (minStack 2 0) (maxStack 2 0) memoryRevert)]"

definition newByzantiumInstructionSet :: "'s JumpTable go" where
  "newByzantiumInstructionSet =
     go_bind newSpuriousDragonInstructionSet (\<lambda>jt. go_bind (apply_edits byzantium_edits jt) validate)"

definition constantinople_edits :: "'s edit list" where
  "constantinople_edits =
     [Assign SHL (fixed_op opSHL GasFastestStep (minStack 2 1) (maxStack 2 1)),
      Assign SHR (fixed_op opSHR GasFastestStep (minStack 2 1) (maxStack 2 1)),
      Assign SAR (fixed_op opSAR GasFastestStep (minStack 2 1) (maxStack 2 1)),
      Assign EXTCODEHASH (fixed_op opExtCodeHash ExtcodeHashGasConstantinople (minStack 1 1)
        (maxStack 1 1)),
      Assign CREATE2 (memory_op opCreate2 Create2Gas gasCreate2 (minStack 4 1) (maxStack 4 1)
        memoryCreate2)]"

definition newConstantinopleInstructionSet :: "'s JumpTable go" where
  "newConstantinopleInstructionSet =
     go_bind newByzantiumInstructionSet (\<lambda>jt. go_bind (apply_edits constantinople_edits jt) validate)"

section \<open>EIPs\<close>

definition enable1884 :: "'s edit list" where
  "enable1884 =
     [Modify SLOAD (set_constantGas SloadGasEIP1884),
      Modify BALANCE (set_constantGas BalanceGasEIP1884),
      Modify EXTCODEHASH (set_constantGas ExtcodeHashGasEIP1884),
      Assign SELFBALANCE (fixed_op opSelfBalance GasFastStep (minStack 0 1) (maxStack 0 1))]"

definition enable1344 :: "'s edit list" where
  "enable1344 = [Assign CHAINID (fixed_op opChainID GasQuickStep (minStack 0 1) (maxStack 0 1))]"

definition enable2200 :: "'s edit list" where
  "enable2200 =
     [Modify SLOAD (set_constantGas SloadGasEIP2200), Modify SSTORE (set_dynamicGas gasSStoreEIP2200)]"

definition enable2929 :: "'s edit list" where
  "enable2929 =
     [Modify SSTORE (set_dynamicGas gasSStoreEIP2929),
      Modify SLOAD (set_constantGas 0),
      Modify SLOAD (set_dynamicGas gasSLoadEIP2929),
      Modify EXTCODECOPY (set_constantGas WarmStorageReadCostEIP2929),
      Modify EXTCODECOPY (set_dynamicGas gasExtCodeCopyEIP2929),
      Modify EXTCODESIZE (set_constantGas WarmStorageReadCostEIP2929),
      Modify EXTCODESIZE (set_dynamicGas gasEip2929AccountCheck),
      Modify EXTCODEHASH (set_constantGas WarmStorageReadCostEIP2929),
      Modify EXTCODEHASH (set_dynamicGas gasEip2929AccountCheck),
      Modify BALANCE (set_constantGas WarmStorageReadCostEIP2929),
      Modify BALANCE (set_dynamicGas gasEip2929AccountCheck),
      Modify CALL (set_constantGas WarmStorageReadCostEIP2929),
      Modify CALL (set_dynamicGas gasCallEIP2929),
      Modify CALLCODE (set_constantGas WarmStorageReadCostEIP2929),
      Modify CALLCODE (set_dynamicGas gasCallCodeEIP2929),
      Modify STATICCALL (set_constantGas WarmStorageReadCostEIP2929),
      Modify STATICCALL (set_dynamicGas gasStaticCallEIP2929),
      Modify DELEGATECALL (set_constantGas WarmStorageReadCostEIP2929),
      Modify DELEGATECALL (set_dynamicGas gasDelegateCallEIP2929),
      Modify SELFDESTRUCT (set_constantGas SelfdestructGasEIP150),
      Modify SELFDESTRUCT (set_dynamicGas gasSelfdestructEIP2929)]"

definition enable3529 :: "'s edit list" where
  "enable3529 =
     [Modify SSTORE (set_dynamicGas gasSStoreEIP3529),
      Modify SELFDESTRUCT (set_dynamicGas gasSelfdestructEIP3529)]"

definition enable3198 :: "'s edit list" where
  "enable3198 = [Assign BASEFEE (fixed_op opBaseFee GasQuickStep (minStack 0 1) (maxStack 0 1))]"

definition enable3855 :: "'s edit list" where
  "enable3855 = [Assign PUSH0 (fixed_op opPush0 GasQuickStep (minStack 0 1) (maxStack 0 1))]"

definition activators :: "(int \<times> 's edit list) list" where
  "activators =
     [(3855, enable3855), (3529, enable3529), (3198, enable3198), (2929, enable2929),
      (2200, enable2200), (1884, enable1884), (1344, enable1344)]"

definition ValidEip :: "int \<Rightarrow> bool" where
  "ValidEip eipNum \<longleftrightarrow> map_of (activators :: (int \<times> unit edit list) list) eipNum \<noteq> None"

section \<open>The later forks\<close>

definition newIstanbulInstructionSet :: "'s JumpTable go" where
  "newIstanbulInstructionSet =
     go_bind newConstantinopleInstructionSet (\<lambda>jt.
     go_bind (apply_edits enable1344 jt) (\<lambda>jt. go_bind (apply_edits enable1884 jt) (\<lambda>jt.
     go_bind (apply_edits enable2200 jt) validate)))"

definition newBerlinInstructionSet :: "'s JumpTable go" where
  "newBerlinInstructionSet =
     go_bind newIstanbulInstructionSet (\<lambda>jt. go_bind (apply_edits enable2929 jt) validate)"

definition newLondonInstructionSet :: "'s JumpTable go" where
  "newLondonInstructionSet =
     go_bind newBerlinInstructionSet (\<lambda>jt.
     go_bind (apply_edits enable3529 jt) (\<lambda>jt. go_bind (apply_edits enable3198 jt) validate))"

definition merge_edits :: "'s edit list" where
  "merge_edits = [Assign RANDOM (fixed_op opRandom GasQuickStep (minStack 0 1) (maxStack 0 1))]"

definition newMergeInstructionSet :: "'s JumpTable go" where
  "newMergeInstructionSet =
     go_bind newLondonInstructionSet (\<lambda>jt. go_bind (apply_edits merge_edits jt) validate)"

end
