(* ===== verification/Evm_Interpreter.thy ===== *)
theory Evm_Interpreter
  imports Evm_Jump_Table
begin

text \<open>
  The interpreter: \<^verbatim>\<open>src/evm/interpreter.go\<close>. \<^verbatim>\<open>NewEVMInterpreter\<close> chooses the instruction table;
  \<^verbatim>\<open>Run\<close> executes a contract. The loop of \<^verbatim>\<open>Run\<close> and the calls it makes share one fuel, which
  decreases at each instruction; running out of it is a value of its own.
\<close>

section \<open>Choosing the table\<close>

text \<open>The package-level tables \<^verbatim>\<open>NewEVMInterpreter\<close> chooses from, and their initialisation.\<close>

datatype fork = Frontier | Homestead | TangerineWhistle | London | Merge

type_synonym 's tables = "fork \<Rightarrow> 's JumpTable"

definition package_tables :: "'s tables go" where
  "package_tables =
     go_bind newFrontierInstructionSet (\<lambda>fro. go_bind newHomesteadInstructionSet (\<lambda>hom.
     go_bind newTangerineWhistleInstructionSet (\<lambda>tan. go_bind newLondonInstructionSet (\<lambda>lon.
     go_bind newMergeInstructionSet (\<lambda>mer.
     Ret (\<lambda>fk. case fk of Frontier \<Rightarrow> fro | Homestead \<Rightarrow> hom | TangerineWhistle \<Rightarrow> tan
                | London \<Rightarrow> lon | Merge \<Rightarrow> mer))))))"

text \<open>A pointer to an operation: to one of a package-level table, or to one that was allocated
  for this table.\<close>

datatype 's opref = Shared fork u8 | Own "'s operation"

type_synonym 's ptr_table = "u8 \<Rightarrow> 's opref option"

definition ptr_of :: "fork \<Rightarrow> 's tables \<Rightarrow> 's ptr_table" where
  "ptr_of fk g = (\<lambda>i. case g fk i of None \<Rightarrow> None | Some _ \<Rightarrow> Some (Shared fk i))"

definition deref :: "'s tables \<Rightarrow> 's ptr_table \<Rightarrow> 's JumpTable" where
  "deref g jt = (\<lambda>i. case jt i of None \<Rightarrow> None | Some (Shared fk j) \<Rightarrow> g fk j | Some (Own op) \<Rightarrow> Some op)"

fun ptr_edit :: "'s edit \<Rightarrow> 's ptr_table \<times> 's tables \<Rightarrow> ('s ptr_table \<times> 's tables) go" where
  "ptr_edit (Assign i op) (jt, g) = Ret (jt(i \<mapsto> Own op), g)"
| "ptr_edit (Modify i f) (jt, g) =
     (case jt i of
        None \<Rightarrow> Panic RuntimeError
      | Some (Own op) \<Rightarrow> Ret (jt(i \<mapsto> Own (f op)), g)
      | Some (Shared fk j) \<Rightarrow>
          (case g fk j of
             None \<Rightarrow> Panic RuntimeError
           | Some op \<Rightarrow> Ret (jt, g(fk := (g fk)(j \<mapsto> f op)))))"

primrec ptr_edits :: "'s edit list \<Rightarrow> 's ptr_table \<times> 's tables \<Rightarrow> ('s ptr_table \<times> 's tables) go" where
  "ptr_edits [] p = Ret p"
| "ptr_edits (e # es) p = go_bind (ptr_edit e p) (ptr_edits es)"

text \<open>\<^verbatim>\<open>EnableEIP\<close> reports whether the EIP exists; it writes through the pointers of the table.\<close>

definition EnableEIP ::
  "int \<Rightarrow> 's ptr_table \<times> 's tables \<Rightarrow> (bool \<times> 's ptr_table \<times> 's tables) go" where
  "EnableEIP eipNum p =
     (case map_of activators eipNum of
        None \<Rightarrow> Ret (False, p)
      | Some es \<Rightarrow> go_bind (ptr_edits es p) (\<lambda>p. Ret (True, p)))"

text \<open>
  The loop over \<^verbatim>\<open>cfg.ExtraEips\<close>: \<open>arr\<close> is the array behind the slice, \<open>n\<close> the current length of the
  slice. The \<^verbatim>\<open>range\<close> clause keeps the slice it started with, so it reads \<open>arr\<close> at every index of
  the original length, while removing an element moves the later ones down in \<open>arr\<close>.
\<close>

fun extra_eips ::
  "nat list \<Rightarrow> int list \<Rightarrow> nat \<Rightarrow> 's ptr_table \<times> 's tables
     \<Rightarrow> (int list \<times> 's ptr_table \<times> 's tables) go" where
  "extra_eips [] arr n p = Ret (take n arr, p)"
| "extra_eips (i # is) arr n p =
     go_bind (index_go arr i) (\<lambda>eip.
     go_bind (EnableEIP eip p) (\<lambda>(ok, p).
     if ok then extra_eips is arr n p
     else if n < i + 1 then Panic RuntimeError
     else extra_eips is (take i arr @ drop (i + 1) (take n arr) @ drop (n - 1) arr) (n - 1) p))"

definition fork_of :: "Rules \<Rightarrow> fork" where
  "fork_of rules =
     (if IsMerge rules then Merge
      else if IsLondon rules then London
      else if IsEIP150 rules then TangerineWhistle
      else if IsHomestead rules then Homestead
      else Frontier)"

definition NewEVMInterpreter ::
  "Rules \<Rightarrow> int list \<Rightarrow> 's tables \<Rightarrow> (int list \<times> 's ptr_table \<times> 's tables) go" where
  "NewEVMInterpreter rules ExtraEips g =
     extra_eips [0..<length ExtraEips] ExtraEips (length ExtraEips) (ptr_of (fork_of rules) g, g)"

section \<open>One instruction\<close>

text \<open>The result of a turn of the loop: leave \<^verbatim>\<open>Run\<close> with a result, or go on.\<close>

datatype 's turn =
    Leave bytes "vm_error option" "'s evm" Contract
  | Next u64 "'s evm" ScopeContext

text \<open>The gas and the memory of an instruction with a dynamic cost: the new memory size (0 when
  the instruction has no memory size function), the charge, then the expansion. The result
  is an error or nothing.\<close>

definition charge_dynamic ::
  "'s operation \<Rightarrow> 's gasFunc \<Rightarrow> 's evm_env \<Rightarrow> 's evm \<Rightarrow> ScopeContext
     \<Rightarrow> (vm_error option \<times> 's evm \<times> ScopeContext) go" where
  "charge_dynamic operation dynGas E evm sc =
     go_bind (case memorySize operation of
                None \<Rightarrow> Ret (Some 0)
              | Some f \<Rightarrow>
                  go_bind (f (U E) (sc_stack sc)) (\<lambda>(memSize, overflow).
                  if overflow then Ret None
                  else let (newSize, overflow) = SafeMul (toWordSize memSize) 32 in
                       Ret (if overflow then None else Some newSize))) (\<lambda>r.
     case r of
       None \<Rightarrow> Ret (Some ErrGasUintOverflow, evm, sc)
     | Some newSize \<Rightarrow>
         go_bind (dynGas E evm (sc_contract sc) (sc_stack sc) (sc_mem sc) newSize)
           (\<lambda>((dynamicCost, err), evm, contract, mem).
         if err \<noteq> None then Ret (Some ErrOutOfGas, evm, sc\<lparr> sc_contract := contract, sc_mem := mem \<rparr>)
         else let (ok, contract) = UseGas dynamicCost contract;
                  sc = sc\<lparr> sc_contract := contract, sc_mem := mem \<rparr> in
         if \<not> ok then Ret (Some ErrOutOfGas, evm, sc)
         else Ret (None, evm, if newSize > 0 then sc\<lparr> sc_mem := Resize newSize mem \<rparr> else sc)))"

definition loop_turn ::
  "'s JumpTable \<Rightarrow> 's runner \<Rightarrow> 's evm_env \<Rightarrow> u64 \<Rightarrow> 's evm \<Rightarrow> ScopeContext \<Rightarrow> 's turn go" where
  "loop_turn jt run E pc evm sc =
     go_bind (GetOp (sc_contract sc) pc) (\<lambda>op.
     case jt op of
       None \<Rightarrow> Panic RuntimeError
     | Some operation \<Rightarrow>
         let sLen = length (sc_stack sc) in
         if sLen < minStack_of operation
         then Ret (Leave [] (Some (ErrStackUnderflow sLen (minStack_of operation))) evm (sc_contract sc))
         else if sLen > maxStack_of operation
         then Ret (Leave [] (Some (ErrStackOverflow sLen (maxStack_of operation))) evm (sc_contract sc))
         else
           let (ok, contract) = UseGas (constantGas operation) (sc_contract sc);
               sc = sc\<lparr> sc_contract := contract \<rparr> in
           if \<not> ok then Ret (Leave [] (Some ErrOutOfGas) evm (sc_contract sc))
           else
             go_bind (case dynamicGas operation of
                        None \<Rightarrow> Ret (None, evm, sc)
                      | Some dynGas \<Rightarrow> charge_dynamic operation dynGas E evm sc) (\<lambda>(err, evm, sc).
             case err of
               Some e \<Rightarrow> Ret (Leave [] (Some e) evm (sc_contract sc))
             | None \<Rightarrow>
                 go_bind (execute operation run E pc evm sc) (\<lambda>((res, err), pc, evm, sc).
                 if err \<noteq> None
                 then Ret (Leave res (if err = Some errStopToken then None else err) evm (sc_contract sc))
                 else Ret (Next (pc + 1) evm sc))))"

section \<open>Run\<close>

type_synonym 's loop =
  "u64 \<Rightarrow> 's evm \<Rightarrow> ScopeContext \<Rightarrow> ((bytes \<times> vm_error option) \<times> Contract \<times> 's evm) go"

text \<open>\<^verbatim>\<open>Run\<close> around its loop: the call depth and the \<^verbatim>\<open>readOnly\<close> flag are restored by deferred
  functions.\<close>

definition Run_with :: "'s loop \<Rightarrow> 's runner" where
  "Run_with loop contract input ro evm =
     (let evm = evm\<lparr> depth := depth evm + 1 \<rparr>;
          sets = (ro \<and> \<not> readOnly evm);
          evm = (if sets then evm\<lparr> readOnly := True \<rparr> else evm);
          evm = evm\<lparr> returnData := [] \<rparr>
      in go_bind (if length (Code contract) = 0 then Ret (([], None), contract, evm)
                  else loop 0 evm
                    \<lparr> sc_mem = NewMemory, sc_stack = [], sc_contract = contract\<lparr> Input := input \<rparr> \<rparr>)
           (\<lambda>(r, contract, evm).
         let evm = (if sets then evm\<lparr> readOnly := False \<rparr> else evm) in
         Ret (r, contract, evm\<lparr> depth := depth evm - 1 \<rparr>)))"

primrec run_loop :: "nat \<Rightarrow> 's JumpTable \<Rightarrow> 's evm_env \<Rightarrow> 's loop" where
  "run_loop 0 jt E pc evm sc = OutOfFuel"
| "run_loop (Suc fuel) jt E pc evm sc =
     go_bind (loop_turn jt (Run_with (run_loop fuel jt E)) E pc evm sc) (\<lambda>t.
     case t of
       Leave res err evm contract \<Rightarrow> Ret ((res, err), contract, evm)
     | Next pc evm sc \<Rightarrow> run_loop fuel jt E pc evm sc)"

definition Run :: "nat \<Rightarrow> 's JumpTable \<Rightarrow> 's evm_env \<Rightarrow> 's runner" where
  "Run fuel jt E = Run_with (run_loop fuel jt E)"

end
