(* ===== verification/Evm_Machine.thy ===== *)
theory Evm_Machine
  imports Evm_Interpreter Go_Spec Rlp_Correct
begin

text \<open>
  What the virtual machine relies on: the locale \<open>evm_machine\<close> fixes an environment and states
  the contract of the state database behind \<^verbatim>\<open>evm.StateDB\<close> (\<^verbatim>\<open>src/evm/interface.go\<close>).

  \<^item> \<open>obs\<close> is what a snapshot preserves of the state, \<open>world\<close> the part of it that a static call must
    not change;
  \<^item> \<open>restorable s id x\<close> says that reverting to the snapshot \<open>id\<close> gives back the observation \<open>x\<close>; no
    operation takes that away, but reverting to an older snapshot;
  \<^item> reading changes nothing observable, and the operations the machine calls while it must not
    write (refund counter, access list, preimages, touching an account) keep the world.
\<close>

section \<open>Memory and its fee\<close>

definition mem_fee :: "nat \<Rightarrow> nat" where
  "mem_fee w = 3 * w + w * w div 512"

definition mem_ok :: "Memory \<Rightarrow> bool" where
  "mem_ok m \<longleftrightarrow> 32 dvd length (store m) \<and> length (store m) \<le> 0x1FFFFFFFE0
     \<and> unat (lastGasCost m) = mem_fee (length (store m) div 32)"

section \<open>The contract of a state operation\<close>

definition keeps :: "('s \<Rightarrow> nat \<Rightarrow> 'o \<Rightarrow> bool) \<Rightarrow> 's \<Rightarrow> 's \<Rightarrow> bool" where
  "keeps restorable s s' \<longleftrightarrow> (\<forall>id x. restorable s id x \<longrightarrow> restorable s' id x)"

lemma keeps_refl [simp]: "keeps r s s"
  by (simp add: keeps_def)

lemma keeps_trans: "keeps r s s' \<Longrightarrow> keeps r s' s'' \<Longrightarrow> keeps r s s''"
  by (simp add: keeps_def)

locale evm_machine =
  fixes E :: "'s evm_env"
    and inv :: "'s \<Rightarrow> bool"
    and obs :: "'s \<Rightarrow> 'o"
    and world :: "'o \<Rightarrow> 'w"
    and restorable :: "'s \<Rightarrow> nat \<Rightarrow> 'o \<Rightarrow> bool"
    and Pan :: "panic set"
  assumes uint256: "uint256_documented (U E)"
    and pubkey: "Ecrecover (crypto E) msg sig = Some pk \<Longrightarrow> length pk = 65"
    and rules_London: "IsLondon (chainRules E) \<or> IsMerge (chainRules E) \<Longrightarrow> IsEIP150 (chainRules E)"
    and rules_Merge: "IsMerge (chainRules E) \<Longrightarrow> Random (Context E) \<noteq> None"
    and rules_BaseFee: "IsLondon (chainRules E) \<or> IsMerge (chainRules E) \<Longrightarrow> BaseFee (Context E) \<noteq> None"
    and rules_ChainID: "IsLondon (chainRules E) \<or> IsMerge (chainRules E) \<Longrightarrow> chainID E \<noteq> None"
    and sstore: "sstore_panic \<in> Pan"
    and GetBalance: "inv s \<Longrightarrow> go_spec Pan (\<lambda>(x, s'). inv s' \<and> keeps restorable s s' \<and> obs s' = obs s)
      (db_GetBalance (db E) a s)"
    and GetNonce: "inv s \<Longrightarrow> go_spec Pan (\<lambda>(x, s'). inv s' \<and> keeps restorable s s' \<and> obs s' = obs s)
      (db_GetNonce (db E) a s)"
    and GetCodeHash: "inv s \<Longrightarrow> go_spec Pan (\<lambda>(x, s'). inv s' \<and> keeps restorable s s' \<and> obs s' = obs s)
      (db_GetCodeHash (db E) a s)"
    and GetCode: "inv s \<Longrightarrow> go_spec Pan (\<lambda>(x, s'). inv s' \<and> keeps restorable s s' \<and> obs s' = obs s
      \<and> length x < 2 ^ 63) (db_GetCode (db E) a s)"
    and GetCodeSize: "inv s \<Longrightarrow> go_spec Pan (\<lambda>(x, s'). inv s' \<and> keeps restorable s s' \<and> obs s' = obs s)
      (db_GetCodeSize (db E) a s)"
    and GetCommittedState: "inv s \<Longrightarrow> go_spec Pan (\<lambda>(x, s'). inv s' \<and> keeps restorable s s' \<and> obs s' = obs s)
      (db_GetCommittedState (db E) a k s)"
    and GetState: "inv s \<Longrightarrow> go_spec Pan (\<lambda>(x, s'). inv s' \<and> keeps restorable s s' \<and> obs s' = obs s)
      (db_GetState (db E) a k s)"
    and HasSuicided: "inv s \<Longrightarrow> go_spec Pan (\<lambda>(x, s'). inv s' \<and> keeps restorable s s' \<and> obs s' = obs s)
      (db_HasSuicided (db E) a s)"
    and Empty: "inv s \<Longrightarrow> go_spec Pan (\<lambda>(x, s'). inv s' \<and> keeps restorable s s' \<and> obs s' = obs s)
      (db_Empty (db E) a s)"
    and AddressInAccessList: "inv s \<Longrightarrow> go_spec Pan (\<lambda>(x, s'). inv s' \<and> keeps restorable s s' \<and> obs s' = obs s)
      (db_AddressInAccessList (db E) a s)"
    and SlotInAccessList: "inv s \<Longrightarrow> go_spec Pan (\<lambda>(x, s'). inv s' \<and> keeps restorable s s' \<and> obs s' = obs s)
      (db_SlotInAccessList (db E) a k s)"
    and CanTransfer_reads: "inv s \<Longrightarrow> go_spec Pan (\<lambda>(x, s'). inv s' \<and> keeps restorable s s' \<and> obs s' = obs s)
      (CanTransfer (Context E) a v s)"
    and Exist: "inv s \<Longrightarrow> go_spec Pan (\<lambda>(x, s'). inv s' \<and> keeps restorable s s' \<and> obs s' = obs s
      \<and> (\<not> x \<longrightarrow> go_spec Pan (\<lambda>s''. world (obs s'') = world (obs s)) (db_CreateAccount (db E) a s')))
      (db_Exist (db E) a s)"
    and CreateAccount: "inv s \<Longrightarrow> go_spec Pan (\<lambda>s'. inv s' \<and> keeps restorable s s') (db_CreateAccount (db E) a s)"
    and AddBalance: "inv s \<Longrightarrow> go_spec Pan (\<lambda>s'. inv s' \<and> keeps restorable s s'
      \<and> (v = 0 \<longrightarrow> world (obs s') = world (obs s))) (db_AddBalance (db E) a v s)"
    and SetNonce: "inv s \<Longrightarrow> go_spec Pan (\<lambda>s'. inv s' \<and> keeps restorable s s') (db_SetNonce (db E) a n s)"
    and SetCode: "inv s \<Longrightarrow> length c < 2 ^ 63 \<Longrightarrow>
      go_spec Pan (\<lambda>s'. inv s' \<and> keeps restorable s s') (db_SetCode (db E) a c s)"
    and SetState: "inv s \<Longrightarrow> go_spec Pan (\<lambda>s'. inv s' \<and> keeps restorable s s') (db_SetState (db E) a k k' s)"
    and Suicide: "inv s \<Longrightarrow> go_spec Pan (\<lambda>(b, s'). inv s' \<and> keeps restorable s s') (db_Suicide (db E) a s)"
    and AddLog: "inv s \<Longrightarrow> go_spec Pan (\<lambda>s'. inv s' \<and> keeps restorable s s') (db_AddLog (db E) l s)"
    and Transfer_keeps: "inv s \<Longrightarrow> go_spec Pan (\<lambda>s'. inv s' \<and> keeps restorable s s'
      \<and> (v = 0 \<longrightarrow> world (obs s') = world (obs s))) (Transfer (Context E) a b v s)"
    and AddRefund: "inv s \<Longrightarrow> go_spec Pan (\<lambda>s'. inv s' \<and> keeps restorable s s'
      \<and> world (obs s') = world (obs s)) (db_AddRefund (db E) g s)"
    and SubRefund: "inv s \<Longrightarrow> go_spec Pan (\<lambda>s'. inv s' \<and> keeps restorable s s'
      \<and> world (obs s') = world (obs s)) (db_SubRefund (db E) g s)"
    and AddPreimage: "inv s \<Longrightarrow> go_spec Pan (\<lambda>s'. inv s' \<and> keeps restorable s s'
      \<and> world (obs s') = world (obs s)) (db_AddPreimage (db E) h d s)"
    and AddAddressToAccessList: "inv s \<Longrightarrow> go_spec Pan (\<lambda>s'. inv s' \<and> keeps restorable s s'
      \<and> world (obs s') = world (obs s)) (db_AddAddressToAccessList (db E) a s)"
    and AddSlotToAccessList: "inv s \<Longrightarrow> go_spec Pan (\<lambda>s'. inv s' \<and> keeps restorable s s'
      \<and> world (obs s') = world (obs s)) (db_AddSlotToAccessList (db E) a k s)"
    and Snapshot: "inv s \<Longrightarrow> go_spec Pan (\<lambda>(id, s'). inv s' \<and> keeps restorable s s' \<and> obs s' = obs s
      \<and> restorable s' id (obs s) \<and> (\<forall>i x. restorable s i x \<longrightarrow> i < id)) (db_Snapshot (db E) s)"
    and RevertToSnapshot: "inv s \<Longrightarrow> restorable s snap x \<Longrightarrow> go_spec Pan (\<lambda>s'. inv s' \<and> obs s' = x
      \<and> (\<forall>i y. i < snap \<longrightarrow> restorable s i y \<longrightarrow> restorable s' i y)) (db_RevertToSnapshot (db E) snap s)"
begin

text \<open>The relation between the machine before and after some steps: the state stays well-formed
  and restorable, the depth and the write protection are as before, and under write
  protection the world is unchanged.\<close>

definition goes :: "'s evm \<Rightarrow> 's evm \<Rightarrow> bool" where
  "goes evm evm' \<longleftrightarrow>
     inv (statedb evm') \<and> keeps restorable (statedb evm) (statedb evm')
     \<and> depth evm' = depth evm \<and> readOnly evm' = readOnly evm
     \<and> (readOnly evm \<longrightarrow> world (obs (statedb evm')) = world (obs (statedb evm)))"

lemma goes_refl: "inv (statedb evm) \<Longrightarrow> goes evm evm"
  by (simp add: goes_def)

lemma goes_trans: "goes a b \<Longrightarrow> goes b c \<Longrightarrow> goes a c"
  unfolding goes_def by (auto intro: keeps_trans)

lemma goes_inv: "goes a b \<Longrightarrow> inv (statedb b)"
  by (simp add: goes_def)

section \<open>Rules for calls of the state\<close>

definition reads :: "('s \<Rightarrow> ('a \<times> 's) go) \<Rightarrow> bool" where
  "reads f \<longleftrightarrow> (\<forall>s. inv s \<longrightarrow>
     go_spec Pan (\<lambda>(x, s'). inv s' \<and> keeps restorable s s' \<and> obs s' = obs s) (f s))"

definition hushes :: "('s \<Rightarrow> 's go) \<Rightarrow> bool" where
  "hushes f \<longleftrightarrow> (\<forall>s. inv s \<longrightarrow>
     go_spec Pan (\<lambda>s'. inv s' \<and> keeps restorable s s' \<and> world (obs s') = world (obs s)) (f s))"

definition writes :: "('s \<Rightarrow> 's go) \<Rightarrow> bool" where
  "writes f \<longleftrightarrow> (\<forall>s. inv s \<longrightarrow> go_spec Pan (\<lambda>s'. inv s' \<and> keeps restorable s s') (f s))"

lemma readers [simp]:
  "reads (db_GetBalance (db E) a)" "reads (db_GetNonce (db E) a)" "reads (db_GetCodeHash (db E) a)"
  "reads (db_GetCodeSize (db E) a)" "reads (db_GetCommittedState (db E) a k)"
  "reads (db_GetState (db E) a k)" "reads (db_HasSuicided (db E) a)" "reads (db_Empty (db E) a)"
  "reads (db_AddressInAccessList (db E) a)" "reads (db_SlotInAccessList (db E) a k)"
  "reads (CanTransfer (Context E) a v)"
  unfolding reads_def
  using GetBalance GetNonce GetCodeHash GetCodeSize GetCommittedState GetState HasSuicided Empty
    AddressInAccessList SlotInAccessList CanTransfer_reads by auto

lemma Exist_reads [simp]: "reads (db_Exist (db E) a)"
  unfolding reads_def by (intro allI impI go_spec_mono [OF Exist]) auto

lemma GetCode_reads [simp]: "reads (db_GetCode (db E) a)"
  unfolding reads_def by (intro allI impI go_spec_mono [OF GetCode]) auto

lemma hushers [simp]:
  "hushes (db_AddRefund (db E) g)" "hushes (db_SubRefund (db E) g)" "hushes (db_AddPreimage (db E) h d)"
  "hushes (db_AddAddressToAccessList (db E) a)" "hushes (db_AddSlotToAccessList (db E) a k)"
  unfolding hushes_def
  using AddRefund SubRefund AddPreimage AddAddressToAccessList AddSlotToAccessList by auto

lemma hushers_0 [simp]:
  "hushes (db_AddBalance (db E) a 0)" "hushes (Transfer (Context E) a b 0)"
  unfolding hushes_def using AddBalance [where v = 0] Transfer_keeps [where v = 0] by auto

lemma writers [simp]:
  "writes (db_CreateAccount (db E) a)" "writes (db_SetNonce (db E) a n)"
  "writes (db_SetState (db E) a k k')" "writes (db_AddLog (db E) l)"
  unfolding writes_def using CreateAccount SetNonce SetState AddLog by auto

lemma writers_value [simp]:
  "writes (db_AddBalance (db E) a v)" "writes (Transfer (Context E) a b v)"
  unfolding writes_def
  by (intro allI impI go_spec_mono [OF AddBalance] go_spec_mono [OF Transfer_keeps]; simp)+

text \<open>The rules carry the relation to a fixed earlier machine along.\<close>

lemma goes_db:
  "goes e0 evm \<Longrightarrow> inv s' \<Longrightarrow> keeps restorable (statedb evm) s' \<Longrightarrow>
   readOnly e0 \<longrightarrow> world (obs s') = world (obs (statedb evm)) \<Longrightarrow> goes e0 (evm\<lparr> statedb := s' \<rparr>)"
  unfolding goes_def by (auto intro: keeps_trans)

lemma db_get_rule:
  assumes "reads f" "goes e0 evm"
    and Q: "\<And>x evm'. goes e0 evm' \<Longrightarrow> obs (statedb evm') = obs (statedb evm) \<Longrightarrow>
      jumpdests evm' = jumpdests evm \<Longrightarrow> Q (x, evm')"
  shows "go_spec Pan Q (db_get f evm)"
proof -
  from assms(2) have "inv (statedb evm)" by (rule goes_inv)
  with assms(1) have "go_spec Pan (\<lambda>(x, s'). inv s' \<and> keeps restorable (statedb evm) s'
      \<and> obs s' = obs (statedb evm)) (f (statedb evm))" unfolding reads_def by blast
  then show ?thesis unfolding db_get_def go_spec_bind
    by (rule go_spec_mono) (auto intro!: Q goes_db [OF assms(2)])
qed

lemma db_do_hush:
  assumes "hushes f" "goes e0 evm"
    and Q: "\<And>evm'. goes e0 evm' \<Longrightarrow> world (obs (statedb evm')) = world (obs (statedb evm)) \<Longrightarrow>
      jumpdests evm' = jumpdests evm \<Longrightarrow> Q evm'"
  shows "go_spec Pan Q (db_do f evm)"
proof -
  from assms(2) have "inv (statedb evm)" by (rule goes_inv)
  with assms(1) have "go_spec Pan (\<lambda>s'. inv s' \<and> keeps restorable (statedb evm) s'
      \<and> world (obs s') = world (obs (statedb evm))) (f (statedb evm))" unfolding hushes_def by blast
  then show ?thesis unfolding db_do_def go_spec_bind
    by (rule go_spec_mono) (auto intro!: Q goes_db [OF assms(2)])
qed

lemma db_do_write:
  assumes "writes f" "goes e0 evm" "\<not> readOnly e0" and Q: "\<And>evm'. goes e0 evm' \<Longrightarrow> Q evm'"
  shows "go_spec Pan Q (db_do f evm)"
proof -
  from assms(2) have "inv (statedb evm)" by (rule goes_inv)
  with assms(1) have "go_spec Pan (\<lambda>s'. inv s' \<and> keeps restorable (statedb evm) s')
      (f (statedb evm))" unfolding writes_def by blast
  then show ?thesis unfolding db_do_def go_spec_bind
    by (rule go_spec_mono) (auto intro!: Q goes_db [OF assms(2)] simp: assms(3))
qed

lemma db_GetCode_rule:
  assumes "goes e0 evm"
    and Q: "\<And>x evm'. goes e0 evm' \<Longrightarrow> obs (statedb evm') = obs (statedb evm) \<Longrightarrow>
      length x < 2 ^ 63 \<Longrightarrow> Q (x, evm')"
  shows "go_spec Pan Q (db_get (db_GetCode (db E) a) evm)"
  unfolding db_get_def go_spec_bind
  by (rule go_spec_mono [OF GetCode [OF goes_inv [OF assms(1)]]])
    (auto intro!: Q goes_db [OF assms(1)])

lemma db_Suicide_rule:
  assumes "goes e0 evm" "\<not> readOnly e0" and Q: "\<And>x evm'. goes e0 evm' \<Longrightarrow> Q (x, evm')"
  shows "go_spec Pan Q (db_get (db_Suicide (db E) a) evm)"
  unfolding db_get_def go_spec_bind
  by (rule go_spec_mono [OF Suicide [OF goes_inv [OF assms(1)]]])
    (auto intro!: Q goes_db [OF assms(1)] simp: assms(2))

section \<open>Frames\<close>

text \<open>The invariant of a running frame: the stack is within its limit, the memory is a number of
  words within the limit of the gas formula and the gas paid for it is the fee of its size;
  the lengths are those of Go slices, and the call value is set.\<close>

definition frame_ok :: "ScopeContext \<Rightarrow> bool" where
  "frame_ok sc \<longleftrightarrow>
     length (sc_stack sc) \<le> 1024 \<and> mem_ok (sc_mem sc)
     \<and> length (Code (sc_contract sc)) < 2 ^ 63 \<and> length (Input (sc_contract sc)) < 2 ^ 63
     \<and> cvalue (sc_contract sc) \<noteq> None"

definition mem_covers :: "memorySizeFunc option \<Rightarrow> stack \<Rightarrow> Memory \<Rightarrow> bool" where
  "mem_covers mf st mem \<longleftrightarrow> (case mf of None \<Rightarrow> True
     | Some f \<Rightarrow> \<exists>n. f (U E) st = Ret (n, False) \<and> unat n \<le> length (store mem))"

definition jump_ok :: "'s evm \<Rightarrow> ScopeContext \<Rightarrow> bool" where
  "jump_ok evm sc \<longleftrightarrow> analysis_ok (sc_contract sc) (jumpdests evm) \<or> RuntimeError \<in> Pan"

definition runner_ok :: "nat \<Rightarrow> 's runner \<Rightarrow> bool" where
  "runner_ok n run \<longleftrightarrow> (\<forall>c input ro evm.
     inv (statedb evm) \<longrightarrow> unat (Gas c) < n \<longrightarrow> length (Code c) < 2 ^ 63 \<longrightarrow>
     length input < 2 ^ 63 \<longrightarrow> cvalue c \<noteq> None \<longrightarrow>
     go_spec Pan (\<lambda>(r, c', evm'). goes evm evm' \<and> unat (Gas c') \<le> unat (Gas c)
       \<and> (ro \<longrightarrow> world (obs (statedb evm')) = world (obs (statedb evm)))) (run c input ro evm))"

definition exec_ok ::
  "nat \<Rightarrow> nat \<Rightarrow> memorySizeFunc option \<Rightarrow> ('s evm \<Rightarrow> stack \<Rightarrow> nat) \<Rightarrow> bool \<Rightarrow> 's executionFunc \<Rightarrow> bool" where
  "exec_ok lo hi mf rs halt ex \<longleftrightarrow> (\<forall>n run pc evm sc.
     runner_ok n run \<longrightarrow> inv (statedb evm) \<longrightarrow> frame_ok sc \<longrightarrow>
     lo \<le> length (sc_stack sc) \<longrightarrow> length (sc_stack sc) \<le> hi \<longrightarrow>
     mem_covers mf (sc_stack sc) (sc_mem sc) \<longrightarrow> jump_ok evm sc \<longrightarrow>
     unat pc < length (Code (sc_contract sc)) \<longrightarrow>
     (halt \<or> unat (Gas (sc_contract sc)) + rs evm (sc_stack sc) < n) \<longrightarrow>
     unat (Gas (sc_contract sc)) + rs evm (sc_stack sc) < 2 ^ 64 \<longrightarrow>
     go_spec Pan (\<lambda>((res, err), pc', evm', sc').
       goes evm evm' \<and> (err = None \<longrightarrow> \<not> halt \<and> frame_ok sc')
       \<and> unat (Gas (sc_contract sc')) \<le> unat (Gas (sc_contract sc)) + rs evm (sc_stack sc))
       (ex run E pc evm sc))"

end

end
