(* ===== verification/Evm_Exec.thy ===== *)
theory Evm_Exec
  imports Evm_Machine
begin

text \<open>
  The instructions keep their frame: each instruction of \<^verbatim>\<open>src/evm/instructions.go\<close>, run with the
  stack and the memory that the interpreter has checked and expanded for it, does not panic
  and keeps the invariant of the frame. The calling instructions are in a theory of their
  own.
\<close>

section \<open>Accesses within the memory\<close>

text \<open>The range from \<open>off\<close> of \<open>l\<close> bytes lies in a memory of \<open>n\<close> bytes, or is empty.\<close>

definition fits :: "u256 \<Rightarrow> u256 \<Rightarrow> nat \<Rightarrow> bool" where
  "fits off l n \<longleftrightarrow> unat l < 2 ^ 64 \<and> (l = 0 \<or> unat off < 2 ^ 64 \<and> unat off + unat l \<le> n)"

lemma fits_u64:
  assumes "fits off l n"
  shows "(ucast l :: u64) = 0 \<or> unat (ucast off :: u64) + unat (ucast l :: u64) \<le> n"
    "unat (ucast l :: u64) = unat l"
  using assms by (auto simp: fits_def unat_ucast_u64)

lemma GetPtr_fits:
  "fits off l (length (store m)) \<Longrightarrow> length (store m) < 2 ^ 63 \<Longrightarrow>
   GetPtr (ucast off) (ucast l) m = Ret (take (unat l) (drop (unat (ucast off :: u64)) (store m)))"
  using fits_u64 [of off l "length (store m)"] by (simp add: GetPtr_Ret)

lemma GetCopy_fits:
  "fits off l (length (store m)) \<Longrightarrow> length (store m) < 2 ^ 63 \<Longrightarrow>
   GetCopy (ucast off) (ucast l) m = Ret (take (unat l) (drop (unat (ucast off :: u64)) (store m)))"
  using fits_u64 [of off l "length (store m)"] by (simp add: GetCopy_Ret)

lemma length_copy_fits:
  assumes "fits off l (length bs)"
  shows "length (copy_at bs (unat (ucast off :: u64)) (take (unat (ucast l :: u64)) d)) = length bs"
proof (cases "l = 0")
  case False
  with fits_u64 [OF assms] assms have "unat (ucast off :: u64) + unat (ucast l :: u64) \<le> length bs"
    by (auto simp: fits_def unat_ucast_u64)
  then show ?thesis by (auto intro!: length_copy_at)
qed (simp add: copy_at_def)

lemma Memory_Set_fits:
  assumes "fits off l (length (store m))" "mem_ok m"
  obtains m' where "Memory_Set (ucast off) (ucast l) d m = Ret m'" "mem_ok m'"
proof -
  from assms(2) have "length (store m) < 2 ^ 64" by (simp add: mem_ok_def)
  with fits_u64 [OF assms(1)] have "Memory_Set (ucast off) (ucast l) d m =
      Ret (m\<lparr> store := copy_at (store m) (unat (ucast off :: u64)) (take (unat (ucast l :: u64)) d) \<rparr>)"
    by (intro Memory_Set_Ret) auto
  moreover have "mem_ok (m\<lparr> store := copy_at (store m) (unat (ucast off :: u64))
      (take (unat (ucast l :: u64)) d) \<rparr>)"
    using assms(2) by (simp add: mem_ok_def length_copy_fits [OF assms(1)])
  ultimately show thesis by (rule that)
qed

lemma Memory_Set_spec:
  assumes "fits off l (length (store m))" "mem_ok m" "\<And>m'. mem_ok m' \<Longrightarrow> Q m'"
  shows "go_spec P Q (Memory_Set (ucast off) (ucast l) d m)"
  by (rule Memory_Set_fits [OF assms(1,2), where d = d]) (simp add: assms(3))

lemma mem_ok_length: "mem_ok m \<Longrightarrow> length (store m) < 2 ^ 63"
  by (simp add: mem_ok_def)

lemma mem_ok_store: "mem_ok m \<Longrightarrow> length bs = length (store m) \<Longrightarrow> mem_ok (m\<lparr> store := bs \<rparr>)"
  by (simp add: mem_ok_def)

section \<open>Stacks of a known height\<close>

lemma stack_heights:
  "Suc 0 \<le> length st \<longleftrightarrow> (\<exists>a r. st = a # r)"
  "2 \<le> length st \<longleftrightarrow> (\<exists>a b r. st = a # b # r)"
  "3 \<le> length st \<longleftrightarrow> (\<exists>a b c r. st = a # b # c # r)"
  "4 \<le> length st \<longleftrightarrow> (\<exists>a b c d r. st = a # b # c # d # r)"
  "5 \<le> length st \<longleftrightarrow> (\<exists>a b c d e r. st = a # b # c # d # e # r)"
  "6 \<le> length st \<longleftrightarrow> (\<exists>a b c d e f r. st = a # b # c # d # e # f # r)"
  "7 \<le> length st \<longleftrightarrow> (\<exists>a b c d e f g r. st = a # b # c # d # e # f # g # r)"
  by (auto simp: numeral_eq_Suc Suc_le_length_iff)

section \<open>Jumps\<close>

lemma isCode_any:
  assumes "RuntimeError \<in> P"
  shows "go_spec P (\<lambda>(ok, c', jds'). \<exists>b. c' = c\<lparr> analysis := b \<rparr>) (isCode c jds udest)"
proof -
  have seg: "go_spec P (\<lambda>_. True) (codeSegment bits i)" for bits i
    using assms by (simp add: codeSegment_def index_go_def)
  have seg: "go_spec P (\<lambda>b. Q) (codeSegment bits i)" if Q for Q bits i
    by (rule go_spec_mono [OF seg]) (rule that)
  obtain bits where "codeBitmap (Code c) = Ret bits" using codeBitmap_analysed by blast
  moreover have "\<exists>b. c = c\<lparr> analysis := b \<rparr>" by (rule exI [of _ "analysis c"]) simp
  ultimately show ?thesis
    by (auto simp: isCode_def intro!: seg split: option.splits)
qed

lemma validJumpdest_any:
  assumes "RuntimeError \<in> P"
  shows "go_spec P (\<lambda>(ok, c', jds'). \<exists>b. c' = c\<lparr> analysis := b \<rparr>) (validJumpdest u c jds dest)"
proof -
  have "\<exists>b. c = c\<lparr> analysis := b \<rparr>" by (rule exI [of _ "analysis c"]) simp
  with isCode_any [OF assms, of c] show ?thesis
    using assms by (auto simp: validJumpdest_def index_go_def split: prod.splits)
qed

context evm_machine
begin

lemmas uint256_eqs = uint256_rules [OF uint256]

section \<open>Which ranges the memory covers\<close>

lemma covers_range:
  assumes "mem_covers (Some (range_size i j)) st mem" "i < length st" "j < length st"
  shows "fits (st ! i) (st ! j) (length (store mem))"
  using assms calcMemSize64_ok [OF uint256, of "st ! i" "st ! j"]
  by (auto simp: mem_covers_def range_size_def fits_def)

lemma range_size_ok:
  assumes "range_size i j (U E) st = Ret (n, False)" "unat n \<le> m" "i < length st" "j < length st"
  shows "fits (st ! i) (st ! j) m"
  using assms calcMemSize64_ok [OF uint256, of "st ! i" "st ! j"]
  by (auto simp: range_size_def fits_def)

lemma covers_max:
  assumes "mem_covers (Some (max_size (range_size i j) (range_size k l))) st mem"
    "i < length st" "j < length st" "k < length st" "l < length st"
  shows "fits (st ! i) (st ! j) (length (store mem))" "fits (st ! k) (st ! l) (length (store mem))"
proof -
  from assms obtain x y where xy: "range_size i j (U E) st = Ret (x, False)"
    "range_size k l (U E) st = Ret (y, False)"
    "unat x \<le> length (store mem)" "unat y \<le> length (store mem)"
    by (auto simp: mem_covers_def max_size_def go_simps word_less_nat_alt split: if_splits)
  show "fits (st ! i) (st ! j) (length (store mem))"
    by (rule range_size_ok [OF xy(1,3) assms(2,3)])
  show "fits (st ! k) (st ! l) (length (store mem))"
    by (rule range_size_ok [OF xy(2,4) assms(4,5)])
qed

lemma covers_fixed:
  assumes "mem_covers (Some (fixed_size i n)) st mem" "i < length st" "n \<noteq> 0"
  shows "unat (st ! i) < 2 ^ 64 \<and> unat (st ! i) + unat n \<le> length (store mem)"
  using assms calcMemSize64WithUint_ok [OF uint256, of "st ! i" n]
  by (auto simp: mem_covers_def fixed_size_def)

section \<open>Instructions on the stack only\<close>

lemma frame_stack: "frame_ok sc \<Longrightarrow> length st \<le> 1024 \<Longrightarrow> frame_ok (sc\<lparr> sc_stack := st \<rparr>)"
  by (simp add: frame_ok_def)

lemma exec_okI:
  assumes "\<And>n run pc evm sc. runner_ok n run \<Longrightarrow> inv (statedb evm) \<Longrightarrow> frame_ok sc \<Longrightarrow>
     lo \<le> length (sc_stack sc) \<Longrightarrow> length (sc_stack sc) \<le> hi \<Longrightarrow>
     mem_covers mf (sc_stack sc) (sc_mem sc) \<Longrightarrow> jump_ok evm sc \<Longrightarrow>
     unat pc < length (Code (sc_contract sc)) \<Longrightarrow>
     unat (Gas (sc_contract sc)) + rs evm (sc_stack sc) < n \<Longrightarrow>
     unat (Gas (sc_contract sc)) + rs evm (sc_stack sc) < 2 ^ 64 \<Longrightarrow> goes evm evm \<Longrightarrow>
     go_spec Pan (\<lambda>((res, err), pc', evm', sc').
       goes evm evm' \<and> (err = None \<longrightarrow> \<not> False \<and> frame_ok sc')
       \<and> unat (Gas (sc_contract sc')) \<le> unat (Gas (sc_contract sc)) + rs evm (sc_stack sc))
       (ex run E pc evm sc)"
  shows "exec_ok lo hi mf rs False ex"
  unfolding exec_ok_def using assms goes_refl by simp

lemma exec_haltI:
  assumes "\<And>n run pc evm sc. runner_ok n run \<Longrightarrow> inv (statedb evm) \<Longrightarrow> frame_ok sc \<Longrightarrow>
     lo \<le> length (sc_stack sc) \<Longrightarrow> length (sc_stack sc) \<le> hi \<Longrightarrow>
     mem_covers mf (sc_stack sc) (sc_mem sc) \<Longrightarrow> jump_ok evm sc \<Longrightarrow>
     unat pc < length (Code (sc_contract sc)) \<Longrightarrow>
     unat (Gas (sc_contract sc)) + rs evm (sc_stack sc) < 2 ^ 64 \<Longrightarrow> goes evm evm \<Longrightarrow>
     go_spec Pan (\<lambda>((res, err), pc', evm', sc').
       goes evm evm' \<and> (err = None \<longrightarrow> \<not> True \<and> frame_ok sc')
       \<and> unat (Gas (sc_contract sc')) \<le> unat (Gas (sc_contract sc)) + rs evm (sc_stack sc))
       (ex run E pc evm sc)"
  shows "exec_ok lo hi mf rs True ex"
  unfolding exec_ok_def using assms goes_refl by simp

abbreviation no_reserve :: "'s evm \<Rightarrow> stack \<Rightarrow> nat" where
  "no_reserve \<equiv> \<lambda>_ _. 0"

lemma exec_binop:
  assumes "\<And>run. ex run E = binop f"
  shows "exec_ok 2 1025 None no_reserve False ex"
  by (rule exec_okI) (auto simp: assms binop_def stack_heights frame_ok_def)

lemma exec_unop:
  assumes "\<And>run. ex run E = unop f"
  shows "exec_ok (Suc 0) 1024 None no_reserve False ex"
  by (rule exec_okI) (auto simp: assms unop_def stack_heights frame_ok_def)

lemma exec_terop:
  assumes "\<And>run. ex run E = terop f"
  shows "exec_ok 3 1026 None no_reserve False ex"
  by (rule exec_okI) (auto simp: assms terop_def stack_heights frame_ok_def)

lemma exec_pushop:
  assumes "\<And>run pc evm sc. frame_ok sc \<Longrightarrow> ex run E pc evm sc = pushop (f pc evm sc) pc evm sc"
  shows "exec_ok 0 1023 None no_reserve False ex"
  by (rule exec_okI) (auto simp: assms pushop_def push_def frame_ok_def)

lemma exec_binops:
  "exec_ok 2 1025 None no_reserve False opAdd" "exec_ok 2 1025 None no_reserve False opSub"
  "exec_ok 2 1025 None no_reserve False opMul" "exec_ok 2 1025 None no_reserve False opDiv"
  "exec_ok 2 1025 None no_reserve False opSdiv" "exec_ok 2 1025 None no_reserve False opMod"
  "exec_ok 2 1025 None no_reserve False opSmod" "exec_ok 2 1025 None no_reserve False opExp"
  "exec_ok 2 1025 None no_reserve False opSignExtend" "exec_ok 2 1025 None no_reserve False opLt"
  "exec_ok 2 1025 None no_reserve False opGt" "exec_ok 2 1025 None no_reserve False opSlt"
  "exec_ok 2 1025 None no_reserve False opSgt" "exec_ok 2 1025 None no_reserve False opEq"
  "exec_ok 2 1025 None no_reserve False opAnd" "exec_ok 2 1025 None no_reserve False opOr"
  "exec_ok 2 1025 None no_reserve False opXor" "exec_ok 2 1025 None no_reserve False opByte"
  "exec_ok 2 1025 None no_reserve False opSHL" "exec_ok 2 1025 None no_reserve False opSHR"
  "exec_ok 2 1025 None no_reserve False opSAR"
  by (rule exec_binop, rule opAdd_def opSub_def opMul_def opDiv_def opSdiv_def opMod_def opSmod_def
      opExp_def opSignExtend_def opLt_def opGt_def opSlt_def opSgt_def opEq_def opAnd_def opOr_def
      opXor_def opByte_def opSHL_def opSHR_def opSAR_def)+

lemma exec_unops:
  "exec_ok (Suc 0) 1024 None no_reserve False opNot"
  "exec_ok (Suc 0) 1024 None no_reserve False opIszero"
  "exec_ok (Suc 0) 1024 None no_reserve False opBlockhash"
  by (rule exec_unop, rule opNot_def opIszero_def opBlockhash_def)+

lemma exec_terops:
  "exec_ok 3 1026 None no_reserve False opAddmod" "exec_ok 3 1026 None no_reserve False opMulmod"
  by (rule exec_terop, rule opAddmod_def opMulmod_def)+

lemma exec_pushops:
  "exec_ok 0 1023 None no_reserve False opAddress" "exec_ok 0 1023 None no_reserve False opOrigin"
  "exec_ok 0 1023 None no_reserve False opCaller" "exec_ok 0 1023 None no_reserve False opCallDataSize"
  "exec_ok 0 1023 None no_reserve False opReturnDataSize"
  "exec_ok 0 1023 None no_reserve False opCodeSize" "exec_ok 0 1023 None no_reserve False opGasprice"
  "exec_ok 0 1023 None no_reserve False opCoinbase" "exec_ok 0 1023 None no_reserve False opTimestamp"
  "exec_ok 0 1023 None no_reserve False opNumber" "exec_ok 0 1023 None no_reserve False opDifficulty"
  "exec_ok 0 1023 None no_reserve False opGasLimit"
  "exec_ok 0 1023 None no_reserve False opPush0"
  "exec_ok 0 1023 None no_reserve False opPc" "exec_ok 0 1023 None no_reserve False opMsize"
  "exec_ok 0 1023 None no_reserve False opGas"
  by (rule exec_okI; auto simp: pushop_def push_def frame_ok_def opAddress_def opOrigin_def
      opCaller_def opCallDataSize_def opReturnDataSize_def opCodeSize_def opGasprice_def
      opCoinbase_def opTimestamp_def opNumber_def opDifficulty_def opGasLimit_def
      opPush0_def opPc_def opMsize_def opGas_def)+

lemma exec_callvalue: "exec_ok 0 1023 None no_reserve False opCallValue"
  by (rule exec_okI) (auto simp: pushop_def push_def frame_ok_def opCallValue_def)

lemma exec_random:
  "IsMerge (chainRules E) \<Longrightarrow> exec_ok 0 1023 None no_reserve False opRandom"
  using rules_Merge by (intro exec_okI) (auto simp: pushop_def push_def frame_ok_def opRandom_def)

lemma exec_basefee:
  "IsLondon (chainRules E) \<or> IsMerge (chainRules E) \<Longrightarrow> exec_ok 0 1023 None no_reserve False opBaseFee"
  "IsLondon (chainRules E) \<or> IsMerge (chainRules E) \<Longrightarrow> exec_ok 0 1023 None no_reserve False opChainID"
  using rules_BaseFee rules_ChainID
  by (auto intro!: exec_okI simp: pushop_def push_def frame_ok_def opBaseFee_def opChainID_def)

lemma exec_misc:
  "exec_ok (Suc 0) 1025 None no_reserve False opPop" "exec_ok 0 1024 None no_reserve False opJumpdest"
  by (rule exec_okI; auto simp: opPop_def opJumpdest_def stack_heights frame_ok_def)+

lemma exec_dup: "0 < k \<Longrightarrow> exec_ok k 1023 None no_reserve False (makeDup k)"
  by (rule exec_okI) (auto simp: makeDup_def dup_def push_def frame_ok_def)

lemma exec_swap: "exec_ok (k + 1) 1024 None no_reserve False (makeSwap k)"
  by (rule exec_okI) (auto simp: makeSwap_def swap_def frame_ok_def)

section \<open>Pushing code bytes\<close>

lemma exec_push1: "exec_ok 0 1023 None no_reserve False opPush1"
proof (rule exec_okI)
  fix n and run :: "'s runner" and pc evm sc
  assume f: "frame_ok sc" "length (sc_stack sc) \<le> 1023" "goes evm evm"
  have l: "unat (word_of_nat (length (Code (sc_contract sc))) :: u64) = length (Code (sc_contract sc))"
    using f by (simp add: frame_ok_def unat_u64_of_nat)
  show "go_spec Pan (\<lambda>((res, err), pc', evm', sc').
       goes evm evm' \<and> (err = None \<longrightarrow> \<not> False \<and> frame_ok sc')
       \<and> unat (Gas (sc_contract sc')) \<le> unat (Gas (sc_contract sc)) + no_reserve evm (sc_stack sc))
       (opPush1 run E pc evm sc)"
    using f l by (auto simp: opPush1_def pushop_def push_def frame_ok_def Let_def word_less_nat_alt)
qed

lemma exec_push: "exec_ok 0 1023 None no_reserve False (makePush k m)"
proof (rule exec_okI)
  fix n and run :: "'s runner" and pc :: u64 and evm sc
  assume f: "frame_ok sc" "length (sc_stack sc) \<le> 1023" "goes evm evm"
    and pc: "unat pc < length (Code (sc_contract sc))"
  define len where "len = length (Code (sc_contract sc))"
  define p where "p = unat pc"
  have len: "p < len" "len < 2 ^ 63" using f pc by (simp_all add: len_def p_def frame_ok_def)
  then have "unat (pc + 1) = p + 1" unfolding p_def by (subst unat_u64_add) simp_all
  then have s: "sint (pc + 1) = int (p + 1)" using len by (subst sint_u64_unat) simp_all
  show "go_spec Pan (\<lambda>((res, err), pc', evm', sc').
       goes evm evm' \<and> (err = None \<longrightarrow> \<not> False \<and> frame_ok sc')
       \<and> unat (Gas (sc_contract sc')) \<le> unat (Gas (sc_contract sc)) + no_reserve evm (sc_stack sc))
       (makePush k m run E pc evm sc)"
    using f len(1) unfolding makePush_def s Let_def slice_int_def slice_go_def len_def
    by (auto simp: pushop_def push_def frame_ok_def nat_add_distrib)
qed

section \<open>Instructions that read the state or the memory\<close>

lemma exec_readers:
  "exec_ok (Suc 0) 1024 None no_reserve False opBalance"
  "exec_ok (Suc 0) 1024 None no_reserve False opExtCodeSize"
  "exec_ok (Suc 0) 1024 None no_reserve False opExtCodeHash"
  by (rule exec_okI; auto simp: opBalance_def opExtCodeSize_def opExtCodeHash_def opSload_def
      opSelfBalance_def pushop_def push_def stack_heights frame_ok_def Let_def intro!: db_get_rule)+

lemma exec_sload: "exec_ok (Suc 0) 1024 None no_reserve False opSload"
  by (rule exec_okI; auto simp: opSload_def stack_heights frame_ok_def intro!: db_get_rule)

lemma exec_selfbalance: "exec_ok 0 1023 None no_reserve False opSelfBalance"
  by (rule exec_okI; auto simp: opSelfBalance_def pushop_def push_def frame_ok_def intro!: db_get_rule)

lemma exec_calldataload: "exec_ok (Suc 0) 1024 None no_reserve False opCallDataLoad"
  by (rule exec_okI) (auto simp: opCallDataLoad_def uint256_eqs stack_heights frame_ok_def getData_Ret)

lemma frame_mem: "frame_ok sc \<Longrightarrow> mem_ok m \<Longrightarrow> frame_ok (sc\<lparr> sc_mem := m \<rparr>)"
  by (simp add: frame_ok_def)

lemma frame_mem_ok: "frame_ok sc \<Longrightarrow> mem_ok (sc_mem sc)"
  by (simp add: frame_ok_def)

lemma frame_ok_lengths:
  "frame_ok sc \<Longrightarrow> length (Code (sc_contract sc)) < 2 ^ 63"
  "frame_ok sc \<Longrightarrow> length (Input (sc_contract sc)) < 2 ^ 63"
  by (simp_all add: frame_ok_def)

lemma exec_keccak256: "exec_ok 2 1025 (Some memoryKeccak256) no_reserve False opKeccak256"
proof (rule exec_okI)
  fix n and run :: "'s runner" and pc evm sc
  assume f: "frame_ok sc" "2 \<le> length (sc_stack sc)" "length (sc_stack sc) \<le> 1025" "goes evm evm"
    and m: "mem_covers (Some memoryKeccak256) (sc_stack sc) (sc_mem sc)"
  from f obtain off l st where st: "sc_stack sc = off # l # st" by (auto simp: stack_heights)
  from covers_range [OF m [unfolded memoryKeccak256_def]] st
  have "fits off l (length (store (sc_mem sc)))" by simp
  then have "GetPtr (ucast off) (ucast l) (sc_mem sc) =
      Ret (take (unat l) (drop (unat (ucast off :: u64)) (store (sc_mem sc))))"
    using f by (intro GetPtr_fits mem_ok_length frame_mem_ok)
  with f st show "go_spec Pan (\<lambda>((res, err), pc', evm', sc').
       goes evm evm' \<and> (err = None \<longrightarrow> \<not> False \<and> frame_ok sc')
       \<and> unat (Gas (sc_contract sc')) \<le> unat (Gas (sc_contract sc)) + no_reserve evm (sc_stack sc))
       (opKeccak256 run E pc evm sc)"
    by (auto simp: opKeccak256_def uint256_eqs frame_stack Let_def intro!: db_do_hush)
qed

lemma copy_data_spec:
  assumes "goes e0 evm" "frame_ok sc" "fits off l (length (store (sc_mem sc)))" "length src < 2 ^ 63"
    "Gas (sc_contract sc) = g"
  shows "go_spec Pan (\<lambda>((res, err), pc', evm', sc'). goes e0 evm' \<and> (err = None \<longrightarrow> frame_ok sc')
      \<and> unat (Gas (sc_contract sc')) \<le> unat g) (copy_data E src off doff l pc evm sc)"
proof -
  from assms(3) have "unat (ucast l :: u64) < 2 ^ 63"
    using mem_ok_length [OF frame_mem_ok [OF assms(2)]] fits_u64 [OF assms(3)]
    by (auto simp: fits_def)
  with assms(4) have g: "getData src x (ucast l) = Ret (padded src (unat x) (unat (ucast l :: u64)))" for x
    by (rule getData_Ret)
  show ?thesis
    unfolding copy_data_def uint256_eqs Let_def prod.case g go_spec_bind go_spec.simps
    by (rule Memory_Set_spec [OF assms(3) frame_mem_ok [OF assms(2)]])
      (simp add: assms frame_mem)
qed

lemma exec_copies:
  "exec_ok 3 1027 (Some memoryCallDataCopy) no_reserve False opCallDataCopy"
  "exec_ok 3 1027 (Some memoryCodeCopy) no_reserve False opCodeCopy"
proof -
  have *: "go_spec Pan (\<lambda>((res, err), pc', evm', sc').
       goes evm evm' \<and> (err = None \<longrightarrow> \<not> False \<and> frame_ok sc')
       \<and> unat (Gas (sc_contract sc')) \<le> unat (Gas (sc_contract sc)) + no_reserve evm (sc_stack sc))
       (copy_data E src a b c pc evm (sc\<lparr> sc_stack := st \<rparr>))"
    if "frame_ok sc" "goes evm evm" "mem_covers (Some (range_size 0 2)) (sc_stack sc) (sc_mem sc)"
      "length (sc_stack sc) \<le> 1027" "sc_stack sc = a # b # c # st" "length src < 2 ^ 63"
    for src a b c pc evm sc st
    using covers_range [OF that(3)] that
    by (intro go_spec_mono [OF copy_data_spec]) (auto intro: frame_stack)
  show "exec_ok 3 1027 (Some memoryCallDataCopy) no_reserve False opCallDataCopy"
    by (rule exec_okI) (auto simp: opCallDataCopy_def memoryCallDataCopy_def stack_heights
        intro!: * [simplified] simp: frame_ok_lengths [simplified])
  show "exec_ok 3 1027 (Some memoryCodeCopy) no_reserve False opCodeCopy"
    by (rule exec_okI) (auto simp: opCodeCopy_def memoryCodeCopy_def stack_heights
        intro!: * [simplified] simp: frame_ok_lengths [simplified])
qed

lemma exec_extcodecopy: "exec_ok 4 1028 (Some memoryExtCodeCopy) no_reserve False opExtCodeCopy"
proof (rule exec_okI)
  fix n and run :: "'s runner" and pc evm sc
  assume f: "frame_ok sc" "4 \<le> length (sc_stack sc)" "length (sc_stack sc) \<le> 1028" "goes evm evm"
    and m: "mem_covers (Some memoryExtCodeCopy) (sc_stack sc) (sc_mem sc)"
  from f obtain x a b c st where st: "sc_stack sc = x # a # b # c # st" by (auto simp: stack_heights)
  from covers_range [OF m [unfolded memoryExtCodeCopy_def]] st
  have fit: "fits a c (length (store (sc_mem sc)))" by simp
  have "frame_ok (sc\<lparr> sc_stack := st \<rparr>)" using f st by (auto intro: frame_stack)
  with f st fit show "go_spec Pan (\<lambda>((res, err), pc', evm', sc').
       goes evm evm' \<and> (err = None \<longrightarrow> \<not> False \<and> frame_ok sc')
       \<and> unat (Gas (sc_contract sc')) \<le> unat (Gas (sc_contract sc)) + no_reserve evm (sc_stack sc))
       (opExtCodeCopy run E pc evm sc)"
    by (auto simp: opExtCodeCopy_def intro!: db_GetCode_rule go_spec_mono [OF copy_data_spec])
qed

lemma exec_returndatacopy:
  "exec_ok 3 1027 (Some memoryReturnDataCopy) no_reserve False opReturnDataCopy"
proof (rule exec_okI)
  fix n and run :: "'s runner" and pc evm sc
  assume f: "frame_ok sc" "3 \<le> length (sc_stack sc)" "length (sc_stack sc) \<le> 1027" "goes evm evm"
    and m: "mem_covers (Some memoryReturnDataCopy) (sc_stack sc) (sc_mem sc)"
  from f obtain a b c st where st: "sc_stack sc = a # b # c # st" by (auto simp: stack_heights)
  from covers_range [OF m [unfolded memoryReturnDataCopy_def]] st
  have fit: "fits a c (length (store (sc_mem sc)))" by simp
  have frame: "frame_ok (sc\<lparr> sc_stack := st \<rparr>)" using f st by (auto intro: frame_stack)
  have slice: "unat (ucast b :: u64) \<le> unat (ucast (b + c) :: u64)
      \<and> unat (ucast (b + c) :: u64) \<le> length (returnData evm)"
    if "unat b < 2 ^ 64" "unat (b + c) < 2 ^ 64" "\<not> word_of_nat (length (returnData evm)) < (ucast (b + c) :: u64)"
  proof -
    have "unat b + unat c < 2 ^ 256" using that(1) fit by (simp add: fits_def)
    then have "unat (b + c) = unat b + unat c" using unat_add_lem [of b c] by simp
    moreover have "unat (word_of_nat (length (returnData evm)) :: u64) \<le> length (returnData evm)"
      by (simp add: unat_of_nat)
    ultimately show ?thesis using that
      by (simp add: unat_ucast_u64 word_less_nat_alt del: unat_of_nat)
  qed
  show "go_spec Pan (\<lambda>((res, err), pc', evm', sc').
       goes evm evm' \<and> (err = None \<longrightarrow> \<not> False \<and> frame_ok sc')
       \<and> unat (Gas (sc_contract sc')) \<le> unat (Gas (sc_contract sc)) + no_reserve evm (sc_stack sc))
       (opReturnDataCopy run E pc evm sc)"
    using f st fit frame slice
    by (auto simp: opReturnDataCopy_def uint256_eqs Let_def slice_go_def
        intro!: Memory_Set_spec frame_mem [OF frame, simplified] dest: frame_mem_ok)
qed

lemma exec_mload: "exec_ok (Suc 0) 1024 (Some memoryMLoad) no_reserve False opMload"
proof (rule exec_okI)
  fix n and run :: "'s runner" and pc evm sc
  assume f: "frame_ok sc" "Suc 0 \<le> length (sc_stack sc)" "length (sc_stack sc) \<le> 1024" "goes evm evm"
    and m: "mem_covers (Some memoryMLoad) (sc_stack sc) (sc_mem sc)"
  from f obtain a st where st: "sc_stack sc = a # st" by (auto simp: stack_heights)
  from covers_fixed [OF m [unfolded memoryMLoad_def]] st
  have "unat (ucast a :: u64) + 32 \<le> length (store (sc_mem sc))" by (simp add: unat_ucast_u64)
  then have "GetPtr (ucast a) 32 (sc_mem sc) =
      Ret (take 32 (drop (unat (ucast a :: u64)) (store (sc_mem sc))))"
    using mem_ok_length [OF frame_mem_ok [OF f(1)]] by (subst GetPtr_Ret) simp_all
  with f st show "go_spec Pan (\<lambda>((res, err), pc', evm', sc').
       goes evm evm' \<and> (err = None \<longrightarrow> \<not> False \<and> frame_ok sc')
       \<and> unat (Gas (sc_contract sc')) \<le> unat (Gas (sc_contract sc)) + no_reserve evm (sc_stack sc))
       (opMload run E pc evm sc)"
    by (auto simp: opMload_def uint256_eqs frame_stack)
qed

lemma exec_mstore: "exec_ok 2 1026 (Some memoryMStore) no_reserve False opMstore"
proof (rule exec_okI)
  fix n and run :: "'s runner" and pc evm sc
  assume f: "frame_ok sc" "2 \<le> length (sc_stack sc)" "length (sc_stack sc) \<le> 1026" "goes evm evm"
    and m: "mem_covers (Some memoryMStore) (sc_stack sc) (sc_mem sc)"
  from f obtain a b st where st: "sc_stack sc = a # b # st" by (auto simp: stack_heights)
  from covers_fixed [OF m [unfolded memoryMStore_def]] st
  have fit: "unat (ucast a :: u64) + 32 \<le> length (store (sc_mem sc))" by (simp add: unat_ucast_u64)
  have set: "Set32 (U E) (ucast a) b (sc_mem sc) = Ret ((sc_mem sc)\<lparr> store :=
      copy_at (store (sc_mem sc)) (unat (ucast a :: u64)) (hash_bytes (u_Bytes32 (U E) b)) \<rparr>)"
    using fit mem_ok_length [OF frame_mem_ok [OF f(1)]] by (intro Set32_Ret) simp_all
  have "mem_ok ((sc_mem sc)\<lparr> store :=
      copy_at (store (sc_mem sc)) (unat (ucast a :: u64)) (hash_bytes (u_Bytes32 (U E) b)) \<rparr>)"
    using fit f by (intro mem_ok_store frame_mem_ok) simp_all
  with f st set show "go_spec Pan (\<lambda>((res, err), pc', evm', sc').
       goes evm evm' \<and> (err = None \<longrightarrow> \<not> False \<and> frame_ok sc')
       \<and> unat (Gas (sc_contract sc')) \<le> unat (Gas (sc_contract sc)) + no_reserve evm (sc_stack sc))
       (opMstore run E pc evm sc)"
    by (auto simp: opMstore_def uint256_eqs frame_ok_def)
qed

lemma exec_mstore8: "exec_ok 2 1026 (Some memoryMStore8) no_reserve False opMstore8"
proof (rule exec_okI)
  fix n and run :: "'s runner" and pc evm sc
  assume f: "frame_ok sc" "2 \<le> length (sc_stack sc)" "length (sc_stack sc) \<le> 1026" "goes evm evm"
    and m: "mem_covers (Some memoryMStore8) (sc_stack sc) (sc_mem sc)"
  from f obtain a b st where st: "sc_stack sc = a # b # st" by (auto simp: stack_heights)
  from covers_fixed [OF m [unfolded memoryMStore8_def]] st
  have "unat (ucast a :: u64) < length (store (sc_mem sc))" by (simp add: unat_ucast_u64)
  with f st show "go_spec Pan (\<lambda>((res, err), pc', evm', sc').
       goes evm evm' \<and> (err = None \<longrightarrow> \<not> False \<and> frame_ok sc')
       \<and> unat (Gas (sc_contract sc')) \<le> unat (Gas (sc_contract sc)) + no_reserve evm (sc_stack sc))
       (opMstore8 run E pc evm sc)"
    by (auto simp: opMstore8_def uint256_eqs frame_ok_def mem_ok_store)
qed

lemma jump_to_spec:
  assumes "goes e0 evm" "frame_ok sc" "jump_ok evm sc" "Gas (sc_contract sc) = g"
  shows "go_spec Pan (\<lambda>((res, err), pc', evm', sc'). goes e0 evm' \<and> (err = None \<longrightarrow> frame_ok sc')
      \<and> unat (Gas (sc_contract sc')) \<le> unat g) (jump_to E pos pc evm sc)"
proof -
  have "go_spec Pan (\<lambda>(ok, c', jds'). \<exists>b. c' = (sc_contract sc)\<lparr> analysis := b \<rparr>)
      (validJumpdest (U E) (sc_contract sc) (jumpdests evm) pos)"
  proof (cases "analysis_ok (sc_contract sc) (jumpdests evm)")
    case True
    have len: "length (Code (sc_contract sc)) < 2 ^ 64" using assms(2) by (simp add: frame_ok_def)
    obtain c' jds' where v: "validJumpdest (U E) (sc_contract sc) (jumpdests evm) pos =
        Ret (jumpdest_spec (Code (sc_contract sc)) pos, c', jds')"
      "analysis_step (sc_contract sc) (jumpdests evm) c' jds'"
      by (rule validJumpdest_ok [OF uint256 True len])
    have "\<exists>b. sc_contract sc = (sc_contract sc)\<lparr> analysis := b \<rparr>"
      by (rule exI [of _ "analysis (sc_contract sc)"]) simp
    with v show ?thesis by (auto simp: analysis_step_def)
  next
    case False
    with assms(3) have "RuntimeError \<in> Pan" by (simp add: jump_ok_def)
    then show ?thesis by (rule validJumpdest_any)
  qed
  then show ?thesis unfolding jump_to_def go_spec_bind
    using assms by (elim go_spec_mono) (auto simp: goes_def frame_ok_def Let_def)
qed

lemma exec_jumps:
  "exec_ok (Suc 0) 1025 None no_reserve False opJump"
  "exec_ok 2 1026 None no_reserve False opJumpi"
proof -
  have *: "go_spec Pan (\<lambda>((res, err), pc', evm', sc').
       goes evm evm' \<and> (err = None \<longrightarrow> frame_ok sc')
       \<and> unat (Gas (sc_contract sc')) \<le> unat (Gas (sc_contract sc)))
       (jump_to E pos pc (evm\<lparr> abort_loads := k \<rparr>) (sc\<lparr> sc_stack := st \<rparr>))"
    if "goes evm evm" "frame_ok sc" "jump_ok evm sc" "length st \<le> 1024" for evm sc pos pc st k
    using that by (intro jump_to_spec) (auto simp: goes_def jump_ok_def intro: frame_stack)
  show "exec_ok (Suc 0) 1025 None no_reserve False opJump"
    by (rule exec_okI) (auto simp: opJump_def load_abort_def stack_heights goes_def
        intro!: * [unfolded goes_def, simplified])
  show "exec_ok 2 1026 None no_reserve False opJumpi"
    by (rule exec_okI) (auto simp: opJumpi_def load_abort_def stack_heights goes_def Let_def
        intro!: * [unfolded goes_def, simplified] frame_stack)
qed

section \<open>Writing instructions\<close>

lemma exec_sstore: "exec_ok 2 1026 None no_reserve False opSstore"
  by (rule exec_okI)
    (auto simp: opSstore_def stack_heights intro!: db_do_write frame_stack)

lemma exec_selfdestruct: "exec_ok (Suc 0) 1025 None no_reserve True opSelfdestruct"
  by (rule exec_haltI)
    (auto simp: opSelfdestruct_def stack_heights Let_def intro!: db_get_rule db_do_write db_Suicide_rule,
     blast+)

lemma pop_topics_Ret:
  "k \<le> length st \<Longrightarrow> \<exists>topics. pop_topics u k st = Ret (topics, drop k st)"
  by (induction k arbitrary: st) (fastforce simp: Suc_le_length_iff)+

lemma exec_log: "exec_ok (k + 2) (k + 1026) (Some memoryLog) no_reserve False (makeLog k)"
proof (rule exec_okI)
  fix n and run :: "'s runner" and pc evm sc
  assume f: "frame_ok sc" "k + 2 \<le> length (sc_stack sc)" "length (sc_stack sc) \<le> k + 1026" "goes evm evm"
    and m: "mem_covers (Some memoryLog) (sc_stack sc) (sc_mem sc)"
  then obtain a b st where st: "sc_stack sc = a # b # st" "k \<le> length st"
    by (auto simp: Suc_le_length_iff)
  from covers_range [OF m [unfolded memoryLog_def]] st
  have "fits a b (length (store (sc_mem sc)))" by simp
  then have cp: "GetCopy (ucast a) (ucast b) (sc_mem sc) =
      Ret (take (unat b) (drop (unat (ucast a :: u64)) (store (sc_mem sc))))"
    using f by (intro GetCopy_fits mem_ok_length frame_mem_ok)
  obtain topics where "pop_topics (U E) k st = Ret (topics, drop k st)"
    using pop_topics_Ret [OF st(2)] by blast
  with f st cp show "go_spec Pan (\<lambda>((res, err), pc', evm', sc').
       goes evm evm' \<and> (err = None \<longrightarrow> \<not> False \<and> frame_ok sc')
       \<and> unat (Gas (sc_contract sc')) \<le> unat (Gas (sc_contract sc)) + no_reserve evm (sc_stack sc))
       (makeLog k run E pc evm sc)"
    by (auto simp: makeLog_def uint256_eqs intro!: db_do_write frame_stack)
qed

section \<open>Ending instructions\<close>

lemma exec_stops:
  "exec_ok 0 1024 None no_reserve True opStop" "exec_ok 0 1024 None no_reserve True opUndefined"
  by (rule exec_haltI; auto simp: opStop_def opUndefined_def)+

lemma exec_returns:
  "exec_ok 2 1026 (Some memoryReturn) no_reserve True opReturn"
  "exec_ok 2 1026 (Some memoryRevert) no_reserve True opRevert"
proof -
  have *: "GetPtr (ucast a) (ucast b) (sc_mem sc) =
      Ret (take (unat b) (drop (unat (ucast a :: u64)) (store (sc_mem sc))))"
    if "frame_ok sc" "mem_covers (Some (range_size 0 1)) (sc_stack sc) (sc_mem sc)"
      "sc_stack sc = a # b # st" for a b st sc
    using that covers_range [OF that(2)] by (intro GetPtr_fits mem_ok_length frame_mem_ok) auto
  show "exec_ok 2 1026 (Some memoryReturn) no_reserve True opReturn"
    by (rule exec_haltI) (auto simp: opReturn_def memoryReturn_def uint256_eqs stack_heights *)
  show "exec_ok 2 1026 (Some memoryRevert) no_reserve True opRevert"
    by (rule exec_haltI) (auto simp: opRevert_def memoryRevert_def uint256_eqs stack_heights * goes_def)
qed

end

end
