(* ===== verification/Evm_Frames.thy ===== *)
theory Evm_Frames
  imports Evm_Exec
begin

text \<open>
  Calls and creations: the functions of \<^verbatim>\<open>src/evm/evm.go\<close> never return more gas than they are
  given, keep the machine's invariant, leave the world alone under write protection, and a
  call that fails leaves the observable state as it was. The interpreter that runs the callee
  is assumed to have its own specification (\<open>runner_ok\<close>) for less gas.
\<close>

lemma length_address_rlp: "length (rlp_string (address_bytes a)) = 21"
  by (simp add: rlp_string_def rlp_head_def)

lemma length_u64_rlp: "length (rlp_string (nat_bytes (unat (n :: u64)))) \<le> 9"
proof -
  have "length (nat_bytes (unat n)) \<le> 8"
    by (cases "unat n = 0") (simp_all add: nat_bytes_def byte_len_u64)
  then show ?thesis by (simp add: rlp_string_def length_rlp_head)
qed

lemma CreateAddress_Ret: obtains a where "CreateAddress K b nonce = Ret a"
proof -
  have "length (enc_val (VSlice [VByteArray (address_bytes b), VUint nonce])) < 2 ^ 64"
    using length_address_rlp [of b] length_u64_rlp [of nonce]
    by (simp add: rlp_seq_def length_rlp_head)
  then show thesis
    using that by (simp add: CreateAddress_def EncodeToBytes_ok)
qed

context evm_machine
begin

section \<open>Snapshots\<close>

definition newer :: "'s evm \<Rightarrow> nat \<Rightarrow> bool" where
  "newer e0 snap \<longleftrightarrow> (\<forall>i y. restorable (statedb e0) i y \<longrightarrow> i < snap)"

text \<open>What a call promises: no more gas than it was given, and a state as before if it fails.\<close>

definition call_post :: "'s evm \<Rightarrow> nat \<Rightarrow> (bytes \<times> u64 \<times> vm_error option) \<times> 's evm \<Rightarrow> bool" where
  "call_post e0 m = (\<lambda>((ret, g, err), evm'). goes e0 evm' \<and> unat g \<le> m
     \<and> (err \<noteq> None \<longrightarrow> obs (statedb evm') = obs (statedb e0)))"

lemma db_Snapshot_rule:
  assumes "goes e0 evm"
    and Q: "\<And>snap evm'. goes e0 evm' \<Longrightarrow> obs (statedb evm') = obs (statedb evm) \<Longrightarrow>
      restorable (statedb evm') snap (obs (statedb evm)) \<Longrightarrow>
      newer e0 snap \<Longrightarrow> Q (snap, evm')"
  shows "go_spec Pan Q (db_get (db_Snapshot (db E)) evm)"
proof -
  have k: "keeps restorable (statedb e0) (statedb evm)" using assms(1) by (simp add: goes_def)
  have "Q (snap, evm\<lparr> statedb := s' \<rparr>)"
    if "inv s'" "keeps restorable (statedb evm) s'" "obs s' = obs (statedb evm)"
      "restorable s' snap (obs (statedb evm))"
      "\<forall>i x. restorable (statedb evm) i x \<longrightarrow> i < snap" for snap s'
  proof (rule Q)
    show "goes e0 (evm\<lparr> statedb := s' \<rparr>)" using that by (intro goes_db [OF assms(1)]) simp_all
    show "newer e0 snap" using that(5) k unfolding keeps_def newer_def by blast
  qed (use that in simp_all)
  then show ?thesis unfolding db_get_def go_spec_bind
    by (intro go_spec_mono [OF Snapshot [OF goes_inv [OF assms(1)]]]) auto
qed

lemma db_Exist_rule:
  assumes "goes e0 evm"
    and Q: "\<And>x evm'. goes e0 evm' \<Longrightarrow> obs (statedb evm') = obs (statedb evm) \<Longrightarrow>
      (\<not> x \<longrightarrow> go_spec Pan (\<lambda>s''. world (obs s'') = world (obs (statedb evm')))
         (db_CreateAccount (db E) a (statedb evm'))) \<Longrightarrow> Q (x, evm')"
  shows "go_spec Pan Q (db_get (db_Exist (db E) a) evm)"
  unfolding db_get_def go_spec_bind
  by (rule go_spec_mono [OF Exist [OF goes_inv [OF assms(1)]]])
    (auto intro!: Q goes_db [OF assms(1)])

lemma db_CreateAccount_rule:
  assumes "goes e0 evm"
    and "go_spec Pan (\<lambda>s''. world (obs s'') = world (obs (statedb evm)))
         (db_CreateAccount (db E) a (statedb evm))"
    and Q: "\<And>evm'. goes e0 evm' \<Longrightarrow> Q evm'"
  shows "go_spec Pan Q (db_do (db_CreateAccount (db E) a) evm)"
  unfolding db_do_def go_spec_bind
  by (rule go_spec_mono [OF go_spec_conj [OF assms(2) CreateAccount [OF goes_inv [OF assms(1)]]]])
    (auto intro!: Q goes_db [OF assms(1)])

lemma Transfer_rule:
  assumes "goes e0 evm" "readOnly e0 \<longrightarrow> v = 0" and Q: "\<And>evm'. goes e0 evm' \<Longrightarrow> Q evm'"
  shows "go_spec Pan Q (db_do (Transfer (Context E) a b v) evm)"
  unfolding db_do_def go_spec_bind
  by (rule go_spec_mono [OF Transfer_keeps [OF goes_inv [OF assms(1)]]])
    (use assms(2) in \<open>auto intro!: Q goes_db [OF assms(1)]\<close>)

text \<open>Reverting to a snapshot taken after \<open>e0\<close>.\<close>

lemma db_Revert_rule:
  assumes "goes e0 evm" "restorable (statedb evm) snap x" "newer e0 snap"
    "readOnly e0 \<longrightarrow> world x = world (obs (statedb e0))"
    and Q: "\<And>evm'. goes e0 evm' \<Longrightarrow> obs (statedb evm') = x \<Longrightarrow> Q evm'"
  shows "go_spec Pan Q (db_do (db_RevertToSnapshot (db E) snap) evm)"
proof -
  have "Q (evm\<lparr> statedb := s' \<rparr>)"
    if "inv s'" "obs s' = x" "\<forall>i y. i < snap \<longrightarrow> restorable (statedb evm) i y \<longrightarrow> restorable s' i y" for s'
  proof (rule Q)
    have "keeps restorable (statedb e0) s'"
      using that(3) assms(1,3) unfolding goes_def keeps_def newer_def by blast
    then show "goes e0 (evm\<lparr> statedb := s' \<rparr>)" using that assms(1,4) by (simp add: goes_def)
  qed (use that in simp)
  then show ?thesis unfolding db_do_def go_spec_bind
    by (intro go_spec_mono [OF RevertToSnapshot [OF goes_inv [OF assms(1)] assms(2)]]) auto
qed

lemma finish_call_spec:
  assumes "goes e1 evm" "goes e0 e1" "restorable (statedb e1) snap (obs (statedb e0))"
    "newer e0 snap" "unat g \<le> m"
  shows "go_spec Pan (call_post e0 m) (finish_call E snap ret g err evm)"
proof -
  have "restorable (statedb evm) snap (obs (statedb e0))"
    using assms(1,3) by (simp add: goes_def keeps_def)
  moreover have "goes e0 evm" using assms(1,2) by (rule goes_trans [rotated])
  ultimately show ?thesis using assms(4,5)
    by (auto simp: finish_call_def call_post_def intro!: db_Revert_rule split: option.splits)
qed

section \<open>Precompiled contracts\<close>

lemma RunPrecompiledContract_spec:
  "go_spec Pan (\<lambda>(ret, g, err). unat g \<le> unat gas) (RunPrecompiledContract (crypto E) p input gas)"
proof -
  have len: "128 \<le> length (RightPadBytes input 128)" by (simp add: RightPadBytes_def)
  have "go_spec Pan (\<lambda>_. True) (precompile_Run (crypto E) p input)"
    using len pubkey
    by (cases p) (auto simp: ecrecover_Run_def Let_def slice_go_def index_go_def split: option.splits)
  then show ?thesis
    by (auto simp: RunPrecompiledContract_def Let_def not_less unat_sub elim!: go_spec_mono)
qed

section \<open>Running a callee\<close>

lemma goes_jumpdests: "goes e0 (evm\<lparr> jumpdests := j \<rparr>) = goes e0 evm"
  by (simp add: goes_def)

lemma runner_okD:
  "runner_ok n run \<Longrightarrow> inv (statedb evm) \<Longrightarrow> unat (Gas c) < n \<Longrightarrow> length (Code c) < 2 ^ 63 \<Longrightarrow>
   length input < 2 ^ 63 \<Longrightarrow> cvalue c \<noteq> None \<Longrightarrow>
   go_spec Pan (\<lambda>(r, c', evm'). goes evm evm' \<and> unat (Gas c') \<le> unat (Gas c)
     \<and> (ro \<longrightarrow> world (obs (statedb evm')) = world (obs (statedb evm)))) (run c input ro evm)"
  by (simp add: runner_ok_def)

lemma run_contract_spec:
  assumes "runner_ok n run" "goes e0 evm" "unat (Gas c) < n" "length (Code c) < 2 ^ 63"
    "length input < 2 ^ 63" "cvalue c \<noteq> None" "unat (Gas c) \<le> m"
  shows "go_spec Pan (\<lambda>((ret, g, err), evm'). goes e0 evm' \<and> unat g \<le> m
      \<and> (ro \<longrightarrow> world (obs (statedb evm')) = world (obs (statedb evm)))) (run_contract run c input ro evm)"
proof -
  have "go_spec Pan (\<lambda>(r, c', evm'). goes evm evm' \<and> unat (Gas c') \<le> unat (Gas c)
      \<and> (ro \<longrightarrow> world (obs (statedb evm')) = world (obs (statedb evm)))) (run c input ro evm)"
    using assms(1,3-6) goes_inv [OF assms(2)] by (intro runner_okD)
  then show ?thesis unfolding run_contract_def go_spec_bind
    by (rule go_spec_mono) (use assms(7) in \<open>auto intro: goes_trans [OF assms(2)]\<close>)
qed

text \<open>The common end of the calls: run the callee, then \<open>finish_call\<close>.\<close>

lemma run_finish_spec:
  assumes "go_spec Pan (\<lambda>((ret, g, err), evm'). goes e1 evm' \<and> unat g \<le> m) r"
    "goes e0 e1" "restorable (statedb e1) snap (obs (statedb e0))" "newer e0 snap"
  shows "go_spec Pan (call_post e0 m)
      (go_bind r (\<lambda>((ret, gas, err), evm). finish_call E snap ret gas err evm))"
  unfolding go_spec_bind
  by (rule go_spec_mono [OF assms(1)]) (auto intro!: finish_call_spec [OF _ assms(2-4)])

lemma call_callee_spec:
  assumes "goes e1 e2" "runner_ok n run" "unat gas < n" "length input < 2 ^ 63"
  shows "go_spec Pan (\<lambda>((ret, g, err), evm'). goes e1 evm' \<and> unat g \<le> unat gas)
      (call_callee run E clr addr input gas value e2)"
  using assms unfolding call_callee_def
  by (auto simp: new_contract_def NewContract_def SetCallCode_def goes_jumpdests
      intro!: db_GetCode_rule db_get_rule go_spec_mono [OF run_contract_spec]
        go_spec_mono [OF RunPrecompiledContract_spec] split: option.splits)

lemma call_post_err:
  "goes e0 evm \<Longrightarrow> obs (statedb evm) = obs (statedb e0) \<Longrightarrow> call_post e0 (unat g) ((r, g, err), evm)"
  by (simp add: call_post_def)

lemma call_post_ok: "goes e0 e1 \<Longrightarrow> goes e1 evm \<Longrightarrow> call_post e0 (unat g) ((r, g, None), evm)"
  by (auto simp: call_post_def intro: goes_trans)

lemma evm_Call_spec:
  assumes run: "runner_ok n run" "unat gas < n" and inv: "inv (statedb evm)"
    and args: "length input < 2 ^ 63" "readOnly evm \<longrightarrow> value = 0"
  shows "go_spec Pan (call_post evm (unat gas)) (evm_Call run E clr addr input gas value evm)"
proof -
  define tail where "tail snapshot e2 = go_bind (call_callee run E clr addr input gas value e2)
    (\<lambda>((ret, gas, err), evm). finish_call E snapshot ret gas err evm)" for snapshot e2
  have tail: "go_spec Pan (call_post evm (unat gas)) (tail snap e2)"
    if "goes evm e1" "restorable (statedb e1) snap (obs (statedb evm))" "newer evm snap" "goes e1 e2"
    for e1 e2 snap
    unfolding tail_def
    by (rule run_finish_spec [OF call_callee_spec [OF that(4) run args(1)] that(1,2,3)])
  define mid where "mid snapshot e1 =
      go_bind (db_get (db_Exist (db E) addr) e1) (\<lambda>(exist, evm).
      if \<not> exist \<and> precompile E addr = None \<and> value = 0 then Ret (([], gas, None), evm)
      else
      go_bind (if \<not> exist then db_do (db_CreateAccount (db E) addr) evm else Ret evm) (\<lambda>evm.
      go_bind (db_do (Transfer (Context E) (ref_Address clr) addr value) evm) (tail snapshot)))"
    for snapshot e1
  have mid: "go_spec Pan (call_post evm (unat gas)) (mid snap e1)"
    if e1: "goes evm e1" "restorable (statedb e1) snap (obs (statedb evm))" "newer evm snap" for e1 snap
  proof -
    have "readOnly e1 \<longrightarrow> value = 0" "goes e1 e1" using e1(1) args(2) by (auto simp: goes_def)
    with tail [OF e1] call_post_ok [OF e1(1)] show ?thesis unfolding mid_def
      by (auto intro!: db_Exist_rule [where ?e0.0 = e1] db_CreateAccount_rule [where ?e0.0 = e1]
          Transfer_rule [where ?e0.0 = e1])
  qed
  show ?thesis
    unfolding evm_Call_def tail_def [symmetric] Let_def mid_def [symmetric]
    using goes_refl [OF inv] mid
    by (auto intro!: db_get_rule [OF readers(11)] call_post_err db_Snapshot_rule [where ?e0.0 = evm])
qed

lemma evm_CallCode_spec:
  assumes run: "runner_ok n run" "unat gas < n" and inv: "inv (statedb evm)"
    and args: "length input < 2 ^ 63"
  shows "go_spec Pan (call_post evm (unat gas)) (evm_CallCode run E clr addr input gas v evm)"
proof -
  define callee where "callee e2 =
        (case precompile E addr of
           Some p \<Rightarrow> go_map (\<lambda>r. (r, e2)) (RunPrecompiledContract (crypto E) p input gas)
         | None \<Rightarrow>
             let (contract, evm) = new_contract clr (ref_Address clr) (Some v) gas e2 in
             go_bind (db_get (db_GetCodeHash (db E) addr) evm) (\<lambda>(h, evm).
             go_bind (db_get (db_GetCode (db E) addr) evm) (\<lambda>(code, evm).
             run_contract run (SetCallCode addr h code contract) input False evm)))" for e2
  have "go_spec Pan (\<lambda>((ret, g, err), evm'). goes e1 evm' \<and> unat g \<le> unat gas) (callee e1)"
    if "goes e1 e1" for e1
    using that run args unfolding callee_def
    by (auto simp: new_contract_def NewContract_def SetCallCode_def goes_jumpdests
        intro!: db_GetCode_rule db_get_rule go_spec_mono [OF run_contract_spec]
          go_spec_mono [OF RunPrecompiledContract_spec] split: option.splits)
  note tail = run_finish_spec [OF this [OF goes_refl [OF goes_inv]]]
  show ?thesis
    unfolding evm_CallCode_def callee_def [symmetric]
    using goes_refl [OF inv]
    by (auto intro!: db_get_rule [OF readers(11)] call_post_err db_Snapshot_rule [where ?e0.0 = evm]
        tail [simplified])
qed

lemma evm_DelegateCall_spec:
  assumes run: "runner_ok n run" "unat gas < n" and inv: "inv (statedb evm)"
    and args: "length input < 2 ^ 63" "clr = ContractRef a b (Some v)"
  shows "go_spec Pan (call_post evm (unat gas)) (evm_DelegateCall run E clr addr input gas evm)"
proof -
  define callee where "callee e2 =
        (case precompile E addr of
           Some p \<Rightarrow> go_map (\<lambda>r. (r, e2)) (RunPrecompiledContract (crypto E) p input gas)
         | None \<Rightarrow>
             let (contract, evm) = new_contract clr (ref_Address clr) None gas e2 in
             go_bind (AsDelegate contract) (\<lambda>contract.
             go_bind (db_get (db_GetCodeHash (db E) addr) evm) (\<lambda>(h, evm).
             go_bind (db_get (db_GetCode (db E) addr) evm) (\<lambda>(code, evm).
             run_contract run (SetCallCode addr h code contract) input False evm))))" for e2
  have "go_spec Pan (\<lambda>((ret, g, err), evm'). goes e1 evm' \<and> unat g \<le> unat gas) (callee e1)"
    if "goes e1 e1" for e1
    using that run args unfolding callee_def
    by (auto simp: new_contract_def NewContract_def SetCallCode_def AsDelegate_def goes_jumpdests
        intro!: db_GetCode_rule db_get_rule go_spec_mono [OF run_contract_spec]
          go_spec_mono [OF RunPrecompiledContract_spec] split: option.splits)
  note tail = run_finish_spec [OF this [OF goes_refl [OF goes_inv]]]
  show ?thesis
    unfolding evm_DelegateCall_def callee_def [symmetric]
    using goes_refl [OF inv]
    by (auto intro!: call_post_err db_Snapshot_rule [where ?e0.0 = evm] tail [simplified])
qed

text \<open>A static call leaves the world as it was, whatever it returns.\<close>

definition static_post :: "'s evm \<Rightarrow> nat \<Rightarrow> (bytes \<times> u64 \<times> vm_error option) \<times> 's evm \<Rightarrow> bool" where
  "static_post e0 m r \<longleftrightarrow> call_post e0 m r \<and> world (obs (statedb (snd r))) = world (obs (statedb e0))"

lemma finish_static_spec:
  assumes "goes e1 evm" "goes e0 e1" "restorable (statedb e1) snap (obs (statedb e0))"
    "newer e0 snap" "unat g \<le> m" "world (obs (statedb evm)) = world (obs (statedb e0))"
  shows "go_spec Pan (static_post e0 m) (finish_call E snap ret g err evm)"
proof -
  have "restorable (statedb evm) snap (obs (statedb e0))"
    using assms(1,3) by (simp add: goes_def keeps_def)
  with goes_trans [OF assms(2,1)] assms(4-6) show ?thesis
    by (auto simp: finish_call_def static_post_def call_post_def intro!: db_Revert_rule
        split: option.splits)
qed

lemma evm_StaticCall_spec:
  assumes run: "runner_ok n run" "unat gas < n" and inv: "inv (statedb evm)"
    and args: "length input < 2 ^ 63"
  shows "go_spec Pan (static_post evm (unat gas)) (evm_StaticCall run E clr addr input gas evm)"
proof -
  define callee where "callee e2 =
        (case precompile E addr of
           Some p \<Rightarrow> go_map (\<lambda>r. (r, e2)) (RunPrecompiledContract (crypto E) p input gas)
         | None \<Rightarrow>
             let (contract, evm) = new_contract clr addr (Some 0) gas e2 in
             go_bind (db_get (db_GetCodeHash (db E) addr) evm) (\<lambda>(h, evm).
             go_bind (db_get (db_GetCode (db E) addr) evm) (\<lambda>(code, evm).
             run_contract run (SetCallCode addr h code contract) input True evm)))" for e2
  have callee: "go_spec Pan (\<lambda>((ret, g, err), evm'). goes e1 evm' \<and> unat g \<le> unat gas
      \<and> world (obs (statedb evm')) = world (obs (statedb e2))) (callee e2)" if "goes e1 e2" for e1 e2
    using that run args unfolding callee_def
    by (auto simp: new_contract_def NewContract_def SetCallCode_def goes_jumpdests
        intro!: db_GetCode_rule db_get_rule go_spec_mono [OF run_contract_spec]
          go_spec_mono [OF RunPrecompiledContract_spec] split: option.splits)
  define tail where "tail snapshot e2 = go_bind (callee e2)
    (\<lambda>((ret, gas, err), evm). finish_call E snapshot ret gas err evm)" for snapshot e2
  have tail: "go_spec Pan (\<lambda>e2. go_spec Pan (static_post evm (unat gas)) (tail snap e2))
      (db_do (db_AddBalance (db E) addr 0) e1)"
    if e1: "goes evm e1" "restorable (statedb e1) snap (obs (statedb evm))" "newer evm snap"
      "obs (statedb e1) = obs (statedb evm)" for e1 snap
    unfolding tail_def go_spec_bind
    by (rule db_do_hush [OF hushers_0(1) goes_refl [OF goes_inv [OF e1(1)]]],
        rule go_spec_mono [OF callee])
      (auto intro!: finish_static_spec [OF _ e1(1-3)] simp: e1(4))
  have "static_post evm (unat gas) (([], gas, Some ErrDepth), evm)"
    using goes_refl [OF inv] by (simp add: static_post_def call_post_def)
  with tail show ?thesis
    unfolding evm_StaticCall_def callee_def [symmetric] tail_def [symmetric]
    using goes_refl [OF inv] by (auto intro!: db_Snapshot_rule [where ?e0.0 = evm])
qed

section \<open>Contract creation\<close>

definition create_post ::
  "'s evm \<Rightarrow> nat \<Rightarrow> (bytes \<times> address \<times> u64 \<times> vm_error option) \<times> 's evm \<Rightarrow> bool" where
  "create_post e0 m = (\<lambda>((ret, a, g, err), evm'). goes e0 evm' \<and> unat g \<le> m)"

lemma UseGas_le: "unat (Gas (snd (UseGas g c))) \<le> unat (Gas c)"
  by (simp add: UseGas_def not_less unat_sub)

lemma store_code_spec:
  assumes "goes e0 evm" "\<not> readOnly e0"
  shows "go_spec Pan (\<lambda>(err', c', evm'). goes e0 evm' \<and> unat (Gas c') \<le> unat (Gas c))
      (store_code E address ret err c evm)"
proof -
  have set: "go_spec Pan (\<lambda>evm'. goes e0 evm') (db_do (db_SetCode (db E) address ret) evm)"
    if "length ret \<le> MaxCodeSize"
    unfolding db_do_def go_spec_bind
    by (rule go_spec_mono [OF SetCode [OF goes_inv [OF assms(1)]]])
      (use that assms in \<open>auto intro!: goes_db [OF assms(1)]\<close>)
  then show ?thesis
    using assms(1)
    by (auto simp: store_code_def Let_def UseGas_def not_less unat_sub elim!: go_spec_mono)
qed

lemma end_create_spec:
  assumes "goes e0 e1" "restorable (statedb e1) snap x" "newer e0 snap" "goes e1 evm"
    "unat (Gas c) \<le> m" "\<not> readOnly e0"
  shows "go_spec Pan (create_post e0 m) (end_create E snap address ret err c evm)"
proof -
  have "restorable (statedb evm) snap x" using assms(2,4) by (simp add: goes_def keeps_def)
  with goes_trans [OF assms(1,4)] assms(3,5,6) UseGas_le [of "Gas c" c] show ?thesis
    by (auto simp: end_create_def create_post_def Let_def intro!: db_Revert_rule split: option.splits)
qed

lemma create_callee_spec:
  assumes run: "runner_ok n run" "unat gas < n" and code: "length (ch_code ch) < 2 ^ 63"
    and e: "goes e0 e1" "restorable (statedb e1) snap x" "newer e0 snap" "goes e1 e2" "\<not> readOnly e0"
  shows "go_spec Pan (create_post e0 (unat gas)) (create_callee run E clr ch gas value address snap e2)"
proof -
  obtain c0 e3 where new: "new_contract clr address (Some value) gas e2 = (c0, e3)"
    by (cases "new_contract clr address (Some value) gas e2")
  define c where "c = SetCodeOptionalHash address ch c0"
  have c: "Gas c = gas" "Code c = ch_code ch" "cvalue c = Some value" and e3: "goes e1 e3"
    using e(4) new by (auto simp: c_def new_contract_def NewContract_def SetCodeOptionalHash_def
        goes_jumpdests)
  have ro: "\<not> readOnly e1" using e(1,5) by (simp add: goes_def)
  have "go_spec Pan (\<lambda>(r, c', evm'). goes e1 evm' \<and> unat (Gas c') \<le> unat gas) (run c [] False e3)"
    by (rule go_spec_mono [OF runner_okD [OF run(1) goes_inv [OF e3]]])
      (use run(2) code c in \<open>auto intro: goes_trans [OF e3]\<close>)
  then show ?thesis
    unfolding create_callee_def new c_def [symmetric] Let_def prod.case go_spec_bind
    by (elim go_spec_mono)
      (auto intro!: go_spec_mono [OF store_code_spec [OF _ ro]] end_create_spec [OF e(1-3)] simp: e(5))
qed

lemma evm_create_spec:
  assumes run: "runner_ok n run" "unat gas < n" and inv: "inv (statedb evm)"
    and args: "length (ch_code ch) < 2 ^ 63" "\<not> readOnly evm"
  shows "go_spec Pan (create_post evm (unat gas)) (evm_create run E clr ch gas value address evm)"
proof -
  have post: "create_post evm (unat gas) (([], 0, g, Some e), evm')"
    if "goes evm evm'" "unat g \<le> unat gas" for evm' g e
    using that by (simp add: create_post_def)
  have snap: "go_spec Pan (\<lambda>x. go_spec Pan (create_post evm (unat gas))
      (case x of (snapshot, evm) \<Rightarrow>
        go_bind (db_do (db_CreateAccount (db E) address) evm) (\<lambda>evm.
        go_bind (db_do (Transfer (Context E) (ref_Address clr) address value) evm)
          (create_callee run E clr ch gas value address snapshot))))
      (db_get (db_Snapshot (db E)) e0)" if e0: "goes evm e0" for e0
  proof (rule db_Snapshot_rule [OF e0])
    fix snap e1
    assume e1: "goes evm e1" "restorable (statedb e1) snap (obs (statedb e0))" "newer evm snap"
    then have "\<not> readOnly e1" "goes e1 e1" using args(2) by (simp_all add: goes_def)
    then show "go_spec Pan (create_post evm (unat gas)) (case (snap, e1) of (snapshot, evm) \<Rightarrow>
        go_bind (db_do (db_CreateAccount (db E) address) evm) (\<lambda>evm.
        go_bind (db_do (Transfer (Context E) (ref_Address clr) address value) evm)
          (create_callee run E clr ch gas value address snapshot)))"
      using create_callee_spec [OF run args(1) e1] args(2)
      by (auto intro!: db_do_write [where ?e0.0 = e1])
  qed
  show ?thesis
    unfolding evm_create_def
    using goes_refl [OF inv] args(2)
    by (auto intro!: post db_get_rule [OF readers(11)] db_get_rule [OF readers(2)]
        db_get_rule [OF readers(3)] db_do_write [where ?e0.0 = evm] snap [simplified])
qed

lemma create_post_goes: "goes e0 e1 \<Longrightarrow> create_post e1 m r \<Longrightarrow> create_post e0 m r"
  by (auto simp: create_post_def intro: goes_trans)

lemma evm_Create_spec:
  assumes "runner_ok n run" "unat gas < n" "inv (statedb evm)" "length code < 2 ^ 63" "\<not> readOnly evm"
  shows "go_spec Pan (create_post evm (unat gas)) (evm_Create run E clr code gas value evm)"
proof -
  have "go_spec Pan (create_post evm (unat gas))
      (go_bind (CreateAddress (crypto E) b nonce) (\<lambda>a.
       evm_create run E clr \<lparr> ch_code = code, ch_hash = 0 \<rparr> gas value a evm'))"
    if "goes evm evm'" for evm' b nonce
  proof -
    obtain a where a: "CreateAddress (crypto E) b nonce = Ret a" by (rule CreateAddress_Ret)
    have "\<not> readOnly evm'" using that assms(5) by (simp add: goes_def)
    then have "go_spec Pan (create_post evm' (unat gas))
        (evm_create run E clr \<lparr> ch_code = code, ch_hash = 0 \<rparr> gas value a evm')"
      using assms goes_inv [OF that] by (intro evm_create_spec [OF assms(1,2)]) simp_all
    with a show ?thesis by (auto elim: go_spec_mono intro: create_post_goes [OF that])
  qed
  with goes_refl [OF assms(3)] show ?thesis
    unfolding evm_Create_def go_spec_bind by (intro db_get_rule [OF readers(2)]) auto
qed

lemma evm_Create2_spec:
  assumes "runner_ok n run" "unat gas < n" "inv (statedb evm)" "length code < 2 ^ 63" "\<not> readOnly evm"
  shows "go_spec Pan (create_post evm (unat gas)) (evm_Create2 run E clr code gas value salt evm)"
  unfolding evm_Create2_def codeAndHash_Hash_def Let_def prod.case
  using assms by (intro evm_create_spec [OF assms(1,2)]) simp_all

section \<open>The calling instructions\<close>

text \<open>The gas that the gas function of a calling instruction has set aside for the callee.\<close>

definition call_reserve :: "'s evm \<Rightarrow> stack \<Rightarrow> nat" where
  "call_reserve evm st = unat (callGasTemp evm) + (if st ! 2 \<noteq> 0 then unat CallStipend else 0)"

definition plain_reserve :: "'s evm \<Rightarrow> stack \<Rightarrow> nat" where
  "plain_reserve evm st = unat (callGasTemp evm)"

lemma add_gas_le:
  "unat (Gas (sc_contract sc)) + m < 2 ^ 64 \<Longrightarrow> unat g \<le> m \<Longrightarrow>
   unat (Gas (sc_contract (add_gas g sc))) \<le> unat (Gas (sc_contract sc)) + m"
  by (simp add: add_gas_def unat_u64_add)

lemma frame_add_gas: "frame_ok (add_gas g sc) = frame_ok sc"
  by (simp add: frame_ok_def add_gas_def)

lemma goes_returnData: "goes e0 (evm\<lparr> returnData := d \<rparr>) = goes e0 evm"
  by (simp add: goes_def)

lemma finish_opcall_spec:
  assumes "goes e0 evm" "frame_ok sc" "length (sc_stack sc) \<le> 1023"
    "fits off l (length (store (sc_mem sc)))" "unat g \<le> m" "unat (Gas (sc_contract sc)) + m < 2 ^ 64"
  shows "go_spec Pan (\<lambda>((res, err), pc', evm', sc'). goes e0 evm' \<and> (err = None \<longrightarrow> frame_ok sc')
      \<and> unat (Gas (sc_contract sc')) \<le> unat (Gas (sc_contract sc)) + m)
      (finish_opcall E off l (ret, g, err) pc evm sc)"
proof -
  have fr: "frame_ok (sc\<lparr> sc_stack := push t (sc_stack sc), sc_mem := mem \<rparr>)" if "mem_ok mem" for t mem
    using assms(2,3) that by (simp add: frame_ok_def push_def)
  have gas: "unat (Gas (sc_contract (add_gas g (sc\<lparr> sc_stack := t, sc_mem := mem \<rparr>))))
      \<le> unat (Gas (sc_contract sc)) + m" for t mem
    using add_gas_le [of "sc\<lparr> sc_stack := t, sc_mem := mem \<rparr>" m g] assms(5,6) by simp
  show ?thesis
    unfolding finish_opcall_def uint256_eqs
    using assms(1) fr fr [OF frame_mem_ok [OF assms(2)], simplified] gas frame_mem_ok [OF assms(2)]
    by (auto simp: Let_def frame_add_gas goes_returnData intro!: Memory_Set_spec [OF assms(4)])
qed

text \<open>A call within its reserve, followed by the end of the instruction.\<close>

lemma call_finish_spec:
  assumes "go_spec Pan (call_post evm (unat g)) r" "frame_ok sc" "length (sc_stack sc) \<le> 1023"
    "fits off l (length (store (sc_mem sc)))" "unat (Gas (sc_contract sc)) + m < 2 ^ 64" "unat g \<le> m"
  shows "go_spec Pan (\<lambda>((res, err), pc', evm', sc'). goes evm evm' \<and> (err = None \<longrightarrow> frame_ok sc')
      \<and> unat (Gas (sc_contract sc')) \<le> unat (Gas (sc_contract sc)) + m)
      (go_bind r (\<lambda>(x, evm). finish_opcall E off l x pc evm sc))"
  unfolding go_spec_bind
  by (rule go_spec_mono [OF assms(1)])
    (use assms(5,6) in \<open>auto simp: call_post_def intro!: finish_opcall_spec [OF _ assms(2-4)]\<close>)

lemma frame_popped: "frame_ok sc \<Longrightarrow> sc_stack sc = xs @ st \<Longrightarrow> frame_ok (sc\<lparr> sc_stack := st \<rparr>)"
  by (simp add: frame_ok_def)

lemma frame_cvalue: "frame_ok sc \<Longrightarrow> \<exists>v. cvalue (sc_contract sc) = Some v"
  by (simp add: frame_ok_def)

lemma static_call_post: "go_spec Pan (static_post e0 m) r \<Longrightarrow> go_spec Pan (call_post e0 m) r"
  by (erule go_spec_mono) (simp add: static_post_def)

lemma call_args:
  assumes "frame_ok sc" "sc_stack sc = xs @ st" "length (sc_stack sc) \<le> length xs + 1023"
    "fits io il (length (store (sc_mem sc)))"
  shows "GetPtr (ucast io) (ucast il) (sc_mem sc) =
      Ret (take (unat il) (drop (unat (ucast io :: u64)) (store (sc_mem sc))))"
    "length (take (unat il) (drop (unat (ucast io :: u64)) (store (sc_mem sc)))) < 2 ^ 63"
    "frame_ok (sc\<lparr> sc_stack := st \<rparr>)" "length (sc_stack (sc\<lparr> sc_stack := st \<rparr>)) \<le> 1023"
  using assms mem_ok_length [OF frame_mem_ok [OF assms(1)]]
  by (auto intro!: GetPtr_fits frame_popped)

lemma exec_call: "exec_ok 7 1030 (Some memoryCall) call_reserve False opCall"
proof (rule exec_okI)
  fix n and run :: "'s runner" and pc evm sc
  assume run: "runner_ok n run" and inv: "inv (statedb evm)" and f: "frame_ok sc"
    "7 \<le> length (sc_stack sc)" "length (sc_stack sc) \<le> 1030" "goes evm evm"
    and m: "mem_covers (Some memoryCall) (sc_stack sc) (sc_mem sc)"
    and gas: "unat (Gas (sc_contract sc)) + call_reserve evm (sc_stack sc) < n"
      "unat (Gas (sc_contract sc)) + call_reserve evm (sc_stack sc) < 2 ^ 64"
  from f obtain a b v io il ro rl st where st: "sc_stack sc = a # b # v # io # il # ro # rl # st"
    by (auto simp: stack_heights)
  have fit: "fits io il (length (store (sc_mem sc)))" "fits ro rl (length (store (sc_mem sc)))"
    using covers_max [OF m [unfolded memoryCall_def]] st by simp_all
  define g where "g = (if v \<noteq> 0 then callGasTemp evm + CallStipend else callGasTemp evm)"
  have g: "unat g = call_reserve evm (sc_stack sc)"
    using gas(2) by (simp add: g_def call_reserve_def st unat_u64_add split: if_splits)
  have gn: "unat g < n" using g gas(1) by simp
  note args = call_args [of sc "[a, b, v, io, il, ro, rl]" st, OF f(1) _ _ fit(1)]
  have st': "sc_stack sc = [a, b, v, io, il, ro, rl] @ st" "length (sc_stack sc) \<le> length [a, b, v, io, il, ro, rl] + 1023"
    using st f(3) by simp_all
  have fin: "go_spec Pan (\<lambda>((res, err), pc', evm', sc'). goes evm evm' \<and> (err = None \<longrightarrow> frame_ok sc')
      \<and> unat (Gas (sc_contract sc')) \<le> unat (Gas (sc_contract sc)) + call_reserve evm (sc_stack sc))
      (go_bind (evm_Call run E clr addr
        (take (unat il) (drop (unat (ucast io :: u64)) (store (sc_mem sc)))) g bv evm)
        (\<lambda>(x, evm). finish_opcall E ro rl x pc evm (sc\<lparr> sc_stack := st \<rparr>)))" if "readOnly evm \<longrightarrow> bv = 0" for clr addr bv
    using call_finish_spec [OF evm_Call_spec [OF run gn inv args(2) [OF st'] that, where clr = clr and addr = addr]
      args(3,4) [OF st'], where off = ro and l = rl and m = "unat g" and pc = pc] fit(2) gas(2) g by simp
  show "go_spec Pan (\<lambda>((res, err), pc', evm', sc').
       goes evm evm' \<and> (err = None \<longrightarrow> \<not> False \<and> frame_ok sc')
       \<and> unat (Gas (sc_contract sc')) \<le> unat (Gas (sc_contract sc)) + call_reserve evm (sc_stack sc))
       (opCall run E pc evm sc)"
    using fin f st
    by (auto simp: opCall_def uint256_eqs args(1) [OF st'] g_def Let_def simp del: go_spec_bind)
qed

lemma exec_callcode: "exec_ok 7 1030 (Some memoryCall) call_reserve False opCallCode"
proof (rule exec_okI)
  fix n and run :: "'s runner" and pc evm sc
  assume run: "runner_ok n run" and inv: "inv (statedb evm)" and f: "frame_ok sc"
    "7 \<le> length (sc_stack sc)" "length (sc_stack sc) \<le> 1030" "goes evm evm"
    and m: "mem_covers (Some memoryCall) (sc_stack sc) (sc_mem sc)"
    and gas: "unat (Gas (sc_contract sc)) + call_reserve evm (sc_stack sc) < n"
      "unat (Gas (sc_contract sc)) + call_reserve evm (sc_stack sc) < 2 ^ 64"
  from f obtain a b v io il ro rl st where st: "sc_stack sc = a # b # v # io # il # ro # rl # st"
    by (auto simp: stack_heights)
  have fit: "fits io il (length (store (sc_mem sc)))" "fits ro rl (length (store (sc_mem sc)))"
    using covers_max [OF m [unfolded memoryCall_def]] st by simp_all
  define g where "g = (if v \<noteq> 0 then callGasTemp evm + CallStipend else callGasTemp evm)"
  have g: "unat g = call_reserve evm (sc_stack sc)"
    using gas(2) by (simp add: g_def call_reserve_def st unat_u64_add split: if_splits)
  have gn: "unat g < n" using g gas(1) by simp
  note args = call_args [of sc "[a, b, v, io, il, ro, rl]" st, OF f(1) _ _ fit(1)]
  have st': "sc_stack sc = [a, b, v, io, il, ro, rl] @ st" "length (sc_stack sc) \<le> length [a, b, v, io, il, ro, rl] + 1023"
    using st f(3) by simp_all
  have fin: "go_spec Pan (\<lambda>((res, err), pc', evm', sc'). goes evm evm' \<and> (err = None \<longrightarrow> frame_ok sc')
      \<and> unat (Gas (sc_contract sc')) \<le> unat (Gas (sc_contract sc)) + call_reserve evm (sc_stack sc))
      (go_bind (evm_CallCode run E clr addr
        (take (unat il) (drop (unat (ucast io :: u64)) (store (sc_mem sc)))) g bv evm)
        (\<lambda>(x, evm). finish_opcall E ro rl x pc evm (sc\<lparr> sc_stack := st \<rparr>)))" for clr addr bv
    using call_finish_spec [OF evm_CallCode_spec [OF run gn inv args(2) [OF st'], where clr = clr and addr = addr and v = bv]
      args(3,4) [OF st'], where off = ro and l = rl and m = "unat g" and pc = pc] fit(2) gas(2) g by simp
  show "go_spec Pan (\<lambda>((res, err), pc', evm', sc').
       goes evm evm' \<and> (err = None \<longrightarrow> \<not> False \<and> frame_ok sc')
       \<and> unat (Gas (sc_contract sc')) \<le> unat (Gas (sc_contract sc)) + call_reserve evm (sc_stack sc))
       (opCallCode run E pc evm sc)"
    using fin f st
    by (auto simp: opCallCode_def uint256_eqs args(1) [OF st'] g_def Let_def simp del: go_spec_bind)
qed

lemma exec_delegatecall: "exec_ok 6 1029 (Some memoryDelegateCall) plain_reserve False opDelegateCall"
proof (rule exec_okI)
  fix n and run :: "'s runner" and pc evm sc
  assume run: "runner_ok n run" and inv: "inv (statedb evm)" and f: "frame_ok sc"
    "6 \<le> length (sc_stack sc)" "length (sc_stack sc) \<le> 1029" "goes evm evm"
    and m: "mem_covers (Some memoryDelegateCall) (sc_stack sc) (sc_mem sc)"
    and gas: "unat (Gas (sc_contract sc)) + plain_reserve evm (sc_stack sc) < n"
      "unat (Gas (sc_contract sc)) + plain_reserve evm (sc_stack sc) < 2 ^ 64"
  from f obtain a b io il ro rl st where st: "sc_stack sc = a # b # io # il # ro # rl # st"
    by (auto simp: stack_heights)
  have fit: "fits io il (length (store (sc_mem sc)))" "fits ro rl (length (store (sc_mem sc)))"
    using covers_max [OF m [unfolded memoryDelegateCall_def]] st by simp_all
  define g where "g = callGasTemp evm"
  have g: "unat g = plain_reserve evm (sc_stack sc)"
    using gas(2) by (simp add: g_def plain_reserve_def st unat_u64_add split: if_splits)
  have gn: "unat g < n" using g gas(1) by simp
  note args = call_args [of sc "[a, b, io, il, ro, rl]" st, OF f(1) _ _ fit(1)]
  have st': "sc_stack sc = [a, b, io, il, ro, rl] @ st" "length (sc_stack sc) \<le> length [a, b, io, il, ro, rl] + 1023"
    using st f(3) by simp_all
  have fin: "go_spec Pan (\<lambda>((res, err), pc', evm', sc'). goes evm evm' \<and> (err = None \<longrightarrow> frame_ok sc')
      \<and> unat (Gas (sc_contract sc')) \<le> unat (Gas (sc_contract sc)) + plain_reserve evm (sc_stack sc))
      (go_bind (evm_DelegateCall run E clr addr
        (take (unat il) (drop (unat (ucast io :: u64)) (store (sc_mem sc)))) g evm)
        (\<lambda>(x, evm). finish_opcall E ro rl x pc evm (sc\<lparr> sc_stack := st \<rparr>)))" if "clr = ContractRef x y (Some z)" for clr addr x y z
    using call_finish_spec [OF evm_DelegateCall_spec [OF run gn inv args(2) [OF st'] that, where addr = addr]
      args(3,4) [OF st'], where off = ro and l = rl and m = "unat g" and pc = pc] fit(2) gas(2) g by simp
  show "go_spec Pan (\<lambda>((res, err), pc', evm', sc').
       goes evm evm' \<and> (err = None \<longrightarrow> \<not> False \<and> frame_ok sc')
       \<and> unat (Gas (sc_contract sc')) \<le> unat (Gas (sc_contract sc)) + plain_reserve evm (sc_stack sc))
       (opDelegateCall run E pc evm sc)"
    using fin f st frame_cvalue [OF f(1)]
    by (auto simp: opDelegateCall_def contract_as_ref_def uint256_eqs args(1) [OF st'] g_def Let_def simp del: go_spec_bind)
qed

lemma exec_staticcall: "exec_ok 6 1029 (Some memoryStaticCall) plain_reserve False opStaticCall"
proof (rule exec_okI)
  fix n and run :: "'s runner" and pc evm sc
  assume run: "runner_ok n run" and inv: "inv (statedb evm)" and f: "frame_ok sc"
    "6 \<le> length (sc_stack sc)" "length (sc_stack sc) \<le> 1029" "goes evm evm"
    and m: "mem_covers (Some memoryStaticCall) (sc_stack sc) (sc_mem sc)"
    and gas: "unat (Gas (sc_contract sc)) + plain_reserve evm (sc_stack sc) < n"
      "unat (Gas (sc_contract sc)) + plain_reserve evm (sc_stack sc) < 2 ^ 64"
  from f obtain a b io il ro rl st where st: "sc_stack sc = a # b # io # il # ro # rl # st"
    by (auto simp: stack_heights)
  have fit: "fits io il (length (store (sc_mem sc)))" "fits ro rl (length (store (sc_mem sc)))"
    using covers_max [OF m [unfolded memoryStaticCall_def]] st by simp_all
  define g where "g = callGasTemp evm"
  have g: "unat g = plain_reserve evm (sc_stack sc)"
    using gas(2) by (simp add: g_def plain_reserve_def st unat_u64_add split: if_splits)
  have gn: "unat g < n" using g gas(1) by simp
  note args = call_args [of sc "[a, b, io, il, ro, rl]" st, OF f(1) _ _ fit(1)]
  have st': "sc_stack sc = [a, b, io, il, ro, rl] @ st" "length (sc_stack sc) \<le> length [a, b, io, il, ro, rl] + 1023"
    using st f(3) by simp_all
  have fin: "go_spec Pan (\<lambda>((res, err), pc', evm', sc'). goes evm evm' \<and> (err = None \<longrightarrow> frame_ok sc')
      \<and> unat (Gas (sc_contract sc')) \<le> unat (Gas (sc_contract sc)) + plain_reserve evm (sc_stack sc))
      (go_bind (evm_StaticCall run E clr addr
        (take (unat il) (drop (unat (ucast io :: u64)) (store (sc_mem sc)))) g evm)
        (\<lambda>(x, evm). finish_opcall E ro rl x pc evm (sc\<lparr> sc_stack := st \<rparr>)))" for clr addr
    using call_finish_spec [OF static_call_post [OF evm_StaticCall_spec [OF run gn inv args(2) [OF st'], where clr = clr and addr = addr]]
      args(3,4) [OF st'], where off = ro and l = rl and m = "unat g" and pc = pc] fit(2) gas(2) g by simp
  show "go_spec Pan (\<lambda>((res, err), pc', evm', sc').
       goes evm evm' \<and> (err = None \<longrightarrow> \<not> False \<and> frame_ok sc')
       \<and> unat (Gas (sc_contract sc')) \<le> unat (Gas (sc_contract sc)) + plain_reserve evm (sc_stack sc))
       (opStaticCall run E pc evm sc)"
    using fin f st
    by (auto simp: opStaticCall_def uint256_eqs args(1) [OF st'] g_def Let_def simp del: go_spec_bind)
qed

text \<open>The creating instructions hand over gas of the frame and take back what is left.\<close>

lemma create_finish_spec:
  assumes run: "go_spec Pan (create_post evm (unat g)) r" and f: "frame_ok sc" "length (sc_stack sc) \<le> 1023"
    and g: "unat g \<le> unat (Gas (sc_contract sc))"
  shows "go_spec Pan (\<lambda>((res, err), pc', evm', sc'). goes evm evm' \<and> (err = None \<longrightarrow> frame_ok sc')
      \<and> unat (Gas (sc_contract sc')) \<le> unat (Gas (sc_contract sc)))
      (go_bind r (\<lambda>((res, addr, returnGas, suberr), evm).
        finish_create res suberr pc evm
          (add_gas returnGas ((use_gas g sc)\<lparr> sc_stack := push (t res addr returnGas suberr) (sc_stack sc) \<rparr>))))"
proof -
  have left: "unat (Gas (sc_contract sc)) - unat g + unat g' < 2 ^ 64" if "unat g' \<le> unat g" for g' :: u64
    using that g unsigned_less [of "Gas (sc_contract sc)", where ?'a = nat] by simp
  have "unat (Gas (sc_contract sc) - g + g') \<le> unat (Gas (sc_contract sc))" if "unat g' \<le> unat g" for g'
    using left [OF that] that g by (simp add: unat_u64_add unat_sub word_le_nat_alt)
  then show ?thesis
    unfolding go_spec_bind
    by (intro go_spec_mono [OF run])
      (use f g in \<open>auto simp: create_post_def finish_create_def goes_returnData frame_ok_def add_gas_def
         use_gas_def UseGas_def push_def word_less_nat_alt word_le_nat_alt\<close>)
qed

lemma gas_64th_le: "(g :: u64) - g div 64 \<le> g"
  by (simp add: word_le_nat_alt unat_sub unat_div)

lemma stack_use_gas: "sc_stack (use_gas g sc) = sc_stack sc"
  by (simp add: use_gas_def)

lemma exec_create: "exec_ok 3 1026 (Some memoryCreate) no_reserve False opCreate"
proof (rule exec_okI)
  fix n and run :: "'s runner" and pc evm sc
  assume run: "runner_ok n run" and inv: "inv (statedb evm)" and f: "frame_ok sc"
    "3 \<le> length (sc_stack sc)" "length (sc_stack sc) \<le> 1026" "goes evm evm"
    and m: "mem_covers (Some memoryCreate) (sc_stack sc) (sc_mem sc)"
    and gas: "unat (Gas (sc_contract sc)) + 0 < n"
  from f obtain v off sz st where st: "sc_stack sc = v # off # sz # st"
    by (auto simp: stack_heights)
  have fit: "fits off sz (length (store (sc_mem sc)))"
    using covers_range [OF m [unfolded memoryCreate_def]] st by simp
  note args = call_args [of sc "[v, off, sz]" st, OF f(1) _ _ fit]
  have st': "sc_stack sc = [v, off, sz] @ st" "length (sc_stack sc) \<le> length [v, off, sz] + 1023"
    using st f(3) by simp_all
  note copy = GetCopy_fits [OF fit mem_ok_length [OF frame_mem_ok [OF f(1)]]]
  have run_create: "go_spec Pan (create_post evm (unat g))
      (evm_Create run E clr (take (unat sz) (drop (unat (ucast off :: u64)) (store (sc_mem sc)))) g bv evm)"
    if "g \<le> Gas (sc_contract sc)" "\<not> readOnly evm" for g clr bv
    using that gas inv args(2) [OF st'] by (intro evm_Create_spec [OF run]) (simp_all add: word_le_nat_alt)
  have fin: "go_spec Pan (\<lambda>((res, err), pc', evm', sc'). goes evm evm' \<and> (err = None \<longrightarrow> frame_ok sc')
      \<and> unat (Gas (sc_contract sc')) \<le> unat (Gas (sc_contract sc)))
      (go_bind (evm_Create run E clr (take (unat sz) (drop (unat (ucast off :: u64)) (store (sc_mem sc)))) g bv evm)
        (\<lambda>((res, addr, returnGas, suberr), evm). finish_create res suberr pc evm
          (add_gas returnGas ((use_gas g (sc\<lparr> sc_stack := st \<rparr>))\<lparr> sc_stack := push (t res addr returnGas suberr) st \<rparr>))))"
    if "g \<le> Gas (sc_contract sc)" "\<not> readOnly evm" for g clr bv t
    using create_finish_spec [OF run_create [OF that] args(3,4) [OF st'], where t = t] that by (simp add: word_le_nat_alt)
  show "go_spec Pan (\<lambda>((res, err), pc', evm', sc').
       goes evm evm' \<and> (err = None \<longrightarrow> \<not> False \<and> frame_ok sc')
       \<and> unat (Gas (sc_contract sc')) \<le> unat (Gas (sc_contract sc)) + 0)
       (opCreate run E pc evm sc)"
    unfolding opCreate_def
    using f st gas_64th_le
    by (auto simp: uint256_eqs copy Let_def stack_use_gas simp del: go_spec_bind intro!: fin)
qed

lemma exec_create2: "exec_ok 4 1027 (Some memoryCreate2) no_reserve False opCreate2"
proof (rule exec_okI)
  fix n and run :: "'s runner" and pc evm sc
  assume run: "runner_ok n run" and inv: "inv (statedb evm)" and f: "frame_ok sc"
    "4 \<le> length (sc_stack sc)" "length (sc_stack sc) \<le> 1027" "goes evm evm"
    and m: "mem_covers (Some memoryCreate2) (sc_stack sc) (sc_mem sc)"
    and gas: "unat (Gas (sc_contract sc)) + 0 < n"
  from f obtain v off sz salt st where st: "sc_stack sc = v # off # sz # salt # st"
    by (auto simp: stack_heights)
  have fit: "fits off sz (length (store (sc_mem sc)))"
    using covers_range [OF m [unfolded memoryCreate2_def]] st by simp
  note args = call_args [of sc "[v, off, sz, salt]" st, OF f(1) _ _ fit]
  have st': "sc_stack sc = [v, off, sz, salt] @ st" "length (sc_stack sc) \<le> length [v, off, sz, salt] + 1023"
    using st f(3) by simp_all
  note copy = GetCopy_fits [OF fit mem_ok_length [OF frame_mem_ok [OF f(1)]]]
  have run_create: "go_spec Pan (create_post evm (unat g))
      (evm_Create2 run E clr (take (unat sz) (drop (unat (ucast off :: u64)) (store (sc_mem sc)))) g bv salt evm)"
    if "g \<le> Gas (sc_contract sc)" "\<not> readOnly evm" for g clr bv
    using that gas inv args(2) [OF st'] by (intro evm_Create2_spec [OF run]) (simp_all add: word_le_nat_alt)
  have fin: "go_spec Pan (\<lambda>((res, err), pc', evm', sc'). goes evm evm' \<and> (err = None \<longrightarrow> frame_ok sc')
      \<and> unat (Gas (sc_contract sc')) \<le> unat (Gas (sc_contract sc)))
      (go_bind (evm_Create2 run E clr (take (unat sz) (drop (unat (ucast off :: u64)) (store (sc_mem sc)))) g bv salt evm)
        (\<lambda>((res, addr, returnGas, suberr), evm). finish_create res suberr pc evm
          (add_gas returnGas ((use_gas g (sc\<lparr> sc_stack := st \<rparr>))\<lparr> sc_stack := push (t res addr returnGas suberr) st \<rparr>))))"
    if "g \<le> Gas (sc_contract sc)" "\<not> readOnly evm" for g clr bv t
    using create_finish_spec [OF run_create [OF that] args(3,4) [OF st'], where t = t] that by (simp add: word_le_nat_alt)
  show "go_spec Pan (\<lambda>((res, err), pc', evm', sc').
       goes evm evm' \<and> (err = None \<longrightarrow> \<not> False \<and> frame_ok sc')
       \<and> unat (Gas (sc_contract sc')) \<le> unat (Gas (sc_contract sc)) + 0)
       (opCreate2 run E pc evm sc)"
    unfolding opCreate2_def
    using f st gas_64th_le
    by (auto simp: uint256_eqs copy Let_def stack_use_gas simp del: go_spec_bind intro!: fin)
qed

end

end
