(* ===== verification/Evm_Charge.thy ===== *)
theory Evm_Charge
  imports Evm_Frames
begin

text \<open>
  The gas functions of \<^verbatim>\<open>src/evm/gas_table.go\<close> and \<^verbatim>\<open>src/evm/operations_acl.go\<close>: what each asks for covers
  the fee of the memory it allows and the gas it sets aside for a callee; and \<open>charge_dynamic\<close>,
  which takes it, leaves a memory that covers the ranges of the instruction.
\<close>

section \<open>The fee of the memory\<close>

lemma mem_fee_mono: "v \<le> w \<Longrightarrow> mem_fee v \<le> mem_fee w"
  unfolding mem_fee_def by (intro add_mono div_le_mono mult_le_mono) simp_all

lemma mem_fee_bound: "w < 2 ^ 32 \<Longrightarrow> mem_fee w < 2 ^ 57"
proof -
  assume w: "w < 2 ^ 32"
  then have "w * w \<le> 2 ^ 32 * 2 ^ 32" by (intro mult_le_mono) simp_all
  then have "w * w div 512 \<le> 2 ^ 55" by simp
  with w show ?thesis unfolding mem_fee_def by simp
qed

text \<open>What an accepted gas calculation leaves in the memory record: the fee of the size asked
  for, with the contents untouched.\<close>

definition charged :: "Memory \<Rightarrow> u64 \<Rightarrow> Memory \<Rightarrow> bool" where
  "charged mem sz mem' \<longleftrightarrow> store mem' = store mem \<and> unat sz \<le> 0x1FFFFFFFE0
     \<and> unat (lastGasCost mem') = mem_fee (max (length (store mem)) (unat sz) div 32)"

lemma charged_0: "mem_ok mem \<Longrightarrow> charged mem 0 mem"
  by (simp add: charged_def mem_ok_def)

text \<open>\<^verbatim>\<open>memoryGasCost\<close> computes the quadratic fee without a wrap-around.\<close>

lemma total_fee_unat:
  fixes w :: u64
  assumes "unat w < 2 ^ 32"
  shows "unat (w * MemoryGas + w * w div QuadCoeffDiv) = mem_fee (unat w)"
proof -
  have "unat w * unat w \<le> (2 ^ 32 - 1) * (2 ^ 32 - 1)" using assms by (intro mult_le_mono) simp_all
  then have "unat (w * w) = unat w * unat w" by (subst unat_u64_mult) simp_all
  moreover have "unat (w * 3) = unat w * 3" using assms by (subst unat_u64_mult) simp_all
  moreover note mem_fee_bound [OF assms]
  ultimately show ?thesis by (subst unat_u64_add) (simp_all add: unat_div mem_fee_def mult.commute)
qed

lemma memoryGasCost_cases:
  assumes mem: "mem_ok mem" and sz: "32 dvd unat sz"
  obtains (ok) g mem' where "memoryGasCost mem sz = ((g, None), mem')" "charged mem sz mem'"
      "unat g < 2 ^ 57" "unat (lastGasCost mem') = unat (lastGasCost mem) + unat g"
    | (err) e where "memoryGasCost mem sz = ((0, Some e), mem)" "0x1FFFFFFFE0 < unat sz"
proof -
  define w where "w = toWordSize sz"
  have words: "32 * unat w = unat sz"
    using sz by (simp add: w_def toWordSize_unat) presburger
  have len: "length (store mem) \<le> 0x1FFFFFFFE0" "unat (word_of_nat (length (store mem)) :: u64) = length (store mem)"
    using mem by (simp_all add: mem_ok_def unat_of_nat)
  consider "sz = 0" | "sz > 0x1FFFFFFFE0" | "sz \<noteq> 0" "sz \<le> 0x1FFFFFFFE0" by fastforce
  then show thesis
  proof cases
    case 1
    with ok [of 0 mem] mem show thesis by (simp add: memoryGasCost_def charged_0)
  next
    case 2
    then have "sz \<noteq> 0" by auto
    with 2 err show thesis by (simp add: memoryGasCost_def word_less_nat_alt)
  next
    case 3
    then have le: "unat sz \<le> 0x1FFFFFFFE0" by (simp add: word_le_nat_alt)
    then have w: "unat w < 2 ^ 32" using words by simp
    then have w32: "unat (w * 32) = unat sz" using words by (subst unat_u64_mult) simp_all
    let ?total = "w * MemoryGas + w * w div QuadCoeffDiv"
    have fee: "unat ?total = mem_fee (unat sz div 32)"
      using total_fee_unat [OF w] by (simp flip: words)
    show thesis
    proof (cases "length (store mem) < unat sz")
      case True
      then have "unat (lastGasCost mem) \<le> unat ?total"
        using mem fee by (auto simp: mem_ok_def intro!: mem_fee_mono div_le_mono)
      then have sub: "unat (?total - lastGasCost mem) = unat ?total - unat (lastGasCost mem)"
        "unat (lastGasCost mem) \<le> unat ?total" by (simp_all add: unat_sub word_le_nat_alt)
      then have "unat (?total - lastGasCost mem) \<le> unat ?total" by simp
      also have "\<dots> < 2 ^ 57" unfolding total_fee_unat [OF w] by (rule mem_fee_bound [OF w])
      finally show thesis
        using 3 True w32 fee le len sub ok [of "?total - lastGasCost mem" "mem\<lparr> lastGasCost := ?total \<rparr>"]
        by (simp add: memoryGasCost_def Let_def charged_def max_def word_less_nat_alt word_le_nat_alt
            Memory_Len_def flip: w_def)
    next
      case False
      then show thesis using 3 le w32 len mem ok [of 0 mem]
        by (simp add: memoryGasCost_def Let_def charged_def max_def word_less_nat_alt word_le_nat_alt
            mem_ok_def Memory_Len_def flip: w_def)
    qed
  qed
qed



section \<open>The contract of a gas function\<close>

context evm_machine
begin

text \<open>\<open>gas_spec lo mm rs lower g\<close>: on a stack of at least \<open>lo\<close> words (and size 0 unless the
  instruction uses memory), the gas function \<open>g\<close> keeps the machine well-formed, and the gas it
  asks for covers the reserve \<open>rs\<close> and at least \<open>lower\<close>.\<close>

definition gas_post ::
  "('s evm \<Rightarrow> stack \<Rightarrow> nat) \<Rightarrow> nat \<Rightarrow> 's evm \<Rightarrow> Contract \<Rightarrow> stack \<Rightarrow> Memory \<Rightarrow> u64
     \<Rightarrow> (u64 \<times> vm_error option) \<times> 's evm \<times> Contract \<times> Memory \<Rightarrow> bool" where
  "gas_post rs lower evm c st mem sz = (\<lambda>((cost, err), evm', c', mem').
     goes evm evm' \<and> jumpdests evm' = jumpdests evm \<and> unat (Gas c') \<le> unat (Gas c)
     \<and> (err = None \<longrightarrow> c' = c \<and> charged mem sz mem' \<and> rs evm' st + lower \<le> unat cost))"

definition gas_spec ::
  "nat \<Rightarrow> bool \<Rightarrow> ('s evm \<Rightarrow> stack \<Rightarrow> nat) \<Rightarrow> nat \<Rightarrow> 's gasFunc \<Rightarrow> bool" where
  "gas_spec lo mm rs lower g \<longleftrightarrow> (\<forall>evm c st mem sz.
     inv (statedb evm) \<longrightarrow> lo \<le> length st \<longrightarrow> mem_ok mem \<longrightarrow> 32 dvd unat sz \<longrightarrow> (mm \<or> sz = 0) \<longrightarrow>
     go_spec Pan (gas_post rs lower evm c st mem sz) (g E evm c st mem sz))"

lemma gas_post_simps:
  "gas_post rs lower evm c st mem sz ((cost, Some e), evm', c', mem') \<longleftrightarrow>
     goes evm evm' \<and> jumpdests evm' = jumpdests evm \<and> unat (Gas c') \<le> unat (Gas c)"
  "gas_post rs lower evm c st mem sz ((cost, None), evm', c', mem') \<longleftrightarrow>
     goes evm evm' \<and> jumpdests evm' = jumpdests evm \<and> c' = c \<and> charged mem sz mem'
     \<and> rs evm' st + lower \<le> unat cost"
  by (auto simp: gas_post_def)

lemma gas_specI:
  assumes "\<And>evm c st mem sz. goes evm evm \<Longrightarrow> lo \<le> length st \<Longrightarrow> mem_ok mem \<Longrightarrow>
     32 dvd unat sz \<Longrightarrow> mm \<or> sz = 0 \<Longrightarrow>
     go_spec Pan (gas_post rs lower evm c st mem sz) (g E evm c st mem sz)"
  shows "gas_spec lo mm rs lower g"
  unfolding gas_spec_def using assms goes_refl by simp

text \<open>The start of the functions that pay for memory.\<close>

lemma memoryGasCost_rule:
  assumes "mem_ok mem" "32 dvd unat sz"
    and "\<And>e. Q ((0, Some e), mem)"
    and "\<And>g mem'. charged mem sz mem' \<Longrightarrow> unat g < 2 ^ 57 \<Longrightarrow> Q ((g, None), mem')"
  shows "Q (memoryGasCost mem sz)"
  by (rule memoryGasCost_cases [OF assms(1,2)]) (simp_all add: assms(3,4))

lemma memory_case_rule:
  assumes "mem_ok mem" "32 dvd unat sz" "\<And>e. go_spec P Q (f e mem)"
    "\<And>g mem'. charged mem sz mem' \<Longrightarrow> unat g < 2 ^ 57 \<Longrightarrow> go_spec P Q (h g mem')"
  shows "go_spec P Q (case memoryGasCost mem sz of ((_, Some err), mem) \<Rightarrow> f err mem
     | ((gas, None), mem) \<Rightarrow> h gas mem)"
  by (rule memoryGasCost_rule [OF assms(1,2)]) (simp_all add: assms(3,4))

lemma gas_pure: "gas_spec lo True no_reserve 0 pureMemoryGascost"
proof (rule gas_specI)
  fix evm c st mem and sz :: u64
  assume *: "goes evm evm" "mem_ok mem" "32 dvd unat sz"
  show "go_spec Pan (gas_post no_reserve 0 evm c st mem sz) (pureMemoryGascost E evm c st mem sz)"
    unfolding pureMemoryGascost_def
    by (rule memoryGasCost_rule [OF *(2,3)]) (use *(1) in \<open>simp_all add: gas_post_simps\<close>)
qed

lemma add_word_gas_spec:
  assumes "goes evm evm" "i < length st" "charged mem sz mem'"
  shows "go_spec Pan (gas_post no_reserve 0 evm c st mem sz) (add_word_gas g price i E evm c st mem' sz)"
  using assms by (auto simp: add_word_gas_def gas_post_simps Let_def split: prod.splits)

lemma gas_words:
  "i < lo \<Longrightarrow> gas_spec lo True no_reserve 0 (memoryCopierGas i)"
  "1 < lo \<Longrightarrow> gas_spec lo True no_reserve 0 gasKeccak256"
  "2 < lo \<Longrightarrow> gas_spec lo True no_reserve 0 gasCreate2"
proof -
  have *: "go_spec Pan (gas_post no_reserve 0 evm c st mem sz)
      (case memoryGasCost mem sz of
         ((_, Some err), mem) \<Rightarrow> gas_err err evm c mem
       | ((gas, None), mem) \<Rightarrow> add_word_gas gas price i E evm c st mem sz)"
    if "goes evm evm" "i < length st" "mem_ok mem" "32 dvd unat sz"
    for evm c st mem price i and sz :: u64
    by (rule memoryGasCost_rule [OF that(3,4)])
      (use that(1,2) in \<open>simp_all add: gas_post_simps add_word_gas_spec\<close>)
  show "i < lo \<Longrightarrow> gas_spec lo True no_reserve 0 (memoryCopierGas i)"
    "1 < lo \<Longrightarrow> gas_spec lo True no_reserve 0 gasKeccak256"
    "2 < lo \<Longrightarrow> gas_spec lo True no_reserve 0 gasCreate2"
    by (auto intro!: gas_specI * simp: memoryCopierGas_def gasKeccak256_def gasCreate2_def)
qed

lemma gas_log: "2 \<le> lo \<Longrightarrow> gas_spec lo True no_reserve 1 (makeGasLog n)"
proof (rule gas_specI)
  fix evm c and st :: stack and mem and sz :: u64
  assume *: "2 \<le> lo" "goes evm evm" "lo \<le> length st" "mem_ok mem" "32 dvd unat sz"
  have "go_spec Pan (gas_post no_reserve 1 evm c st mem sz)
      (case memoryGasCost mem sz of
         ((_, Some err), mem) \<Rightarrow> gas_err err evm c mem
       | ((gas, None), mem) \<Rightarrow>
           let (gas, overflow) = SafeAdd gas LogGas in
           if overflow then gas_err ErrGasUintOverflow evm c mem
           else let (gas, overflow) = SafeAdd gas (n * LogTopicGas) in
           if overflow then gas_err ErrGasUintOverflow evm c mem
           else let (memorySizeGas, overflow) = SafeMul w LogDataGas in
           if overflow then gas_err ErrGasUintOverflow evm c mem
           else let (gas, overflow) = SafeAdd gas memorySizeGas in
           if overflow then gas_err ErrGasUintOverflow evm c mem
           else gas_ok gas evm c mem)" for w
    by (rule memoryGasCost_rule [OF *(4,5)])
      (use *(2) in \<open>auto simp: gas_post_simps Let_def SafeAdd_def SafeMul_def not_le unat_u64_add\<close>)
  moreover obtain w b where "u_Uint64WithOverflow (U E) (st ! 1) = (w, b)" by fastforce
  ultimately show "go_spec Pan (gas_post no_reserve 1 evm c st mem sz) (makeGasLog n E evm c st mem sz)"
    unfolding makeGasLog_def Let_def using *(1-3) by (cases b) (simp_all add: gas_post_simps)
qed

lemma gas_exp: "gas_spec 2 False no_reserve 1 (gasExp perByte)"
  by (rule gas_specI)
    (auto simp: gasExp_def gas_post_simps Let_def SafeAdd_def not_le unat_u64_add charged_0)

text \<open>The functions that only ask the state.\<close>

lemma gas_state_specI:
  assumes "\<And>evm c st mem sz. goes evm evm \<Longrightarrow> lo \<le> length st \<Longrightarrow> mem_ok mem \<Longrightarrow>
     go_spec Pan (gas_post rs lower evm c st mem 0) (g E evm c st mem sz)"
  shows "gas_spec lo False rs lower g"
  using assms by (intro gas_specI) simp

lemma gas_sstore:
  "gas_spec 2 False no_reserve 1 gasSStore"
  "gas_spec 2 False no_reserve 1 gasSStoreEIP2200"
  "gas_spec 2 False no_reserve 1 (makeGasSStoreFunc refund)"
proof -
  have *: "go_spec Pan (gas_post no_reserve 1 evm c st mem 0) (gasSStore E evm c st mem sz)"
    "go_spec Pan (gas_post no_reserve 1 evm c st mem 0) (gasSStoreEIP2200 E evm c st mem sz)"
    "go_spec Pan (gas_post no_reserve 1 evm c st mem 0) (makeGasSStoreFunc refund E evm c st mem sz)"
    if "goes evm evm" "2 \<le> length st" "mem_ok mem" for evm c st mem sz
    using that by (auto simp: sstore gasSStore_def gasSStoreEIP2200_def makeGasSStoreFunc_def
        stack_heights gas_post_simps Let_def charged_0
        intro!: db_get_rule [where ?e0.0 = evm] db_do_hush [where ?e0.0 = evm])
  show "gas_spec 2 False no_reserve 1 gasSStore" "gas_spec 2 False no_reserve 1 gasSStoreEIP2200"
    "gas_spec 2 False no_reserve 1 (makeGasSStoreFunc refund)"
    by (rule gas_state_specI; simp add: * [simplified])+
qed

lemma gas_state:
  "gas_spec (Suc 0) False no_reserve 1 gasSLoadEIP2929"
  "gas_spec (Suc 0) False no_reserve 0 gasEip2929AccountCheck"
  "gas_spec (Suc 0) False no_reserve 0 (makeSelfdestructGasFn refunds)"
  "gas_spec (Suc 0) False no_reserve 0 gasSelfdestruct"
proof -
  have *: "go_spec Pan (gas_post no_reserve 1 evm c st mem 0) (gasSLoadEIP2929 E evm c st mem sz)"
    "go_spec Pan (gas_post no_reserve 0 evm c st mem 0) (gasEip2929AccountCheck E evm c st mem sz)"
    "go_spec Pan (gas_post no_reserve 0 evm c st mem 0) (makeSelfdestructGasFn refunds E evm c st mem sz)"
    "go_spec Pan (gas_post no_reserve 0 evm c st mem 0) (gasSelfdestruct E evm c st mem sz)"
    if "goes evm evm" "Suc 0 \<le> length st" "mem_ok mem" for evm c st mem sz
    using that by (auto simp: gasSLoadEIP2929_def gasEip2929AccountCheck_def
        makeSelfdestructGasFn_def gasSelfdestruct_def stack_heights gas_post_simps Let_def charged_0
        intro!: db_get_rule [where ?e0.0 = evm] db_do_hush [where ?e0.0 = evm])
  show "gas_spec (Suc 0) False no_reserve 1 gasSLoadEIP2929"
    "gas_spec (Suc 0) False no_reserve 0 gasEip2929AccountCheck"
    "gas_spec (Suc 0) False no_reserve 0 (makeSelfdestructGasFn refunds)"
    "gas_spec (Suc 0) False no_reserve 0 gasSelfdestruct"
    by (rule gas_state_specI; simp add: * [simplified])+
qed

lemma gas_extcodecopy2929: "gas_spec 4 True no_reserve 0 gasExtCodeCopyEIP2929"
proof (rule gas_specI)
  fix evm c and st :: stack and mem and sz :: u64
  assume *: "goes evm evm" "4 \<le> length st" "mem_ok mem" "32 dvd unat sz"
  have copy: "go_spec Pan (gas_post no_reserve 0 evm c st mem sz) (gasExtCodeCopy E evm c st mem sz)"
    using gas_words(1) [of 3 4] * by (simp add: gas_spec_def goes_inv gasExtCodeCopy_def)
  show "go_spec Pan (gas_post no_reserve 0 evm c st mem sz) (gasExtCodeCopyEIP2929 E evm c st mem sz)"
    unfolding gasExtCodeCopyEIP2929_def go_spec_bind
    by (rule go_spec_mono [OF copy]) (use *(2) in \<open>auto simp: gas_post_simps stack_heights Let_def SafeAdd_def
      split: option.splits intro!: db_get_rule [where ?e0.0 = evm] db_do_hush [where ?e0.0 = evm]\<close>)
qed

section \<open>The gas of calls\<close>

text \<open>The gas that is handed to a callee on top of the base cost cannot exceed what a 64-bit
  counter holds by less than the surcharge of a cold address.\<close>

lemma callGas_bound:
  assumes "callGas u True avail base cost = (t, None)" "unat base < 2 ^ 57 + 2 ^ 20" "unat avail + 2500 < 2 ^ 64"
  shows "unat base + unat t + 2500 < 2 ^ 64"
proof -
  define a where "a = avail - base"
  have "t \<le> a - a div 64"
    using assms(1) by (auto simp: callGas_def Let_def a_def split: if_splits)
  then have t: "unat t \<le> unat a - unat a div 64" by (simp add: word_le_nat_alt unat_sub unat_div)
  show ?thesis
  proof (cases "unat base \<le> unat avail")
    case True
    then have "unat a = unat avail - unat base" by (simp add: a_def unat_sub word_le_nat_alt)
    with t True assms(3) show ?thesis by simp
  next
    case False
    have "unat a < 64 * 2 ^ 58" using unat_u64_less [of a] by simp
    then have "unat a div 64 \<le> 2 ^ 58 - 1" "unat a mod 64 \<le> 63" by simp_all
    moreover have "unat t \<le> 63 * (unat a div 64) + unat a mod 64"
      using t mult_div_mod_eq [of 64 "unat a"] by linarith
    ultimately have "unat t \<le> 2 ^ 64 - 2 ^ 58" by simp
    with assms(2) show ?thesis by simp
  qed
qed

definition call_gas_post ::
  "('s evm \<Rightarrow> stack \<Rightarrow> nat) \<Rightarrow> 's evm \<Rightarrow> Contract \<Rightarrow> stack \<Rightarrow> Memory \<Rightarrow> u64
     \<Rightarrow> (u64 \<times> vm_error option) \<times> 's evm \<times> Contract \<times> Memory \<Rightarrow> bool" where
  "call_gas_post rs evm c st mem sz r \<longleftrightarrow> gas_post rs 0 evm c st mem sz r
     \<and> (IsEIP150 (chainRules E) \<longrightarrow> unat (Gas c) + 2500 < 2 ^ 64 \<longrightarrow> snd (fst r) = None
        \<longrightarrow> unat (fst (fst r)) + 2500 < 2 ^ 64)"

lemma goes_callGasTemp: "goes e0 (evm\<lparr> callGasTemp := t \<rparr>) = goes e0 evm"
  by (simp add: goes_def)

lemma finish_call_gas_spec:
  assumes "goes evm evm'" "jumpdests evm' = jumpdests evm" "0 < length st" "charged mem sz mem'"
    "unat g < 2 ^ 57 + 2 ^ 20" "\<And>t. rs (evm'\<lparr> callGasTemp := t \<rparr>) st \<le> unat g + unat t"
  shows "go_spec Pan (call_gas_post rs evm c st mem sz) (finish_call_gas g E evm' c st mem' sz)"
proof -
  obtain t err where t: "callGas (U E) (IsEIP150 (chainRules E)) (Gas c) g (st ! 0) = (t, err)"
    by fastforce
  show ?thesis
    using assms t callGas_bound [of "U E" "Gas c" g "st ! 0" t]
    by (cases err; cases "IsEIP150 (chainRules E)")
      (auto simp: finish_call_gas_def call_gas_post_def gas_post_simps goes_callGasTemp Let_def SafeAdd_def
        unat_u64_add not_le)
qed

definition call_gas_spec :: "nat \<Rightarrow> ('s evm \<Rightarrow> stack \<Rightarrow> nat) \<Rightarrow> 's gasFunc \<Rightarrow> bool" where
  "call_gas_spec lo rs g \<longleftrightarrow> (\<forall>evm c st mem sz.
     inv (statedb evm) \<longrightarrow> lo \<le> length st \<longrightarrow> mem_ok mem \<longrightarrow> 32 dvd unat sz \<longrightarrow>
     go_spec Pan (call_gas_post rs evm c st mem sz) (g E evm c st mem sz))"

lemma call_gas_spec_gas_spec: "call_gas_spec lo rs g \<Longrightarrow> gas_spec lo True rs 0 g"
  unfolding gas_spec_def
proof (intro allI impI)
  fix evm :: "'s evm" and c and st :: stack and mem and sz :: u64
  assume "call_gas_spec lo rs g" "inv (statedb evm)" "lo \<le> length st" "mem_ok mem" "32 dvd unat sz"
  then have "go_spec Pan (call_gas_post rs evm c st mem sz) (g E evm c st mem sz)"
    by (simp add: call_gas_spec_def)
  then show "go_spec Pan (gas_post rs 0 evm c st mem sz) (g E evm c st mem sz)"
    by (rule go_spec_mono) (simp add: call_gas_post_def)
qed

lemma call_gas_err:
  "goes evm evm' \<Longrightarrow> jumpdests evm' = jumpdests evm \<Longrightarrow>
   call_gas_post rs evm c st mem sz ((g, Some e), evm', c, mem')"
  by (simp add: call_gas_post_def gas_post_simps)

lemma gas_delegatecall: "call_gas_spec 6 plain_reserve gasDelegateCall"
  unfolding call_gas_spec_def gasDelegateCall_def
  by (intro allI impI memory_case_rule)
    (auto intro!: call_gas_err finish_call_gas_spec goes_refl simp: plain_reserve_def)

lemma gas_staticcall: "call_gas_spec 6 plain_reserve gasStaticCall"
  unfolding call_gas_spec_def gasStaticCall_def
  by (intro allI impI memory_case_rule)
    (auto intro!: call_gas_err finish_call_gas_spec goes_refl simp: plain_reserve_def)

lemma gas_callcode: "call_gas_spec 7 call_reserve gasCallCode"
  unfolding call_gas_spec_def gasCallCode_def
  by (intro allI impI memory_case_rule)
    (auto intro!: call_gas_err finish_call_gas_spec goes_refl
      simp: call_reserve_def uint256_eqs Let_def SafeAdd_def unat_u64_add not_le sgn_eq_0_iff signed_eq_0_iff)

lemma gas_call: "call_gas_spec 7 call_reserve gasCall"
  unfolding call_gas_spec_def
proof (intro allI impI)
  fix evm :: "'s evm" and c and st :: stack and mem and sz :: u64
  assume *: "inv (statedb evm)" "7 \<le> length st" "mem_ok mem" "32 dvd unat sz"
  define base :: "bool \<Rightarrow> u64" where "base exist =
    (let gas = (if \<not> exist then CallNewAccountGas else 0)
     in if \<not> u_IsZero (U E) (st ! 2) then gas + CallValueTransferGas else gas)" for exist
  have base: "unat (base exist) \<le> 34000" "st ! 2 \<noteq> 0 \<Longrightarrow> 2300 \<le> unat (base exist)" for exist
    by (auto simp: base_def uint256_eqs)
  have tail: "go_spec Pan (call_gas_post call_reserve evm c st mem sz)
      (case memoryGasCost mem sz of
          ((_, Some err), mem) \<Rightarrow> gas_err err evm' c mem
        | ((memoryGas, None), mem) \<Rightarrow>
            let (gas, overflow) = SafeAdd (base exist) memoryGas in
            if overflow then gas_err ErrGasUintOverflow evm' c mem
            else finish_call_gas gas E evm' c st mem sz)"
    if "goes evm evm'" "jumpdests evm' = jumpdests evm" for evm' exist
    by (rule memory_case_rule [OF *(3,4)])
      (use that *(2) base [of exist] in \<open>auto intro!: call_gas_err finish_call_gas_spec
        simp: call_reserve_def Let_def SafeAdd_def unat_u64_add not_le\<close>)
  have backs: "Back 2 st = Ret (st ! 2)" "Back 1 st = Ret (st ! 1)" using *(2) by simp_all
  show "go_spec Pan (call_gas_post call_reserve evm c st mem sz) (gasCall E evm c st mem sz)"
    unfolding gasCall_def backs go_bind.simps Let_def go_spec_bind
    by (rule db_get_rule [OF Exist_reads goes_refl [OF *(1)]])
      (simp only: prod.case tail [unfolded base_def Let_def])
qed

lemma gas_variant2929:
  assumes old: "call_gas_spec lo rs old" and "2 \<le> lo" "IsEIP150 (chainRules E)"
  shows "gas_spec lo True rs 0 (makeCallVariantGasCallEIP2929 old)"
proof (rule gas_specI)
  fix evm c and st :: stack and mem and sz :: u64
  assume *: "goes evm evm" "lo \<le> length st" "mem_ok mem" "32 dvd unat sz"
  have run: "go_spec Pan (call_gas_post rs evm' c' st mem sz) (old E evm' c' st mem sz)"
    if "goes evm evm'" for evm' c'
    using old * goes_inv [OF that] by (simp add: call_gas_spec_def)
  define k where "k = (\<lambda>((gas :: u64, err), evm :: 's evm, contract :: Contract, mem :: Memory).
    case err of Some e \<Rightarrow> Ret ((gas, err :: vm_error option), evm, contract, mem)
    | None \<Rightarrow> gas_ok (gas + (ColdAccountAccessCostEIP2929 - WarmStorageReadCostEIP2929)) evm
        (contract\<lparr> Gas := Gas contract + (ColdAccountAccessCostEIP2929 - WarmStorageReadCostEIP2929) \<rparr>) mem)"
  have cold: "go_spec Pan (\<lambda>x. go_spec Pan (gas_post rs 0 evm c st mem sz) (k x))
      (old E evm' (c\<lparr> Gas := Gas c - 2500 \<rparr>) st mem sz)"
    if e: "goes evm evm'" "jumpdests evm' = jumpdests evm" "\<not> Gas c < 2500" for evm'
  proof -
    have "unat (Gas c - 2500) + 2500 < 2 ^ 64" "unat (Gas c - 2500) \<le> unat (Gas c)"
      using e(3) unat_u64_less [of "Gas c"] by (simp_all add: word_less_nat_alt not_less unat_sub word_le_nat_alt)
    then show ?thesis
      by (intro go_spec_mono [OF run [OF e(1)]])
        (use e assms(3) in \<open>auto simp: k_def call_gas_post_def gas_post_simps unat_u64_add
          split: option.splits dest!: goes_trans [OF e(1)]\<close>)
  qed
  have warm: "go_spec Pan (gas_post rs 0 evm c st mem sz) (old E evm' c st mem sz)"
    if e: "goes evm evm'" "jumpdests evm' = jumpdests evm" for evm'
    by (rule go_spec_mono [OF run [OF e(1)]])
      (use e in \<open>auto simp: call_gas_post_def gas_post_def dest!: goes_trans [OF e(1)]\<close>)
  show "go_spec Pan (gas_post rs 0 evm c st mem sz) (makeCallVariantGasCallEIP2929 old E evm c st mem sz)"
    unfolding makeCallVariantGasCallEIP2929_def Let_def k_def [symmetric]
    using * assms(2) cold warm
    by (auto simp: UseGas_def gas_post_simps
      intro!: db_get_rule [where ?e0.0 = evm] db_do_hush [where ?e0.0 = evm])
qed

end

end
