(* ===== verification/Evm_Run.thy ===== *)
theory Evm_Run
  imports Evm_Charge
begin

text \<open>
  A turn of the interpreter's loop and the whole of \<^verbatim>\<open>Run\<close>: a table is well-formed when the stack
  bounds, the memory size function and the gas function of each operation are enough for its
  instruction (\<open>op_ok\<close>). On such a table every turn that does not leave the loop burns gas, so a
  run needs no more turns, nested calls included, than it has gas.
\<close>

context evm_machine
begin

section \<open>Operations and tables\<close>

definition size_total :: "nat \<Rightarrow> memorySizeFunc option \<Rightarrow> bool" where
  "size_total lo mf \<longleftrightarrow> (\<forall>f st. mf = Some f \<longrightarrow> lo \<le> length st \<longrightarrow> (\<exists>r. f (U E) st = Ret r))"

definition op_ok :: "'s operation \<Rightarrow> bool" where
  "op_ok opn \<longleftrightarrow> size_total (minStack_of opn) (memorySize opn) \<and> (\<exists>rs halt.
     exec_ok (minStack_of opn) (maxStack_of opn) (memorySize opn) rs halt (execute opn)
     \<and> (case dynamicGas opn of
          None \<Rightarrow> memorySize opn = None \<and> rs = no_reserve \<and> (halt \<or> 0 < unat (constantGas opn))
        | Some g \<Rightarrow> \<exists>lower. gas_spec (minStack_of opn) (memorySize opn \<noteq> None) rs lower g
            \<and> (halt \<or> 0 < unat (constantGas opn) + lower)))"

definition table_ok :: "'s JumpTable \<Rightarrow> bool" where
  "table_ok jt \<longleftrightarrow> (\<forall>i. \<exists>opn. jt i = Some opn \<and> op_ok opn)
     \<and> (\<exists>opn. jt STOP = Some opn \<and> execute opn = opStop \<and> dynamicGas opn = None)"

section \<open>Charging\<close>

definition charge_post ::
  "memorySizeFunc option \<Rightarrow> ('s evm \<Rightarrow> stack \<Rightarrow> nat) \<Rightarrow> nat \<Rightarrow> 's evm \<Rightarrow> ScopeContext
     \<Rightarrow> vm_error option \<times> 's evm \<times> ScopeContext \<Rightarrow> bool" where
  "charge_post mf rs lower evm sc = (\<lambda>(err, evm', sc').
     goes evm evm' \<and> unat (Gas (sc_contract sc')) \<le> unat (Gas (sc_contract sc))
     \<and> (err = None \<longrightarrow> frame_ok sc' \<and> sc_stack sc' = sc_stack sc \<and> mem_covers mf (sc_stack sc) (sc_mem sc')
        \<and> Code (sc_contract sc') = Code (sc_contract sc) \<and> (jump_ok evm sc \<longrightarrow> jump_ok evm' sc')
        \<and> unat (Gas (sc_contract sc')) + rs evm' (sc_stack sc) + lower \<le> unat (Gas (sc_contract sc))))"

lemma mem_ok_charged:
  assumes "mem_ok mem" "charged mem sz mem'" "32 dvd unat sz"
  shows "mem_ok (Resize sz mem')" "unat sz \<le> length (store (Resize sz mem'))"
    "length (store mem) \<le> length (store (Resize sz mem'))"
proof -
  have "length (store (Resize sz mem')) = max (length (store mem)) (unat sz)"
    using assms by (subst length_Resize) (simp_all add: charged_def mem_ok_def)
  then show "mem_ok (Resize sz mem')" "unat sz \<le> length (store (Resize sz mem'))"
    "length (store mem) \<le> length (store (Resize sz mem'))"
    using assms by (simp_all add: mem_ok_def charged_def max_def)
qed

lemma Resize_0: "Resize 0 mem = mem"
  by (simp add: Resize_def)

text \<open>The charge itself, once the new memory size is known.\<close>

definition charge_rest ::
  "'s gasFunc \<Rightarrow> 's evm \<Rightarrow> ScopeContext \<Rightarrow> u64 \<Rightarrow> (vm_error option \<times> 's evm \<times> ScopeContext) go" where
  "charge_rest dynGas evm sc newSize =
     go_bind (dynGas E evm (sc_contract sc) (sc_stack sc) (sc_mem sc) newSize)
       (\<lambda>((dynamicCost, err), evm, contract, mem).
     if err \<noteq> None then Ret (Some ErrOutOfGas, evm, sc\<lparr> sc_contract := contract, sc_mem := mem \<rparr>)
     else let (ok, contract) = UseGas dynamicCost contract;
              sc = sc\<lparr> sc_contract := contract, sc_mem := mem \<rparr> in
     if \<not> ok then Ret (Some ErrOutOfGas, evm, sc)
     else Ret (None, evm, if newSize > 0 then sc\<lparr> sc_mem := Resize newSize mem \<rparr> else sc))"

lemma gas_specD:
  "gas_spec lo mm rs lower g \<Longrightarrow> inv (statedb evm) \<Longrightarrow> lo \<le> length st \<Longrightarrow> mem_ok mem \<Longrightarrow>
   32 dvd unat sz \<Longrightarrow> mm \<or> sz = 0 \<Longrightarrow>
   go_spec Pan (gas_post rs lower evm c st mem sz) (g E evm c st mem sz)"
  unfolding gas_spec_def by blast

lemma charge_rest_spec:
  assumes g: "gas_spec lo mm rs lower g" and f: "frame_ok sc" "inv (statedb evm)" "lo \<le> length (sc_stack sc)"
    and sz: "32 dvd unat sz" "mm \<or> sz = 0"
    and covers: "\<And>mem. unat sz \<le> length (store mem) \<Longrightarrow> mem_covers mf (sc_stack sc) mem"
  shows "go_spec Pan (charge_post mf rs lower evm sc) (charge_rest g evm sc sz)"
proof -
  have "go_spec Pan (gas_post rs lower evm (sc_contract sc) (sc_stack sc) (sc_mem sc) sz)
      (g E evm (sc_contract sc) (sc_stack sc) (sc_mem sc) sz)"
    using f sz by (intro gas_specD [OF g] frame_mem_ok)
  then show ?thesis
    unfolding charge_rest_def go_spec_bind
  proof (rule go_spec_mono)
    fix r
    assume r: "gas_post rs lower evm (sc_contract sc) (sc_stack sc) (sc_mem sc) sz r"
    obtain cost err evm' c' mem' where [simp]: "r = ((cost, err), evm', c', mem')" by (cases r) auto
    have mem: "mem_ok (Resize sz mem')" "unat sz \<le> length (store (Resize sz mem'))"
      "unat sz = 0 \<longrightarrow> mem_ok mem'" if "charged (sc_mem sc) sz mem'"
      using mem_ok_charged [OF frame_mem_ok [OF f(1)] that sz(1)] by (auto simp: unat_eq_0 Resize_0)
    show "go_spec Pan (charge_post mf rs lower evm sc)
       ((\<lambda>((dynamicCost, err), evm, contract, mem).
          if err \<noteq> None then Ret (Some ErrOutOfGas, evm, sc\<lparr> sc_contract := contract, sc_mem := mem \<rparr>)
          else let (ok, contract) = UseGas dynamicCost contract;
                   sc = sc\<lparr> sc_contract := contract, sc_mem := mem \<rparr> in
          if \<not> ok then Ret (Some ErrOutOfGas, evm, sc)
          else Ret (None, evm, if sz > 0 then sc\<lparr> sc_mem := Resize sz mem \<rparr> else sc)) r)"
      using r mem covers f(1)
      by (cases err) (auto simp: gas_post_simps charge_post_def UseGas_def frame_ok_def jump_ok_def
          analysis_ok_def word_less_nat_alt word_le_nat_alt unat_sub not_less Resize_0 Let_def)
  qed
qed

lemma charge_dynamic_spec:
  assumes g: "gas_spec (minStack_of opn) (memorySize opn \<noteq> None) rs lower g"
    and mf: "size_total (minStack_of opn) (memorySize opn)"
    and f: "frame_ok sc" "inv (statedb evm)" "minStack_of opn \<le> length (sc_stack sc)"
  shows "go_spec Pan (charge_post (memorySize opn) rs lower evm sc) (charge_dynamic opn g E evm sc)"
proof -
  have err: "charge_post (memorySize opn) rs lower evm sc (Some e, evm, sc)" for e
    using f(2) by (simp add: charge_post_def goes_refl)
  note rest = charge_rest_spec [OF g f, unfolded charge_rest_def]
  show ?thesis
  proof (cases "memorySize opn")
    case None
    with rest [of 0 "memorySize opn"] show ?thesis
      unfolding charge_dynamic_def by (simp add: mem_covers_def)
  next
    case (Some f)
    with mf f(3) obtain n b where n: "f (U E) (sc_stack sc) = Ret (n, b)"
      by (fastforce simp: size_total_def)
    show ?thesis
    proof (cases "b \<or> 2 ^ 64 \<le> unat (toWordSize n) * 32")
      case True
      with err show ?thesis unfolding charge_dynamic_def by (auto simp: Some n SafeMul_def)
    next
      case False
      then have sz: "unat (toWordSize n * 32) = unat (toWordSize n) * 32" by (simp add: unat_u64_mult)
      then have "unat n \<le> unat (toWordSize n * 32)" by (simp add: toWordSize_unat)
      with False rest [of "toWordSize n * 32" "memorySize opn"] sz show ?thesis
        unfolding charge_dynamic_def by (auto simp: Some n SafeMul_def mem_covers_def)
    qed
  qed
qed

section \<open>A turn of the loop\<close>

definition turn_post :: "'s evm \<Rightarrow> ScopeContext \<Rightarrow> 's turn \<Rightarrow> bool" where
  "turn_post evm sc t = (case t of
     Leave res err evm' c' \<Rightarrow> goes evm evm' \<and> unat (Gas c') \<le> unat (Gas (sc_contract sc))
   | Next pc evm' sc' \<Rightarrow> goes evm evm' \<and> frame_ok sc'
       \<and> unat (Gas (sc_contract sc')) < unat (Gas (sc_contract sc)))"

lemma GetOp_cases:
  assumes "length (Code c) < 2 ^ 63"
  obtains "unat pc < length (Code c)" "GetOp c pc = Ret (Code c ! unat pc)" | "GetOp c pc = Ret STOP"
  using assms by (cases "unat pc < length (Code c)")
    (auto simp: GetOp_def index_go_def word_less_nat_alt unat_of_nat)

lemma exec_okD:
  "exec_ok lo hi mf rs halt ex \<Longrightarrow> runner_ok n run \<Longrightarrow> inv (statedb evm) \<Longrightarrow> frame_ok sc \<Longrightarrow>
   lo \<le> length (sc_stack sc) \<Longrightarrow> length (sc_stack sc) \<le> hi \<Longrightarrow>
   mem_covers mf (sc_stack sc) (sc_mem sc) \<Longrightarrow> jump_ok evm sc \<Longrightarrow>
   unat pc < length (Code (sc_contract sc)) \<Longrightarrow>
   halt \<or> unat (Gas (sc_contract sc)) + rs evm (sc_stack sc) < n \<Longrightarrow>
   unat (Gas (sc_contract sc)) + rs evm (sc_stack sc) < 2 ^ 64 \<Longrightarrow>
   go_spec Pan (\<lambda>((res, err), pc', evm', sc').
     goes evm evm' \<and> (err = None \<longrightarrow> \<not> halt \<and> frame_ok sc')
     \<and> unat (Gas (sc_contract sc')) \<le> unat (Gas (sc_contract sc)) + rs evm (sc_stack sc))
     (ex run E pc evm sc)"
  unfolding exec_ok_def by blast

text \<open>The end of a turn: the instruction itself, after the charge.\<close>

lemma execute_spec:
  assumes ex: "exec_ok lo hi mf rs halt ex" and run: "runner_ok n run" and n: "unat (Gas (sc_contract sc)) \<le> n"
    and f: "lo \<le> length (sc_stack sc)" "length (sc_stack sc) \<le> hi" "jump_ok evm sc"
      "unat pc < length (Code (sc_contract sc))"
    and c: "charge_post mf rs lower evm (sc\<lparr> sc_contract := c \<rparr>) (None, evm', sc')"
      "Code c = Code (sc_contract sc)" "jump_ok evm (sc\<lparr> sc_contract := c \<rparr>)"
      "unat (Gas c) + k \<le> unat (Gas (sc_contract sc))" "halt \<or> 0 < k + lower"
  shows "go_spec Pan (turn_post evm sc) (go_bind (ex run E pc evm' sc') (\<lambda>((res, err), pc, evm, sc).
     if err \<noteq> None then Ret (Leave res (if err = Some errStopToken then None else err) evm (sc_contract sc))
     else Ret (Next (pc + 1) evm sc)))"
proof -
  have gas: "unat (Gas (sc_contract sc')) + rs evm' (sc_stack sc') + lower + k \<le> unat (Gas (sc_contract sc))"
    using c by (simp add: charge_post_def)
  have "go_spec Pan (\<lambda>((res, err), pc', evm'', sc'').
       goes evm' evm'' \<and> (err = None \<longrightarrow> \<not> halt \<and> frame_ok sc'')
       \<and> unat (Gas (sc_contract sc'')) \<le> unat (Gas (sc_contract sc')) + rs evm' (sc_stack sc'))
       (ex run E pc evm' sc')"
    by (rule exec_okD [OF ex run])
      (use n f c gas unat_u64_less [of "Gas (sc_contract sc)"] in \<open>auto simp: charge_post_def goes_inv\<close>)
  then show ?thesis
    unfolding go_spec_bind
    by (rule go_spec_mono)
      (use c gas in \<open>auto simp: turn_post_def charge_post_def dest: goes_trans\<close>)
qed

lemma loop_turn_spec:
  assumes jt: "table_ok jt" and run: "runner_ok n run" and n: "unat (Gas (sc_contract sc)) \<le> n"
    and f: "inv (statedb evm)" "frame_ok sc" "jump_ok evm sc"
  shows "go_spec Pan (turn_post evm sc) (loop_turn jt run E pc evm sc)"
proof -
  have leave: "turn_post evm sc (Leave res err evm (sc_contract sc))" for res err
    using goes_refl [OF f(1)] by (simp add: turn_post_def)
  have "length (Code (sc_contract sc)) < 2 ^ 63" using f(2) by (simp add: frame_ok_def)
  then show ?thesis
  proof (cases rule: GetOp_cases [of "sc_contract sc" pc])
    case 1
    obtain opn where opn: "jt (Code (sc_contract sc) ! unat pc) = Some opn" "op_ok opn"
      using jt unfolding table_ok_def by blast
    define c where "c = (sc_contract sc)\<lparr> Gas := Gas (sc_contract sc) - constantGas opn \<rparr>"
    from opn(2) obtain rs halt lower where ok: "size_total (minStack_of opn) (memorySize opn)"
      "exec_ok (minStack_of opn) (maxStack_of opn) (memorySize opn) rs halt (execute opn)"
      "halt \<or> 0 < unat (constantGas opn) + lower"
      "dynamicGas opn = None \<Longrightarrow> memorySize opn = None \<and> rs = no_reserve \<and> lower = 0"
      "\<And>g. dynamicGas opn = Some g \<Longrightarrow> gas_spec (minStack_of opn) (memorySize opn \<noteq> None) rs lower g"
      unfolding op_ok_def by (cases "dynamicGas opn") fastforce+
    have charge: "go_spec Pan (charge_post (memorySize opn) rs lower evm (sc\<lparr> sc_contract := c \<rparr>))
        (case dynamicGas opn of None \<Rightarrow> Ret (None, evm, sc\<lparr> sc_contract := c \<rparr>)
         | Some g \<Rightarrow> charge_dynamic opn g E evm (sc\<lparr> sc_contract := c \<rparr>))"
      if "minStack_of opn \<le> length (sc_stack sc)"
    proof (cases "dynamicGas opn")
      case None
      then show ?thesis using ok(4) f goes_refl [OF f(1)]
        by (simp add: charge_post_def frame_ok_def c_def mem_covers_def)
    next
      case (Some g)
      then show ?thesis using f that
        by (auto simp: frame_ok_def c_def intro!: charge_dynamic_spec [OF ok(5) ok(1)])
    qed
    have exec: "go_spec Pan (turn_post evm sc) (case (err, evm', sc') of
          (None, evm', sc') \<Rightarrow> go_bind (execute opn run E pc evm' sc') (\<lambda>((res, err), pc, evm, sc).
            if err \<noteq> None then Ret (Leave res (if err = Some errStopToken then None else err) evm (sc_contract sc))
            else Ret (Next (pc + 1) evm sc))
        | (Some e, evm', sc') \<Rightarrow> Ret (Leave [] (Some e) evm' (sc_contract sc')))"
      if h: "minStack_of opn \<le> length (sc_stack sc)" "length (sc_stack sc) \<le> maxStack_of opn"
        "\<not> Gas (sc_contract sc) < constantGas opn"
        "charge_post (memorySize opn) rs lower evm (sc\<lparr> sc_contract := c \<rparr>) (err, evm', sc')"
      for err evm' sc'
    proof -
      have c: "unat (Gas c) + unat (constantGas opn) \<le> unat (Gas (sc_contract sc))"
        "Code c = Code (sc_contract sc)" "jump_ok evm (sc\<lparr> sc_contract := c \<rparr>)"
        using h(3) f(3) by (simp_all add: c_def word_less_nat_alt word_le_nat_alt unat_sub jump_ok_def analysis_ok_def)
      show ?thesis
      proof (cases err)
        case None
        then show ?thesis using execute_spec [OF ok(2) run n h(1,2) f(3) 1(1) _ c(2,3,1) ok(3)] h(4) by simp
      next
        case (Some e)
        with h(4) c(1) show ?thesis by (simp add: turn_post_def charge_post_def)
      qed
    qed
    show ?thesis
    proof (cases "length (sc_stack sc) < minStack_of opn \<or> length (sc_stack sc) > maxStack_of opn
        \<or> Gas (sc_contract sc) < constantGas opn")
      case True
      with 1 opn(1) leave show ?thesis by (auto simp: loop_turn_def Let_def UseGas_def)
    next
      case False
      then have gas: "UseGas (constantGas opn) (sc_contract sc) = (True, c)"
        and h: "\<not> length (sc_stack sc) < minStack_of opn" "\<not> maxStack_of opn < length (sc_stack sc)"
          "\<not> Gas (sc_contract sc) < constantGas opn"
        by (simp_all add: UseGas_def c_def)
      show ?thesis
        unfolding loop_turn_def 1(2) go_bind.simps opn(1) option.case Let_def gas prod.case
        using h exec by (auto simp: not_less intro!: go_spec_mono [OF charge])
    qed
  next
    case 2
    obtain opn where "jt STOP = Some opn" "execute opn = opStop" "dynamicGas opn = None"
      using jt unfolding table_ok_def by blast
    with 2 leave show ?thesis
      by (simp add: loop_turn_def Let_def UseGas_def opStop_def turn_post_def not_less word_le_nat_alt unat_sub)
  qed
qed

section \<open>Run\<close>

definition loop_ok :: "nat \<Rightarrow> 's loop \<Rightarrow> bool" where
  "loop_ok n loop \<longleftrightarrow> (\<forall>pc evm sc. inv (statedb evm) \<longrightarrow> frame_ok sc \<longrightarrow> unat (Gas (sc_contract sc)) < n \<longrightarrow>
     go_spec Pan (\<lambda>(r, c', evm'). goes evm evm' \<and> unat (Gas c') \<le> unat (Gas (sc_contract sc))) (loop pc evm sc))"

lemma mem_ok_NewMemory: "mem_ok NewMemory"
  by (simp add: mem_ok_def NewMemory_def mem_fee_def)

lemma Run_with_spec:
  assumes "loop_ok n loop"
  shows "runner_ok n (Run_with loop)"
  unfolding runner_ok_def
proof (intro allI impI)
  fix c :: Contract and input :: bytes and ro and evm :: "'s evm"
  assume *: "inv (statedb evm)" "unat (Gas c) < n" "length (Code c) < 2 ^ 63" "length input < 2 ^ 63"
    "cvalue c \<noteq> None"
  define sc where "sc = \<lparr> sc_mem = NewMemory, sc_stack = [], sc_contract = c\<lparr> Input := input \<rparr> \<rparr>"
  define e1 where "e1 = evm\<lparr> depth := depth evm + 1, readOnly := ro \<or> readOnly evm, returnData := [] \<rparr>"
  have e1: "(if ro \<and> \<not> readOnly (evm\<lparr> depth := depth evm + 1 \<rparr>)
      then evm\<lparr> depth := depth evm + 1, readOnly := True \<rparr>
      else evm\<lparr> depth := depth evm + 1 \<rparr>)\<lparr> returnData := [] \<rparr> = e1"
    by (cases evm) (auto simp: e1_def)
  have "go_spec Pan (\<lambda>(r, c', evm'). goes e1 evm' \<and> unat (Gas c') \<le> unat (Gas c))
      (if length (Code c) = 0 then Ret (([], None), c, e1) else loop 0 e1 sc)"
  proof -
    have "frame_ok sc" "inv (statedb e1)" "unat (Gas (sc_contract sc)) < n"
      using * by (simp_all add: sc_def e1_def frame_ok_def mem_ok_NewMemory)
    then have "go_spec Pan (\<lambda>(r, c', evm'). goes e1 evm' \<and> unat (Gas c') \<le> unat (Gas (sc_contract sc)))
        (loop 0 e1 sc)" using assms by (simp add: loop_ok_def)
    then show ?thesis using goes_refl [OF \<open>inv (statedb e1)\<close>] by (simp add: sc_def)
  qed
  then show "go_spec Pan (\<lambda>(r, c', evm'). goes evm evm' \<and> unat (Gas c') \<le> unat (Gas c)
       \<and> (ro \<longrightarrow> world (obs (statedb evm')) = world (obs (statedb evm)))) (Run_with loop c input ro evm)"
    unfolding Run_with_def Let_def go_spec_bind e1 sc_def [symmetric]
    by (rule go_spec_mono) (cases ro; auto simp: goes_def e1_def)
qed

text \<open>A fuel above the gas of the frame is enough: each turn that goes on burns gas, and a callee
  gets less gas than its caller had.\<close>

lemma run_loop_spec:
  assumes "table_ok jt" "RuntimeError \<in> Pan"
  shows "loop_ok fuel (run_loop fuel jt E)"
proof (induction fuel)
  case 0
  then show ?case by (simp add: loop_ok_def)
next
  case (Suc fuel)
  show ?case
    unfolding loop_ok_def
  proof (intro allI impI)
    fix pc and evm :: "'s evm" and sc
    assume *: "inv (statedb evm)" "frame_ok sc" "unat (Gas (sc_contract sc)) < Suc fuel"
    have "go_spec Pan (turn_post evm sc) (loop_turn jt (Run_with (run_loop fuel jt E)) E pc evm sc)"
      using * assms by (intro loop_turn_spec [OF _ Run_with_spec [OF Suc]]) (auto simp: jump_ok_def)
    then show "go_spec Pan (\<lambda>(r, c', evm'). goes evm evm' \<and> unat (Gas c') \<le> unat (Gas (sc_contract sc)))
        (run_loop (Suc fuel) jt E pc evm sc)"
      unfolding run_loop.simps go_spec_bind
    proof (rule go_spec_mono)
      fix t
      assume t: "turn_post evm sc t"
      show "go_spec Pan (\<lambda>(r, c', evm'). goes evm evm' \<and> unat (Gas c') \<le> unat (Gas (sc_contract sc)))
          (case t of Leave res err evm contract \<Rightarrow> Ret ((res, err), contract, evm)
           | Next pc evm sc \<Rightarrow> run_loop fuel jt E pc evm sc)"
      proof (cases t)
        case (Next pc' evm' sc')
        with t have "go_spec Pan (\<lambda>(r, c', evm''). goes evm' evm'' \<and> unat (Gas c') \<le> unat (Gas (sc_contract sc')))
            (run_loop fuel jt E pc' evm' sc')"
          using Suc *(3) by (auto simp: loop_ok_def turn_post_def dest: goes_inv)
        with Next t show ?thesis
          by (auto simp: turn_post_def dest: goes_trans elim!: go_spec_mono)
      qed (use t in \<open>simp add: turn_post_def\<close>)
    qed
  qed
qed

lemma Run_spec:
  "table_ok jt \<Longrightarrow> RuntimeError \<in> Pan \<Longrightarrow> runner_ok fuel (Run fuel jt E)"
  unfolding Run_def by (intro Run_with_spec run_loop_spec)

end

end
