(* ===== verification/Evm_Tables.thy ===== *)
theory Evm_Tables
  imports Evm_Run
begin

text \<open>
  The instruction tables of \<^verbatim>\<open>src/evm/jump_table.go\<close> and \<^verbatim>\<open>src/evm/eips.go\<close>: building them never fails the
  validation, and the table that \<^verbatim>\<open>NewEVMInterpreter\<close> chooses is well-formed for the machine.
\<close>

section \<open>Building the tables\<close>

definition entry_ok :: "'s operation \<Rightarrow> bool" where
  "entry_ok opn \<longleftrightarrow> (memorySize opn \<noteq> None \<longrightarrow> dynamicGas opn \<noteq> None)"

definition valid_table :: "'s JumpTable \<Rightarrow> bool" where
  "valid_table jt \<longleftrightarrow> (\<forall>i. \<exists>opn. jt i = Some opn \<and> entry_ok opn)"

lemma validate_valid: "valid_table jt \<Longrightarrow> validate jt = Ret jt"
proof -
  assume jt: "valid_table jt"
  have "validate_entries is jt = Ret jt" for "is"
  proof (induction "is")
    case (Cons i "is")
    with jt show ?case by (auto simp: valid_table_def entry_ok_def dest: spec [of _ i])
  qed simp
  then show ?thesis by (simp add: validate_def)
qed

text \<open>The table after some edits, when none of them fails.\<close>

primrec edited1 :: "'s edit \<Rightarrow> 's JumpTable \<Rightarrow> 's JumpTable" where
  "edited1 (Assign i opn) jt = jt(i \<mapsto> opn)"
| "edited1 (Modify i f) jt = jt(i \<mapsto> f (the (jt i)))"

primrec edited :: "'s edit list \<Rightarrow> 's JumpTable \<Rightarrow> 's JumpTable" where
  "edited [] jt = jt"
| "edited (e # es) jt = edited es (edited1 e jt)"

lemma edited_append: "edited (xs @ ys) jt = edited ys (edited xs jt)"
  by (induction xs arbitrary: jt) simp_all

primrec edit_ok :: "'s edit \<Rightarrow> bool" where
  "edit_ok (Assign i opn) = entry_ok opn"
| "edit_ok (Modify i f) = (\<forall>opn. entry_ok opn \<longrightarrow> entry_ok (f opn))"

lemma apply_edit_valid:
  "valid_table jt \<Longrightarrow> edit_ok e \<Longrightarrow> apply_edit e jt = Ret (edited1 e jt) \<and> valid_table (edited1 e jt)"
proof (cases e)
  case (Modify i f)
  assume "valid_table jt" "edit_ok e"
  moreover from this obtain opn where "jt i = Some opn" "entry_ok opn"
    unfolding valid_table_def by blast
  ultimately show ?thesis using Modify by (auto simp: valid_table_def)
qed (auto simp: valid_table_def)

lemma apply_edits_valid:
  "valid_table jt \<Longrightarrow> list_all edit_ok es \<Longrightarrow>
   apply_edits es jt = Ret (edited es jt) \<and> valid_table (edited es jt)"
  by (induction es arbitrary: jt) (simp_all add: apply_edit_valid)

definition frontier_table :: "'s JumpTable" where
  "frontier_table = (\<lambda>i. case map_of frontier_entries i of None \<Rightarrow> Some undefined_op | Some op \<Rightarrow> Some op)"

lemmas frontier_lists = frontier_arithmetic_def frontier_comparison_def frontier_environment_def
  frontier_block_def frontier_memory_def frontier_push_low_def frontier_push_high_def
  frontier_dup_def frontier_swap_def frontier_system_def

lemma frontier_entries_ok: "list_all (\<lambda>(i, opn). entry_ok opn) frontier_entries"
  by (simp add: frontier_entries_def frontier_lists entry_ok_def)

lemma valid_frontier: "valid_table frontier_table"
proof -
  have "entry_ok opn" if "map_of frontier_entries i = Some opn" for i and opn :: "'a operation"
    using frontier_entries_ok map_of_SomeD [OF that] by (auto simp: list_all_iff)
  then show ?thesis
    by (auto simp: valid_table_def frontier_table_def undefined_op_def entry_ok_def split: option.splits)
qed

text \<open>The edits of all the forks up to London, in order.\<close>

definition byzantium_path :: "'s edit list" where
  "byzantium_path = homestead_edits @ tangerineWhistle_edits @ spuriousDragon_edits @ byzantium_edits"

definition istanbul_path :: "'s edit list" where
  "istanbul_path = constantinople_edits @ enable1344 @ enable1884 @ enable2200"

definition london_path :: "'s edit list" where
  "london_path = enable2929 @ enable3529 @ enable3198"

lemmas edit_lists = homestead_edits_def tangerineWhistle_edits_def spuriousDragon_edits_def
  byzantium_edits_def constantinople_edits_def enable1344_def enable1884_def enable2200_def
  enable2929_def enable3529_def enable3198_def merge_edits_def

lemma edits_ok:
  "list_all edit_ok homestead_edits" "list_all edit_ok tangerineWhistle_edits"
  "list_all edit_ok spuriousDragon_edits" "list_all edit_ok byzantium_edits"
  "list_all edit_ok constantinople_edits" "list_all edit_ok enable1344" "list_all edit_ok enable1884"
  "list_all edit_ok enable2200" "list_all edit_ok enable2929" "list_all edit_ok enable3529"
  "list_all edit_ok enable3198" "list_all edit_ok merge_edits"
  by (simp_all add: edit_lists entry_ok_def)

fun fork_table :: "fork \<Rightarrow> 's JumpTable" where
  "fork_table Frontier = frontier_table"
| "fork_table Homestead = edited homestead_edits frontier_table"
| "fork_table TangerineWhistle = edited tangerineWhistle_edits (edited homestead_edits frontier_table)"
| "fork_table London = edited london_path (edited istanbul_path (edited byzantium_path frontier_table))"
| "fork_table Merge = edited merge_edits (edited london_path (edited istanbul_path (edited byzantium_path frontier_table)))"

lemma instruction_sets:
  "newFrontierInstructionSet = Ret (fork_table Frontier)"
  "newHomesteadInstructionSet = Ret (fork_table Homestead)"
  "newTangerineWhistleInstructionSet = Ret (fork_table TangerineWhistle)"
  "newLondonInstructionSet = Ret (fork_table London)"
  "newMergeInstructionSet = Ret (fork_table Merge)"
proof -
  note built = validate_valid valid_frontier apply_edits_valid edits_ok
  show fro: "newFrontierInstructionSet = Ret (fork_table Frontier)"
    using validate_valid [OF valid_frontier]
    by (simp add: newFrontierInstructionSet_def Let_def frontier_table_def)
  show hom: "newHomesteadInstructionSet = Ret (fork_table Homestead)"
    by (simp add: newHomesteadInstructionSet_def fro built)
  show tan: "newTangerineWhistleInstructionSet = Ret (fork_table TangerineWhistle)"
    by (simp add: newTangerineWhistleInstructionSet_def hom built)
  show lon: "newLondonInstructionSet = Ret (fork_table London)"
    by (simp add: newLondonInstructionSet_def newBerlinInstructionSet_def newIstanbulInstructionSet_def
        newConstantinopleInstructionSet_def newByzantiumInstructionSet_def newSpuriousDragonInstructionSet_def
        tan built london_path_def istanbul_path_def byzantium_path_def edited_append)
  show "newMergeInstructionSet = Ret (fork_table Merge)"
    by (simp add: newMergeInstructionSet_def lon built london_path_def istanbul_path_def byzantium_path_def edited_append)
qed

lemma package_tables_Ret: "package_tables = Ret fork_table"
  unfolding package_tables_def instruction_sets go_bind.simps
  by (rule arg_cong [of _ _ Ret], rule ext) (simp split: fork.splits)

lemma paths_ok:
  "list_all edit_ok london_path" "list_all edit_ok istanbul_path" "list_all edit_ok byzantium_path"
  by (simp_all add: london_path_def istanbul_path_def byzantium_path_def edits_ok)

lemma fork_table_valid: "valid_table (fork_table fk)"
  by (cases fk) (simp_all add: valid_frontier apply_edits_valid edits_ok paths_ok)

text \<open>C32: Initialising the package does not panic: the table of every fork passes \<open>validate\<close>, so that it
  has an operation for each of the 256 opcodes (\<open>opUndefined\<close> where the fork has none) and one with a
  memory size has a dynamic gas function; and each table is the Frontier table with the edits of
  its forks.\<close>

theorem tables_valid:
  "package_tables = Ret fork_table \<and> valid_table (fork_table fk)"
  using package_tables_Ret fork_table_valid by blast

section \<open>Well-formed operations\<close>

context evm_machine
begin

lemma op_ok_fixed:
  "exec_ok lo hi None no_reserve False ex \<Longrightarrow> 0 < unat c \<Longrightarrow> op_ok (fixed_op ex c lo hi)"
  by (force simp: op_ok_def size_total_def)

lemma op_ok_halt: "exec_ok lo hi None no_reserve True ex \<Longrightarrow> op_ok (fixed_op ex c lo hi)"
  by (force simp: op_ok_def size_total_def)

lemma op_ok_dynamic:
  assumes "exec_ok lo hi None rs halt ex" "gas_spec lo False rs lower g" "halt \<or> 0 < unat c + lower"
  shows "op_ok (dynamic_op ex c g lo hi)"
  unfolding op_ok_def using assms by (auto simp: size_total_def)

lemma op_ok_memory:
  assumes "exec_ok lo hi (Some mf) rs halt ex" "gas_spec lo True rs lower g" "halt \<or> 0 < unat c + lower"
    "size_total lo (Some mf)"
  shows "op_ok (memory_op ex c g lo hi mf)"
  unfolding op_ok_def using assms by auto

lemma size_totals:
  "i < lo \<Longrightarrow> j < lo \<Longrightarrow> size_total lo (Some (range_size i j))"
  "i < lo \<Longrightarrow> size_total lo (Some (fixed_size i n))"
  "i < lo \<Longrightarrow> j < lo \<Longrightarrow> k < lo \<Longrightarrow> l < lo \<Longrightarrow>
     size_total lo (Some (max_size (range_size i j) (range_size k l)))"
  by (auto simp: size_total_def range_size_def fixed_size_def max_size_def split: prod.splits)

lemmas exec_stack = exec_binops exec_unops exec_terops exec_pushops exec_callvalue exec_misc
  exec_push1 exec_push exec_readers exec_sload exec_selfbalance exec_calldataload exec_jumps

lemmas size_defs = memoryKeccak256_def memoryCallDataCopy_def memoryReturnDataCopy_def memoryCodeCopy_def
  memoryExtCodeCopy_def memoryMLoad_def memoryMStore8_def memoryMStore_def memoryCreate_def memoryCreate2_def
  memoryCall_def memoryDelegateCall_def memoryStaticCall_def memoryReturn_def memoryRevert_def memoryLog_def

lemma exec_swap': "n = Suc k \<Longrightarrow> exec_ok n 1024 None no_reserve False (makeSwap k)"
  using exec_swap by simp

text \<open>The operations of the first table.\<close>

lemma frontier_stack_ops:
  "list_all (op_ok \<circ> snd) frontier_block"
  "list_all (op_ok \<circ> snd) frontier_push_low" "list_all (op_ok \<circ> snd) frontier_push_high"
  "list_all (op_ok \<circ> snd) frontier_dup" "list_all (op_ok \<circ> snd) frontier_swap"
  by (simp_all add: frontier_lists minStack_def maxStack_def minDupStack_def maxDupStack_def
      minSwapStack_def maxSwapStack_def op_ok_fixed exec_stack exec_dup exec_swap')

lemma op_keccak256: "op_ok (memory_op opKeccak256 Keccak256Gas gasKeccak256 2 1025 memoryKeccak256)"
  by (rule op_ok_memory [OF exec_keccak256 gas_words(2)]) (simp_all add: size_defs size_totals)

lemma op_exp: "op_ok (dynamic_op opExp 0 (gasExp n) 2 1025)"
  by (rule op_ok_dynamic [OF exec_binops(8) gas_exp]) simp

lemma frontier_arith_ops:
  "list_all (op_ok \<circ> snd) frontier_arithmetic" "list_all (op_ok \<circ> snd) frontier_comparison"
  by (simp_all add: frontier_lists minStack_def maxStack_def op_ok_fixed exec_stack op_ok_halt exec_stops
      op_keccak256 op_exp gasExpFrontier_def)

lemma op_copies:
  assumes "0 < unat c"
  shows "op_ok (memory_op opCallDataCopy c gasCallDataCopy 3 1027 memoryCallDataCopy)"
    "op_ok (memory_op opCodeCopy c gasCodeCopy 3 1027 memoryCodeCopy)"
    "op_ok (memory_op opReturnDataCopy c gasReturnDataCopy 3 1027 memoryReturnDataCopy)"
    "op_ok (memory_op opExtCodeCopy c gasExtCodeCopy 4 1028 memoryExtCodeCopy)"
    "op_ok (memory_op opExtCodeCopy c gasExtCodeCopyEIP2929 4 1028 memoryExtCodeCopy)"
  unfolding gasCallDataCopy_def gasCodeCopy_def gasReturnDataCopy_def gasExtCodeCopy_def
  by (rule op_ok_memory [OF exec_copies(1) gas_words(1)] op_ok_memory [OF exec_copies(2) gas_words(1)]
      op_ok_memory [OF exec_returndatacopy gas_words(1)] op_ok_memory [OF exec_extcodecopy gas_words(1)]
      op_ok_memory [OF exec_extcodecopy gas_extcodecopy2929]; simp add: assms size_defs size_totals)+

lemma op_mem:
  assumes "0 < unat c"
  shows "op_ok (memory_op opMload c gasMLoad (Suc 0) 1024 memoryMLoad)"
    "op_ok (memory_op opMstore c gasMStore 2 1026 memoryMStore)"
    "op_ok (memory_op opMstore8 c gasMStore8 2 1026 memoryMStore8)"
    "op_ok (memory_op opCreate c gasCreate 3 1026 memoryCreate)"
    "op_ok (memory_op opCreate2 c gasCreate2 4 1027 memoryCreate2)"
  unfolding gasMLoad_def gasMStore_def gasMStore8_def gasCreate_def
  by (rule op_ok_memory [OF exec_mload gas_pure] op_ok_memory [OF exec_mstore gas_pure]
      op_ok_memory [OF exec_mstore8 gas_pure] op_ok_memory [OF exec_create gas_pure]
      op_ok_memory [OF exec_create2 gas_words(3)]; simp add: assms size_defs size_totals)+

lemma op_ends:
  "op_ok (memory_op opReturn c gasReturn 2 1026 memoryReturn)"
  "op_ok (memory_op opRevert c gasRevert 2 1026 memoryRevert)"
  unfolding gasReturn_def gasRevert_def
  by (rule op_ok_memory [OF exec_returns(1) gas_pure] op_ok_memory [OF exec_returns(2) gas_pure];
      simp add: size_defs size_totals)+

lemma op_selfdestruct:
  "op_ok (dynamic_op opSelfdestruct c gasSelfdestruct (Suc 0) 1025)"
  "op_ok (dynamic_op opSelfdestruct c gasSelfdestructEIP2929 (Suc 0) 1025)"
  "op_ok (dynamic_op opSelfdestruct c gasSelfdestructEIP3529 (Suc 0) 1025)"
  unfolding gasSelfdestructEIP2929_def gasSelfdestructEIP3529_def
  by (rule op_ok_dynamic [OF exec_selfdestruct gas_state(4)] op_ok_dynamic [OF exec_selfdestruct gas_state(3)];
      simp)+

lemma op_sstore:
  "op_ok (dynamic_op opSstore c gasSStore 2 1026)"
  "op_ok (dynamic_op opSstore c gasSStoreEIP2200 2 1026)"
  "op_ok (dynamic_op opSstore c gasSStoreEIP2929 2 1026)"
  "op_ok (dynamic_op opSstore c gasSStoreEIP3529 2 1026)"
  unfolding gasSStoreEIP2929_def gasSStoreEIP3529_def
  by (rule op_ok_dynamic [OF exec_sstore gas_sstore(1)] op_ok_dynamic [OF exec_sstore gas_sstore(2)]
      op_ok_dynamic [OF exec_sstore gas_sstore(3)]; simp)+

lemma op_access:
  "op_ok (dynamic_op opSload c gasSLoadEIP2929 (Suc 0) 1024)"
  "0 < unat c \<Longrightarrow> op_ok (dynamic_op opBalance c gasEip2929AccountCheck (Suc 0) 1024)"
  "0 < unat c \<Longrightarrow> op_ok (dynamic_op opExtCodeSize c gasEip2929AccountCheck (Suc 0) 1024)"
  "0 < unat c \<Longrightarrow> op_ok (dynamic_op opExtCodeHash c gasEip2929AccountCheck (Suc 0) 1024)"
  by (rule op_ok_dynamic [OF exec_sload gas_state(1)] op_ok_dynamic [OF exec_readers(1) gas_state(2)]
      op_ok_dynamic [OF exec_readers(2) gas_state(2)] op_ok_dynamic [OF exec_readers(3) gas_state(2)]; simp)+

lemma op_log: "n = k + 2 \<Longrightarrow> m = k + 1026 \<Longrightarrow> op_ok (memory_op (makeLog k) c (makeGasLog t) n m memoryLog)"
  by (hypsubst, rule op_ok_memory [OF exec_log gas_log]) (simp_all add: size_defs size_totals)

lemmas gas_calls = gas_call gas_callcode gas_delegatecall gas_staticcall
lemmas gas_calls_plain = gas_calls [THEN call_gas_spec_gas_spec]

lemma op_calls:
  assumes "0 < unat c"
  shows "op_ok (memory_op opCall c gasCall 7 1030 memoryCall)"
    "op_ok (memory_op opCallCode c gasCallCode 7 1030 memoryCall)"
    "op_ok (memory_op opDelegateCall c gasDelegateCall 6 1029 memoryDelegateCall)"
    "op_ok (memory_op opStaticCall c gasStaticCall 6 1029 memoryStaticCall)"
  by (rule op_ok_memory [OF exec_call gas_calls_plain(1)] op_ok_memory [OF exec_callcode gas_calls_plain(2)]
      op_ok_memory [OF exec_delegatecall gas_calls_plain(3)]
      op_ok_memory [OF exec_staticcall gas_calls_plain(4)]; simp add: assms size_defs size_totals)+

lemma op_calls2929:
  assumes "0 < unat c" "IsEIP150 (chainRules E)"
  shows "op_ok (memory_op opCall c gasCallEIP2929 7 1030 memoryCall)"
    "op_ok (memory_op opCallCode c gasCallCodeEIP2929 7 1030 memoryCall)"
    "op_ok (memory_op opDelegateCall c gasDelegateCallEIP2929 6 1029 memoryDelegateCall)"
    "op_ok (memory_op opStaticCall c gasStaticCallEIP2929 6 1029 memoryStaticCall)"
  unfolding gasCallEIP2929_def gasCallCodeEIP2929_def gasDelegateCallEIP2929_def gasStaticCallEIP2929_def
  by (rule op_ok_memory [OF exec_call gas_variant2929 [OF gas_calls(1)]]
      op_ok_memory [OF exec_callcode gas_variant2929 [OF gas_calls(2)]]
      op_ok_memory [OF exec_delegatecall gas_variant2929 [OF gas_calls(3)]]
      op_ok_memory [OF exec_staticcall gas_variant2929 [OF gas_calls(4)]]; simp add: assms size_defs size_totals)+

lemmas op_oks = op_ok_fixed op_ok_halt exec_stack exec_stops op_keccak256 op_exp op_copies op_mem op_ends
  op_selfdestruct op_sstore op_access op_log op_calls

lemma frontier_other_ops:
  "list_all (op_ok \<circ> snd) frontier_environment" "list_all (op_ok \<circ> snd) frontier_memory"
  "list_all (op_ok \<circ> snd) frontier_system"
  by (simp_all add: frontier_lists minStack_def maxStack_def op_oks)

lemma frontier_table_ok: "table_ok frontier_table"
proof -
  have "list_all (op_ok \<circ> snd) frontier_entries"
    by (simp add: frontier_entries_def frontier_stack_ops frontier_arith_ops frontier_other_ops)
  then have "op_ok opn" if "map_of frontier_entries i = Some opn" for i opn
    using map_of_SomeD [OF that] by (auto simp: list_all_iff)
  moreover have "op_ok undefined_op"
    by (simp add: undefined_op_def op_ok_halt exec_stops maxStack_def)
  moreover have "map_of frontier_entries STOP = Some (fixed_op opStop 0 (minStack 0 0) (maxStack 0 0) :: 's operation)"
    by (simp add: frontier_entries_def frontier_arithmetic_def)
  ultimately show ?thesis
    by (auto simp: table_ok_def frontier_table_def split: option.splits)
qed

lemma table_ok_upd: "table_ok jt \<Longrightarrow> op_ok opn \<Longrightarrow> i \<noteq> STOP \<Longrightarrow> table_ok (jt(i \<mapsto> opn))"
  by (simp add: table_ok_def)

end

text \<open>The operations of the first table that later forks change.\<close>

lemma frontier_table_at:
  "frontier_table BALANCE = Some (fixed_op opBalance BalanceGasFrontier (Suc 0) 1024)"
  "frontier_table EXTCODESIZE = Some (fixed_op opExtCodeSize ExtcodeSizeGasFrontier (Suc 0) 1024)"
  "frontier_table SLOAD = Some (fixed_op opSload SloadGasFrontier (Suc 0) 1024)"
  "frontier_table EXTCODECOPY =
     Some (memory_op opExtCodeCopy ExtcodeCopyBaseFrontier gasExtCodeCopy 4 1028 memoryExtCodeCopy)"
  "frontier_table CALL = Some (memory_op opCall CallGasFrontier gasCall 7 1030 memoryCall)"
  "frontier_table CALLCODE = Some (memory_op opCallCode CallGasFrontier gasCallCode 7 1030 memoryCall)"
  "frontier_table EXP = Some (dynamic_op opExp 0 gasExpFrontier 2 1025)"
  "frontier_table SSTORE = Some (dynamic_op opSstore 0 gasSStore 2 1026)"
  "frontier_table SELFDESTRUCT = Some (dynamic_op opSelfdestruct 0 gasSelfdestruct (Suc 0) 1025)"
  by (simp_all add: frontier_table_def frontier_entries_def frontier_lists minStack_def maxStack_def
      STOP_def PUSH1_def JUMPDEST_def)

context evm_machine
begin

lemmas edit_eval = edit_lists frontier_table_at minStack_def maxStack_def STOP_def

lemma homestead_ok: "table_ok (edited homestead_edits frontier_table)"
  by (simp add: edit_eval table_ok_upd frontier_table_ok op_oks)

lemma tangerineWhistle_ok: "table_ok (edited tangerineWhistle_edits (edited homestead_edits frontier_table))"
  by (simp add: edit_eval table_ok_upd frontier_table_ok op_oks)

lemma london_ok:
  assumes "IsEIP150 (chainRules E)" "IsLondon (chainRules E) \<or> IsMerge (chainRules E)"
  shows "table_ok (edited london_path (edited istanbul_path (edited byzantium_path frontier_table)))"
  by (simp add: london_path_def istanbul_path_def byzantium_path_def edited_append edit_eval
      table_ok_upd frontier_table_ok op_oks gasExpEIP158_def assms op_calls2929 exec_basefee)

lemma fork_table_ok: "table_ok (fork_table (fork_of (chainRules E)))"
proof -
  have "table_ok (fork_table Merge)" if "IsMerge (chainRules E)"
    using london_ok rules_London that
    by (simp add: merge_edits_def table_ok_upd op_ok_fixed exec_random minStack_def maxStack_def STOP_def)
  then show ?thesis
    using frontier_table_ok homestead_ok tangerineWhistle_ok london_ok rules_London
    by (auto simp: fork_of_def)
qed

end

end
