(* ===== verification/State_Machine.thy ===== *)
theory State_Machine
  imports State_World Evm_Tables
begin

text \<open>
  The state database as the state of the virtual machine: its invariant, the snapshots it can
  restore, and the proof that \<open>state_db_ops\<close> meets the contract \<open>evm_machine\<close>.
\<close>

section \<open>The invariant\<close>

text \<open>A revision lies within the journal, and undoing the entries after it succeeds.\<close>

definition revision_ok :: "'t StateDatabase \<Rightarrow> 't state_db \<Rightarrow> revision \<Rightarrow> bool" where
  "revision_ok sdb s r \<longleftrightarrow> rev_id r < nextRevisionId s \<and> journalIndex r \<le> length (entries s)
     \<and> (\<exists>x. undos sdb (snap s) (rev (drop (journalIndex r) (entries s))) (view sdb s) = Ret x \<and> al_ok (v_accessList x))"

definition state_inv :: "'t StateDatabase \<Rightarrow> 't state_db \<Rightarrow> bool" where
  "state_inv sdb s \<longleftrightarrow> backend_ok sdb \<and> store_ok sdb (snap s) (main_trie s)
     \<and> objs_ok sdb s \<and> al_ok (accessList_of s)
     \<and> list_all (jentry_ok sdb (snap s) (main_trie s)) (entries s)
     \<and> sorted_wrt (\<lambda>q r. rev_id q < rev_id r) (validRevisions s)
     \<and> sorted_wrt (\<lambda>q r. journalIndex q \<le> journalIndex r) (validRevisions s)
     \<and> (\<forall>r \<in> set (validRevisions s). revision_ok sdb s r)"

text \<open>Reverting to the snapshot \<open>revid\<close> gives the view \<open>x\<close>.\<close>

definition state_restorable :: "'t StateDatabase \<Rightarrow> 't state_db \<Rightarrow> nat \<Rightarrow> state_view \<Rightarrow> bool" where
  "state_restorable sdb s revid x \<longleftrightarrow> (\<exists>r \<in> set (validRevisions s). rev_id r = revid
     \<and> undos sdb (snap s) (rev (drop (journalIndex r) (entries s))) (view sdb s) = Ret x)"

lemma state_invD:
  assumes "state_inv sdb s"
  shows "backend_ok sdb" "store_ok sdb (snap s) (main_trie s)" "objs_ok sdb s" "al_ok (accessList_of s)"
    "list_all (jentry_ok sdb (snap s) (main_trie s)) (entries s)"
    "sorted_wrt (\<lambda>q r. rev_id q < rev_id r) (validRevisions s)"
    "sorted_wrt (\<lambda>q r. journalIndex q \<le> journalIndex r) (validRevisions s)"
    "r \<in> set (validRevisions s) \<Longrightarrow> revision_ok sdb s r"
  using assms unfolding state_inv_def by blast+

text \<open>Every journalled step keeps the invariant and all snapshots.\<close>

lemma journalled_undos:
  assumes "journalled sdb s s'" "n \<le> length (entries s)"
  shows "undos sdb (snap s') (rev (drop n (entries s'))) (view sdb s')
    = undos sdb (snap s) (rev (drop n (entries s))) (view sdb s)"
proof -
  obtain es where "entries s' = entries s @ es" "undos sdb (snap s) (rev es) (view sdb s') = Ret (view sdb s)"
    "snap s' = snap s"
    using assms(1) unfolding journalled_def kept_def by blast
  with assms(2) show ?thesis by (simp add: undos_append)
qed

lemma journalled_inv:
  assumes inv: "state_inv sdb s" and j: "journalled sdb s s'"
  shows "state_inv sdb s'" "keeps (state_restorable sdb) s s'"
proof -
  obtain es where es: "entries s' = entries s @ es" "list_all (jentry_ok sdb (snap s) (main_trie s)) es"
    and k: "kept s s'" "objs_ok sdb s'" "al_ok (accessList_of s')"
    using j state_invD(4) [OF inv] unfolding journalled_def by blast
  have rev: "journalIndex r \<le> length (entries s)" if "r \<in> set (validRevisions s)" for r
    using state_invD(8) [OF inv that] by (simp add: revision_ok_def)
  have "revision_ok sdb s' r" if "r \<in> set (validRevisions s)" for r
    using state_invD(8) [OF inv that] journalled_undos [OF j rev [OF that]] es(1) k(1)
    by (simp add: revision_ok_def kept_def)
  then show "state_inv sdb s'"
    using state_invD(1,2,5-7) [OF inv] es k by (simp add: state_inv_def kept_def)
  show "keeps (state_restorable sdb) s s'"
    using journalled_undos [OF j rev] k(1) by (auto simp: keeps_def state_restorable_def kept_def)
qed

lemmas quiet_inv = journalled_inv [OF _ journalled_quiet]

section \<open>Snapshots\<close>

lemma Snapshot_inv:
  assumes inv: "state_inv sdb s" and s': "Snapshot s = (revid, s')"
  shows "state_inv sdb s'" "keeps (state_restorable sdb) s s'" "view sdb s' = view sdb s"
    "state_restorable sdb s' revid (view sdb s)" "state_restorable sdb s i x \<Longrightarrow> i < revid"
proof -
  note s' = s' [unfolded Snapshot_def prod.inject, THEN conjunct1, symmetric] s' [unfolded Snapshot_def prod.inject, THEN conjunct2, symmetric]
  have ro: "revision_ok sdb s' r" if "r \<in> set (validRevisions s')" for r
    using that state_invD(8) [OF inv, of r] state_invD(4) [OF inv] by (auto simp: s'(2) revision_ok_def)
  have old: "rev_id r < nextRevisionId s \<and> journalIndex r \<le> length (entries s)" if "r \<in> set (validRevisions s)" for r
    using state_invD(8) [OF inv that] by (simp add: revision_ok_def)
  show "state_inv sdb s'"
    using state_invD(1-7) [OF inv] ro old by (simp add: state_inv_def s'(2) sorted_wrt_append objs_ok_def)
  show "keeps (state_restorable sdb) s s'" by (auto simp: keeps_def state_restorable_def s'(2))
  show "view sdb s' = view sdb s" by (simp add: s'(2))
  show "state_restorable sdb s' revid (view sdb s)" by (simp add: state_restorable_def s')
  show "i < revid" if "state_restorable sdb s i x" using that old by (auto simp: state_restorable_def s'(1))
qed

lemma RevertToSnapshot_inv:
  assumes inv: "state_inv sdb s" and revid: "state_restorable sdb s revid x"
  obtains s' where "RevertToSnapshot sdb revid s = Ret s'" "state_inv sdb s'" "view sdb s' = x"
    "\<And>i y. i < revid \<Longrightarrow> state_restorable sdb s i y \<Longrightarrow> state_restorable sdb s' i y"
proof -
  let ?revs = "validRevisions s"
  obtain idx where idx: "idx < length ?revs" "rev_id (?revs ! idx) = revid"
    and x: "undos sdb (snap s) (rev (drop (journalIndex (?revs ! idx)) (entries s))) (view sdb s) = Ret x"
    using revid by (auto simp: state_restorable_def in_set_conv_nth)
  define n where "n = journalIndex (?revs ! idx)"
  have search: "sort_Search (length ?revs) (\<lambda>i. revid \<le> rev_id (?revs ! i)) = idx"
    using sort_Search_index [OF state_invD(6) [OF inv] idx(1)] idx(2) by simp
  have ro: "revision_ok sdb s (?revs ! i)" if "i < length ?revs" for i
    using state_invD(8) [OF inv nth_mem [OF that]] .
  have n: "n \<le> length (entries s)" "al_ok (v_accessList x)"
    using ro [OF idx(1)] x by (auto simp: revision_ok_def n_def)
  obtain s1 where s1: "journal_revert sdb n s = Ret s1" "view sdb s1 = x" "kept s s1" "objs_ok sdb s1"
    "entries s1 = take n (entries s)"
    using journal_revert_undos [OF state_invD(1,3,5) [OF inv] x [folded n_def] n(1)] by blast
  let ?s' = "s1\<lparr> validRevisions := take idx (validRevisions s1) \<rparr>"
  have v1: "validRevisions s1 = ?revs" "snap s1 = snap s" "main_trie s1 = main_trie s" "nextRevisionId s1 = nextRevisionId s"
    using s1(3) by (simp_all add: kept_def)
  have undo: "undos sdb (snap s) (rev (drop (journalIndex (?revs ! i)) (take n (entries s)))) x
      = undos sdb (snap s) (rev (drop (journalIndex (?revs ! i)) (entries s))) (view sdb s)"
    and le: "journalIndex (?revs ! i) \<le> n" if "i < idx" for i
  proof -
    show "journalIndex (?revs ! i) \<le> n"
      using state_invD(7) [OF inv] that idx(1) by (simp add: n_def sorted_wrt_iff_nth_less)
    then have "drop (journalIndex (?revs ! i)) (entries s)
        = drop (journalIndex (?revs ! i)) (take n (entries s)) @ drop n (entries s)"
      using n(1) by (metis append_take_drop_id drop_append diff_is_0_eq drop_0 length_take min.absorb2)
    then show "undos sdb (snap s) (rev (drop (journalIndex (?revs ! i)) (take n (entries s)))) x
      = undos sdb (snap s) (rev (drop (journalIndex (?revs ! i)) (entries s))) (view sdb s)"
      using x by (simp add: undos_append n_def)
  qed
  show thesis
  proof
    show "RevertToSnapshot sdb revid s = Ret ?s'"
      using idx s1(1) by (simp add: RevertToSnapshot_def Let_def search n_def)
    have "revision_ok sdb ?s' (?revs ! i)" if "i < idx" for i
      using ro [of i] idx(1) that undo [OF that] le [OF that] n(1)
      by (simp add: revision_ok_def v1 s1(2,5) min_absorb2)
    moreover have "list_all (jentry_ok sdb (snap s) (main_trie s)) (take n (entries s))"
      using state_invD(5) [OF inv] by (auto simp: list_all_iff dest: in_set_takeD)
    ultimately show "state_inv sdb ?s'"
      using state_invD(1,2,6,7) [OF inv] s1(2,4,5) n(2) idx(1)
      by (auto simp: state_inv_def v1 objs_ok_def sorted_wrt_take in_set_conv_nth)
    show "view sdb ?s' = x" using s1(2) by simp
    fix i y assume i: "i < revid" "state_restorable sdb s i y"
    then obtain k where k: "k < length ?revs" "rev_id (?revs ! k) = i"
      "undos sdb (snap s) (rev (drop (journalIndex (?revs ! k)) (entries s))) (view sdb s) = Ret y"
      by (auto simp: state_restorable_def in_set_conv_nth)
    have "k < idx"
    proof (rule ccontr)
      assume "\<not> k < idx"
      then have "revid \<le> i" using state_invD(6) [OF inv] k(1,2) idx
        by (metis le_less not_le_imp_less sorted_wrt_iff_nth_less)
      with i(1) show False by simp
    qed
    then show "state_restorable sdb ?s' i y"
      using k undo [of k] idx(1) unfolding state_restorable_def
      by (intro bexI [of _ "?revs ! k"]) (auto simp: v1 s1(2,5) in_set_conv_nth)
  qed
qed

section \<open>The contract of the operations\<close>

text \<open>The panics of the gas function of SSTORE and of the refund counter, besides others that a caller
  allows for.\<close>

definition state_panics :: "panic set \<Rightarrow> panic set" where
  "state_panics Q = {sstore_panic, refund_panic} \<union> Q"

text \<open>Readers return and are quiet; writers return and are journalled.\<close>

definition state_reads :: "'t StateDatabase \<Rightarrow> ('t state_db \<Rightarrow> ('a \<times> 't state_db) go) \<Rightarrow> bool" where
  "state_reads sdb f \<longleftrightarrow> (\<forall>s. state_inv sdb s \<longrightarrow> (\<exists>x s'. f s = Ret (x, s') \<and> quiet sdb s s'))"

definition state_writes :: "'t StateDatabase \<Rightarrow> ('t state_db \<Rightarrow> 't state_db go) \<Rightarrow> bool" where
  "state_writes sdb f \<longleftrightarrow> (\<forall>s. state_inv sdb s \<longrightarrow> (\<exists>s'. f s = Ret s' \<and> journalled sdb s s'))"

lemma state_reads_spec:
  assumes "state_inv sdb s" "state_reads sdb f"
  shows "go_spec P (\<lambda>(x, s'). state_inv sdb s' \<and> keeps (state_restorable sdb) s s' \<and> view sdb s' = view sdb s) (f s)"
proof -
  obtain x s' where "f s = Ret (x, s')" "quiet sdb s s'" using assms unfolding state_reads_def by blast
  then show ?thesis using quiet_inv [OF assms(1)] by (simp add: quiet_def)
qed

lemma state_writes_spec:
  assumes "state_inv sdb s" "state_writes sdb f"
  shows "go_spec P (\<lambda>s'. state_inv sdb s' \<and> keeps (state_restorable sdb) s s') (f s)"
proof -
  obtain s' where "f s = Ret s'" "journalled sdb s s'" using assms unfolding state_writes_def by blast
  then show ?thesis using journalled_inv [OF assms(1)] by simp
qed

lemma state_hushes_spec:
  assumes "state_inv sdb s" "state_writes sdb f"
    "\<And>s'. f s = Ret s' \<Longrightarrow> C \<Longrightarrow> state_world (view sdb s') = state_world (view sdb s)"
  shows "go_spec P (\<lambda>s'. state_inv sdb s' \<and> keeps (state_restorable sdb) s s'
    \<and> (C \<longrightarrow> state_world (view sdb s') = state_world (view sdb s))) (f s)"
proof -
  obtain s' where "f s = Ret s'" "journalled sdb s s'" using assms unfolding state_writes_def by blast
  then show ?thesis using journalled_inv [OF assms(1)] assms(3) by simp
qed

lemma state_readsI:
  assumes "\<And>s. state_inv sdb s \<Longrightarrow> \<exists>x s'. f s = Ret (x, s') \<and> quiet sdb s s'"
  shows "state_reads sdb f"
  using assms by (simp add: state_reads_def)

lemma state_writesI:
  assumes "\<And>s. state_inv sdb s \<Longrightarrow> \<exists>s'. f s = Ret s' \<and> journalled sdb s s'"
  shows "state_writes sdb f"
  using assms by (simp add: state_writes_def)

lemma account_readers:
  "state_reads sdb (db_GetBalance (state_db_ops sdb) a)" "state_reads sdb (db_GetNonce (state_db_ops sdb) a)"
  "state_reads sdb (db_GetCodeHash (state_db_ops sdb) a)" "state_reads sdb (db_HasSuicided (state_db_ops sdb) a)"
  "state_reads sdb (db_Empty (state_db_ops sdb) a)"
proof -
  have q: "quiet sdb s (snd (GetBalance sdb a s)) \<and> quiet sdb s (snd (GetNonce sdb a s))
      \<and> quiet sdb s (snd (GetCodeHash sdb a s)) \<and> quiet sdb s (snd (HasSuicided sdb a s))
      \<and> quiet sdb s (snd (Empty sdb a s))" if "state_inv sdb s" for s
    by (rule get_quiet [OF state_invD(3) [OF that], of a]) simp
  then show "state_reads sdb (db_GetBalance (state_db_ops sdb) a)" "state_reads sdb (db_GetNonce (state_db_ops sdb) a)"
    "state_reads sdb (db_GetCodeHash (state_db_ops sdb) a)" "state_reads sdb (db_HasSuicided (state_db_ops sdb) a)"
    "state_reads sdb (db_Empty (state_db_ops sdb) a)"
    by (auto simp: state_reads_def state_db_ops_def intro: prod.collapse [symmetric])
qed

lemma code_readers:
  "state_reads sdb (db_GetCode (state_db_ops sdb) a)" "state_reads sdb (db_GetCodeSize (state_db_ops sdb) a)"
  by (rule state_readsI, rule GetCode_quiet [OF state_invD(1,3)], assumption+, force simp: state_db_ops_def)
    (rule state_readsI, rule GetCodeSize_quiet [OF state_invD(1,3)], assumption+, force simp: state_db_ops_def)

lemma storage_readers:
  "state_reads sdb (db_GetState (state_db_ops sdb) a k)" "state_reads sdb (db_GetCommittedState (state_db_ops sdb) a k)"
  by (rule state_readsI, rule GetState_quiet [OF state_invD(1,3,2)], assumption+, force simp: state_db_ops_def)
    (rule state_readsI, rule GetCommittedState_quiet [OF state_invD(1,3,2)], assumption+, force simp: state_db_ops_def)

lemma access_readers:
  "state_reads sdb (db_AddressInAccessList (state_db_ops sdb) a)" "state_reads sdb (db_SlotInAccessList (state_db_ops sdb) a k)"
proof -
  have q: "quiet sdb s s" if "state_inv sdb s" for s using state_invD(3) [OF that] by (rule quiet_refl)
  have "\<exists>r. SlotInAccessList a k s = Ret r" if "state_inv sdb s" for s
    using Contains_ok [OF state_invD(4) [OF that]] by (simp add: SlotInAccessList_def)
  with q show "state_reads sdb (db_AddressInAccessList (state_db_ops sdb) a)"
    "state_reads sdb (db_SlotInAccessList (state_db_ops sdb) a k)"
    by (fastforce intro!: state_readsI simp: state_db_ops_def)+
qed

lemma GetCode_law:
  assumes inv: "state_inv sdb s"
  shows "go_spec P (\<lambda>(x, s'). state_inv sdb s' \<and> keeps (state_restorable sdb) s s' \<and> view sdb s' = view sdb s
      \<and> length x < 2 ^ 63) (db_GetCode (state_db_ops sdb) a s)"
proof -
  note ok = state_invD(1,3) [OF inv]
  obtain s1 where "GetCode sdb a s = Ret (case live sdb s a of None \<Rightarrow> [] | Some obj \<Rightarrow> code_of sdb obj, s1)" "quiet sdb s s1"
    by (rule GetCode_quiet [OF ok])
  with GetCode_length [OF ok, of a] quiet_inv [OF inv] show ?thesis by (simp add: state_db_ops_def quiet_def)
qed

lemma Exist_law:
  assumes inv: "state_inv sdb s"
  shows "go_spec P (\<lambda>(x, s'). state_inv sdb s' \<and> keeps (state_restorable sdb) s s' \<and> view sdb s' = view sdb s
      \<and> (\<not> x \<longrightarrow> go_spec P (\<lambda>s''. state_world (view sdb s'') = state_world (view sdb s)) (db_CreateAccount (state_db_ops sdb) a s')))
      (db_Exist (state_db_ops sdb) a s)"
proof -
  obtain s' where s': "Exist sdb a s = (live sdb s a \<noteq> None, s')" "quiet sdb s s'" "live sdb s' a = live sdb s a"
    by (rule get_quiet [OF state_invD(3) [OF inv], of a])
  note inv' = quiet_inv [OF inv s'(2)]
  have "state_world (view sdb (CreateAccount sdb a s')) = state_world (view sdb s)" if "live sdb s a = None"
    using CreateAccount_world [OF state_invD(1,3,2) [OF inv'(1)], of a] that s'(2,3) by (simp add: quiet_def)
  with inv' s' show ?thesis by (simp add: state_db_ops_def quiet_def)
qed

lemma account_writers:
  "state_writes sdb (db_CreateAccount (state_db_ops sdb) a)" "state_writes sdb (db_AddBalance (state_db_ops sdb) a v)"
  "state_writes sdb (db_SubBalance (state_db_ops sdb) a v)" "state_writes sdb (db_SetNonce (state_db_ops sdb) a n)"
  "length c < 2 ^ 63 \<Longrightarrow> state_writes sdb (db_SetCode (state_db_ops sdb) a c)"
  by (auto simp: state_writes_def state_db_ops_def intro: state_invD(1,3)
      intro!: CreateAccount_journalled balance_journalled SetNonce_journalled SetCode_journalled)

lemma SetState_writes: "state_writes sdb (db_SetState (state_db_ops sdb) a k x)"
  by (rule state_writesI, rule SetState_journalled [OF state_invD(1,3,2)], assumption+, force simp: state_db_ops_def)

lemma other_writers:
  "state_writes sdb (db_AddLog (state_db_ops sdb) l)" "state_writes sdb (db_AddRefund (state_db_ops sdb) g)"
  "state_writes sdb (db_AddPreimage (state_db_ops sdb) h d)"
  "state_writes sdb (db_AddAddressToAccessList (state_db_ops sdb) a)"
  by (auto simp: state_writes_def state_db_ops_def intro: state_invD(3)
      intro!: AddLog_journalled AddRefund_journalled AddPreimage_journalled AddAddressToAccessList_journalled)

lemma AddSlot_writes: "state_writes sdb (db_AddSlotToAccessList (state_db_ops sdb) a k)"
  by (rule state_writesI, rule AddSlotToAccessList_journalled [OF state_invD(3,4)], assumption+, force simp: state_db_ops_def)

lemma Suicide_law:
  assumes inv: "state_inv sdb s"
  shows "go_spec P (\<lambda>(b, s'). state_inv sdb s' \<and> keeps (state_restorable sdb) s s') (db_Suicide (state_db_ops sdb) a s)"
proof -
  obtain b s' where "Suicide sdb a s = (b, s')" "journalled sdb s s'" by (rule Suicide_journalled [OF state_invD(3) [OF inv]])
  then show ?thesis using journalled_inv [OF inv] by (simp add: state_db_ops_def)
qed

lemma hushed_worlds:
  "state_world (view sdb (AddRefund g s)) = state_world (view sdb s)"
  "SubRefund g s = Ret s' \<Longrightarrow> state_world (view sdb s') = state_world (view sdb s)"
  "state_world (view sdb (AddPreimage h d s)) = state_world (view sdb s)"
  "state_world (view sdb (AddAddressToAccessList a s)) = state_world (view sdb s)"
  "AddSlotToAccessList a k s = Ret s' \<Longrightarrow> state_world (view sdb s') = state_world (view sdb s)"
  by (auto simp: AddRefund_def SubRefund_def AddPreimage_def AddAddressToAccessList_def AddSlotToAccessList_def Let_def
      go_simps split: if_splits prod.splits)

lemma SubRefund_law:
  assumes inv: "state_inv sdb s" and P: "refund_panic \<in> P"
  shows "go_spec P (\<lambda>s'. state_inv sdb s' \<and> keeps (state_restorable sdb) s s'
    \<and> state_world (view sdb s') = state_world (view sdb s)) (db_SubRefund (state_db_ops sdb) g s)"
proof (cases "g > refund s")
  case True
  then show ?thesis using P by (simp add: state_db_ops_def SubRefund_def)
next
  case False
  then obtain s' where s': "SubRefund g s = Ret s'" by (simp add: SubRefund_def Let_def)
  then show ?thesis
    using journalled_inv [OF inv SubRefund_journalled [OF state_invD(3) [OF inv] s']] hushed_worlds(2) [OF s']
    by (simp add: state_db_ops_def)
qed

lemma Transfer_law:
  assumes inv: "state_inv sdb s"
  shows "go_spec P (\<lambda>s'. state_inv sdb s' \<and> keeps (state_restorable sdb) s s'
    \<and> (v = 0 \<longrightarrow> state_world (view sdb s') = state_world (view sdb s))) (chain_Transfer (state_db_ops sdb) a b v s)"
proof -
  let ?s1 = "SubBalance sdb a v s" and ?s2 = "AddBalance sdb b v (SubBalance sdb a v s)"
  have j1: "journalled sdb s ?s1" by (rule balance_journalled [OF state_invD(1,3) [OF inv]])
  note inv1 = journalled_inv [OF inv j1]
  have "journalled sdb ?s1 ?s2" by (rule balance_journalled [OF state_invD(1,3) [OF inv1(1)]])
  note inv2 = journalled_inv [OF inv1(1) this]
  show ?thesis
    using inv2 keeps_trans [OF inv1(2) inv2(2)] balance_0_world [OF state_invD(1,3,2) [OF inv]]
      balance_0_world [OF state_invD(1,3,2) [OF inv1(1)]]
    by (auto simp: chain_Transfer_def state_db_ops_def)
qed

lemma CanTransfer_quiet: "state_reads sdb (chain_CanTransfer (state_db_ops sdb) a v)"
  using account_readers(1) [of sdb a] by (fastforce simp: state_reads_def chain_CanTransfer_def)

section \<open>The state database behind the virtual machine\<close>

lemma hush_laws:
  assumes "state_inv sdb s"
  shows "go_spec P (\<lambda>s'. state_inv sdb s' \<and> keeps (state_restorable sdb) s s'
      \<and> (v = 0 \<longrightarrow> state_world (view sdb s') = state_world (view sdb s))) (db_AddBalance (state_db_ops sdb) a v s)"
    "go_spec P (\<lambda>s'. state_inv sdb s' \<and> keeps (state_restorable sdb) s s'
      \<and> state_world (view sdb s') = state_world (view sdb s)) (db_AddRefund (state_db_ops sdb) g s)"
    "go_spec P (\<lambda>s'. state_inv sdb s' \<and> keeps (state_restorable sdb) s s'
      \<and> state_world (view sdb s') = state_world (view sdb s)) (db_AddPreimage (state_db_ops sdb) h d s)"
    "go_spec P (\<lambda>s'. state_inv sdb s' \<and> keeps (state_restorable sdb) s s'
      \<and> state_world (view sdb s') = state_world (view sdb s)) (db_AddAddressToAccessList (state_db_ops sdb) a s)"
    "go_spec P (\<lambda>s'. state_inv sdb s' \<and> keeps (state_restorable sdb) s s'
      \<and> state_world (view sdb s') = state_world (view sdb s)) (db_AddSlotToAccessList (state_db_ops sdb) a k s)"
proof -
  note hush = state_hushes_spec [OF assms, where C = True, simplified]
  show "go_spec P (\<lambda>s'. state_inv sdb s' \<and> keeps (state_restorable sdb) s s'
      \<and> (v = 0 \<longrightarrow> state_world (view sdb s') = state_world (view sdb s))) (db_AddBalance (state_db_ops sdb) a v s)"
    by (rule state_hushes_spec [OF assms account_writers(2)])
      (use balance_0_world [OF state_invD(1,3,2) [OF assms]] in \<open>auto simp: state_db_ops_def\<close>)
  show "go_spec P (\<lambda>s'. state_inv sdb s' \<and> keeps (state_restorable sdb) s s'
      \<and> state_world (view sdb s') = state_world (view sdb s)) (db_AddRefund (state_db_ops sdb) g s)"
    by (rule hush [OF other_writers(2)]) (auto simp: state_db_ops_def hushed_worlds)
  show "go_spec P (\<lambda>s'. state_inv sdb s' \<and> keeps (state_restorable sdb) s s'
      \<and> state_world (view sdb s') = state_world (view sdb s)) (db_AddPreimage (state_db_ops sdb) h d s)"
    by (rule hush [OF other_writers(3)]) (auto simp: state_db_ops_def hushed_worlds)
  show "go_spec P (\<lambda>s'. state_inv sdb s' \<and> keeps (state_restorable sdb) s s'
      \<and> state_world (view sdb s') = state_world (view sdb s)) (db_AddAddressToAccessList (state_db_ops sdb) a s)"
    by (rule hush [OF other_writers(4)]) (auto simp: state_db_ops_def hushed_worlds)
  show "go_spec P (\<lambda>s'. state_inv sdb s' \<and> keeps (state_restorable sdb) s s'
      \<and> state_world (view sdb s') = state_world (view sdb s)) (db_AddSlotToAccessList (state_db_ops sdb) a k s)"
    by (rule hush [OF AddSlot_writes]) (auto simp: state_db_ops_def intro: hushed_worlds(5))
qed

lemma Snapshot_law:
  assumes "state_inv sdb s"
  shows "go_spec P (\<lambda>(revid, s'). state_inv sdb s' \<and> keeps (state_restorable sdb) s s' \<and> view sdb s' = view sdb s
    \<and> state_restorable sdb s' revid (view sdb s) \<and> (\<forall>i x. state_restorable sdb s i x \<longrightarrow> i < revid))
    (db_Snapshot (state_db_ops sdb) s)"
  using Snapshot_inv [OF assms] by (auto simp: state_db_ops_def split: prod.splits)

lemma RevertToSnapshot_law:
  assumes "state_inv sdb s" "state_restorable sdb s revid x"
  shows "go_spec P (\<lambda>s'. state_inv sdb s' \<and> view sdb s' = x
    \<and> (\<forall>i y. i < revid \<longrightarrow> state_restorable sdb s i y \<longrightarrow> state_restorable sdb s' i y))
    (db_RevertToSnapshot (state_db_ops sdb) revid s)"
  by (rule RevertToSnapshot_inv [OF assms]) (simp add: state_db_ops_def)

lemma SetCode_law:
  assumes "state_inv sdb s" "length c < 2 ^ 63"
  shows "go_spec P (\<lambda>s'. state_inv sdb s' \<and> keeps (state_restorable sdb) s s') (db_SetCode (state_db_ops sdb) a c s)"
  by (rule state_writes_spec [OF assms(1) account_writers(5) [OF assms(2)]])

lemma SubRefund_panics:
  assumes "state_inv sdb s"
  shows "go_spec (state_panics Q) (\<lambda>s'. state_inv sdb s' \<and> keeps (state_restorable sdb) s s'
    \<and> state_world (view sdb s') = state_world (view sdb s)) (db_SubRefund (state_db_ops sdb) g s)"
  by (rule SubRefund_law [OF assms]) (simp add: state_panics_def)

lemmas state_laws =
  state_reads_spec [OF _ account_readers(1)] state_reads_spec [OF _ account_readers(2)]
  state_reads_spec [OF _ account_readers(3)] state_reads_spec [OF _ account_readers(4)]
  state_reads_spec [OF _ account_readers(5)] state_reads_spec [OF _ code_readers(2)]
  state_reads_spec [OF _ storage_readers(1)] state_reads_spec [OF _ storage_readers(2)]
  state_reads_spec [OF _ access_readers(1)] state_reads_spec [OF _ access_readers(2)]
  state_reads_spec [OF _ CanTransfer_quiet] GetCode_law Exist_law Suicide_law Transfer_law SubRefund_panics
  hush_laws Snapshot_law RevertToSnapshot_law SetCode_law
  state_writes_spec [OF _ account_writers(1)] state_writes_spec [OF _ account_writers(4)]
  state_writes_spec [OF _ SetState_writes] state_writes_spec [OF _ other_writers(1)]

theorem evm_machine_state:
  assumes "uint256_documented (U E)" "\<And>msg sig pk. Ecrecover (crypto E) msg sig = Some pk \<Longrightarrow> length pk = 65"
    and "IsLondon (chainRules E) \<or> IsMerge (chainRules E) \<Longrightarrow> IsEIP150 (chainRules E)"
    and "IsMerge (chainRules E) \<Longrightarrow> Random (Context E) \<noteq> None"
    and "IsLondon (chainRules E) \<or> IsMerge (chainRules E) \<Longrightarrow> BaseFee (Context E) \<noteq> None"
    and "IsLondon (chainRules E) \<or> IsMerge (chainRules E) \<Longrightarrow> chainID E \<noteq> None"
    and db: "db E = state_db_ops sdb"
    and can: "CanTransfer (Context E) = chain_CanTransfer (state_db_ops sdb)"
    and trans: "Transfer (Context E) = chain_Transfer (state_db_ops sdb)"
  shows "evm_machine E (state_inv sdb) (view sdb) state_world (state_restorable sdb) (state_panics Q)"
  by (rule evm_machine.intro; (unfold db can trans)?;
      (rule assms(1-6) | simp add: state_panics_def; fail | erule state_laws | erule (1) state_laws))

end
