(* ===== verification/State_Refine.thy ===== *)
theory State_Refine
  imports State_World
begin

text \<open>
  The database as a world of accounts: each writer changes the world at one address only, as its
  name says, whatever mixture of tries, snapshots, pending and dirty storage the account is spread
  over, and each reader returns what the world holds.
\<close>

type_synonym world = "(address \<Rightarrow> world_account) \<times> (hash \<Rightarrow> Log list)"

definition w_account :: "address \<Rightarrow> (world_account \<Rightarrow> world_account) \<Rightarrow> world \<Rightarrow> world" where
  "w_account a f w = ((fst w)(a := f (fst w a)), snd w)"

lemma w_account_id: "f (fst w a) = fst w a \<Longrightarrow> w_account a f w = w"
  by (simp add: w_account_def)

section \<open>Writers\<close>

lemma set_world:
  assumes "so_address obj = a"
  shows "state_world (view sdb (setStateObject obj s)) =
    w_account a (\<lambda>_. account_world (Some (oview sdb (snap s) (snapDestructs s) obj))) (state_world (view sdb s))"
  using assms by (simp add: state_world_def w_account_def view_set fun_eq_iff)

lemma account_world_found:
  assumes "found sdb s a = Some obj"
  shows "fst (state_world (view sdb s)) a = account_world (Some (oview sdb (snap s) (snapDestructs s) obj))"
  using assms by (simp add: state_world_def v_accounts_view)

text \<open>Writing to the object that \<open>GetOrNewStateObject\<close> gives.\<close>

lemma new_object_write:
  assumes ok: "backend_ok sdb" "objs_ok sdb s" "store_ok sdb (snap s) (main_trie s)"
  obtains obj s1 where "GetOrNewStateObject sdb a s = (obj, s1)" "objs_ok sdb s1" "store_ok sdb (snap s1) (main_trie s1)"
    "found sdb s1 a = Some obj" "\<not> deleted obj" "obj_ok sdb a obj"
    "state_world (view sdb s1) = state_world (view sdb s)"
    "fst (state_world (view sdb s)) a = account_world (Some (oview sdb (snap s1) (snapDestructs s1) obj))"
proof -
  obtain obj s1 where g: "GetOrNewStateObject sdb a s = (obj, s1)" "journalled sdb s s1"
    "stateObjects s1 a = Some obj" "\<not> deleted obj" "found sdb s1 a = Some obj"
    by (rule GetOrNewStateObject_journalled [OF ok(1,2)])
  then have w: "state_world (view sdb s1) = state_world (view sdb s)"
    using GetOrNewStateObject_world [OF ok, of a] by simp
  have ok1: "objs_ok sdb s1" "store_ok sdb (snap s1) (main_trie s1)"
    using g(2) ok(3) by (simp_all add: journalled_def kept_def)
  show thesis
    using that [OF g(1) ok1 g(5,4) found_ok [OF ok1(1) g(5)] w] account_world_found [OF g(5)] w by simp
qed

lemma account_world_Some: "\<not> av_deleted x \<Longrightarrow> account_world (Some x)
    = \<lparr> w_nonce = av_nonce x, w_balance = av_balance x, w_code = av_code x, w_state = av_state x, w_suicided = av_suicided x \<rparr>"
  by (simp add: account_world_def)

lemma not_deleted_oview [simp]: "av_deleted (oview sdb sn ds obj) = deleted obj"
  by (simp add: oview_def)

lemma same_obj_deleted: "same_obj sdb sn ds obj obj' \<Longrightarrow> deleted obj' = deleted obj"
  by (metis not_deleted_oview same_obj_def)

lemma w_balance_same [simp]: "(x :: world_account)\<lparr> w_balance := w_balance x \<rparr> = x"
  by simp

lemma balance_worlds:
  assumes ok: "backend_ok sdb" "objs_ok sdb s" "store_ok sdb (snap s) (main_trie s)"
  shows "state_world (view sdb (AddBalance sdb a n s)) = w_account a (\<lambda>x. x\<lparr> w_balance := w_balance x + n \<rparr>) (state_world (view sdb s))"
    "state_world (view sdb (SubBalance sdb a n s)) = w_account a (\<lambda>x. x\<lparr> w_balance := w_balance x - n \<rparr>) (state_world (view sdb s))"
    "state_world (view sdb (SetBalance sdb a n s)) = w_account a (\<lambda>x. x\<lparr> w_balance := n \<rparr>) (state_world (view sdb s))"
proof -
  obtain obj s1 where g: "GetOrNewStateObject sdb a s = (obj, s1)" "objs_ok sdb s1" "store_ok sdb (snap s1) (main_trie s1)"
    "found sdb s1 a = Some obj" "\<not> deleted obj" "obj_ok sdb a obj" "state_world (view sdb s1) = state_world (view sdb s)"
    "fst (state_world (view sdb s)) a = account_world (Some (oview sdb (snap s1) (snapDestructs s1) obj))"
    by (rule new_object_write [OF ok])
  have bal: "w_balance (fst (state_world (view sdb s)) a) = acc_Balance (so_data obj)"
    using g(5,8) by (simp add: account_world_Some) (simp add: oview_def)
  have set: "state_world (view sdb (obj_SetBalance m obj s1))
      = w_account a (\<lambda>x. x\<lparr> w_balance := m \<rparr>) (state_world (view sdb s))" for m
    using g(5,6,7,8) obj_ok_address [OF g(6)]
    by (simp add: obj_SetBalance_def set_world w_account_def oview_writes account_world_Some)
  show "state_world (view sdb (AddBalance sdb a n s)) = w_account a (\<lambda>x. x\<lparr> w_balance := w_balance x + n \<rparr>) (state_world (view sdb s))"
  proof (cases "n = 0")
    case True
    then show ?thesis using g(1,7) by (simp add: AddBalance_def obj_AddBalance_def obj_touch_def Let_def w_account_def)
  next
    case False
    then show ?thesis using g(1) set bal by (simp add: AddBalance_def obj_AddBalance_def w_account_def)
  qed
  show "state_world (view sdb (SubBalance sdb a n s)) = w_account a (\<lambda>x. x\<lparr> w_balance := w_balance x - n \<rparr>) (state_world (view sdb s))"
  proof (cases "n = 0")
    case True
    then show ?thesis using g(1,7) by (simp add: SubBalance_def obj_SubBalance_def w_account_def)
  next
    case False
    then show ?thesis using g(1) set bal by (simp add: SubBalance_def obj_SubBalance_def w_account_def)
  qed
  show "state_world (view sdb (SetBalance sdb a n s)) = w_account a (\<lambda>x. x\<lparr> w_balance := n \<rparr>) (state_world (view sdb s))"
    using g(1) set by (simp add: SetBalance_def)
qed

lemma SetNonce_world:
  assumes ok: "backend_ok sdb" "objs_ok sdb s" "store_ok sdb (snap s) (main_trie s)"
  shows "state_world (view sdb (SetNonce sdb a n s)) = w_account a (\<lambda>x. x\<lparr> w_nonce := n \<rparr>) (state_world (view sdb s))"
proof -
  obtain obj s1 where g: "GetOrNewStateObject sdb a s = (obj, s1)" "\<not> deleted obj" "obj_ok sdb a obj"
    "state_world (view sdb s1) = state_world (view sdb s)"
    "fst (state_world (view sdb s)) a = account_world (Some (oview sdb (snap s1) (snapDestructs s1) obj))"
    by (rule new_object_write [OF ok, of a])
  then show ?thesis using obj_ok_address [OF g(3)]
    by (simp add: SetNonce_def obj_SetNonce_def set_world w_account_def oview_writes account_world_Some)
qed

lemma SetCode_world:
  assumes ok: "backend_ok sdb" "objs_ok sdb s" "store_ok sdb (snap s) (main_trie s)"
  shows "state_world (view sdb (SetCode sdb a c s)) = w_account a (\<lambda>x. x\<lparr> w_code := c \<rparr>) (state_world (view sdb s))"
proof -
  obtain obj s1 where g: "GetOrNewStateObject sdb a s = (obj, s1)" "\<not> deleted obj" "obj_ok sdb a obj"
    "state_world (view sdb s1) = state_world (view sdb s)"
    "fst (state_world (view sdb s)) a = account_world (Some (oview sdb (snap s1) (snapDestructs s1) obj))"
    by (rule new_object_write [OF ok, of a])
  obtain obj' where c: "obj_Code sdb obj = (code_of sdb obj, obj')"
    and same: "same_obj sdb (snap s1) (snapDestructs s1) obj obj'"
    using same_obj_Code by (metis snd_conv)
  have adr: "so_address obj' = a" "\<not> deleted obj'"
    "oview sdb (snap s1) (snapDestructs s1) obj' = oview sdb (snap s1) (snapDestructs s1) obj"
    using same same_obj_deleted [OF same] obj_ok_address [OF g(3)] g(2) by (simp_all add: same_obj_def)
  have "code_at sdb h (Keccak256 sdb c) c = c" for h
    by (simp add: code_at_def obj_emptyCodeHash_def)
  with g adr c show ?thesis
    by (simp add: SetCode_def obj_SetCode_def Let_def set_world w_account_def oview_writes account_world_Some)
qed

lemma SetState_world:
  assumes ok: "backend_ok sdb" "objs_ok sdb s" "store_ok sdb (snap s) (main_trie s)"
    and s': "SetState sdb a k x s = Ret s'"
  shows "state_world (view sdb s') = w_account a (\<lambda>y. y\<lparr> w_state := (w_state y)(k := x) \<rparr>) (state_world (view sdb s))"
proof -
  obtain obj s1 where g: "GetOrNewStateObject sdb a s = (obj, s1)" "objs_ok sdb s1" "store_ok sdb (snap s1) (main_trie s1)"
    "found sdb s1 a = Some obj" "\<not> deleted obj" "obj_ok sdb a obj" "state_world (view sdb s1) = state_world (view sdb s)"
    "fst (state_world (view sdb s)) a = account_world (Some (oview sdb (snap s1) (snapDestructs s1) obj))"
    by (rule new_object_write [OF ok])
  have fake: "fakeStorage obj = None" using g(6) by (simp add: obj_ok_def)
  let ?prev = "state_of sdb (snap s1) (snapDestructs s1) obj k"
  obtain obj' where r: "obj_GetState sdb (snap s1) (snapDestructs s1) k obj = Ret (?prev, obj')"
    and same: "same_obj sdb (snap s1) (snapDestructs s1) obj obj'"
    by (rule GetState_Ret [OF ok(1) g(3) fake])
  have adr: "so_address obj' = a" "\<not> deleted obj'"
    "oview sdb (snap s1) (snapDestructs s1) obj' = oview sdb (snap s1) (snapDestructs s1) obj"
    using same same_obj_deleted [OF same] obj_ok_address [OF g(6)] g(5) by (simp_all add: same_obj_def)
  have st: "w_state (fst (state_world (view sdb s)) a) k = ?prev"
    using g(5,8) by (simp add: account_world_Some) (simp add: oview_def)
  show ?thesis
  proof (cases "?prev = x")
    case True
    then have "s' = setStateObject obj' s1" using s' g(1) r fake by (simp add: SetState_def obj_SetState_def)
    then show ?thesis using True st g(5,7,8) adr
      by (simp add: set_world w_account_def fun_upd_idem)
  next
    case False
    then have "s' = setStateObject (setState k x obj') (journal_append (storageChange a k ?prev) s1)"
      using s' g(1) r fake adr(1) by (simp add: SetState_def obj_SetState_def)
    then show ?thesis using g(5,7,8) adr
      by (simp add: set_world w_account_def oview_writes account_world_Some)
  qed
qed

lemma Suicide_world:
  assumes "objs_ok sdb s" "Suicide sdb a s = (b, s')"
  shows "state_world (view sdb s') = (if b then w_account a (\<lambda>x. x\<lparr> w_balance := 0, w_suicided := True \<rparr>) (state_world (view sdb s))
      else state_world (view sdb s))"
proof -
  obtain s1 where s1: "getStateObject sdb a s = (live sdb s a, s1)" "quiet sdb s s1"
    "stateObjects s1 a = found sdb s a" "snapDestructs s1 = snapDestructs s"
    by (rule getStateObject_quiet [OF assms(1)])
  note q = quiet_view [OF s1(2)]
  show ?thesis
  proof (cases "live sdb s a")
    case None
    then show ?thesis using assms(2) s1(1) q by (simp add: Suicide_def)
  next
    case (Some obj)
    note f = live_found [OF Some]
    then have ok: "obj_ok sdb a obj" using found_ok [OF assms(1)] by blast
    show ?thesis using assms(2) s1(1,4) Some q f obj_ok_address [OF ok] account_world_found [of sdb s a obj]
      by (auto simp: Suicide_def markSuicided_def set_world w_account_def oview_writes account_world_Some)
  qed
qed

text \<open>Creating an account keeps the balance of the one that was there, and nothing else of it.\<close>

lemma CreateAccount_world_live:
  assumes ok: "backend_ok sdb" "objs_ok sdb s" "store_ok sdb (snap s) (main_trie s)" and live: "live sdb s a = Some prev"
  shows "state_world (view sdb (CreateAccount sdb a s)) =
    w_account a (\<lambda>x. no_account\<lparr> w_balance := w_balance x \<rparr>) (state_world (view sdb s))"
proof -
  let ?new = "newObject sdb a (empty_account sdb)"
  obtain s1 where s1: "getDeletedStateObject sdb a s = (found sdb s a, s1)" "quiet sdb s s1"
    "stateObjects s1 a = found sdb s a" "snapDestructs s1 = snapDestructs s"
    by (rule getDeletedStateObject_quiet [OF ok(2)])
  note q = quiet_view [OF s1(2)] and f = live_found [OF live]
  have ok1: "objs_ok sdb s1" using s1(2) by (simp add: quiet_def)
  define pd where "pd = (snap s1 \<noteq> None \<and> so_addrHash prev \<in> snapDestructs s1)"
  define ds where "ds = (if snap s1 \<noteq> None \<and> \<not> pd then insert (so_addrHash prev) (snapDestructs s1) else snapDestructs s1)"
  let ?s2 = "journal_append (resetObjectChange prev pd) (s1\<lparr> snapDestructs := ds \<rparr>)"
  let ?obj = "setBalance (acc_Balance (so_data prev)) ?new"
  have h: "so_addrHash prev = Keccak256 sdb (address_bytes a)"
    using found_ok [OF ok(2)] f by (auto simp: obj_ok_def)
  have "account_world (Some (oview sdb (snap s) ds ?new)) = no_account"
    by (rule new_object_world [OF ok(1,3)]) (auto simp: ds_def pd_def q h)
  then have new: "account_world (Some (oview sdb (snap s) ds ?obj)) = no_account\<lparr> w_balance := acc_Balance (so_data prev) \<rparr>"
    by (simp add: account_world_def oview_writes newObject_def no_account_def)
  have "CreateAccount sdb a s = setStateObject ?obj (setStateObject ?new ?s2)"
    using f s1(1) by (simp add: CreateAccount_def createObject_def Let_def pd_def ds_def)
  also have "\<dots> = setStateObject ?obj ?s2" by (rule set_over) (simp add: newObject_def)
  finally have eq: "CreateAccount sdb a s = setStateObject ?obj ?s2" .
  have other: "v_accounts (view sdb (s1\<lparr> snapDestructs := ds \<rparr>)) b = v_accounts (view sdb s1) b" if "b \<noteq> a" for b
    by (rule accounts_destructs [OF ok(1) ok1 that]) (auto simp: ds_def h)
  have bal: "w_balance (account_world (v_accounts (view sdb s) a)) = acc_Balance (so_data prev)"
    using f by (simp add: v_accounts_view account_world_Some) (simp add: oview_def)
  have "v_logs (view sdb (s1\<lparr> snapDestructs := ds \<rparr>)) = v_logs (view sdb s1)" by simp
  moreover have "so_address ?obj = a" by (simp add: newObject_def)
  ultimately show ?thesis
    unfolding eq using new other q bal
    by (auto simp: state_world_def w_account_def view_set fun_eq_iff simp del: view_fields)
qed

section \<open>Readers\<close>

lemma live_world:
  assumes "objs_ok sdb s"
  shows "fst (state_world (view sdb s)) a = (case live sdb s a of None \<Rightarrow> no_account
    | Some obj \<Rightarrow> \<lparr> w_nonce = acc_Nonce (so_data obj), w_balance = acc_Balance (so_data obj), w_code = code_of sdb obj,
        w_state = state_of sdb (snap s) (snapDestructs s) obj, w_suicided = suicided obj \<rparr>)"
  by (auto simp: state_world_def v_accounts_view live_def account_world_def oview_def split: option.splits)

lemma readers_world:
  assumes "backend_ok sdb" "objs_ok sdb s" "store_ok sdb (snap s) (main_trie s)"
  shows "fst (GetBalance sdb a s) = w_balance (fst (state_world (view sdb s)) a)"
    "fst (GetNonce sdb a s) = w_nonce (fst (state_world (view sdb s)) a)"
    "fst (HasSuicided sdb a s) = w_suicided (fst (state_world (view sdb s)) a)"
    "\<exists>s'. GetCode sdb a s = Ret (w_code (fst (state_world (view sdb s)) a), s') \<and> quiet sdb s s'"
    "\<exists>s'. GetState sdb a k s = Ret (w_state (fst (state_world (view sdb s)) a) k, s') \<and> quiet sdb s s'"
proof -
  note w = live_world [OF assms(2), of a] no_account_def
  show "fst (GetBalance sdb a s) = w_balance (fst (state_world (view sdb s)) a)"
    "fst (GetNonce sdb a s) = w_nonce (fst (state_world (view sdb s)) a)"
    "fst (HasSuicided sdb a s) = w_suicided (fst (state_world (view sdb s)) a)"
    by (rule get_quiet [OF assms(2), of a], simp add: w split: option.splits)+
  show "\<exists>s'. GetCode sdb a s = Ret (w_code (fst (state_world (view sdb s)) a), s') \<and> quiet sdb s s'"
    by (rule GetCode_quiet [OF assms(1,2), of a]) (simp add: w split: option.splits)
  show "\<exists>s'. GetState sdb a k s = Ret (w_state (fst (state_world (view sdb s)) a) k, s') \<and> quiet sdb s s'"
    by (rule GetState_quiet [OF assms, of a k]) (simp add: w split: option.splits)
qed

end
