(* ===== verification/State_Steps.thy ===== *)
theory State_Steps
  imports State_Machine State_Refine
begin

text \<open>
  Sequences of database operations: a step is one call of the interface \<^verbatim>\<open>evm.StateDB\<close> that returns.
  Every state that is reachable from a fresh one is well-formed, and reverting to a snapshot gives
  back the view it was taken of, whatever was done in between.
\<close>

section \<open>Steps\<close>

text \<open>The bound \<open>b\<close> restricts the snapshots a step may revert to.\<close>

inductive db_step :: "'t StateDatabase \<Rightarrow> nat \<Rightarrow> 't state_db \<Rightarrow> 't state_db \<Rightarrow> bool" for sdb b where
  step_CreateAccount: "db_step sdb b s (CreateAccount sdb a s)"
| step_AddBalance: "db_step sdb b s (AddBalance sdb a v s)"
| step_SubBalance: "db_step sdb b s (SubBalance sdb a v s)"
| step_SetNonce: "db_step sdb b s (SetNonce sdb a n s)"
| step_SetCode: "length c < 2 ^ 63 \<Longrightarrow> db_step sdb b s (SetCode sdb a c s)"
| step_SetState: "SetState sdb a k x s = Ret s' \<Longrightarrow> db_step sdb b s s'"
| step_Suicide: "db_step sdb b s (snd (Suicide sdb a s))"
| step_AddRefund: "db_step sdb b s (AddRefund g s)"
| step_SubRefund: "SubRefund g s = Ret s' \<Longrightarrow> db_step sdb b s s'"
| step_AddLog: "db_step sdb b s (AddLog l s)"
| step_AddPreimage: "db_step sdb b s (AddPreimage h d s)"
| step_AddAddress: "db_step sdb b s (AddAddressToAccessList a s)"
| step_AddSlot: "AddSlotToAccessList a k s = Ret s' \<Longrightarrow> db_step sdb b s s'"
| step_Exist: "db_step sdb b s (snd (Exist sdb a s))"
| step_Empty: "db_step sdb b s (snd (Empty sdb a s))"
| step_GetBalance: "db_step sdb b s (snd (GetBalance sdb a s))"
| step_GetNonce: "db_step sdb b s (snd (GetNonce sdb a s))"
| step_GetCodeHash: "db_step sdb b s (snd (GetCodeHash sdb a s))"
| step_HasSuicided: "db_step sdb b s (snd (HasSuicided sdb a s))"
| step_GetCode: "GetCode sdb a s = Ret (c, s') \<Longrightarrow> db_step sdb b s s'"
| step_GetCodeSize: "GetCodeSize sdb a s = Ret (n, s') \<Longrightarrow> db_step sdb b s s'"
| step_GetState: "GetState sdb a k s = Ret (x, s') \<Longrightarrow> db_step sdb b s s'"
| step_GetCommittedState: "GetCommittedState sdb a k s = Ret (x, s') \<Longrightarrow> db_step sdb b s s'"
| step_Snapshot: "db_step sdb b s (snd (Snapshot s))"
| step_Revert: "b \<le> revid \<Longrightarrow> RevertToSnapshot sdb revid s = Ret s' \<Longrightarrow> db_step sdb b s s'"

lemma reads_journalled:
  assumes "state_reads sdb f" "state_inv sdb s" "f s = Ret (x, s')"
  shows "journalled sdb s s'"
  using assms journalled_quiet unfolding state_reads_def by fastforce

lemma writes_journalled:
  assumes "state_writes sdb f" "state_inv sdb s" "f s = Ret s'"
  shows "journalled sdb s s'"
  using assms unfolding state_writes_def by fastforce

lemma reader_journalled:
  assumes "state_reads sdb (\<lambda>s. Ret (f s))" "state_inv sdb s"
  shows "journalled sdb s (snd (f s))"
  by (rule reads_journalled [OF assms, where x = "fst (f s)"]) simp

lemmas reader_states =
  account_readers [unfolded state_db_ops_def, simplified]
  code_readers [unfolded state_db_ops_def, simplified]
  storage_readers [unfolded state_db_ops_def, simplified]

lemma Exist_journalled: "state_inv sdb s \<Longrightarrow> journalled sdb s (snd (Exist sdb a s))"
  by (rule get_quiet [OF state_invD(3), of sdb s a]) (auto intro: journalled_quiet)

lemma revert_restorable:
  assumes "state_inv sdb s" "RevertToSnapshot sdb revid s = Ret s'"
  obtains x where "state_restorable sdb s revid x"
proof -
  let ?revs = "validRevisions s"
  define idx where "idx = sort_Search (length ?revs) (\<lambda>i. revid \<le> rev_id (?revs ! i))"
  have "idx \<noteq> length ?revs" "rev_id (?revs ! idx) = revid"
    using assms(2) by (auto simp: RevertToSnapshot_def Let_def idx_def split: if_splits)
  moreover have "idx \<le> length ?revs" unfolding idx_def
  proof (rule sort_Search_least(1))
    fix k l assume *: "revid \<le> rev_id (?revs ! k)" "k \<le> l" "l < length ?revs"
    show "revid \<le> rev_id (?revs ! l)"
    proof (cases "k = l")
      case False
      then have "rev_id (?revs ! k) < rev_id (?revs ! l)"
        using sorted_wrt_nth_less [OF state_invD(6) [OF assms(1)], of k l] * by simp
      with * show ?thesis by simp
    qed (use * in simp)
  qed
  ultimately have "?revs ! idx \<in> set ?revs" by simp
  with state_invD(8) [OF assms(1) this] \<open>rev_id (?revs ! idx) = revid\<close> show thesis
    using that by (auto simp: state_restorable_def revision_ok_def)
qed

text \<open>A step keeps the invariant and every snapshot below its bound.\<close>

lemma db_step_ok:
  assumes "db_step sdb b s s'" "state_inv sdb s"
  shows "state_inv sdb s' \<and> (\<forall>i x. i < b \<longrightarrow> state_restorable sdb s i x \<longrightarrow> state_restorable sdb s' i x)"
proof -
  note inv = state_invD(1,3) [OF assms(2)]
  consider "journalled sdb s s'" | "s' = snd (Snapshot s)" | revid where "b \<le> revid" "RevertToSnapshot sdb revid s = Ret s'"
    using assms(1)
  proof cases
    case (step_SetCode c a)
    then show thesis using SetCode_journalled [OF inv step_SetCode(2)] that(1) by simp
  next
    case (step_SetState a k x)
    then show thesis using SetState_journalled [OF inv state_invD(2) [OF assms(2)], of a k x] that(1) by fastforce
  next
    case (step_Suicide a)
    then show thesis using Suicide_journalled [OF inv(2), of a] that(1) by (metis snd_conv)
  next
    case (step_AddSlot a k)
    then show thesis
      using AddSlotToAccessList_journalled [OF inv(2) state_invD(4) [OF assms(2)], of a k] that(1) by fastforce
  qed (use that inv assms(2) in \<open>auto intro: CreateAccount_journalled balance_journalled SetNonce_journalled
      SetCode_journalled AddRefund_journalled SubRefund_journalled AddLog_journalled AddPreimage_journalled
      AddAddressToAccessList_journalled Exist_journalled reader_journalled [OF reader_states(1)]
      reader_journalled [OF reader_states(2)] reader_journalled [OF reader_states(3)]
      reader_journalled [OF reader_states(4)] reader_journalled [OF reader_states(5)]
      reads_journalled [OF reader_states(6)] reads_journalled [OF reader_states(7)]
      reads_journalled [OF reader_states(8)] reads_journalled [OF reader_states(9)]\<close>)
  then show ?thesis
  proof cases
    case 1
    then show ?thesis using journalled_inv [OF assms(2)] by (auto simp: keeps_def)
  next
    case 2
    then show ?thesis using Snapshot_inv(1,2) [OF assms(2) prod.collapse [symmetric]] by (auto simp: keeps_def)
  next
    case 3
    obtain x where "state_restorable sdb s revid x" by (rule revert_restorable [OF assms(2) 3(2)])
    then show ?thesis using RevertToSnapshot_inv [OF assms(2)] 3 by (metis go.inject(1) order.strict_trans2)
  qed
qed

lemma db_steps_ok:
  assumes "(db_step sdb b)\<^sup>*\<^sup>* s s'" "state_inv sdb s"
  shows "state_inv sdb s' \<and> (\<forall>i x. i < b \<longrightarrow> state_restorable sdb s i x \<longrightarrow> state_restorable sdb s' i x)"
  using assms
proof (induction rule: rtranclp_induct)
  case (step s1 s2)
  then show ?case using db_step_ok [of sdb b s1 s2] by blast
qed simp

lemma New_inv:
  assumes "New sdb rt snaps = Inr s" "backend_ok sdb" "store_ok sdb (snap s) (main_trie s)"
  shows "state_inv sdb s"
  using assms by (auto simp: New_def state_inv_def objs_ok_def al_ok_new split: sum.splits)

section \<open>A concrete database\<close>

text \<open>A backend with nothing in it, and its fresh state.\<close>

definition empty_backend :: "unit StateDatabase" where
  "empty_backend =
     \<lparr> Keccak256 = (\<lambda>b. word_of_nat (be_nat b)), OpenTrie = (\<lambda>_. Inr ()), OpenStorageTrie = (\<lambda>_ _. Inr ()),
       CopyTrie = (\<lambda>t. t), ContractCode = (\<lambda>_ _. ([], None)), ContractCodeSize = (\<lambda>_ _. (0, None)),
       TryGet = (\<lambda>_ _. ([], None)), DecodeAccount = (\<lambda>_. None) \<rparr>"

definition empty_state :: "unit state_db" where
  "empty_state = projr (New empty_backend 0 None)"

lemma empty_backend_ok: "backend_ok empty_backend"
proof -
  have "inj (\<lambda>a :: address. word_of_nat (be_nat (address_bytes a)) :: hash)"
  proof (rule injI)
    fix a b :: address
    have len: "unat x < 2 ^ 160" for x :: address using unsigned_less [of x, where 'a = nat] by simp
    have eq: "unat (word_of_nat (be_nat (address_bytes x)) :: hash) = unat x" for x :: address
      using len [of x] by (simp only: address_bytes_def be_nat_be_bytes unat_of_nat) simp
    assume "(word_of_nat (be_nat (address_bytes a)) :: hash) = word_of_nat (be_nat (address_bytes b))"
    then show "a = b" using eq [of a] eq [of b] by (metis unsigned_word_eqI)
  qed
  then show ?thesis by (simp add: backend_ok_def empty_backend_def)
qed

lemma New_empty: "New empty_backend 0 None = Inr empty_state"
  by (simp add: empty_state_def New_def empty_backend_def)

lemma empty_store: "store_ok empty_backend (snap empty_state) (main_trie empty_state)"
  by (simp add: store_ok_def empty_state_def New_def empty_backend_def)

lemma empty_state_inv: "state_inv empty_backend empty_state"
  by (rule New_inv [OF New_empty empty_backend_ok empty_store])

section \<open>The contract of the database\<close>

text \<open>C2: Reverting to a snapshot restores the state. From a well-formed state, take a snapshot and
  then run any sequence of interface calls: writes, reads, further snapshots, and reverts to later
  ones. \<open>RevertToSnapshot\<close> with the snapshot's id then returns without a panic, and the account of
  every address, its storage and code, the logs, refunds, preimages and access list are what
  they were.\<close>

theorem snapshot_revert:
  assumes "state_inv sdb s" "Snapshot s = (revid, s1)" "(db_step sdb (Suc revid))\<^sup>*\<^sup>* s1 s2"
  shows "\<exists>s3. RevertToSnapshot sdb revid s2 = Ret s3 \<and> view sdb s3 = view sdb s \<and> state_inv sdb s3"
proof -
  note snap = Snapshot_inv [OF assms(1,2)]
  have "state_inv sdb s2" "state_restorable sdb s2 revid (view sdb s)"
    using db_steps_ok [OF assms(3) snap(1)] snap(4) by auto
  then show ?thesis by (rule RevertToSnapshot_inv) blast
qed

theorem snapshot_revert_witness:
  "\<exists>s3. RevertToSnapshot empty_backend 0 (SetNonce empty_backend 7 3 (AddBalance empty_backend 7 5 (snd (Snapshot empty_state)))) = Ret s3
     \<and> view empty_backend s3 = view empty_backend empty_state \<and> state_inv empty_backend s3"
proof (rule snapshot_revert [OF empty_state_inv])
  show "Snapshot empty_state = (0, snd (Snapshot empty_state))"
    by (simp add: Snapshot_def empty_state_def New_def empty_backend_def)
  show "(db_step empty_backend (Suc 0))\<^sup>*\<^sup>* (snd (Snapshot empty_state))
      (SetNonce empty_backend 7 3 (AddBalance empty_backend 7 5 (snd (Snapshot empty_state))))"
    by (meson rtranclp.rtrancl_into_rtrancl rtranclp.rtrancl_refl step_AddBalance step_SetNonce)
qed



text \<open>C15: Each writer of the database changes the world at one address, in one respect. Whatever is
  cached, pending or dirty, a balance, nonce, code or storage slot that is written is what the
  world holds afterwards, and nothing else of it changes; a suicide clears the balance of an
  account that exists; creating an account over an existing one keeps only its balance.\<close>

theorem writers_refine:
  assumes "state_inv sdb s"
  shows "state_world (view sdb (AddBalance sdb a n s)) = w_account a (\<lambda>x. x\<lparr> w_balance := w_balance x + n \<rparr>) (state_world (view sdb s))
    \<and> state_world (view sdb (SubBalance sdb a n s)) = w_account a (\<lambda>x. x\<lparr> w_balance := w_balance x - n \<rparr>) (state_world (view sdb s))
    \<and> state_world (view sdb (SetNonce sdb a m s)) = w_account a (\<lambda>x. x\<lparr> w_nonce := m \<rparr>) (state_world (view sdb s))
    \<and> state_world (view sdb (SetCode sdb a c s)) = w_account a (\<lambda>x. x\<lparr> w_code := c \<rparr>) (state_world (view sdb s))
    \<and> (\<exists>s'. SetState sdb a k v s = Ret s' \<and> state_world (view sdb s')
          = w_account a (\<lambda>x. x\<lparr> w_state := (w_state x)(k := v) \<rparr>) (state_world (view sdb s)))
    \<and> state_world (view sdb (snd (Suicide sdb a s))) = (if fst (Exist sdb a s)
          then w_account a (\<lambda>x. x\<lparr> w_balance := 0, w_suicided := True \<rparr>) (state_world (view sdb s))
          else state_world (view sdb s))
    \<and> state_world (view sdb (CreateAccount sdb a s)) = (if fst (Exist sdb a s)
          then w_account a (\<lambda>x. no_account\<lparr> w_balance := w_balance x \<rparr>) (state_world (view sdb s))
          else state_world (view sdb s))"
proof -
  note ok = state_invD(1,3,2) [OF assms]
  have ex: "fst (Exist sdb a s) = (live sdb s a \<noteq> None)" by (rule get_quiet [OF ok(2), of a]) simp
  obtain s' where s': "SetState sdb a k v s = Ret s'" by (rule SetState_journalled [OF ok])
  have sui: "fst (Suicide sdb a s) = fst (Exist sdb a s)"
    by (rule getStateObject_quiet [OF ok(2), of a]) (simp add: ex Suicide_def split: option.splits)
  show ?thesis
    using balance_worlds [OF ok, of a n] SetNonce_world [OF ok] SetCode_world [OF ok] s' SetState_world [OF ok s']
      Suicide_world [OF ok(2) prod.collapse [symmetric], of a] sui CreateAccount_world [OF ok, of a]
      CreateAccount_world_live [OF ok, of a] ex
    by auto
qed

theorem writers_refine_witness:
  "w_nonce (fst (state_world (view empty_backend (SetNonce empty_backend 7 3 empty_state))) 7) = 3"
  using writers_refine [OF empty_state_inv, of 7 0 3 "[]" 0 0] by (simp add: w_account_def)



end
