(* ===== verification/Chain_Config.thy ===== *)
theory Chain_Config
  imports Evm_Env
begin

text \<open>
  The chain configuration of \<^verbatim>\<open>src/config/config.go\<close>: the fork schedule, the rules that hold at a
  block, and the checks made when a configuration is loaded.

  \<^item> A nil \<^verbatim>\<open>*big.Int\<close> is \<open>None\<close>. The consensus engine sections and the printing of the
    configuration are left out.
  \<^item> \<open>checkCompatible_spec\<close> and \<open>CheckCompatible_safe\<close> show that rewinding to the block that
    \<^verbatim>\<open>CheckCompatible\<close> names removes every conflict; \<open>fork_order_rules\<close> that the order check makes
    the rules nested.
\<close>

record ChainConfig =
  ChainID :: "int option"
  HomesteadBlock :: "int option"
  EIP150Block :: "int option"
  LondonBlock :: "int option"
  TerminalTotalDifficulty :: "int option"

definition isForked :: "int option \<Rightarrow> int option \<Rightarrow> bool" where
  "isForked s head =
     (case s of None \<Rightarrow> False | Some s \<Rightarrow> (case head of None \<Rightarrow> False | Some head \<Rightarrow> s \<le> head))"

definition cfg_IsHomestead :: "ChainConfig \<Rightarrow> int option \<Rightarrow> bool" where
  "cfg_IsHomestead cc num = isForked (HomesteadBlock cc) num"

definition cfg_IsEIP150 :: "ChainConfig \<Rightarrow> int option \<Rightarrow> bool" where
  "cfg_IsEIP150 cc num = isForked (EIP150Block cc) num"

definition cfg_IsLondon :: "ChainConfig \<Rightarrow> int option \<Rightarrow> bool" where
  "cfg_IsLondon cc num = isForked (LondonBlock cc) num"

definition IsTerminalPoWBlock :: "ChainConfig \<Rightarrow> int \<Rightarrow> int \<Rightarrow> bool" where
  "IsTerminalPoWBlock cc parentTotalDiff totalDiff =
     (case TerminalTotalDifficulty cc of
        None \<Rightarrow> False
      | Some ttd \<Rightarrow> parentTotalDiff < ttd \<and> totalDiff \<ge> ttd)"

definition configNumEqual :: "int option \<Rightarrow> int option \<Rightarrow> bool" where
  "configNumEqual x y =
     (case x of None \<Rightarrow> y = None | Some x \<Rightarrow> (case y of None \<Rightarrow> False | Some y \<Rightarrow> x = y))"

definition isForkIncompatible :: "int option \<Rightarrow> int option \<Rightarrow> int option \<Rightarrow> bool" where
  "isForkIncompatible s1 s2 head = ((isForked s1 head \<or> isForked s2 head) \<and> \<not> configNumEqual s1 s2)"

record CompatError =
  What :: string
  StoredConfig :: "int option"
  NewConfig :: "int option"
  RewindTo :: u64

definition newCompatError :: "string \<Rightarrow> int option \<Rightarrow> int option \<Rightarrow> CompatError" where
  "newCompatError what storedBlock newBlock =
     (let rew = (case storedBlock of
                   None \<Rightarrow> newBlock
                 | Some s \<Rightarrow> (case newBlock of
                                None \<Rightarrow> storedBlock
                              | Some n \<Rightarrow> if s < n then storedBlock else newBlock))
      in \<lparr> What = what, StoredConfig = storedBlock, NewConfig = newBlock,
           RewindTo = (case rew of None \<Rightarrow> 0 | Some r \<Rightarrow> if r > 0 then word_of_int r - 1 else 0) \<rparr>)"

definition checkCompatible :: "ChainConfig \<Rightarrow> ChainConfig \<Rightarrow> int option \<Rightarrow> CompatError option" where
  "checkCompatible cc newcfg head =
     (if isForkIncompatible (HomesteadBlock cc) (HomesteadBlock newcfg) head
      then Some (newCompatError ''Homestead fork block'' (HomesteadBlock cc) (HomesteadBlock newcfg))
      else if isForkIncompatible (EIP150Block cc) (EIP150Block newcfg) head
      then Some (newCompatError ''EIP150 fork block'' (EIP150Block cc) (EIP150Block newcfg))
      else if isForkIncompatible (LondonBlock cc) (LondonBlock newcfg) head
      then Some (newCompatError ''London fork block'' (LondonBlock cc) (LondonBlock newcfg))
      else None)"

text \<open>The block of a conflict lies before the head, unless both are the genesis block.\<close>

lemma rewind_word:
  assumes "0 < r" "r \<le> uint (h :: u64)"
  shows "uint (word_of_int r - 1 :: u64) = r - 1"
proof -
  have "r < 2 ^ 64" using assms(2) uint_lt2p [of h] by simp
  then have u: "uint (word_of_int r :: u64) = r" using assms(1) by (simp add: uint_word_of_int)
  then have "(word_of_int r :: u64) \<noteq> 0" using assms(1) by (metis less_irrefl unsigned_0)
  then have "unat (word_of_int r - 1 :: u64) = unat (word_of_int r :: u64) - 1"
    by (simp add: unat_minus_one)
  moreover have "int (unat (word_of_int r :: u64)) = r" using u by (simp only: uint_nat [symmetric])
  ultimately show ?thesis using assms(1) unfolding uint_nat by linarith
qed

text \<open>The fork block a conflict is about.\<close>

definition conflict_block :: "int option \<Rightarrow> int option \<Rightarrow> int" where
  "conflict_block s1 s2 = (case (s1, s2) of
     (None, None) \<Rightarrow> 0 | (Some a, None) \<Rightarrow> a | (None, Some b) \<Rightarrow> b | (Some a, Some b) \<Rightarrow> min a b)"

lemma isForkIncompatible_iff:
  "isForkIncompatible s1 s2 (Some h) \<longleftrightarrow> s1 \<noteq> s2 \<and> conflict_block s1 s2 \<le> h"
  by (auto simp: isForkIncompatible_def isForked_def configNumEqual_def conflict_block_def split: option.splits)

lemma newCompatError_RewindTo:
  assumes "isForkIncompatible s1 s2 (Some (uint (h :: u64)))"
  shows "uint (RewindTo (newCompatError what s1 s2)) = max 0 (conflict_block s1 s2 - 1)"
proof -
  have "RewindTo (newCompatError what s1 s2)
      = (if conflict_block s1 s2 > 0 then word_of_int (conflict_block s1 s2) - 1 else 0)"
    using assms by (auto simp: isForkIncompatible_iff newCompatError_def conflict_block_def Let_def split: option.splits)
  with assms rewind_word [of "conflict_block s1 s2" h] show ?thesis by (simp add: isForkIncompatible_iff)
qed

lemma checkCompatible_RewindTo:
  assumes "checkCompatible cc newcfg (Some (uint (h :: u64))) = Some err"
  obtains s1 s2 where "s1 \<noteq> s2" "(s1, s2) \<in> {(HomesteadBlock cc, HomesteadBlock newcfg),
      (EIP150Block cc, EIP150Block newcfg), (LondonBlock cc, LondonBlock newcfg)}"
    "conflict_block s1 s2 \<le> uint h" "uint (RewindTo err) = max 0 (conflict_block s1 s2 - 1)"
  using assms newCompatError_RewindTo
  by (auto simp: checkCompatible_def isForkIncompatible_iff split: if_splits)

lemma checkCompatible_rewind:
  assumes "checkCompatible cc newcfg (Some (uint (h :: u64))) = Some err"
  shows "unat (RewindTo err) < unat h \<or> RewindTo err = 0"
proof -
  from checkCompatible_RewindTo [OF assms] obtain b where "b \<le> uint h" "uint (RewindTo err) = max 0 (b - 1)"
    by metis
  then have "uint (RewindTo err) < uint h \<or> uint (RewindTo err) = 0" by (auto simp: max_def)
  then show ?thesis
    by (metis unsigned_0 unsigned_word_eqI word_less_def word_less_nat_alt)
qed

function CheckCompatible_loop ::
  "ChainConfig \<Rightarrow> ChainConfig \<Rightarrow> CompatError option \<Rightarrow> u64 \<Rightarrow> CompatError option" where
  "CheckCompatible_loop cc newcfg lasterr bhead =
     (case checkCompatible cc newcfg (Some (uint bhead)) of
        None \<Rightarrow> lasterr
      | Some err \<Rightarrow>
          if lasterr \<noteq> None \<and> RewindTo err = RewindTo (the lasterr) then lasterr
          else CheckCompatible_loop cc newcfg (Some err) (RewindTo err))"
  by pat_completeness auto
termination
proof (relation "measure (\<lambda>(cc, newcfg, lasterr, bhead). 2 * unat bhead +
    (case lasterr of None \<Rightarrow> 1 | Some e \<Rightarrow> if RewindTo e = bhead then 0 else 1))")
  fix cc newcfg and lasterr :: "CompatError option" and bhead :: u64 and err
  assume err: "checkCompatible cc newcfg (Some (uint bhead)) = Some err"
    and last: "\<not> (lasterr \<noteq> None \<and> RewindTo err = RewindTo (the lasterr))"
  from checkCompatible_rewind [OF err]
  show "((cc, newcfg, Some err, RewindTo err), cc, newcfg, lasterr, bhead) \<in> measure (\<lambda>(cc, newcfg, lasterr, bhead).
      2 * unat bhead + (case lasterr of None \<Rightarrow> 1 | Some e \<Rightarrow> if RewindTo e = bhead then 0 else 1))"
    using last by (auto split: option.splits) (metis neq0_conv unat_eq_zero)+
qed simp

declare CheckCompatible_loop.simps [simp del]

definition CheckCompatible :: "ChainConfig \<Rightarrow> ChainConfig \<Rightarrow> u64 \<Rightarrow> CompatError option" where
  "CheckCompatible cc newcfg height = CheckCompatible_loop cc newcfg None height"

text \<open>The order check: the name of the last fork, with its block, starts empty.\<close>

definition CheckConfigForkOrder_step ::
  "string \<times> int option \<Rightarrow> string \<times> int option \<Rightarrow> string option" where
  "CheckConfigForkOrder_step lastFork cur =
     (if fst lastFork \<noteq> '''' then
        (if snd lastFork = None \<and> snd cur \<noteq> None
         then Some (fst lastFork @ '' not enabled, but '' @ fst cur)
         else if snd lastFork \<noteq> None \<and> snd cur \<noteq> None \<and> the (snd lastFork) > the (snd cur)
         then Some (fst lastFork @ '' enabled after '' @ fst cur)
         else None)
      else None)"

primrec CheckConfigForkOrder_loop ::
  "string \<times> int option \<Rightarrow> (string \<times> int option) list \<Rightarrow> string option" where
  "CheckConfigForkOrder_loop lastFork [] = None"
| "CheckConfigForkOrder_loop lastFork (cur # forks) =
     (case CheckConfigForkOrder_step lastFork cur of
        Some err \<Rightarrow> Some err
      | None \<Rightarrow> CheckConfigForkOrder_loop cur forks)"

definition CheckConfigForkOrder :: "ChainConfig \<Rightarrow> string option" where
  "CheckConfigForkOrder cc =
     CheckConfigForkOrder_loop ('''', None)
       [(''homesteadBlock'', HomesteadBlock cc), (''eip150Block'', EIP150Block cc), (''londonBlock'', LondonBlock cc)]"

definition cfg_Rules :: "ChainConfig \<Rightarrow> int option \<Rightarrow> bool \<Rightarrow> int \<times> Rules" where
  "cfg_Rules cc num isMerge =
     (case ChainID cc of None \<Rightarrow> 0 | Some i \<Rightarrow> i,
      \<lparr> IsHomestead = cfg_IsHomestead cc num, IsEIP150 = cfg_IsEIP150 cc num,
        IsLondon = cfg_IsLondon cc num, IsMerge = isMerge \<rparr>)"

section \<open>The order check\<close>

lemma fork_order_blocks:
  assumes "CheckConfigForkOrder cc = None"
  shows "LondonBlock cc = Some l \<Longrightarrow> \<exists>e. EIP150Block cc = Some e \<and> e \<le> l"
    "EIP150Block cc = Some e \<Longrightarrow> \<exists>h. HomesteadBlock cc = Some h \<and> h \<le> e"
  using assms
  by (auto simp: CheckConfigForkOrder_def CheckConfigForkOrder_step_def not_less split: if_splits option.splits)

lemma fork_order_rules:
  assumes "CheckConfigForkOrder cc = None"
  shows "cfg_IsLondon cc num \<Longrightarrow> cfg_IsEIP150 cc num" "cfg_IsEIP150 cc num \<Longrightarrow> cfg_IsHomestead cc num"
  using fork_order_blocks [OF assms]
  by (fastforce simp: cfg_IsLondon_def cfg_IsEIP150_def cfg_IsHomestead_def isForked_def split: option.splits)+

section \<open>The compatibility check\<close>

lemma CheckCompatible_loop_safe:
  assumes "CheckCompatible_loop cc newcfg lasterr bhead = Some err"
    "\<And>e. lasterr = Some e \<Longrightarrow> RewindTo e = bhead \<and> (\<exists>h. checkCompatible cc newcfg (Some (uint (h :: u64))) = Some e)"
  shows "(RewindTo err = 0 \<or> checkCompatible cc newcfg (Some (uint (RewindTo err))) = None)
    \<and> (\<exists>h. checkCompatible cc newcfg (Some (uint (h :: u64))) = Some err)"
  using assms
proof (induction cc newcfg lasterr bhead rule: CheckCompatible_loop.induct)
  case (1 cc newcfg lasterr bhead)
  show ?case
  proof (cases "checkCompatible cc newcfg (Some (uint bhead))")
    case None
    then show ?thesis using 1(2,3) by (subst (asm) CheckCompatible_loop.simps) auto
  next
    case (Some e)
    show ?thesis
    proof (cases "lasterr \<noteq> None \<and> RewindTo e = RewindTo (the lasterr)")
      case True
      then obtain l where l: "lasterr = Some l" "RewindTo e = RewindTo l" by auto
      then have "err = l" using 1(2) Some by (subst (asm) CheckCompatible_loop.simps) simp
      moreover have "RewindTo l = 0" using checkCompatible_rewind [OF Some] 1(3) [OF l(1)] l(2) by auto
      ultimately show ?thesis using 1(3) [OF l(1)] by auto
    next
      case False
      with Some have "CheckCompatible_loop cc newcfg (Some e) (RewindTo e) = Some err"
        using 1(2) by (subst (asm) CheckCompatible_loop.simps) auto
      moreover have "RewindTo ea = RewindTo e \<and> (\<exists>h. checkCompatible cc newcfg (Some (uint (h :: u64))) = Some ea)"
        if "Some e = Some ea" for ea using that Some by auto
      ultimately show ?thesis by (rule 1(1) [OF Some False])
    qed
  qed
qed

lemma CheckCompatible_loop_Some: "lasterr \<noteq> None \<Longrightarrow> CheckCompatible_loop cc newcfg lasterr h \<noteq> None"
proof (induction cc newcfg lasterr h rule: CheckCompatible_loop.induct)
  case (1 cc newcfg lasterr bhead)
  then show ?case by (subst CheckCompatible_loop.simps) (auto split: option.splits)
qed

lemma checkCompatible_mono:
  "checkCompatible cc newcfg (Some h) = None \<Longrightarrow> h' \<le> h \<Longrightarrow> checkCompatible cc newcfg (Some h') = None"
  by (auto simp: checkCompatible_def isForkIncompatible_iff split: if_splits)

lemma checkCompatible_above:
  assumes "checkCompatible cc newcfg (Some (uint (h :: u64))) = Some err" "RewindTo err < h'"
  shows "checkCompatible cc newcfg (Some (uint h')) \<noteq> None"
proof -
  obtain s1 s2 where s: "s1 \<noteq> s2" "(s1, s2) \<in> {(HomesteadBlock cc, HomesteadBlock newcfg),
      (EIP150Block cc, EIP150Block newcfg), (LondonBlock cc, LondonBlock newcfg)}"
    "uint (RewindTo err) = max 0 (conflict_block s1 s2 - 1)"
    by (rule checkCompatible_RewindTo [OF assms(1)])
  have "conflict_block s1 s2 \<le> uint h'" using s(3) assms(2) by (simp add: word_less_def max_def split: if_splits)
  with s(1,2) show ?thesis by (auto simp: checkCompatible_def isForkIncompatible_iff)
qed

lemma CheckCompatible_None_iff:
  "CheckCompatible cc newcfg height = None \<longleftrightarrow> checkCompatible cc newcfg (Some (uint height)) = None"
  unfolding CheckCompatible_def
  by (subst CheckCompatible_loop.simps) (simp add: CheckCompatible_loop_Some split: option.splits)

lemma CheckCompatible_Some:
  assumes "CheckCompatible cc newcfg height = Some err"
  shows "RewindTo err < h \<Longrightarrow> checkCompatible cc newcfg (Some (uint h)) \<noteq> None"
    "RewindTo err \<noteq> 0 \<Longrightarrow> h \<le> RewindTo err \<Longrightarrow> checkCompatible cc newcfg (Some (uint h)) = None"
proof -
  have "(RewindTo err = 0 \<or> checkCompatible cc newcfg (Some (uint (RewindTo err))) = None)
      \<and> (\<exists>h. checkCompatible cc newcfg (Some (uint (h :: u64))) = Some err)"
    using assms unfolding CheckCompatible_def by (rule CheckCompatible_loop_safe) simp
  then show "RewindTo err < h \<Longrightarrow> checkCompatible cc newcfg (Some (uint h)) \<noteq> None"
    "RewindTo err \<noteq> 0 \<Longrightarrow> h \<le> RewindTo err \<Longrightarrow> checkCompatible cc newcfg (Some (uint h)) = None"
    using checkCompatible_above checkCompatible_mono by (blast, metis word_le_def)
qed



text \<open>C33: The order check on a configuration succeeds exactly when the rules are nested at every
  block: London implies EIP150, and EIP150 implies Homestead.\<close>

theorem fork_order_correct:
  "CheckConfigForkOrder cc = None \<longleftrightarrow> (\<forall>num. let r = snd (cfg_Rules cc num m) in
     (IsLondon r \<longrightarrow> IsEIP150 r) \<and> (IsEIP150 r \<longrightarrow> IsHomestead r))"
proof
  assume "CheckConfigForkOrder cc = None"
  then show "\<forall>num. let r = snd (cfg_Rules cc num m) in (IsLondon r \<longrightarrow> IsEIP150 r) \<and> (IsEIP150 r \<longrightarrow> IsHomestead r)"
    using fork_order_rules by (auto simp: cfg_Rules_def)
next
  assume nested: "\<forall>num. let r = snd (cfg_Rules cc num m) in (IsLondon r \<longrightarrow> IsEIP150 r) \<and> (IsEIP150 r \<longrightarrow> IsHomestead r)"
  have "\<exists>e. EIP150Block cc = Some e \<and> e \<le> l" if "LondonBlock cc = Some l" for l
    using nested [rule_format, of "Some l"] that
    by (auto simp: cfg_Rules_def cfg_IsLondon_def cfg_IsEIP150_def isForked_def split: option.splits)
  moreover have "\<exists>h. HomesteadBlock cc = Some h \<and> h \<le> e" if "EIP150Block cc = Some e" for e
    using nested [rule_format, of "Some e"] that
    by (auto simp: cfg_Rules_def cfg_IsHomestead_def cfg_IsEIP150_def isForked_def split: option.splits)
  ultimately show "CheckConfigForkOrder cc = None"
    by (cases "LondonBlock cc"; cases "EIP150Block cc")
      (auto simp: CheckConfigForkOrder_def CheckConfigForkOrder_step_def)
qed

theorem fork_order_correct_witness:
  "CheckConfigForkOrder \<lparr> ChainID = None, HomesteadBlock = Some 1, EIP150Block = None, LondonBlock = Some 3,
     TerminalTotalDifficulty = None \<rparr> \<noteq> None"
  using fork_order_correct [of "\<lparr> ChainID = None, HomesteadBlock = Some 1, EIP150Block = None, LondonBlock = Some 3,
     TerminalTotalDifficulty = None \<rparr>" False]
  by (auto simp: cfg_Rules_def cfg_IsLondon_def cfg_IsEIP150_def isForked_def intro!: exI [of _ "Some 3"])

end
