(* ===== verification/Block_Header.thy ===== *)
theory Block_Header
  imports Prelude
begin

text \<open>
  The block header of \<^verbatim>\<open>src/blockchain/model/block.go\<close>. A \<^verbatim>\<open>*big.Int\<close> that may be nil is an option; the
  bloom filter and the block nonce are their bytes.
\<close>

record Header =
  h_ParentHash :: hash
  h_UncleHash :: hash
  h_Coinbase :: address
  h_Root :: hash
  h_TxHash :: hash
  h_ReceiptHash :: hash
  h_Bloom :: bytes
  h_Difficulty :: int
  h_Number :: int

record block_header = Header +
  h_GasLimit :: u64
  h_GasUsed :: u64
  h_Time :: u64
  h_Extra :: bytes
  h_MixDigest :: hash
  h_Nonce :: bytes
  h_BaseFee :: "int option"

text \<open>\<^verbatim>\<open>Number.Uint64()\<close>: the low 64 bits.\<close>

definition number_u64 :: "block_header \<Rightarrow> u64" where
  "number_u64 h = word_of_int (h_Number h)"

end
