(* ===== verification/Chain_Evm.thy ===== *)
theory Chain_Evm
  imports Chain_Config Block_Header State_DB
begin

text \<open>
  The environment a block gives the virtual machine: \<^verbatim>\<open>src/blockchain/evm.go\<close> and \<^verbatim>\<open>NewEVM\<close> of
  \<^verbatim>\<open>src/evm/evm.go\<close>.

  \<^item> \<^verbatim>\<open>ChainContext\<close> is a Go interface: its \<^verbatim>\<open>GetHeader\<close> and the \<^verbatim>\<open>Author\<close> of its engine are functions.
  \<^item> \<open>GetHashFn\<close> is the closure with its cache as an argument and a result; the loop over the chain,
    which ends only if the headers it is given go back in number, has a fuel. \<open>GetHashFn_correct\<close>
    shows that the cache never changes an answer and how much fuel is enough.
  \<^item> The hash function that a block context gives the machine is the closure with an empty cache.
\<close>

section \<open>Ancestor hashes\<close>

primrec GetHashFn_loop ::
  "nat \<Rightarrow> (hash \<Rightarrow> u64 \<Rightarrow> block_header option) \<Rightarrow> u64 \<Rightarrow> hash \<Rightarrow> u64 \<Rightarrow> hash list \<Rightarrow> (hash \<times> hash list) go" where
  "GetHashFn_loop 0 GetHeader n lastKnownHash lastKnownNumber cache = OutOfFuel"
| "GetHashFn_loop (Suc fuel) GetHeader n lastKnownHash lastKnownNumber cache =
     (case GetHeader lastKnownHash lastKnownNumber of
        None \<Rightarrow> Ret (0, cache)
      | Some header \<Rightarrow>
          let cache = cache @ [h_ParentHash header];
              lastKnownHash = h_ParentHash header;
              lastKnownNumber = number_u64 header - 1
          in if n = lastKnownNumber then Ret (lastKnownHash, cache)
             else GetHashFn_loop fuel GetHeader n lastKnownHash lastKnownNumber cache)"

definition GetHashFn ::
  "nat \<Rightarrow> block_header \<Rightarrow> (hash \<Rightarrow> u64 \<Rightarrow> block_header option) \<Rightarrow> u64 \<Rightarrow> hash list \<Rightarrow> (hash \<times> hash list) go" where
  "GetHashFn fuel ref GetHeader n cache =
     (if number_u64 ref \<le> n then Ret (0, cache)
      else let cache = (if length cache = 0 then cache @ [h_ParentHash ref] else cache);
               idx = number_u64 ref - n - 1
           in if idx < word_of_nat (length cache)
              then go_bind (index_go cache (unat idx)) (\<lambda>h. Ret (h, cache))
              else go_bind (index_go cache (length cache - 1)) (\<lambda>lastKnownHash.
                   GetHashFn_loop fuel GetHeader n lastKnownHash
                     (number_u64 ref - word_of_nat (length cache)) cache))"

section \<open>Contexts\<close>

definition NewEVMBlockContext ::
  "'s StateDB \<Rightarrow> block_header \<Rightarrow> (hash \<Rightarrow> u64 \<Rightarrow> block_header option) \<Rightarrow> (block_header \<Rightarrow> address)
     \<Rightarrow> address option \<Rightarrow> 's BlockContext" where
  "NewEVMBlockContext dbi header GetHeader Author author =
     \<lparr> CanTransfer = chain_CanTransfer dbi, Transfer = chain_Transfer dbi,
       GetHash = (\<lambda>n. case GetHashFn (unat (number_u64 header)) header GetHeader n [] of
                        Ret (h, _) \<Rightarrow> h | _ \<Rightarrow> 0),
       Coinbase = (case author of None \<Rightarrow> Author header | Some a \<Rightarrow> a),
       GasLimit = h_GasLimit header, BlockNumber = h_Number header, Time = int (unat (h_Time header)),
       Difficulty = h_Difficulty header, BaseFee = h_BaseFee header,
       Random = (if h_Difficulty header = 0 then Some (h_MixDigest header) else None) \<rparr>"

definition NewEVM ::
  "uint256_lib \<Rightarrow> crypto_lib \<Rightarrow> 's StateDB \<Rightarrow> 's BlockContext \<Rightarrow> TxContext \<Rightarrow> ChainConfig \<Rightarrow> bool
     \<Rightarrow> (nat \<Rightarrow> bool) \<Rightarrow> 's evm_env" where
  "NewEVM lib cr dbi blockCtx txCtx chainConfig recordPreimages abort =
     \<lparr> U = lib, crypto = cr, db = dbi, Context = blockCtx, TxCtx = txCtx, chainID = ChainID chainConfig,
       chainRules = snd (cfg_Rules chainConfig (Some (BlockNumber blockCtx)) (Random blockCtx \<noteq> None)),
       EnablePreimageRecording = recordPreimages, abort_at = abort \<rparr>"

section \<open>The ancestors\<close>

text \<open>The hash of the \<open>k\<close>-th ancestor of a header, looked up from the header itself.\<close>

primrec ancestor :: "block_header \<Rightarrow> (hash \<Rightarrow> u64 \<Rightarrow> block_header option) \<Rightarrow> nat \<Rightarrow> hash option" where
  "ancestor ref GetHeader 0 = Some (h_ParentHash ref)"
| "ancestor ref GetHeader (Suc k) =
     (case ancestor ref GetHeader k of
        None \<Rightarrow> None
      | Some h \<Rightarrow> map_option h_ParentHash (GetHeader h (number_u64 ref - word_of_nat (Suc k))))"

definition cache_ok :: "block_header \<Rightarrow> (hash \<Rightarrow> u64 \<Rightarrow> block_header option) \<Rightarrow> hash list \<Rightarrow> bool" where
  "cache_ok ref GetHeader cache \<longleftrightarrow> length cache \<le> unat (number_u64 ref)
     \<and> (\<forall>i < length cache. ancestor ref GetHeader i = Some (cache ! i))"

text \<open>A chain hands out a header under its own number.\<close>

definition chain_numbered :: "(hash \<Rightarrow> u64 \<Rightarrow> block_header option) \<Rightarrow> bool" where
  "chain_numbered GetHeader \<longleftrightarrow> (\<forall>h n hd. GetHeader h n = Some hd \<longrightarrow> number_u64 hd = n)"

lemma ancestor_None: "ancestor ref GetHeader j = None \<Longrightarrow> j \<le> k \<Longrightarrow> ancestor ref GetHeader k = None"
  by (induction k) (auto simp: le_Suc_eq)

lemma GetHashFn_loop_correct:
  assumes ch: "chain_numbered GetHeader" and cache: "cache_ok ref GetHeader cache" "cache \<noteq> []"
    and n: "unat n < unat (number_u64 ref) - length cache"
    and fuel: "unat (number_u64 ref) - length cache - unat n \<le> fuel"
  obtains cache' where "GetHashFn_loop fuel GetHeader n (last cache) (number_u64 ref - word_of_nat (length cache)) cache
      = Ret (case ancestor ref GetHeader (unat (number_u64 ref) - unat n - 1) of None \<Rightarrow> 0 | Some h \<Rightarrow> h, cache')"
    "cache_ok ref GetHeader cache'"
  using cache n fuel
proof (induction fuel arbitrary: cache thesis)
  case 0
  then show ?case by simp
next
  case (Suc fuel)
  let ?num = "number_u64 ref" and ?k = "length cache"
  let ?lkn = "?num - word_of_nat ?k"
  let ?goal = "ancestor ref GetHeader (unat ?num - unat n - 1)"
  have k: "0 < ?k" "?k < unat ?num" using Suc.prems by auto
  then have last: "ancestor ref GetHeader (?k - 1) = Some (last cache)"
    using Suc.prems(2,3) by (simp add: cache_ok_def last_conv_nth)
  have kw: "unat (word_of_nat ?k :: u64) = ?k"
    using k(2) unsigned_less [of ?num, where 'a = nat] by (simp add: unat_of_nat)
  then have lkn: "unat ?lkn = unat ?num - ?k"
    using k(2) by (simp add: unat_sub word_le_nat_alt)
  have anc: "ancestor ref GetHeader ?k = map_option h_ParentHash (GetHeader (last cache) ?lkn)"
    using last k(1) by (cases ?k) auto
  show ?case
  proof (cases "GetHeader (last cache) ?lkn")
    case None
    have "?k \<le> unat ?num - unat n - 1" using Suc.prems(4) by linarith
    moreover from None anc have "ancestor ref GetHeader ?k = None" by (simp only: option.map)
    ultimately have "?goal = None" by (rule ancestor_None [rotated])
    with None show ?thesis by (intro Suc.prems(1) [OF _ Suc.prems(2)]) (simp only: GetHashFn_loop.simps option.case)
  next
    case (Some hd)
    then have num: "number_u64 hd = ?lkn" using ch by (simp add: chain_numbered_def)
    let ?c = "cache @ [h_ParentHash hd]"
    have lw: "?lkn - 1 = ?num - word_of_nat (length ?c)" by simp
    have c: "cache_ok ref GetHeader ?c"
      using Suc.prems(2) k(2) anc Some by (auto simp: cache_ok_def nth_append less_Suc_eq)
    have lkn1: "unat (?num - word_of_nat (length ?c)) = unat ?num - Suc ?k"
    proof -
      have "?lkn \<noteq> 0" using lkn k(2) by (metis unat_0 zero_less_diff less_irrefl)
      then show ?thesis unfolding lw [symmetric] using lkn by (simp add: unat_minus_one)
    qed
    show ?thesis
    proof (cases "n = ?lkn - 1")
      case True
      then have "unat ?num - unat n - 1 = ?k" using lkn1 k(2) lw by simp
      then have "?goal = Some (h_ParentHash hd)" using anc Some by simp
      with True Some num show ?thesis using Suc.prems(1) [of ?c] c by simp
    next
      case False
      then have "unat n \<noteq> unat ?num - Suc ?k" using lkn1 lw by (metis unsigned_word_eqI)
      then have "unat n < unat ?num - length ?c" "unat ?num - length ?c - unat n \<le> fuel"
        using Suc.prems(4,5) by auto
      then obtain cache' where "GetHashFn_loop fuel GetHeader n (last ?c) (?num - word_of_nat (length ?c)) ?c
          = Ret (case ?goal of None \<Rightarrow> 0 | Some h \<Rightarrow> h, cache')" "cache_ok ref GetHeader cache'"
        using Suc.IH [OF _ c] by blast
      with False Some num show ?thesis
        by (intro Suc.prems(1) [of cache']) (simp_all only: GetHashFn_loop.simps option.case Let_def lw if_False last_snoc)
    qed
  qed
qed

lemma GetHashFn_correct:
  assumes ch: "chain_numbered GetHeader" and cache: "cache_ok ref GetHeader cache"
    and fuel: "unat (number_u64 ref) \<le> fuel"
  obtains cache' where "GetHashFn fuel ref GetHeader n cache = Ret
      (if number_u64 ref \<le> n then 0
       else case ancestor ref GetHeader (unat (number_u64 ref) - unat n - 1) of None \<Rightarrow> 0 | Some h \<Rightarrow> h, cache')"
    "cache_ok ref GetHeader cache'"
proof (cases "number_u64 ref \<le> n")
  case True
  then show thesis using that [of cache] cache by (simp add: GetHashFn_def)
next
  case False
  let ?num = "number_u64 ref"
  define c where "c = (if length cache = 0 then cache @ [h_ParentHash ref] else cache)"
  have eq: "GetHashFn fuel ref GetHeader n cache = (if ?num - n - 1 < word_of_nat (length c)
      then go_bind (index_go c (unat (?num - n - 1))) (\<lambda>h. Ret (h, c))
      else go_bind (index_go c (length c - 1)) (\<lambda>h. GetHashFn_loop fuel GetHeader n h (?num - word_of_nat (length c)) c))"
    unfolding GetHashFn_def Let_def c_def [symmetric] using False by simp
  have n: "unat n < unat ?num" using False by (simp add: word_le_nat_alt)
  have c: "cache_ok ref GetHeader c" "c \<noteq> []"
    using cache n by (auto simp: c_def cache_ok_def)
  then have len: "length c \<le> unat ?num" by (simp add: cache_ok_def)
  then have lw: "unat (word_of_nat (length c) :: u64) = length c"
    using unsigned_less [of ?num, where 'a = nat] by (simp add: unat_of_nat)
  have idx: "unat (?num - n - 1) = unat ?num - unat n - 1"
  proof -
    have d: "unat (?num - n) = unat ?num - unat n" using False by (simp add: unat_sub)
    then have "?num - n \<noteq> 0" using n by (metis unat_0 zero_less_diff less_irrefl)
    then show ?thesis using d by (simp add: unat_minus_one)
  qed
  show thesis
  proof (cases "?num - n - 1 < word_of_nat (length c)")
    case True
    then have i: "unat ?num - unat n - 1 < length c" using idx lw by (simp add: word_less_nat_alt)
    then have "ancestor ref GetHeader (unat ?num - unat n - 1) = Some (c ! (unat ?num - unat n - 1))"
      using c(1) by (simp add: cache_ok_def)
    then show thesis using that [of c] False True c(1) i idx by (simp add: eq index_go_def)
  next
    case F: False
    then have less: "unat n < unat ?num - length c" using idx lw n c(2) by (cases c) (auto simp: word_less_nat_alt)
    have "unat ?num - length c - unat n \<le> fuel" using fuel by linarith
    then obtain cache' where "GetHashFn_loop fuel GetHeader n (last c) (?num - word_of_nat (length c)) c
        = Ret (case ancestor ref GetHeader (unat ?num - unat n - 1) of None \<Rightarrow> 0 | Some h \<Rightarrow> h, cache')"
      "cache_ok ref GetHeader cache'"
      by (rule GetHashFn_loop_correct [OF ch c less])
    then show thesis using that [of cache'] False F c(2) by (simp add: eq index_go_def last_conv_nth)
  qed
qed

text \<open>C27: BLOCKHASH looks up ancestors. On a chain that hands out headers under their own numbers, the
  closure that \<open>GetHashFn\<close> makes returns, for every block number and every state of its cache, the
  hash reached by following parent hashes from the block, or zero when the number is not below
  the block's own or the chain lacks a header on the way; and it keeps its cache true to the
  chain.\<close>

theorem GetHashFn_ancestor:
  assumes "chain_numbered GetHeader" "cache_ok ref GetHeader cache" "unat (number_u64 ref) \<le> fuel"
  shows "\<exists>cache'. GetHashFn fuel ref GetHeader n cache = Ret
      (if number_u64 ref \<le> n then 0
       else case ancestor ref GetHeader (unat (number_u64 ref) - unat n - 1) of None \<Rightarrow> 0 | Some h \<Rightarrow> h, cache')
    \<and> cache_ok ref GetHeader cache'"
  using GetHashFn_correct [OF assms] by blast

theorem GetHashFn_ancestor_witness:
  "\<exists>cache'. GetHashFn 7 \<lparr> h_ParentHash = 4, h_UncleHash = 0, h_Coinbase = 0, h_Root = 0, h_TxHash = 0,
      h_ReceiptHash = 0, h_Bloom = [], h_Difficulty = 0, h_Number = 7, h_GasLimit = 0, h_GasUsed = 0, h_Time = 0,
      h_Extra = [], h_MixDigest = 0, h_Nonce = [], h_BaseFee = None \<rparr> (\<lambda>_ _. None) 6 [] = Ret (4, cache')"
  using GetHashFn_ancestor [of "\<lambda>_ _. None" "\<lparr> h_ParentHash = 4, h_UncleHash = 0, h_Coinbase = 0, h_Root = 0, h_TxHash = 0,
      h_ReceiptHash = 0, h_Bloom = [], h_Difficulty = 0, h_Number = 7, h_GasLimit = 0, h_GasUsed = 0, h_Time = 0,
      h_Extra = [], h_MixDigest = 0, h_Nonce = [], h_BaseFee = None \<rparr>" "[]" 7 6]
  by (auto simp: chain_numbered_def cache_ok_def number_u64_def)

end
