(* ===== verification/Chain_Machine.thy ===== *)
theory Chain_Machine
  imports State_Steps Chain_Evm
begin

text \<open>
  The virtual machine over the state database of a block: the contract of \<open>evm_machine\<close> is
  discharged for every environment that \<^verbatim>\<open>NewEVM\<close> builds from a valid configuration, and its
  consequences are stated for the functions of \<^verbatim>\<open>src/evm/evm.go\<close> and \<^verbatim>\<open>src/evm/interpreter.go\<close>.
\<close>

section \<open>Environments\<close>

text \<open>
  What the machine relies on of its environment:
  \<^item> the 256-bit arithmetic is as documented, and a recovered public key has 65 bytes;
  \<^item> a London or merged block is past EIP150 and has a base fee, a merged one a random value, and the
    chain has an identifier;
  \<^item> the state is the state database, with the transfer functions of \<^verbatim>\<open>src/blockchain/evm.go\<close>.
\<close>

definition env_ok :: "'t StateDatabase \<Rightarrow> 't state_db evm_env \<Rightarrow> bool" where
  "env_ok sdb E \<longleftrightarrow> uint256_documented (U E)
     \<and> (\<forall>msg sig pk. Ecrecover (crypto E) msg sig = Some pk \<longrightarrow> length pk = 65)
     \<and> (IsLondon (chainRules E) \<or> IsMerge (chainRules E) \<longrightarrow>
          IsEIP150 (chainRules E) \<and> BaseFee (Context E) \<noteq> None \<and> chainID E \<noteq> None)
     \<and> (IsMerge (chainRules E) \<longrightarrow> Random (Context E) \<noteq> None)
     \<and> db E = state_db_ops sdb
     \<and> CanTransfer (Context E) = chain_CanTransfer (state_db_ops sdb)
     \<and> Transfer (Context E) = chain_Transfer (state_db_ops sdb)"

lemma env_ok_machine:
  "env_ok sdb E \<Longrightarrow> evm_machine E (state_inv sdb) (view sdb) state_world (state_restorable sdb) (state_panics Q)"
  unfolding env_ok_def by (rule evm_machine_state) auto

text \<open>The environment of a block meets these conditions when its configuration passed the fork
  order check and its header is one of its fork.\<close>

lemma NewEVM_env_ok:
  assumes "uint256_documented lib" "\<And>msg sig pk. Ecrecover cr msg sig = Some pk \<Longrightarrow> length pk = 65"
    and "CheckConfigForkOrder cfg = None" "ChainID cfg \<noteq> None"
    and "h_Difficulty header = 0 \<Longrightarrow> cfg_IsEIP150 cfg (Some (h_Number header))"
    and "cfg_IsLondon cfg (Some (h_Number header)) \<or> h_Difficulty header = 0 \<Longrightarrow> h_BaseFee header \<noteq> None"
  shows "env_ok sdb (NewEVM lib cr (state_db_ops sdb)
    (NewEVMBlockContext (state_db_ops sdb) header GetHeader Author author) tx cfg pre abort)"
  using assms fork_order_rules(1) [OF assms(3)]
  by (auto simp: env_ok_def NewEVM_def NewEVMBlockContext_def cfg_Rules_def)

text \<open>The environments together with their databases, as a type to interpret the contract over.\<close>

definition plain_env :: "'t StateDatabase \<Rightarrow> 't state_db evm_env" where
  "plain_env sdb = NewEVM uint256_words
     \<lparr> keccak256 = (\<lambda>_. 0), sha256 = (\<lambda>_. []), ripemd160 = (\<lambda>_. []), Ecrecover = (\<lambda>_ _. None) \<rparr>
     (state_db_ops sdb)
     (NewEVMBlockContext (state_db_ops sdb)
        \<lparr> h_ParentHash = 0, h_UncleHash = 0, h_Coinbase = 0, h_Root = 0, h_TxHash = 0, h_ReceiptHash = 0,
          h_Bloom = [], h_Difficulty = 0, h_Number = 7, h_GasLimit = 30000000, h_GasUsed = 0, h_Time = 100,
          h_Extra = [], h_MixDigest = 5, h_Nonce = [], h_BaseFee = Some 10 \<rparr> (\<lambda>_ _. None) (\<lambda>_. 1) None)
     \<lparr> Origin = 9, GasPrice = 10 \<rparr>
     \<lparr> ChainID = Some 1, HomesteadBlock = Some 0, EIP150Block = Some 0, LondonBlock = Some 0,
       TerminalTotalDifficulty = None \<rparr> False (\<lambda>_. False)"

lemma plain_env_ok: "env_ok sdb (plain_env sdb)"
  unfolding plain_env_def
  by (rule NewEVM_env_ok)
    (simp_all add: uint256_words_documented CheckConfigForkOrder_def CheckConfigForkOrder_step_def cfg_IsEIP150_def isForked_def)

typedef 't machine_env = "{(sdb :: 't StateDatabase, E). env_ok sdb E}"
  using plain_env_ok by auto

definition menv_db :: "'t machine_env \<Rightarrow> 't StateDatabase" where
  "menv_db M = fst (Rep_machine_env M)"

definition menv_env :: "'t machine_env \<Rightarrow> 't state_db evm_env" where
  "menv_env M = snd (Rep_machine_env M)"

lemma menv_cases:
  assumes "env_ok sdb E"
  obtains M where "sdb = menv_db M" "E = menv_env M"
  using assms Abs_machine_env_inverse [of "(sdb, E)"]
  by (intro that [of "Abs_machine_env (sdb, E)"]) (simp_all add: menv_db_def menv_env_def)

lemma menv_ok: "env_ok (menv_db M) (menv_env M)"
  using Rep_machine_env [of M] by (auto simp: menv_db_def menv_env_def)

interpretation block: evm_machine "menv_env M" "state_inv (menv_db M)" "view (menv_db M)" state_world
    "state_restorable (menv_db M)" "state_panics Q" for M :: "'t machine_env" and Q :: "panic set"
  by (rule env_ok_machine [OF menv_ok])

section \<open>A concrete machine\<close>

definition start_evm :: "unit state_db evm" where
  "start_evm = \<lparr> statedb = empty_state, depth = 0, abort_loads = 0, callGasTemp = 0, readOnly = False,
     returnData = [], jumpdests = (\<lambda>_. None) \<rparr>"

definition start_contract :: "bytes \<Rightarrow> Contract" where
  "start_contract code = (fst (NewContract (AccountRef 9) 8 (Some 0) 100 (\<lambda>_. None)))\<lparr> Code := code \<rparr>"

lemmas start_defs = start_evm_def start_contract_def NewContract_def

section \<open>The interpreter\<close>

text \<open>The interpreter that \<^verbatim>\<open>NewEVM\<close> makes when no extra EIPs are configured, running with the tables that
  the package initialisation built.\<close>

definition evm_run :: "'s evm_env \<Rightarrow> nat \<Rightarrow> 's runner" where
  "evm_run E fuel contract input ro evm =
     go_bind package_tables (\<lambda>tables.
     go_bind (NewEVMInterpreter (chainRules E) [] tables) (\<lambda>(_, jt, tables).
     Run fuel (deref tables jt) E contract input ro evm))"

lemma deref_ptr_of: "deref g (ptr_of fk g) = g fk"
  by (rule ext) (simp add: deref_def ptr_of_def split: option.splits)

lemma evm_run_table: "evm_run E fuel = Run fuel (fork_table (fork_of (chainRules E))) E"
  by (intro ext) (simp add: evm_run_def package_tables_Ret NewEVMInterpreter_def deref_ptr_of)

lemma evm_run_ok: "block.runner_ok M {RuntimeError} fuel (evm_run (menv_env M) fuel)"
  unfolding evm_run_table by (rule block.Run_spec [OF block.fork_table_ok]) (simp add: state_panics_def)

lemma evm_run_spec:
  assumes "env_ok sdb E" "state_inv sdb (statedb evm)" "length (Code c) < 2 ^ 63" "length input < 2 ^ 63"
    "cvalue c \<noteq> None" "unat (Gas c) < fuel"
  shows "go_spec (state_panics {RuntimeError}) (\<lambda>(r, c', evm'). state_inv sdb (statedb evm') \<and> Gas c' \<le> Gas c
      \<and> depth evm' = depth evm \<and> readOnly evm' = readOnly evm
      \<and> (ro \<or> readOnly evm \<longrightarrow> state_world (view sdb (statedb evm')) = state_world (view sdb (statedb evm))))
    (evm_run E fuel c input ro evm)"
proof -
  obtain M where M: "sdb = menv_db M" "E = menv_env M" by (rule menv_cases [OF assms(1)])
  show ?thesis unfolding M
    by (rule go_spec_mono [OF block.runner_okD [OF evm_run_ok assms(2) [unfolded M] assms(6,3-5)]])
      (auto simp: block.goes_def word_le_nat_alt)
qed



text \<open>C8: Under write protection a run cannot change the world: whatever code runs, nested calls
  included, every account's nonce, balance, code and storage, and all logs, are as before.\<close>

theorem static_run_keeps_world:
  assumes "env_ok sdb E" "state_inv sdb (statedb evm)" "length (Code c) < 2 ^ 63" "length input < 2 ^ 63"
    "cvalue c \<noteq> None" "unat (Gas c) < fuel" "ro \<or> readOnly evm"
  shows "go_spec (state_panics {RuntimeError}) (\<lambda>(r, c', evm').
      state_world (view sdb (statedb evm')) = state_world (view sdb (statedb evm))) (evm_run E fuel c input ro evm)"
  by (rule go_spec_mono [OF evm_run_spec [OF assms(1-6), of ro]]) (use assms(7) in auto)

theorem static_run_keeps_world_witness:
  "go_spec (state_panics {RuntimeError}) (\<lambda>(r, c', evm').
      state_world (view empty_backend (statedb evm')) = state_world (view empty_backend (statedb start_evm)))
    (evm_run (plain_env empty_backend) 101 (start_contract [0x60, 1, 0x60, 2, 0x55]) [] True start_evm)"
  by (rule static_run_keeps_world [OF plain_env_ok]) (simp_all add: start_defs empty_state_inv)

section \<open>A turn of the loop\<close>

text \<open>What a nested run promises, and what a turn does.\<close>

definition run_returns ::
  "'t StateDatabase \<Rightarrow> Contract \<Rightarrow> bool \<Rightarrow> 't state_db evm \<Rightarrow>
     (bytes \<times> vm_error option) \<times> Contract \<times> 't state_db evm \<Rightarrow> bool" where
  "run_returns sdb c ro evm = (\<lambda>(r, c', evm'). state_inv sdb (statedb evm')
     \<and> keeps (state_restorable sdb) (statedb evm) (statedb evm') \<and> Gas c' \<le> Gas c
     \<and> depth evm' = depth evm \<and> readOnly evm' = readOnly evm
     \<and> (ro \<or> readOnly evm \<longrightarrow> state_world (view sdb (statedb evm')) = state_world (view sdb (statedb evm))))"

definition turn_returns :: "'t StateDatabase \<Rightarrow> 't state_db evm \<Rightarrow> ScopeContext \<Rightarrow> 't state_db turn \<Rightarrow> bool" where
  "turn_returns sdb evm sc t = (case t of
     Leave res err evm' c' \<Rightarrow> state_inv sdb (statedb evm') \<and> Gas c' \<le> Gas (sc_contract sc)
   | Next pc evm' sc' \<Rightarrow> state_inv sdb (statedb evm') \<and> Gas (sc_contract sc') < Gas (sc_contract sc)
       \<and> length (sc_stack sc') \<le> 1024 \<and> mem_ok (sc_mem sc'))"



section \<open>Calls\<close>

text \<open>What a call promises its caller: no more gas than it was given, a well-formed state, and if it
  reports an error, a state as it was.\<close>

definition call_returns ::
  "'t StateDatabase \<Rightarrow> u64 \<Rightarrow> 't state_db evm \<Rightarrow> (bytes \<times> u64 \<times> vm_error option) \<times> 't state_db evm \<Rightarrow> bool" where
  "call_returns sdb gas evm = (\<lambda>((ret, g, err), evm'). state_inv sdb (statedb evm') \<and> g \<le> gas
     \<and> depth evm' = depth evm \<and> readOnly evm' = readOnly evm
     \<and> (err \<noteq> None \<longrightarrow> view sdb (statedb evm') = view sdb (statedb evm)))"

lemma call_post_returns: "block.call_post M evm (unat gas) r \<Longrightarrow> call_returns (menv_db M) gas evm r"
  by (auto simp: block.call_post_def call_returns_def block.goes_def word_le_nat_alt)

text \<open>C1: A failed call leaves no trace. \<open>Call\<close>, \<open>CallCode\<close> and \<open>DelegateCall\<close>, with any code behind the
  address, return (up to the three known panics) with no more gas than they were given, and if
  they report an error, be it a revert, an exception deep in a nested call or running out of
  gas, the whole state is what it was before the call.\<close>

theorem calls_revert:
  assumes "env_ok sdb E" "state_inv sdb (statedb evm)" "length input < 2 ^ 63" "unat gas < fuel"
    "readOnly evm \<longrightarrow> value = 0"
  shows "go_spec (state_panics {RuntimeError}) (call_returns sdb gas evm)
      (evm_Call (evm_run E fuel) E clr addr input gas value evm)
    \<and> go_spec (state_panics {RuntimeError}) (call_returns sdb gas evm)
      (evm_CallCode (evm_run E fuel) E clr addr input gas value evm)
    \<and> go_spec (state_panics {RuntimeError}) (call_returns sdb gas evm)
      (evm_DelegateCall (evm_run E fuel) E (ContractRef a b (Some v)) addr input gas evm)"
proof -
  obtain M where M: "sdb = menv_db M" "E = menv_env M" by (rule menv_cases [OF assms(1)])
  note inv = assms(2) [unfolded M]
  show ?thesis unfolding M
    using block.evm_Call_spec [OF evm_run_ok assms(4) inv assms(3,5)]
      block.evm_CallCode_spec [OF evm_run_ok assms(4) inv assms(3)]
      block.evm_DelegateCall_spec [OF evm_run_ok assms(4) inv assms(3) refl]
    by (blast intro: go_spec_mono call_post_returns)
qed

theorem calls_revert_witness:
  "go_spec (state_panics {RuntimeError}) (call_returns empty_backend 100 start_evm)
      (evm_Call (evm_run (plain_env empty_backend) 101) (plain_env empty_backend) (AccountRef 9) 8 [1] 100 0 start_evm)"
  using calls_revert [OF plain_env_ok, of empty_backend start_evm "[1]" 100 101 0 "AccountRef 9" 8 9 9 0]
  by (simp add: start_defs empty_state_inv)

text \<open>C9: A static call never changes the world, whether it succeeds or fails, although it touches the
  called account (which creates it when it does not exist), and a failed one leaves no trace.\<close>

theorem static_call_static:
  assumes "env_ok sdb E" "state_inv sdb (statedb evm)" "length input < 2 ^ 63" "unat gas < fuel"
  shows "go_spec (state_panics {RuntimeError}) (\<lambda>r. call_returns sdb gas evm r
      \<and> state_world (view sdb (statedb (snd r))) = state_world (view sdb (statedb evm)))
    (evm_StaticCall (evm_run E fuel) E clr addr input gas evm)"
proof -
  obtain M where M: "sdb = menv_db M" "E = menv_env M" by (rule menv_cases [OF assms(1)])
  show ?thesis unfolding M
    by (rule go_spec_mono [OF block.evm_StaticCall_spec [OF evm_run_ok assms(4) assms(2) [unfolded M] assms(3)]])
      (auto simp: block.static_post_def intro: call_post_returns)
qed

theorem static_call_static_witness:
  "go_spec (state_panics {RuntimeError}) (\<lambda>r. call_returns empty_backend 100 start_evm r
      \<and> state_world (view empty_backend (statedb (snd r))) = state_world (view empty_backend (statedb start_evm)))
    (evm_StaticCall (evm_run (plain_env empty_backend) 101) (plain_env empty_backend) (AccountRef 9) 8 [1] 100 start_evm)"
  by (rule static_call_static [OF plain_env_ok]) (simp_all add: start_defs empty_state_inv)

definition create_returns ::
  "'t StateDatabase \<Rightarrow> u64 \<Rightarrow> 't state_db evm \<Rightarrow> (bytes \<times> address \<times> u64 \<times> vm_error option) \<times> 't state_db evm \<Rightarrow> bool" where
  "create_returns sdb gas evm = (\<lambda>((ret, a, g, err), evm'). state_inv sdb (statedb evm') \<and> g \<le> gas
     \<and> depth evm' = depth evm \<and> readOnly evm' = readOnly evm)"

lemma create_post_returns: "block.create_post M evm (unat gas) r \<Longrightarrow> create_returns (menv_db M) gas evm r"
  by (auto simp: block.create_post_def create_returns_def block.goes_def word_le_nat_alt)

text \<open>C25: Contract creation returns (up to the three known panics) with no more gas than it was given
  and a well-formed state, for both CREATE and CREATE2.\<close>

theorem create_bounded:
  assumes "env_ok sdb E" "state_inv sdb (statedb evm)" "length code < 2 ^ 63" "unat gas < fuel" "\<not> readOnly evm"
  shows "go_spec (state_panics {RuntimeError}) (create_returns sdb gas evm)
      (evm_Create (evm_run E fuel) E clr code gas value evm)
    \<and> go_spec (state_panics {RuntimeError}) (create_returns sdb gas evm)
      (evm_Create2 (evm_run E fuel) E clr code gas value salt evm)"
proof -
  obtain M where M: "sdb = menv_db M" "E = menv_env M" by (rule menv_cases [OF assms(1)])
  note args = evm_run_ok assms(4) assms(2) [unfolded M] assms(3,5)
  show ?thesis unfolding M
    using block.evm_Create_spec [OF args] block.evm_Create2_spec [OF args]
    by (blast intro: go_spec_mono create_post_returns)
qed

theorem create_bounded_witness:
  "go_spec (state_panics {RuntimeError}) (create_returns empty_backend 100 start_evm)
      (evm_Create (evm_run (plain_env empty_backend) 101) (plain_env empty_backend) (AccountRef 9) [0x60, 1] 100 0 start_evm)"
  using create_bounded [OF plain_env_ok, of empty_backend start_evm "[0x60, 1]" 100 101 "AccountRef 9" 0 0]
  by (simp add: start_defs empty_state_inv)

end
