(* ===== verification/Chain_Access.thy ===== *)
theory Chain_Access
  imports Chain_Machine
begin

text \<open>
  The access list in practice. From London on the gas function of SSTORE takes it for granted that the
  running contract is on the access list and panics otherwise (\<^verbatim>\<open>src/evm/operations_acl.go\<close>). The list
  is filled by \<^verbatim>\<open>PrepareAccessList\<close>, which nothing calls, and by the instructions that name another
  account; so a contract that a message calls is not on it.
\<close>

primrec edit_index :: "'s edit \<Rightarrow> u8" where
  "edit_index (Assign i opn) = i"
| "edit_index (Modify i f) = i"

lemma edited_skip: "i \<notin> set (map edit_index es) \<Longrightarrow> edited es jt i = jt i"
proof (induction es arbitrary: jt)
  case (Cons e es)
  then show ?case by (cases e) simp_all
qed simp

lemma edited_hit: "SSTORE \<notin> set (map edit_index es) \<Longrightarrow> edited (Modify SSTORE f # es) jt SSTORE = Some (f (the (jt SSTORE)))"
  by (simp add: edited_skip)

lemma sstore_edits:
  "edited byzantium_path jt SSTORE = jt SSTORE"
  "edited istanbul_path jt SSTORE = Some ((the (jt SSTORE))\<lparr> dynamicGas := Some gasSStoreEIP2200 \<rparr>)"
  "edited london_path jt SSTORE = Some ((the (jt SSTORE))\<lparr> dynamicGas := Some gasSStoreEIP3529 \<rparr>)"
  "edited merge_edits jt SSTORE = jt SSTORE"
proof -
  show "edited byzantium_path jt SSTORE = jt SSTORE" "edited merge_edits jt SSTORE = jt SSTORE"
    by (rule edited_skip; simp add: byzantium_path_def edit_lists)+
  have i: "edited (constantinople_edits @ enable1344 @ enable1884) jt SSTORE = jt SSTORE"
    by (rule edited_skip) (simp add: edit_lists)
  have e2200: "edited enable2200 t SSTORE = Some ((the (t SSTORE))\<lparr> dynamicGas := Some gasSStoreEIP2200 \<rparr>)" for t :: "'a JumpTable"
    by (simp add: enable2200_def)
  show "edited istanbul_path jt SSTORE = Some ((the (jt SSTORE))\<lparr> dynamicGas := Some gasSStoreEIP2200 \<rparr>)"
    using i e2200 by (simp add: istanbul_path_def edited_append)
  have "SSTORE \<notin> set (map edit_index (tl enable2929))" by (simp add: enable2929_def)
  from edited_hit [OF this, of "set_dynamicGas gasSStoreEIP2929" jt]
  have e2929: "edited enable2929 jt SSTORE = Some ((the (jt SSTORE))\<lparr> dynamicGas := Some gasSStoreEIP2929 \<rparr>)"
    by (simp only: enable2929_def list.sel)
  have e3529: "edited enable3198 (edited enable3529 t) SSTORE = Some ((the (t SSTORE))\<lparr> dynamicGas := Some gasSStoreEIP3529 \<rparr>)"
    for t :: "'a JumpTable"
    by (simp add: enable3529_def enable3198_def)
  show "edited london_path jt SSTORE = Some ((the (jt SSTORE))\<lparr> dynamicGas := Some gasSStoreEIP3529 \<rparr>)"
    using e2929 e3529 by (simp add: london_path_def edited_append)
qed

lemma frontier_sstore: "frontier_table SSTORE = Some (dynamic_op opSstore 0 gasSStore 2 1026)"
  by (simp add: frontier_table_def frontier_entries_def frontier_lists STOP_def JUMPDEST_def PUSH1_def minStack_def maxStack_def)

lemma london_sstore:
  "fk = London \<or> fk = Merge \<Longrightarrow> fork_table fk SSTORE = Some (dynamic_op opSstore 0 gasSStoreEIP3529 2 1026)"
  by (auto simp: sstore_edits frontier_sstore)

text \<open>C24: A contract that is not on the access list cannot write its storage from London on: with the
  operands on the stack and more than the 2300 gas of the sentry, SSTORE panics, in place of charging
  for a cold slot. The access list of the message does not help: nothing adds its entries to the list.\<close>

theorem london_sstore_panics:
  fixes E :: "'t state_db evm_env"
  assumes "env_ok sdb E" "state_inv sdb (statedb evm)" "IsLondon (chainRules E) \<or> IsMerge (chainRules E)"
    and "GetOp (sc_contract sc) pc = Ret SSTORE" "2 \<le> length (sc_stack sc)" "length (sc_stack sc) \<le> 1024"
      "2300 < Gas (sc_contract sc)"
    and "\<not> AddressInAccessList (self (sc_contract sc)) (statedb evm)"
  shows "loop_turn (fork_table (fork_of (chainRules E))) run E pc evm sc = Panic sstore_panic"
proof -
  let ?c = "sc_contract sc"
  obtain y z st where stack: "sc_stack sc = y # z # st" using assms(5) by (cases "sc_stack sc"; cases "tl (sc_stack sc)") auto
  have db: "db E = state_db_ops sdb" using assms(1) by (simp add: env_ok_def)
  have op: "fork_table (fork_of (chainRules E)) SSTORE = Some (dynamic_op opSstore 0 gasSStoreEIP3529 2 1026 :: 't state_db operation)"
    by (rule london_sstore) (use assms(3) in \<open>auto simp: fork_of_def\<close>)
  have sentry: "\<not> Gas ?c \<le> SstoreSentryGasEIP2200" using assms(7) by simp
  let ?k = "u_Bytes32 (U E) y"
  obtain v s1 where g: "db_GetState (state_db_ops sdb) (self ?c) ?k (statedb evm) = Ret (v, s1)" and q: "quiet sdb (statedb evm) s1"
    using storage_readers(1) [of sdb "self ?c" ?k] assms(2) unfolding state_reads_def by blast
  have inv1: "state_inv sdb s1" by (rule quiet_inv [OF assms(2) q])
  have "accessList_of s1 = accessList_of (statedb evm)" using q view_fields(4) unfolding quiet_def by metis
  then have al: "Contains (self ?c) ?k (accessList_of s1) = Ret (False, False)"
    using assms(8) by (simp add: Contains_def AddressInAccessList_def ContainsAddress_def)
  obtain s2 where a: "db_AddSlotToAccessList (state_db_ops sdb) (self ?c) ?k s1 = Ret s2"
    using AddSlot_writes [of sdb "self ?c" ?k] inv1 unfolding state_writes_def by blast
  have slot: "db_SlotInAccessList (state_db_ops sdb) (self ?c) ?k s1 = Ret ((False, False), s1)"
    using al by (simp add: state_db_ops_def SlotInAccessList_def)
  have gas: "gasSStoreEIP3529 E evm ?c (sc_stack sc) (sc_mem sc) 0 = Panic sstore_panic"
    unfolding gasSStoreEIP3529_def makeGasSStoreFunc_def if_not_P [OF sentry] stack Let_def db
    by (simp add: Back_def peek_def index_go_def db_get_def db_do_def g slot a)
  have use: "UseGas 0 ?c = (True, ?c)" by (simp add: UseGas_def)
  show ?thesis
    using assms(4-6) op gas use by (simp add: loop_turn_def charge_dynamic_def Let_def)
qed

theorem london_sstore_panics_witness:
  "loop_turn (fork_table Merge) (\<lambda>_ _ _ _. OutOfFuel) (plain_env empty_backend) 0 start_evm
     \<lparr> sc_mem = NewMemory, sc_stack = [1, 2], sc_contract = (start_contract [0x55])\<lparr> Gas := 50000 \<rparr> \<rparr> = Panic sstore_panic"
proof -
  have "fork_of (chainRules (plain_env empty_backend)) = Merge"
    by (simp add: plain_env_def NewEVM_def NewEVMBlockContext_def cfg_Rules_def fork_of_def)
  moreover have al: "\<not> AddressInAccessList a empty_state" for a
    by (simp add: AddressInAccessList_def ContainsAddress_def empty_state_def New_def empty_backend_def newAccessList_def)
  moreover have "loop_turn (fork_table (fork_of (chainRules (plain_env empty_backend)))) (\<lambda>_ _ _ _. OutOfFuel) (plain_env empty_backend) 0 start_evm
     \<lparr> sc_mem = NewMemory, sc_stack = [1, 2], sc_contract = (start_contract [0x55])\<lparr> Gas := 50000 \<rparr> \<rparr> = Panic sstore_panic"
    by (rule london_sstore_panics [OF plain_env_ok])
      (simp_all add: start_defs empty_state_inv GetOp_def index_go_def al plain_env_def NewEVM_def NewEVMBlockContext_def cfg_Rules_def)
  ultimately show ?thesis by simp
qed

end
