(* ===== verification/State_Transition.thy ===== *)
theory State_Transition
  imports Chain_Machine
begin

text \<open>
  Applying a transaction's message: \<^verbatim>\<open>src/blockchain/state_transition.go\<close> and
  \<^verbatim>\<open>src/blockchain/gaspool.go\<close>, with the errors of \<^verbatim>\<open>src/blockchain/error.go\<close>.

  \<^item> The gas pool is a field of \<open>StateTransition\<close>; the state and the virtual machine, which the code
    reaches through pointers, are the machine state \<open>evm\<close> that the operations thread.
  \<^item> An operation that returns a Go error gives the sum type's left value, next to the state as it is
    when the error is returned. The addresses and numbers in the error texts are left out.
  \<^item> A fee cap may be nil (\<open>None\<close>); a method call on it then fails.
\<close>

section \<open>The gas pool\<close>

datatype tx_error =
    ErrNonceTooLow | ErrNonceTooHigh | ErrNonceMax | ErrGasLimitReached
  | ErrInsufficientFundsForTransfer | ErrInsufficientFunds | ErrTxGasUintOverflow | ErrIntrinsicGas
  | ErrTipAboveFeeCap | ErrTipVeryHigh | ErrFeeCapVeryHigh | ErrFeeCapTooLow | ErrSenderNoEOA

definition pool_panic :: panic where
  "pool_panic = PanicMsg ''gas pool pushed above uint64''"

definition AddGas :: "u64 \<Rightarrow> u64 \<Rightarrow> u64 go" where
  "AddGas amount gp = (if gp > - 1 - amount then Panic pool_panic else Ret (gp + amount))"

definition SubGas :: "u64 \<Rightarrow> u64 \<Rightarrow> tx_error + u64" where
  "SubGas amount gp = (if gp < amount then Inl ErrGasLimitReached else Inr (gp - amount))"

section \<open>Messages\<close>

record Message =
  msg_From :: address
  msg_To :: "address option"
  msg_GasPrice :: int
  msg_GasFeeCap :: "int option"
  msg_GasTipCap :: "int option"
  msg_Gas :: u64
  msg_Value :: int
  msg_Nonce :: u64
  msg_IsFake :: bool
  msg_Data :: bytes
  msg_AccessList :: "(address \<times> hash list) list"

record StateTransition =
  st_gp :: u64
  st_msg :: Message
  st_gas :: u64
  st_gasPrice :: int
  st_gasFeeCap :: "int option"
  st_gasTipCap :: "int option"
  st_initialGas :: u64
  st_value :: int
  st_data :: bytes

record ExecutionResult =
  UsedGas :: u64
  Err :: "vm_error option"
  ReturnData :: bytes

definition Failed :: "ExecutionResult \<Rightarrow> bool" where
  "Failed result = (Err result \<noteq> None)"

definition Return :: "ExecutionResult \<Rightarrow> bytes" where
  "Return result = (if Err result \<noteq> None then [] else ReturnData result)"

definition Revert :: "ExecutionResult \<Rightarrow> bytes" where
  "Revert result = (if Err result \<noteq> Some ErrExecutionReverted then [] else ReturnData result)"

section \<open>Intrinsic gas\<close>

definition StorageKeys :: "(address \<times> hash list) list \<Rightarrow> nat" where
  "StorageKeys al = fold (\<lambda>(_, keys) sum. sum + length keys) al 0"

definition data_gas :: "bytes \<Rightarrow> u64 \<Rightarrow> tx_error + u64" where
  "data_gas data gas =
     (let nz = fold (\<lambda>byt nz. if byt \<noteq> 0 then nz + 1 else nz) data (0 :: u64) in
      if (- 1 - gas) div TxDataNonZeroGasFrontier < nz then Inl ErrTxGasUintOverflow
      else
        let gas = gas + nz * TxDataNonZeroGasFrontier;
            z = word_of_nat (length data) - nz in
        if (- 1 - gas) div TxDataZeroGas < z then Inl ErrTxGasUintOverflow
        else Inr (gas + z * TxDataZeroGas))"

definition IntrinsicGas :: "bytes \<Rightarrow> (address \<times> hash list) list \<Rightarrow> bool \<Rightarrow> bool \<Rightarrow> tx_error + u64" where
  "IntrinsicGas data accessList isContractCreation isHomestead =
     (let gas = (if isContractCreation \<and> isHomestead then TxGasContractCreation else TxGas) in
      case (if 0 < length data then data_gas data gas else Inr gas) of
        Inl err \<Rightarrow> Inl err
      | Inr gas \<Rightarrow> Inr (gas + word_of_nat (length accessList) * TxAccessListAddressGas
          + word_of_nat (StorageKeys accessList) * TxAccessListStorageKeyGas))"

section \<open>The transition\<close>

definition NewStateTransition :: "Message \<Rightarrow> u64 \<Rightarrow> StateTransition" where
  "NewStateTransition msg gp =
     \<lparr> st_gp = gp, st_msg = msg, st_gas = 0, st_gasPrice = msg_GasPrice msg, st_gasFeeCap = msg_GasFeeCap msg,
       st_gasTipCap = msg_GasTipCap msg, st_initialGas = 0, st_value = msg_Value msg, st_data = msg_Data msg \<rparr>"

definition st_to :: "StateTransition \<Rightarrow> address" where
  "st_to st = (case msg_To (st_msg st) of None \<Rightarrow> 0 | Some a \<Rightarrow> a)"

definition gasUsed :: "StateTransition \<Rightarrow> u64" where
  "gasUsed st = st_initialGas st - st_gas st"

type_synonym 's transition = "StateTransition \<times> 's evm"

definition buyGas :: "'s evm_env \<Rightarrow> StateTransition \<Rightarrow> 's evm \<Rightarrow> (tx_error option \<times> 's transition) go" where
  "buyGas E st evm =
     (let mgval = uint (msg_Gas (st_msg st)) * st_gasPrice st;
          balanceCheck = (case st_gasFeeCap st of None \<Rightarrow> mgval
            | Some feeCap \<Rightarrow> uint (msg_Gas (st_msg st)) * feeCap + st_value st) in
      go_bind (db_get (db_GetBalance (db E) (msg_From (st_msg st))) evm) (\<lambda>(have, evm).
      if have < balanceCheck then Ret (Some ErrInsufficientFunds, st, evm)
      else case SubGas (msg_Gas (st_msg st)) (st_gp st) of
        Inl err \<Rightarrow> Ret (Some err, st, evm)
      | Inr gp \<Rightarrow>
          let st = st\<lparr> st_gp := gp, st_gas := st_gas st + msg_Gas (st_msg st), st_initialGas := msg_Gas (st_msg st) \<rparr> in
          go_bind (db_do (db_SubBalance (db E) (msg_From (st_msg st)) mgval) evm) (\<lambda>evm.
          Ret (None, st, evm))))"

text \<open>A method call on a number that may be nil.\<close>

definition big_go :: "int option \<Rightarrow> int go" where
  "big_go x = (case x of None \<Rightarrow> Panic RuntimeError | Some i \<Rightarrow> Ret i)"

definition BitLen :: "int \<Rightarrow> nat" where
  "BitLen i = bit_len (nat \<bar>i\<bar>)"

definition check_sender :: "'s evm_env \<Rightarrow> StateTransition \<Rightarrow> 's evm \<Rightarrow> (tx_error option \<times> 's evm) go" where
  "check_sender E st evm =
     (if msg_IsFake (st_msg st) then Ret (None, evm)
      else
        go_bind (db_get (db_GetNonce (db E) (msg_From (st_msg st))) evm) (\<lambda>(stNonce, evm).
        if stNonce < msg_Nonce (st_msg st) then Ret (Some ErrNonceTooHigh, evm)
        else if stNonce > msg_Nonce (st_msg st) then Ret (Some ErrNonceTooLow, evm)
        else if stNonce + 1 < stNonce then Ret (Some ErrNonceMax, evm)
        else
          go_bind (db_get (db_GetCodeHash (db E) (msg_From (st_msg st))) evm) (\<lambda>(codeHash, evm).
          if codeHash \<noteq> emptyCodeHash (crypto E) \<and> codeHash \<noteq> 0 then Ret (Some ErrSenderNoEOA, evm)
          else Ret (None, evm))))"

definition check_fees :: "'s evm_env \<Rightarrow> ChainConfig \<Rightarrow> bool \<Rightarrow> StateTransition \<Rightarrow> tx_error option go" where
  "check_fees E cc NoBaseFee st =
     (if cfg_IsLondon cc (Some (BlockNumber (Context E))) then
        go_bind (if \<not> NoBaseFee then Ret True
                 else go_bind (big_go (st_gasFeeCap st)) (\<lambda>c.
                   if BitLen c > 0 then Ret True
                   else go_map (\<lambda>t. BitLen t > 0) (big_go (st_gasTipCap st)))) (\<lambda>check.
        if \<not> check then Ret None
        else
          go_bind (big_go (st_gasFeeCap st)) (\<lambda>feeCap.
          if BitLen feeCap > 256 then Ret (Some ErrFeeCapVeryHigh)
          else go_bind (big_go (st_gasTipCap st)) (\<lambda>tipCap.
            if BitLen tipCap > 256 then Ret (Some ErrTipVeryHigh)
            else if feeCap < tipCap then Ret (Some ErrTipAboveFeeCap)
            else go_bind (big_go (BaseFee (Context E))) (\<lambda>baseFee.
              if feeCap < baseFee then Ret (Some ErrFeeCapTooLow) else Ret None))))
      else Ret None)"

definition preCheck ::
  "'s evm_env \<Rightarrow> ChainConfig \<Rightarrow> bool \<Rightarrow> StateTransition \<Rightarrow> 's evm \<Rightarrow> (tx_error option \<times> 's transition) go" where
  "preCheck E cc NoBaseFee st evm =
     go_bind (check_sender E st evm) (\<lambda>(err, evm).
     case err of Some e \<Rightarrow> Ret (Some e, st, evm)
     | None \<Rightarrow>
         go_bind (check_fees E cc NoBaseFee st) (\<lambda>err.
         case err of Some e \<Rightarrow> Ret (Some e, st, evm) | None \<Rightarrow> buyGas E st evm))"

definition refundGas :: "'s evm_env \<Rightarrow> u64 \<Rightarrow> StateTransition \<Rightarrow> 's evm \<Rightarrow> 's transition go" where
  "refundGas E refundQuotient st evm =
     (let refund = gasUsed st div refundQuotient in
      go_bind (db_get (db_GetRefund (db E)) evm) (\<lambda>(r, evm).
      let refund = (if refund > r then r else refund);
          st = st\<lparr> st_gas := st_gas st + refund \<rparr>;
          remaining = uint (st_gas st) * st_gasPrice st in
      go_bind (db_do (db_AddBalance (db E) (msg_From (st_msg st)) remaining) evm) (\<lambda>evm.
      go_bind (AddGas (st_gas st) (st_gp st)) (\<lambda>gp. Ret (st\<lparr> st_gp := gp \<rparr>, evm)))))"

definition execute_message ::
  "'s runner \<Rightarrow> 's evm_env \<Rightarrow> StateTransition \<Rightarrow> 's evm \<Rightarrow> ((bytes \<times> vm_error option) \<times> 's transition) go" where
  "execute_message run E st evm =
     (let sender = AccountRef (msg_From (st_msg st)) in
      if msg_To (st_msg st) = None then
        go_bind (evm_Create run E sender (st_data st) (st_gas st) (st_value st) evm) (\<lambda>((ret, _, gas, vmerr), evm).
        Ret ((ret, vmerr), st\<lparr> st_gas := gas \<rparr>, evm))
      else
        go_bind (db_get (db_GetNonce (db E) (msg_From (st_msg st))) evm) (\<lambda>(nonce, evm).
        go_bind (db_do (db_SetNonce (db E) (msg_From (st_msg st)) (nonce + 1)) evm) (\<lambda>evm.
        go_bind (evm_Call run E sender (st_to st) (st_data st) (st_gas st) (st_value st) evm) (\<lambda>((ret, gas, vmerr), evm).
        Ret ((ret, vmerr), st\<lparr> st_gas := gas \<rparr>, evm)))))"

definition effective_tip :: "'s evm_env \<Rightarrow> Rules \<Rightarrow> StateTransition \<Rightarrow> int go" where
  "effective_tip E rules st =
     (if IsLondon rules then
        go_bind (big_go (st_gasFeeCap st)) (\<lambda>feeCap.
        go_bind (big_go (BaseFee (Context E))) (\<lambda>baseFee.
        go_map (\<lambda>tipCap. min tipCap (feeCap - baseFee)) (big_go (st_gasTipCap st))))
      else Ret (st_gasPrice st))"

text \<open>After the checks of \<^verbatim>\<open>preCheck\<close>: the intrinsic gas, the funds for the transfer, the execution, the
  refund and the fee of the block's coinbase.\<close>

definition finish_message ::
  "'s evm_env \<Rightarrow> Rules \<Rightarrow> bytes \<times> vm_error option \<Rightarrow> StateTransition \<Rightarrow> 's evm \<Rightarrow> (ExecutionResult \<times> 's transition) go" where
  "finish_message E rules r st evm =
     go_bind (refundGas E (if \<not> IsLondon rules then RefundQuotient else RefundQuotientEIP3529) st evm) (\<lambda>(st, evm).
     go_bind (effective_tip E rules st) (\<lambda>effectiveTip.
     go_bind (db_do (db_AddBalance (db E) (Coinbase (Context E)) (uint (gasUsed st) * effectiveTip)) evm) (\<lambda>evm.
     Ret (\<lparr> UsedGas = gasUsed st, Err = snd r, ReturnData = fst r \<rparr>, st, evm))))"

definition TransitionDb ::
  "'s runner \<Rightarrow> 's evm_env \<Rightarrow> ChainConfig \<Rightarrow> bool \<Rightarrow> StateTransition \<Rightarrow> 's evm
     \<Rightarrow> ((tx_error + ExecutionResult) \<times> 's transition) go" where
  "TransitionDb run E cc NoBaseFee st evm =
     go_bind (preCheck E cc NoBaseFee st evm) (\<lambda>(err, st, evm).
     case err of Some e \<Rightarrow> Ret (Inl e, st, evm)
     | None \<Rightarrow>
         let rules = snd (cfg_Rules cc (Some (BlockNumber (Context E))) (Random (Context E) \<noteq> None)) in
         case IntrinsicGas (st_data st) (msg_AccessList (st_msg st)) (msg_To (st_msg st) = None) (IsHomestead rules) of
           Inl e \<Rightarrow> Ret (Inl e, st, evm)
         | Inr gas \<Rightarrow>
             if st_gas st < gas then Ret (Inl ErrIntrinsicGas, st, evm)
             else
               let st = st\<lparr> st_gas := st_gas st - gas \<rparr> in
               go_bind (if msg_Value (st_msg st) > 0
                        then db_get (CanTransfer (Context E) (msg_From (st_msg st)) (msg_Value (st_msg st))) evm
                        else Ret (True, evm)) (\<lambda>(funds, evm).
               if \<not> funds then Ret (Inl ErrInsufficientFundsForTransfer, st, evm)
               else
                 go_bind (execute_message run E st evm) (\<lambda>(r, st, evm).
                 go_map (\<lambda>(result, t). (Inr result, t)) (finish_message E rules r st evm))))"

definition ApplyMessage ::
  "'s runner \<Rightarrow> 's evm_env \<Rightarrow> ChainConfig \<Rightarrow> bool \<Rightarrow> Message \<Rightarrow> u64 \<Rightarrow> 's evm
     \<Rightarrow> ((tx_error + ExecutionResult) \<times> 's transition) go" where
  "ApplyMessage run E cc NoBaseFee msg gp evm = TransitionDb run E cc NoBaseFee (NewStateTransition msg gp) evm"

end
