(* ===== verification/Transition_Correct.thy ===== *)
theory Transition_Correct
  imports State_Transition
begin

text \<open>
  What applying a message does: the accounting of gas between the message, the pool and the fees,
  the exact effect of a message whose execution fails, and when and with what effect a message is
  rejected.
\<close>

section \<open>Intrinsic gas\<close>

definition data_fee :: "bytes \<Rightarrow> nat" where
  "data_fee data = (\<Sum>b\<leftarrow>data. if b = 0 then 4 else 68)"

abbreviation nonzero :: "bytes \<Rightarrow> nat" where
  "nonzero data \<equiv> length (filter (\<lambda>b. b \<noteq> 0) data)"

lemma data_fee_count: "data_fee data = 68 * nonzero data + 4 * (length data - nonzero data)"
proof (induction data)
  case (Cons b data)
  moreover have "nonzero data \<le> length data" by simp
  ultimately show ?case by (simp add: data_fee_def Suc_diff_le)
qed (simp add: data_fee_def)

lemma count_fold: "fold (\<lambda>byt nz. if byt \<noteq> 0 then nz + 1 else nz) data n = (n :: u64) + word_of_nat (nonzero data)"
  by (induction data arbitrary: n) simp_all

lemma overflow_check:
  assumes "0 < k" "k < 2 ^ 64" "n < 2 ^ 64"
  shows "(- 1 - gas) div word_of_nat k < (word_of_nat n :: u64) \<longleftrightarrow> 2 ^ 64 \<le> unat gas + k * n"
proof -
  have k: "unat (word_of_nat k :: u64) = k" and n: "unat (word_of_nat n :: u64) = n"
    using assms by (simp_all add: unat_of_nat)
  have g: "unat (- 1 - gas :: u64) = 2 ^ 64 - 1 - unat gas"
    using unat_sub [of gas "- 1"] by (simp add: unsigned_minus_1_eq_mask mask_eq_exp_minus_1)
  have "(2 ^ 64 - 1 - unat gas) div k < n \<longleftrightarrow> 2 ^ 64 - 1 - unat gas < k * n"
    using assms(1) by (simp add: div_less_iff_less_mult mult.commute)
  also have "\<dots> \<longleftrightarrow> 2 ^ 64 \<le> unat gas + k * n" using unsigned_less [of gas, where 'a = nat] by auto
  finally show ?thesis by (simp add: word_less_nat_alt unat_div k n g)
qed

lemma data_gas_exact:
  assumes "length data < 2 ^ 64"
  shows "data_gas data gas =
    (if unat gas + data_fee data < 2 ^ 64 then Inr (gas + word_of_nat (data_fee data)) else Inl ErrTxGasUintOverflow)"
proof -
  let ?nz = "nonzero data" and ?z = "length data - nonzero data"
  have nz: "?nz \<le> length data" by simp
  have z: "word_of_nat (length data) - word_of_nat ?nz = (word_of_nat ?z :: u64)" using nz by simp
  have c1: "(- 1 - gas) div 68 < (word_of_nat ?nz :: u64) \<longleftrightarrow> 2 ^ 64 \<le> unat gas + 68 * ?nz"
    using overflow_check [of 68 ?nz gas] le_less_trans [OF nz assms] by simp
  have g2: "unat (gas + word_of_nat ?nz * 68) = unat gas + 68 * ?nz" if "\<not> 2 ^ 64 \<le> unat gas + 68 * ?nz"
  proof -
    have "gas + word_of_nat ?nz * 68 = word_of_nat (unat gas + 68 * ?nz)" by simp
    then show ?thesis using that by (simp only: unat_of_nat) simp
  qed
  have c2: "(- 1 - (gas + word_of_nat ?nz * 68)) div 4 < (word_of_nat ?z :: u64)
      \<longleftrightarrow> 2 ^ 64 \<le> unat (gas + word_of_nat ?nz * 68) + 4 * ?z"
    using overflow_check [of 4 ?z "gas + word_of_nat ?nz * 68"] le_less_trans [OF diff_le_self assms] by simp
  have sum: "gas + word_of_nat ?nz * 68 + word_of_nat ?z * 4 = gas + (word_of_nat (data_fee data) :: u64)"
    unfolding data_fee_count by (simp add: algebra_simps)
  show ?thesis
    unfolding data_gas_def count_fold Let_def add_0 z c1 c2
    using g2 sum by (auto simp: data_fee_count)
qed

text \<open>C28: The intrinsic gas of a message is the base fee of its kind, 68 for each nonzero and 4 for each zero
  byte of its data, 2400 for each address and 1900 for each key of its access list. A fee of base and
  data that does not fit 64 bits is an error; the part of the access list is added without a check.\<close>

theorem IntrinsicGas_exact:
  assumes "length data < 2 ^ 64"
  shows "IntrinsicGas data al creation homestead =
    (let g = (if creation \<and> homestead then 53000 else 21000) + data_fee data in
     if g < 2 ^ 64 then Inr (word_of_nat (g + 2400 * length al + 1900 * StorageKeys al)) else Inl ErrTxGasUintOverflow)"
proof -
  let ?b = "if creation \<and> homestead then 53000 else 21000"
  have b: "(if creation \<and> homestead then TxGasContractCreation else TxGas) = word_of_nat ?b" by simp
  have ub: "unat (word_of_nat ?b :: u64) = ?b" by simp
  have d: "(if 0 < length data then data_gas data (word_of_nat ?b) else Inr (word_of_nat ?b)) =
      (if ?b + data_fee data < 2 ^ 64 then Inr (word_of_nat (?b + data_fee data)) else Inl ErrTxGasUintOverflow)"
    using data_gas_exact [OF assms, of "word_of_nat ?b"] unfolding ub by (simp add: data_fee_def)
  show ?thesis
    unfolding IntrinsicGas_def Let_def b d by (simp add: algebra_simps)
qed

theorem IntrinsicGas_exact_witness:
  "IntrinsicGas [0, 7, 7] [(3, [1, 2])] True True = Inr 59340"
  using IntrinsicGas_exact [of "[0, 7, 7]" "[(3, [1, 2])]" True True]
  by (simp add: data_fee_def StorageKeys_def)

section \<open>Steps of the state\<close>

definition tx_ok :: "'t StateDatabase \<Rightarrow> 't state_db evm \<Rightarrow> bool" where
  "tx_ok sdb evm \<longleftrightarrow> state_inv sdb (statedb evm) \<and> \<not> readOnly evm"

abbreviation world_of :: "'t StateDatabase \<Rightarrow> 't state_db evm \<Rightarrow> world" where
  "world_of sdb evm \<equiv> state_world (view sdb (statedb evm))"

lemma get_bind:
  assumes ok: "tx_ok sdb evm" and reads: "state_reads sdb f"
    and k: "\<And>x evm'. f (statedb evm) = Ret (x, statedb evm') \<Longrightarrow> tx_ok sdb evm' \<Longrightarrow>
      view sdb (statedb evm') = view sdb (statedb evm) \<Longrightarrow> depth evm' = depth evm \<Longrightarrow> go_spec P Q (k (x, evm'))"
  shows "go_spec P Q (go_bind (db_get f evm) k)"
proof -
  obtain x s' where f: "f (statedb evm) = Ret (x, s')" "quiet sdb (statedb evm) s'"
    using ok reads unfolding tx_ok_def state_reads_def by blast
  have "state_inv sdb s'" using quiet_inv(1) ok f(2) unfolding tx_ok_def by blast
  then show ?thesis using k [of x "evm\<lparr> statedb := s' \<rparr>"] f ok by (simp add: db_get_def tx_ok_def quiet_def)
qed

lemma do_bind:
  assumes ok: "tx_ok sdb evm" and writes: "state_writes sdb f"
    and k: "\<And>evm'. f (statedb evm) = Ret (statedb evm') \<Longrightarrow> tx_ok sdb evm' \<Longrightarrow> depth evm' = depth evm \<Longrightarrow>
      go_spec P Q (k evm')"
  shows "go_spec P Q (go_bind (db_do f evm) k)"
proof -
  obtain s' where f: "f (statedb evm) = Ret s'" "journalled sdb (statedb evm) s'"
    using ok writes unfolding tx_ok_def state_writes_def by blast
  have "state_inv sdb s'" using journalled_inv(1) ok f(2) unfolding tx_ok_def by blast
  then show ?thesis using k [of "evm\<lparr> statedb := s' \<rparr>"] f ok by (simp add: db_do_def tx_ok_def)
qed

lemma db_reads_world:
  assumes "state_inv sdb s"
  shows "db_GetBalance (state_db_ops sdb) a s = Ret (x, s') \<Longrightarrow> x = w_balance (fst (state_world (view sdb s)) a)"
    "db_GetNonce (state_db_ops sdb) a s = Ret (n, s') \<Longrightarrow> n = w_nonce (fst (state_world (view sdb s)) a)"
  using readers_world(1,2) [OF state_invD(1,3,2) [OF assms], of a] by (auto simp: state_db_ops_def)

lemma db_writes_world:
  assumes "state_inv sdb s"
  shows "db_AddBalance (state_db_ops sdb) a m s = Ret s' \<Longrightarrow>
      state_world (view sdb s') = w_account a (\<lambda>x. x\<lparr> w_balance := w_balance x + m \<rparr>) (state_world (view sdb s))"
    "db_SubBalance (state_db_ops sdb) a m s = Ret s' \<Longrightarrow>
      state_world (view sdb s') = w_account a (\<lambda>x. x\<lparr> w_balance := w_balance x - m \<rparr>) (state_world (view sdb s))"
    "db_SetNonce (state_db_ops sdb) a n s = Ret s' \<Longrightarrow>
      state_world (view sdb s') = w_account a (\<lambda>x. x\<lparr> w_nonce := n \<rparr>) (state_world (view sdb s))"
  using balance_worlds(1,2) [OF state_invD(1,3,2) [OF assms]] SetNonce_world [OF state_invD(1,3,2) [OF assms]]
  by (auto simp: state_db_ops_def)

lemma env_okD:
  assumes "env_ok sdb E"
  shows "db E = state_db_ops sdb" "CanTransfer (Context E) = chain_CanTransfer (state_db_ops sdb)"
  using assms by (simp_all add: env_ok_def)

lemma state_panics_Runtime [simp]: "RuntimeError \<in> state_panics {RuntimeError}"
  by (simp add: state_panics_def)

section \<open>The parts of a transition\<close>

text \<open>The balance \<^verbatim>\<open>buyGas\<close> asks for.\<close>

definition required_balance :: "Message \<Rightarrow> int" where
  "required_balance msg = (case msg_GasFeeCap msg of None \<Rightarrow> uint (msg_Gas msg) * msg_GasPrice msg
     | Some c \<Rightarrow> uint (msg_Gas msg) * c + msg_Value msg)"

definition bought :: "Message \<Rightarrow> u64 \<Rightarrow> StateTransition" where
  "bought msg gp = (NewStateTransition msg gp)\<lparr> st_gp := gp - msg_Gas msg, st_gas := msg_Gas msg, st_initialGas := msg_Gas msg \<rparr>"

definition bought_post :: "'t StateDatabase \<Rightarrow> Message \<Rightarrow> u64 \<Rightarrow> 't state_db evm \<Rightarrow> tx_error option \<times> StateTransition \<times> 't state_db evm \<Rightarrow> bool" where
  "bought_post sdb msg gp evm = (\<lambda>(err, st', evm'). tx_ok sdb evm' \<and> (case err of
        Some e \<Rightarrow> st' = NewStateTransition msg gp \<and> view sdb (statedb evm') = view sdb (statedb evm)
      | None \<Rightarrow> st' = bought msg gp \<and> msg_Gas msg \<le> gp
          \<and> required_balance msg \<le> w_balance (fst (world_of sdb evm) (msg_From msg))
          \<and> world_of sdb evm' = w_account (msg_From msg)
              (\<lambda>x. x\<lparr> w_balance := w_balance x - uint (msg_Gas msg) * msg_GasPrice msg \<rparr>) (world_of sdb evm)))"

lemma buyGas_spec:
  assumes E: "env_ok sdb E" and ok: "tx_ok sdb evm"
  shows "go_spec P (bought_post sdb msg gp evm) (buyGas E (NewStateTransition msg gp) evm)"
  unfolding buyGas_def Let_def env_okD(1) [OF E]
proof (rule get_bind [OF ok account_readers(1)], goal_cases)
  case (1 have1 evm1)
  note ok1 = 1(2) and v = 1(3)
  have h: "have1 = w_balance (fst (world_of sdb evm) (msg_From msg))"
    using db_reads_world(1) [OF _ 1(1)] ok by (simp add: tx_ok_def NewStateTransition_def)
  have inv1: "state_inv sdb (statedb evm1)" using ok1 by (simp add: tx_ok_def)
  have req: "(case st_gasFeeCap (NewStateTransition msg gp) of
      None \<Rightarrow> uint (msg_Gas (st_msg (NewStateTransition msg gp))) * st_gasPrice (NewStateTransition msg gp)
    | Some feeCap \<Rightarrow> uint (msg_Gas (st_msg (NewStateTransition msg gp))) * feeCap + st_value (NewStateTransition msg gp))
    = required_balance msg"
    by (auto simp: required_balance_def NewStateTransition_def split: option.splits)
  show ?case
  proof (cases "have1 < required_balance msg \<or> gp < msg_Gas msg")
    case True
    then show ?thesis unfolding prod.case req using ok1 v
      by (auto simp: bought_post_def SubGas_def NewStateTransition_def)
  next
    case False
    then have st: "SubGas (msg_Gas (st_msg (NewStateTransition msg gp))) (st_gp (NewStateTransition msg gp)) = Inr (gp - msg_Gas msg)"
      by (simp add: SubGas_def NewStateTransition_def)
    show ?thesis unfolding prod.case req if_not_P [OF conjunct1 [OF False [simplified de_Morgan_disj]]] st sum.case
    proof (rule do_bind [OF ok1 account_writers(3)], goal_cases)
      case (1 evm2)
      then show ?case
        using db_writes_world(2) [OF inv1 1(1)] False h v
        by (simp add: bought_post_def bought_def NewStateTransition_def not_less)
    qed
  qed
qed

lemma bought_post_view:
  "view sdb (statedb evm1) = view sdb (statedb evm) \<Longrightarrow> bought_post sdb msg gp evm1 = bought_post sdb msg gp evm"
  by (auto simp: bought_post_def fun_eq_iff split: option.splits)

text \<open>The nonce of a message that is not fake.\<close>

definition nonce_ok :: "Message \<Rightarrow> world \<Rightarrow> bool" where
  "nonce_ok msg w \<longleftrightarrow> msg_IsFake msg \<or> w_nonce (fst w (msg_From msg)) = msg_Nonce msg \<and> msg_Nonce msg \<noteq> - 1"

lemma check_sender_spec:
  assumes E: "env_ok sdb E" and ok: "tx_ok sdb evm"
  shows "go_spec P (\<lambda>(err, evm'). tx_ok sdb evm' \<and> view sdb (statedb evm') = view sdb (statedb evm)
      \<and> (err = None \<longrightarrow> nonce_ok msg (world_of sdb evm))) (check_sender E (NewStateTransition msg gp) evm)"
proof (cases "msg_IsFake msg")
  case True
  then show ?thesis using ok by (simp add: check_sender_def NewStateTransition_def nonce_ok_def)
next
  case False
  then have notfake: "\<not> msg_IsFake (st_msg (NewStateTransition msg gp))" by (simp add: NewStateTransition_def)
  show ?thesis
    unfolding check_sender_def env_okD(1) [OF E] if_not_P [OF notfake]
  proof (rule get_bind [OF ok account_readers(2)], goal_cases)
    case (1 n evm1)
    note v = 1(3) and ok1 = 1(2)
    have n: "n = w_nonce (fst (world_of sdb evm) (msg_From msg))"
      using db_reads_world(2) [OF _ 1(1)] ok by (simp add: tx_ok_def NewStateTransition_def)
    show ?case
    proof (cases "n < msg_Nonce msg \<or> n > msg_Nonce msg \<or> n + 1 < n")
      case True
      then show ?thesis using ok1 v by (auto simp: NewStateTransition_def)
    next
      case F: False
      then have "n = msg_Nonce msg" by auto
      moreover have "msg_Nonce msg \<noteq> - 1" using F calculation by (auto simp: word_gt_0)
      ultimately have no: "nonce_ok msg (world_of sdb evm)" using n by (simp add: nonce_ok_def)
      have F': "\<not> n < msg_Nonce (st_msg (NewStateTransition msg gp))" "\<not> n > msg_Nonce (st_msg (NewStateTransition msg gp))"
          "\<not> n + 1 < n"
        using F by (simp_all add: NewStateTransition_def)
      show ?thesis unfolding prod.case if_not_P [OF F'(1)] if_not_P [OF F'(2)] if_not_P [OF F'(3)]
        by (rule get_bind [OF ok1 account_readers(3)]) (use v no in auto)
    qed
  qed
qed

lemma check_fees_spec:
  "RuntimeError \<in> P \<Longrightarrow> go_spec P (\<lambda>_. True) (check_fees E cc nb st)"
  by (auto simp: check_fees_def big_go_def split: option.splits)

lemma preCheck_spec:
  assumes E: "env_ok sdb E" and ok: "tx_ok sdb evm" and P: "RuntimeError \<in> P"
  shows "go_spec P (\<lambda>r. bought_post sdb msg gp evm r \<and> (fst r = None \<longrightarrow> nonce_ok msg (world_of sdb evm)))
    (preCheck E cc nb (NewStateTransition msg gp) evm)"
  unfolding preCheck_def go_spec_bind
proof (rule go_spec_mono [OF check_sender_spec [OF E ok]], goal_cases)
  case (1 r)
  obtain err evm1 where r: "r = (err, evm1)" by fastforce
  show ?case
  proof (cases err)
    case None
    then have b: "go_spec P (bought_post sdb msg gp evm) (buyGas E (NewStateTransition msg gp) evm1)"
      using buyGas_spec [OF E, of evm1 P msg gp] 1 r bought_post_view by fastforce
    have "go_spec P (\<lambda>err'. case err' of Some e \<Rightarrow> True | None \<Rightarrow> True) (check_fees E cc nb (NewStateTransition msg gp))"
      by (rule go_spec_mono [OF check_fees_spec [OF P]]) (simp split: option.splits)
    show ?thesis
      unfolding r prod.case None option.case go_spec_bind
      by (rule go_spec_mono [OF check_fees_spec [OF P]])
        (use 1 r None in \<open>auto simp: bought_post_def split: option.splits intro: go_spec_mono [OF b]\<close>)
  next
    case (Some e)
    then show ?thesis using 1 r by (simp add: bought_post_def)
  qed
qed

lemma evm_Call_returns:
  assumes "env_ok sdb E" "tx_ok sdb evm" "length input < 2 ^ 63" "unat gas < fuel"
  shows "go_spec (state_panics {RuntimeError}) (call_returns sdb gas evm)
    (evm_Call (evm_run E fuel) E clr addr input gas value evm)"
proof -
  obtain M where M: "sdb = menv_db M" "E = menv_env M" by (rule menv_cases [OF assms(1)])
  have ok: "state_inv (menv_db M) (statedb evm)" "readOnly evm \<longrightarrow> value = 0" using assms(2) M by (simp_all add: tx_ok_def)
  show ?thesis unfolding M
    by (rule go_spec_mono [OF block.evm_Call_spec [OF evm_run_ok assms(4) ok(1) assms(3) ok(2)] call_post_returns])
qed

lemma evm_Create_returns:
  assumes "env_ok sdb E" "tx_ok sdb evm" "length code < 2 ^ 63" "unat gas < fuel"
  shows "go_spec (state_panics {RuntimeError}) (create_returns sdb gas evm)
    (evm_Create (evm_run E fuel) E clr code gas value evm)"
proof -
  obtain M where M: "sdb = menv_db M" "E = menv_env M" by (rule menv_cases [OF assms(1)])
  have ok: "state_inv (menv_db M) (statedb evm)" "\<not> readOnly evm" using assms(2) M by (simp_all add: tx_ok_def)
  show ?thesis unfolding M
    by (rule go_spec_mono [OF block.evm_Create_spec [OF evm_run_ok assms(4) ok(1) assms(3) ok(2)] create_post_returns])
qed

definition executed_post ::
  "'t StateDatabase \<Rightarrow> StateTransition \<Rightarrow> 't state_db evm \<Rightarrow> (bytes \<times> vm_error option) \<times> 't state_db transition \<Rightarrow> bool" where
  "executed_post sdb st evm = (\<lambda>(r, st', evm'). tx_ok sdb evm' \<and> (\<exists>g \<le> st_gas st. st' = st\<lparr> st_gas := g \<rparr>)
     \<and> (msg_To (st_msg st) \<noteq> None \<and> snd r \<noteq> None \<longrightarrow> world_of sdb evm' =
          w_account (msg_From (st_msg st)) (\<lambda>x. x\<lparr> w_nonce := w_nonce x + 1 \<rparr>) (world_of sdb evm)))"

lemma execute_message_spec:
  assumes E: "env_ok sdb E" and ok: "tx_ok sdb evm" and len: "length (st_data st) < 2 ^ 63" and fuel: "unat (st_gas st) < fuel"
  shows "go_spec (state_panics {RuntimeError}) (executed_post sdb st evm) (execute_message (evm_run E fuel) E st evm)"
proof (cases "msg_To (st_msg st)")
  case None
  show ?thesis
    unfolding execute_message_def Let_def if_P [OF None] go_spec_bind
    by (rule go_spec_mono [OF evm_Create_returns [OF E ok len fuel]])
      (use ok None in \<open>auto simp: create_returns_def executed_post_def tx_ok_def\<close>)
next
  case (Some a)
  then have to: "msg_To (st_msg st) \<noteq> None" by simp
  show ?thesis
    unfolding execute_message_def Let_def if_not_P [OF to] env_okD(1) [OF E]
  proof (rule get_bind [OF ok account_readers(2)], unfold prod.case, rule do_bind [OF _ account_writers(4)], assumption, goal_cases)
    case (1 n evm1 evm2)
    have n: "n = w_nonce (fst (world_of sdb evm) (msg_From (st_msg st)))"
      using db_reads_world(2) [OF _ 1(1)] ok by (simp add: tx_ok_def)
    have w: "world_of sdb evm2 = w_account (msg_From (st_msg st)) (\<lambda>x. x\<lparr> w_nonce := w_nonce x + 1 \<rparr>) (world_of sdb evm)"
      using db_writes_world(3) [OF _ 1(5)] 1(2,3) n by (simp add: tx_ok_def w_account_def)
    show ?case
      unfolding go_spec_bind
      by (rule go_spec_mono [OF evm_Call_returns [OF E 1(6) len fuel]])
        (use 1(6) w in \<open>auto simp: call_returns_def executed_post_def tx_ok_def\<close>)
  qed
qed

lemma unat_le_sum: "unat (a :: u64) + unat b < 2 ^ 64 \<Longrightarrow> unat (a + b) = unat a + unat b"
  by (simp add: unat_add_lem [THEN iffD1])

definition refunded_post ::
  "'t StateDatabase \<Rightarrow> nat \<Rightarrow> StateTransition \<Rightarrow> 't state_db evm \<Rightarrow> 't state_db transition \<Rightarrow> bool" where
  "refunded_post sdb q st evm = (\<lambda>(st', evm'). tx_ok sdb evm' \<and> (\<exists>g. st_gas st \<le> g \<and> g \<le> st_initialGas st
     \<and> unat g - unat (st_gas st) \<le> (unat (st_initialGas st) - unat (st_gas st)) div q
     \<and> st' = st\<lparr> st_gas := g, st_gp := st_gp st + g \<rparr>
     \<and> world_of sdb evm' = w_account (msg_From (st_msg st))
         (\<lambda>x. x\<lparr> w_balance := w_balance x + uint g * st_gasPrice st \<rparr>) (world_of sdb evm)))"

lemma refundGas_spec:
  assumes E: "env_ok sdb E" and ok: "tx_ok sdb evm" and le: "st_gas st \<le> st_initialGas st"
    and room: "unat (st_gp st) + unat (st_initialGas st) < 2 ^ 64" and q: "unat q \<noteq> 0"
  shows "go_spec P (refunded_post sdb (unat q) st evm) (refundGas E q st evm)"
proof -
  define r where "r = (if gasUsed st div q > refund (statedb evm) then refund (statedb evm) else gasUsed st div q)"
  have used: "unat (gasUsed st) = unat (st_initialGas st) - unat (st_gas st)"
    using le by (simp add: gasUsed_def unat_sub)
  have r: "unat r \<le> (unat (st_initialGas st) - unat (st_gas st)) div unat q"
    using used by (auto simp: r_def unat_div word_less_nat_alt)
  also have "\<dots> \<le> unat (st_initialGas st) - unat (st_gas st)" by (rule div_le_dividend)
  finally have sum: "unat (st_gas st) + unat r \<le> unat (st_initialGas st)" using le by (simp add: word_le_nat_alt)
  then have g: "unat (st_gas st + r) = unat (st_gas st) + unat r"
    using room by (intro unat_le_sum) simp
  have gp: "\<not> st_gp st > - 1 - (st_gas st + r)"
    using room sum g unat_sub [of "st_gas st + r" "- 1"]
    by (simp add: word_less_nat_alt unsigned_minus_1_eq_mask mask_eq_exp_minus_1)
  have get: "db_get (db_GetRefund (state_db_ops sdb)) evm = Ret (refund (statedb evm), evm)"
    by (simp add: db_get_def state_db_ops_def)
  show ?thesis
    unfolding refundGas_def Let_def env_okD(1) [OF E] get go_bind.simps prod.case r_def [symmetric]
  proof (rule do_bind [OF ok account_writers(2)], goal_cases)
    case (1 evm1)
    have "world_of sdb evm1 = w_account (msg_From (st_msg st))
        (\<lambda>x. x\<lparr> w_balance := w_balance x + uint (st_gas st + r) * st_gasPrice st \<rparr>) (world_of sdb evm)"
      using db_writes_world(1) [OF _ 1(1)] ok by (simp add: tx_ok_def)
    then show ?case
      using 1(2) gp sum g r unfolding refunded_post_def
      by (auto simp: AddGas_def word_le_nat_alt intro!: exI [of _ "st_gas st + r"])
  qed
qed

text \<open>The tip that the coinbase is paid for each unit of gas.\<close>

definition tip_of :: "'s evm_env \<Rightarrow> ChainConfig \<Rightarrow> Message \<Rightarrow> int" where
  "tip_of E cc msg = (if cfg_IsLondon cc (Some (BlockNumber (Context E)))
     then min (the (msg_GasTipCap msg)) (the (msg_GasFeeCap msg) - the (BaseFee (Context E)))
     else msg_GasPrice msg)"

definition pay_tip :: "'s evm_env \<Rightarrow> ChainConfig \<Rightarrow> Message \<Rightarrow> u64 \<Rightarrow> world \<Rightarrow> world" where
  "pay_tip E cc msg used = w_account (Coinbase (Context E)) (\<lambda>x. x\<lparr> w_balance := w_balance x + uint used * tip_of E cc msg \<rparr>)"

definition refund_quotient :: "'s evm_env \<Rightarrow> ChainConfig \<Rightarrow> nat" where
  "refund_quotient E cc = (if cfg_IsLondon cc (Some (BlockNumber (Context E))) then 5 else 2)"

definition finished_post ::
  "'t StateDatabase \<Rightarrow> 't state_db evm_env \<Rightarrow> ChainConfig \<Rightarrow> bytes \<times> vm_error option \<Rightarrow> StateTransition \<Rightarrow> 't state_db evm
     \<Rightarrow> ExecutionResult \<times> 't state_db transition \<Rightarrow> bool" where
  "finished_post sdb E cc r st evm = (\<lambda>(result, st', evm'). tx_ok sdb evm'
     \<and> Err result = snd r \<and> ReturnData result = fst r
     \<and> (\<exists>g. st_gas st \<le> g \<and> g \<le> st_initialGas st
        \<and> unat g - unat (st_gas st) \<le> (unat (st_initialGas st) - unat (st_gas st)) div refund_quotient E cc
        \<and> UsedGas result = st_initialGas st - g \<and> st_gp st' = st_gp st + g
        \<and> world_of sdb evm' = pay_tip E cc (st_msg st) (st_initialGas st - g) (w_account (msg_From (st_msg st))
            (\<lambda>x. x\<lparr> w_balance := w_balance x + uint g * st_gasPrice st \<rparr>) (world_of sdb evm))))"

lemma finish_message_spec:
  assumes E: "env_ok sdb E" and ok: "tx_ok sdb evm" and le: "st_gas st \<le> st_initialGas st"
    and room: "unat (st_gp st) + unat (st_initialGas st) < 2 ^ 64"
    and rules: "rules = snd (cfg_Rules cc (Some (BlockNumber (Context E))) m)"
    and caps: "st_gasFeeCap st = msg_GasFeeCap (st_msg st)" "st_gasTipCap st = msg_GasTipCap (st_msg st)"
      "st_gasPrice st = msg_GasPrice (st_msg st)" and P: "RuntimeError \<in> P"
  shows "go_spec P (finished_post sdb E cc r st evm) (finish_message E rules r st evm)"
proof -
  let ?q = "if \<not> IsLondon rules then RefundQuotient else RefundQuotientEIP3529"
  have q: "unat ?q = refund_quotient E cc" by (simp add: refund_quotient_def rules cfg_Rules_def)
  have q0: "unat ?q \<noteq> 0" by simp
  show ?thesis
    unfolding finish_message_def go_spec_bind [of _ _ "refundGas E ?q st evm"]
  proof (rule go_spec_mono [OF refundGas_spec [OF E ok le room q0]], goal_cases)
    case (1 x)
    obtain st1 evm1 where x: "x = (st1, evm1)" by fastforce
    obtain g where g: "st_gas st \<le> g" "g \<le> st_initialGas st"
      "unat g - unat (st_gas st) \<le> (unat (st_initialGas st) - unat (st_gas st)) div refund_quotient E cc"
      "st1 = st\<lparr> st_gas := g, st_gp := st_gp st + g \<rparr>"
      "world_of sdb evm1 = w_account (msg_From (st_msg st))
         (\<lambda>x. x\<lparr> w_balance := w_balance x + uint g * st_gasPrice st \<rparr>) (world_of sdb evm)" and ok1: "tx_ok sdb evm1"
      using 1 unfolding x refunded_post_def q by blast
    have tip: "go_spec P (\<lambda>t. t = tip_of E cc (st_msg st)) (effective_tip E rules st1)"
      using P caps by (auto simp: effective_tip_def big_go_def tip_of_def rules cfg_Rules_def g(4) split: option.splits)
    show ?case
      unfolding x prod.case go_spec_bind [of _ _ "effective_tip E rules st1"]
    proof (rule go_spec_mono [OF tip], goal_cases)
      case (1 t)
      show ?case
        unfolding env_okD(1) [OF E]
      proof (rule do_bind [OF ok1 account_writers(2)], goal_cases)
        case (1 evm2)
        have "world_of sdb evm2 = pay_tip E cc (st_msg st) (st_initialGas st - g) (world_of sdb evm1)"
          using db_writes_world(1) [OF _ 1(1)] ok1 \<open>t = _\<close> by (simp add: tx_ok_def pay_tip_def gasUsed_def g(4))
        then show ?case using 1(2) g(1-3,5) unfolding finished_post_def
          by (auto simp: gasUsed_def g(4) intro!: exI [of _ g])
      qed
    qed
  qed
qed

section \<open>Messages\<close>

text \<open>What a message does whose execution fails: its sender pays for the gas used and its nonce goes up, the
  coinbase is paid, and nothing else happens.\<close>

definition failed_world :: "'s evm_env \<Rightarrow> ChainConfig \<Rightarrow> Message \<Rightarrow> u64 \<Rightarrow> world \<Rightarrow> world" where
  "failed_world E cc msg used w = pay_tip E cc msg used (w_account (msg_From msg)
     (\<lambda>x. x\<lparr> w_nonce := w_nonce x + 1, w_balance := w_balance x - uint used * msg_GasPrice msg \<rparr>) w)"

abbreviation message_gas :: "'s evm_env \<Rightarrow> ChainConfig \<Rightarrow> Message \<Rightarrow> tx_error + u64" where
  "message_gas E cc msg \<equiv> IntrinsicGas (msg_Data msg) (msg_AccessList msg) (msg_To msg = None)
     (cfg_IsHomestead cc (Some (BlockNumber (Context E))))"

definition rejected_post :: "'t StateDatabase \<Rightarrow> Message \<Rightarrow> u64 \<Rightarrow> 't state_db evm \<Rightarrow> tx_error \<Rightarrow> u64 \<Rightarrow> 't state_db evm \<Rightarrow> bool" where
  "rejected_post sdb msg gp evm e gp' evm' \<longleftrightarrow>
     gp' = gp \<and> view sdb (statedb evm') = view sdb (statedb evm)
   \<or> e \<in> {ErrTxGasUintOverflow, ErrIntrinsicGas, ErrInsufficientFundsForTransfer} \<and> msg_Gas msg \<le> gp \<and> gp' = gp - msg_Gas msg
     \<and> world_of sdb evm' = w_account (msg_From msg)
         (\<lambda>x. x\<lparr> w_balance := w_balance x - uint (msg_Gas msg) * msg_GasPrice msg \<rparr>) (world_of sdb evm)"

definition accepted_post ::
  "'t StateDatabase \<Rightarrow> 't state_db evm_env \<Rightarrow> ChainConfig \<Rightarrow> Message \<Rightarrow> u64 \<Rightarrow> 't state_db evm \<Rightarrow> ExecutionResult \<Rightarrow> u64
     \<Rightarrow> 't state_db evm \<Rightarrow> bool" where
  "accepted_post sdb E cc msg gp evm r gp' evm' \<longleftrightarrow> nonce_ok msg (world_of sdb evm)
     \<and> required_balance msg \<le> w_balance (fst (world_of sdb evm) (msg_From msg))
     \<and> msg_Gas msg \<le> gp \<and> UsedGas r \<le> msg_Gas msg \<and> gp' = gp - UsedGas r
     \<and> (\<exists>g0. message_gas E cc msg = Inr g0 \<and> g0 \<le> msg_Gas msg \<and> unat g0 - unat g0 div refund_quotient E cc \<le> unat (UsedGas r))
     \<and> (msg_To msg \<noteq> None \<and> Err r \<noteq> None \<longrightarrow> world_of sdb evm' = failed_world E cc msg (UsedGas r) (world_of sdb evm))"

definition message_post ::
  "'t StateDatabase \<Rightarrow> 't state_db evm_env \<Rightarrow> ChainConfig \<Rightarrow> Message \<Rightarrow> u64 \<Rightarrow> 't state_db evm
     \<Rightarrow> (tx_error + ExecutionResult) \<times> 't state_db transition \<Rightarrow> bool" where
  "message_post sdb E cc msg gp evm = (\<lambda>(res, st', evm'). tx_ok sdb evm' \<and> (case res of
      Inl e \<Rightarrow> rejected_post sdb msg gp evm e (st_gp st') evm'
    | Inr r \<Rightarrow> accepted_post sdb E cc msg gp evm r (st_gp st') evm'))"

lemma div_step: "(a + d) div q \<le> a div q + (d :: nat)"
  by (induction d) (auto simp: div_Suc)

lemma keep_share: "a \<le> b \<Longrightarrow> a - a div q \<le> b - b div (q :: nat)"
  using div_step [of a "b - a" q] by simp

text \<open>The gas of an accepted message: bought, spent by \<open>g0\<close> and then down to \<open>g1\<close>, and up to \<open>g\<close> by the refund.\<close>

lemma message_gas_sums:
  assumes "g0 \<le> G" "g1 \<le> G - g0" "g1 \<le> g" "g \<le> (G :: u64)" "G \<le> gp" "unat g - unat g1 \<le> (unat G - unat g1) div q"
  shows "G - g \<le> G" "gp - G + g = gp - (G - g)" "unat g0 - unat g0 div q \<le> unat (G - g)"
    "uint (G - g) = uint G - uint g"
proof -
  have u: "unat (G - g) = unat G - unat g" "unat (G - g0) = unat G - unat g0" using assms(1,4) by (simp_all add: unat_sub)
  show "G - g \<le> G" using u by (simp add: word_le_nat_alt)
  show "gp - G + g = gp - (G - g)" by simp
  have "unat g0 \<le> unat G - unat g1" using assms(1,2) u by (simp add: word_le_nat_alt)
  then have "unat g0 - unat g0 div q \<le> (unat G - unat g1) - (unat G - unat g1) div q" by (rule keep_share)
  also have "\<dots> \<le> unat (G - g)" using assms(3,4,6) u by (simp add: word_le_nat_alt)
  finally show "unat g0 - unat g0 div q \<le> unat (G - g)" .
  show "uint (G - g) = uint G - uint g" using assms(4) by (simp only: word_le_def uint_sub_lem)
qed

lemma failed_world_steps:
  assumes "uint used = uint G - uint g"
  shows "pay_tip E cc msg used (w_account (msg_From msg) (\<lambda>x. x\<lparr> w_balance := w_balance x + uint g * p \<rparr>)
      (w_account (msg_From msg) (\<lambda>x. x\<lparr> w_nonce := w_nonce x + 1 \<rparr>)
        (w_account (msg_From msg) (\<lambda>x. x\<lparr> w_balance := w_balance x - uint G * p \<rparr>) w)))
    = pay_tip E cc msg used (w_account (msg_From msg)
        (\<lambda>x. x\<lparr> w_nonce := w_nonce x + 1, w_balance := w_balance x - uint used * p \<rparr>) w)"
proof -
  have "uint G * p = uint g * p + uint used * p" unfolding assms by (simp add: left_diff_distrib)
  then show ?thesis by (simp add: w_account_def)
qed

lemma after_funds_spec:
  assumes E: "env_ok sdb E" and ok: "tx_ok sdb evm1" and data: "length (msg_Data msg) < 2 ^ 63"
    and fuel: "unat (msg_Gas msg) < fuel" and P: "P = state_panics {RuntimeError}"
    and w: "world_of sdb evm1 = w_account (msg_From msg)
        (\<lambda>x. x\<lparr> w_balance := w_balance x - uint (msg_Gas msg) * msg_GasPrice msg \<rparr>) (world_of sdb evm)"
    and pre: "nonce_ok msg (world_of sdb evm)" "msg_Gas msg \<le> gp"
      "required_balance msg \<le> w_balance (fst (world_of sdb evm) (msg_From msg))"
      "message_gas E cc msg = Inr g0" "g0 \<le> msg_Gas msg"
    and rules: "rules = snd (cfg_Rules cc (Some (BlockNumber (Context E))) m)"
    and st: "st = (bought msg gp)\<lparr> st_gas := msg_Gas msg - g0 \<rparr>"
  shows "go_spec P (message_post sdb E cc msg gp evm)
    (go_bind (execute_message (evm_run E fuel) E st evm1) (\<lambda>(r, st, evm).
       go_map (\<lambda>(result, t). (Inr result, t)) (finish_message E rules r st evm)))"
  unfolding go_spec_bind P
proof (rule go_spec_mono [OF execute_message_spec [OF E ok]], goal_cases)
  case 1
  then show ?case using data by (simp add: st bought_def NewStateTransition_def)
next
  case 2
  then show ?case using fuel pre(5) by (simp add: st unat_sub)
next
  case (3 x)
  obtain r st1 evm2 where x: "x = (r, st1, evm2)" by (metis prod_cases3)
  obtain g1 where ok2: "tx_ok sdb evm2" and g1: "g1 \<le> st_gas st" "st1 = st\<lparr> st_gas := g1 \<rparr>"
    and w2: "msg_To (st_msg st) \<noteq> None \<Longrightarrow> snd r \<noteq> None \<Longrightarrow> world_of sdb evm2 =
          w_account (msg_From (st_msg st)) (\<lambda>x. x\<lparr> w_nonce := w_nonce x + 1 \<rparr>) (world_of sdb evm1)"
    using 3 unfolding x executed_post_def by blast
  have sel: "st_msg st1 = msg" "st_initialGas st1 = msg_Gas msg" "st_gas st1 = g1" "st_gp st1 = gp - msg_Gas msg"
    "st_gasFeeCap st1 = msg_GasFeeCap msg" "st_gasTipCap st1 = msg_GasTipCap msg" "st_gasPrice st1 = msg_GasPrice msg"
    "st_msg st = msg" "st_gas st = msg_Gas msg - g0"
    by (simp_all add: g1(2) st bought_def NewStateTransition_def)
  have le: "g1 \<le> msg_Gas msg" using g1(1) pre(5) unfolding sel by (simp add: word_le_nat_alt unat_sub)
  have room: "unat (gp - msg_Gas msg) + unat (msg_Gas msg) < 2 ^ 64"
    using pre(2) unsigned_less [of gp, where 'a = nat] by (simp add: unat_sub word_le_nat_alt)
  have fin: "go_spec (state_panics {RuntimeError}) (finished_post sdb E cc r st1 evm2) (finish_message E rules r st1 evm2)"
    by (rule finish_message_spec [OF E ok2 _ _ rules]) (use le room in \<open>simp_all add: sel\<close>)
  show ?case
    unfolding x prod.case go_spec_map
  proof (rule go_spec_mono [OF fin], goal_cases)
    case (1 y)
    obtain result st2 evm3 where y: "y = (result, st2, evm3)" by (metis prod_cases3)
    obtain g where ok3: "tx_ok sdb evm3" "Err result = snd r" and g: "g1 \<le> g" "g \<le> msg_Gas msg"
      "unat g - unat g1 \<le> (unat (msg_Gas msg) - unat g1) div refund_quotient E cc" "UsedGas result = msg_Gas msg - g"
      "st_gp st2 = gp - msg_Gas msg + g"
      "world_of sdb evm3 = pay_tip E cc msg (msg_Gas msg - g) (w_account (msg_From msg)
            (\<lambda>x. x\<lparr> w_balance := w_balance x + uint g * msg_GasPrice msg \<rparr>) (world_of sdb evm2))"
      using 1 unfolding y finished_post_def prod.case sel by blast
    note sums = message_gas_sums [OF pre(5) g1(1) [unfolded sel] g(1,2) pre(2) g(3)]
    have "world_of sdb evm3 = failed_world E cc msg (UsedGas result) (world_of sdb evm)"
      if "msg_To msg \<noteq> None" "Err result \<noteq> None"
      using w2 that ok3(2) failed_world_steps [OF sums(4), of E cc msg "msg_GasPrice msg" "world_of sdb evm"]
      by (simp add: g(4,6) sel w failed_world_def)
    then have "accepted_post sdb E cc msg gp evm result (st_gp st2) evm3"
      using pre sums g(4,5) by (auto simp: accepted_post_def)
    then show ?case using ok3(1) by (simp add: y message_post_def)
  qed
qed

lemma message_post_rejected:
  assumes "tx_ok sdb evm'" "rejected_post sdb msg gp evm e (st_gp st) evm'"
  shows "message_post sdb E cc msg gp evm (Inl e, st, evm')"
  using assms by (simp add: message_post_def)

lemma after_check_spec:
  assumes E: "env_ok sdb E" and ok: "tx_ok sdb evm1" and data: "length (msg_Data msg) < 2 ^ 63"
    and fuel: "unat (msg_Gas msg) < fuel" and P: "P = state_panics {RuntimeError}"
    and w: "world_of sdb evm1 = w_account (msg_From msg)
        (\<lambda>x. x\<lparr> w_balance := w_balance x - uint (msg_Gas msg) * msg_GasPrice msg \<rparr>) (world_of sdb evm)"
    and pre: "nonce_ok msg (world_of sdb evm)" "msg_Gas msg \<le> gp"
      "required_balance msg \<le> w_balance (fst (world_of sdb evm) (msg_From msg))"
      "message_gas E cc msg = Inr g0" "g0 \<le> msg_Gas msg"
    and rules: "rules = snd (cfg_Rules cc (Some (BlockNumber (Context E))) m)"
    and st: "st = (bought msg gp)\<lparr> st_gas := msg_Gas msg - g0 \<rparr>"
  shows "go_spec P (message_post sdb E cc msg gp evm)
    (go_bind (if msg_Value (st_msg st) > 0
              then db_get (CanTransfer (Context E) (msg_From (st_msg st)) (msg_Value (st_msg st))) evm1
              else Ret (True, evm1)) (\<lambda>(funds, evm).
       if \<not> funds then Ret (Inl ErrInsufficientFundsForTransfer, st, evm)
       else go_bind (execute_message (evm_run E fuel) E st evm) (\<lambda>(r, st, evm).
         go_map (\<lambda>(result, t). (Inr result, t)) (finish_message E rules r st evm))))"
proof (cases "msg_Value (st_msg st) > 0")
  case True
  show ?thesis
    unfolding if_P [OF True] env_okD(2) [OF E]
  proof (rule get_bind [OF ok CanTransfer_quiet], goal_cases)
    case (1 funds evm2)
    have w2: "world_of sdb evm2 = w_account (msg_From msg)
        (\<lambda>x. x\<lparr> w_balance := w_balance x - uint (msg_Gas msg) * msg_GasPrice msg \<rparr>) (world_of sdb evm)"
      using w 1(3) by simp
    show ?case
    proof (cases funds)
      case True
      then show ?thesis
        using after_funds_spec [OF E 1(2) data fuel P w2 pre rules st] by simp
    next
      case False
      have "rejected_post sdb msg gp evm ErrInsufficientFundsForTransfer (st_gp st) evm2"
        using w2 pre(2) by (simp add: rejected_post_def st bought_def)
      then show ?thesis using False message_post_rejected [OF 1(2)] by simp
    qed
  qed
next
  case False
  show ?thesis
    unfolding if_not_P [OF False] go_bind.simps prod.case
    using after_funds_spec [OF E ok data fuel P w pre rules st] by simp
qed

lemma TransitionDb_spec:
  assumes E: "env_ok sdb E" and ok: "tx_ok sdb evm" and data: "length (msg_Data msg) < 2 ^ 63"
    and fuel: "unat (msg_Gas msg) < fuel"
  shows "go_spec (state_panics {RuntimeError}) (message_post sdb E cc msg gp evm)
    (ApplyMessage (evm_run E fuel) E cc nb msg gp evm)"
  unfolding ApplyMessage_def TransitionDb_def go_spec_bind [of _ _ "preCheck E cc nb (NewStateTransition msg gp) evm"]
proof (rule go_spec_mono [OF preCheck_spec [OF E ok]], simp, goal_cases)
  case (1 x)
  obtain err st evm1 where x: "x = (err, st, evm1)" by (metis prod_cases3)
  have ok1: "tx_ok sdb evm1" using 1 x by (simp add: bought_post_def)
  show ?case
  proof (cases err)
    case (Some e)
    then have "rejected_post sdb msg gp evm e (st_gp st) evm1"
      using 1 x by (simp add: bought_post_def rejected_post_def NewStateTransition_def)
    then show ?thesis using Some x message_post_rejected [OF ok1] by simp
  next
    case None
    then have st: "st = bought msg gp" and pre: "nonce_ok msg (world_of sdb evm)" "msg_Gas msg \<le> gp"
        "required_balance msg \<le> w_balance (fst (world_of sdb evm) (msg_From msg))"
      and w: "world_of sdb evm1 = w_account (msg_From msg)
        (\<lambda>x. x\<lparr> w_balance := w_balance x - uint (msg_Gas msg) * msg_GasPrice msg \<rparr>) (world_of sdb evm)"
      using 1 x by (simp_all add: bought_post_def)
    have sel: "st_data st = msg_Data msg" "st_msg st = msg" "st_gas st = msg_Gas msg" "st_gp st = gp - msg_Gas msg"
      by (simp_all add: st bought_def NewStateTransition_def)
    let ?rules = "snd (cfg_Rules cc (Some (BlockNumber (Context E))) (Random (Context E) \<noteq> None))"
    have hs: "IsHomestead ?rules = cfg_IsHomestead cc (Some (BlockNumber (Context E)))" by (simp add: cfg_Rules_def)
    have rej: "rejected_post sdb msg gp evm e (st_gp st) evm1" if "e \<in> {ErrTxGasUintOverflow, ErrIntrinsicGas}" for e
      using that w pre(2) sel by (auto simp: rejected_post_def)
    show ?thesis
    proof (cases "message_gas E cc msg")
      case (Inl e)
      then have "e = ErrTxGasUintOverflow"
        by (auto simp: IntrinsicGas_def data_gas_def Let_def split: if_splits sum.splits)
      then show ?thesis using message_post_rejected [OF ok1 rej] x None Inl sel hs by (simp add: Let_def)
    next
      case (Inr g0)
      show ?thesis
      proof (cases "msg_Gas msg < g0")
        case True
        then show ?thesis using message_post_rejected [OF ok1 rej] x None Inr sel hs by (simp add: Let_def)
      next
        case False
        then have le: "g0 \<le> msg_Gas msg" by simp
        show ?thesis
          unfolding x None prod.case option.case Let_def sel hs Inr sum.case if_not_P [OF False]
          by (rule after_check_spec [OF E ok1 data fuel refl w pre Inr le refl]) (simp add: st)
      qed
    qed
  qed
qed

text \<open>A transaction on the concrete machine: its sender has funds.\<close>

definition rich_evm :: "unit state_db evm" where
  "rich_evm = start_evm\<lparr> statedb := AddBalance empty_backend 9 1000000000 empty_state \<rparr>"

definition some_message :: "u64 \<Rightarrow> bytes \<Rightarrow> Message" where
  "some_message nonce data = \<lparr> msg_From = 9, msg_To = Some 8, msg_GasPrice = 20, msg_GasFeeCap = Some 20, msg_GasTipCap = Some 5,
     msg_Gas = 30000, msg_Value = 7, msg_Nonce = nonce, msg_IsFake = False, msg_Data = data, msg_AccessList = [] \<rparr>"

definition some_config :: ChainConfig where
  "some_config = \<lparr> ChainID = Some 1, HomesteadBlock = Some 0, EIP150Block = Some 0, LondonBlock = Some 0, TerminalTotalDifficulty = None \<rparr>"

lemma rich_evm_ok: "tx_ok empty_backend rich_evm"
proof -
  have "journalled empty_backend empty_state (AddBalance empty_backend 9 1000000000 empty_state)"
    by (rule balance_journalled [OF state_invD(1,3) [OF empty_state_inv]])
  from journalled_inv(1) [OF empty_state_inv this] show ?thesis by (simp add: tx_ok_def rich_evm_def start_evm_def)
qed

text \<open>C7: Gas is accounted for exactly. Applying a message terminates without the gas pool's panic. A message that is
  executed, successful or not, uses at most its gas limit and, whatever is refunded, at least the
  share of its intrinsic gas that cannot be refunded (one half, from London on four fifths); the
  pool loses exactly what was used, although all of the limit was taken from it first.\<close>

theorem message_gas_exact:
  assumes "env_ok sdb E" "tx_ok sdb evm" "length (msg_Data msg) < 2 ^ 63" "unat (msg_Gas msg) < fuel"
  shows "go_spec (state_panics {RuntimeError}) (\<lambda>(res, st', evm'). tx_ok sdb evm' \<and> (case res of Inl e \<Rightarrow> True
      | Inr r \<Rightarrow> msg_Gas msg \<le> gp \<and> UsedGas r \<le> msg_Gas msg \<and> st_gp st' = gp - UsedGas r
          \<and> (\<exists>g0. message_gas E cc msg = Inr g0 \<and> g0 \<le> msg_Gas msg
               \<and> unat g0 - unat g0 div refund_quotient E cc \<le> unat (UsedGas r))))
    (ApplyMessage (evm_run E fuel) E cc nb msg gp evm)"
proof (rule go_spec_mono [OF TransitionDb_spec [OF assms]], goal_cases)
  case (1 x)
  then show ?case by (cases x; cases "fst x") (auto simp: message_post_def accepted_post_def)
qed

theorem message_gas_exact_witness:
  "go_spec (state_panics {RuntimeError}) (\<lambda>(res, st', evm'). tx_ok empty_backend evm' \<and> (case res of Inl e \<Rightarrow> True
      | Inr r \<Rightarrow> msg_Gas (some_message 0 [1]) \<le> 40000 \<and> UsedGas r \<le> msg_Gas (some_message 0 [1]) \<and> st_gp st' = 40000 - UsedGas r
          \<and> (\<exists>g0. message_gas (plain_env empty_backend) some_config (some_message 0 [1]) = Inr g0 \<and> g0 \<le> msg_Gas (some_message 0 [1])
               \<and> unat g0 - unat g0 div refund_quotient (plain_env empty_backend) some_config \<le> unat (UsedGas r))))
    (ApplyMessage (evm_run (plain_env empty_backend) 30001) (plain_env empty_backend) some_config False (some_message 0 [1]) 40000 rich_evm)"
  by (rule message_gas_exact [OF plain_env_ok rich_evm_ok]) (simp_all add: some_message_def)





end
