(* ===== verification/Transition_Plain.thy ===== *)
theory Transition_Plain
  imports Transition_Correct
begin

text \<open>
  A message that sends value to an account without code: every check it passes, the gas it uses and
  the whole of its effect. \<open>stands sdb d n w evm\<close> says that a machine is well-formed, at depth \<open>d\<close>, with
  the refund counter \<open>n\<close> and the world \<open>w\<close>; the rules follow the operations from one such state to the next.
\<close>

section \<open>What the accounts show\<close>

text \<open>The refund counter is not touched by the operations on accounts.\<close>

lemma refund_getDeleted: "getDeletedStateObject sdb a s = (x, s') \<Longrightarrow> refund s' = refund s"
  by (auto simp: getDeletedStateObject_def setError_def setStateObject_def Let_def split: option.splits prod.splits if_splits)

lemma refund_createObject: "createObject sdb a s = (x, s') \<Longrightarrow> refund s' = refund s"
  by (auto simp: createObject_def Let_def setStateObject_def journal_append_def journal_dirty_def
      split: option.splits prod.splits if_splits dest!: refund_getDeleted)

lemma refund_GetOrNew: "GetOrNewStateObject sdb a s = (x, s') \<Longrightarrow> refund s' = refund s"
  by (auto simp: GetOrNewStateObject_def getStateObject_def split: option.splits prod.splits if_splits
      dest!: refund_getDeleted refund_createObject)

lemma refund_writers [simp]:
  "refund (AddBalance sdb a n s) = refund s" "refund (SubBalance sdb a n s) = refund s"
  "refund (SetNonce sdb a m s) = refund s" "refund (CreateAccount sdb a s) = refund s"
  by (auto simp: AddBalance_def SubBalance_def SetNonce_def CreateAccount_def obj_AddBalance_def obj_SubBalance_def obj_SetBalance_def
      obj_SetNonce_def obj_touch_def setStateObject_def journal_append_def journal_dirty_def Let_def
      split: prod.splits option.splits dest!: refund_GetOrNew refund_createObject)

definition stands :: "'t StateDatabase \<Rightarrow> nat \<Rightarrow> u64 \<Rightarrow> world \<Rightarrow> 't state_db evm \<Rightarrow> bool" where
  "stands sdb d n w evm \<longleftrightarrow> tx_ok sdb evm \<and> depth evm = d \<and> refund (statedb evm) = n \<and> world_of sdb evm = w"

lemma stands_inv: "stands sdb d n w evm \<Longrightarrow> state_inv sdb (statedb evm) \<and> tx_ok sdb evm"
  by (simp add: stands_def tx_ok_def)

lemma view_refund: "view sdb s' = view sdb s \<Longrightarrow> refund s' = refund s"
  by (metis view_fields(1))

lemma get_stands:
  assumes "stands sdb d n w evm" "state_reads sdb f"
    and "\<And>x evm'. f (statedb evm) = Ret (x, statedb evm') \<Longrightarrow> stands sdb d n w evm' \<Longrightarrow> go_spec P Q (k (x, evm'))"
  shows "go_spec P Q (go_bind (db_get f evm) k)"
proof (rule get_bind [OF _ assms(2)], goal_cases)
  case 1
  then show ?case using assms(1) by (simp add: stands_def)
next
  case (2 x evm')
  then have "stands sdb d n w evm'" using assms(1) view_refund [OF 2(3)] by (simp add: stands_def)
  then show ?case by (rule assms(3) [OF 2(1)])
qed

lemma write_stands:
  assumes "stands sdb d n w evm" "state_writes sdb f"
    and f: "\<And>s'. f (statedb evm) = Ret s' \<Longrightarrow> refund s' = n \<and> state_world (view sdb s') = w'"
    and "\<And>evm'. stands sdb d n w' evm' \<Longrightarrow> go_spec P Q (k evm')"
  shows "go_spec P Q (go_bind (db_do f evm) k)"
proof (rule do_bind [OF _ assms(2)], goal_cases)
  case 1
  then show ?case using assms(1) by (simp add: stands_def)
next
  case (2 evm')
  then have "stands sdb d n w' evm'" using assms(1) f [OF 2(1)] by (simp add: stands_def)
  then show ?case by (rule assms(4))
qed

lemma do_stands:
  assumes "stands sdb d n w evm"
  shows "(\<And>evm'. stands sdb d n (w_account a (\<lambda>x. x\<lparr> w_balance := w_balance x + m \<rparr>) w) evm' \<Longrightarrow> go_spec P Q (k evm')) \<Longrightarrow>
      go_spec P Q (go_bind (db_do (db_AddBalance (state_db_ops sdb) a m) evm) k)"
    "(\<And>evm'. stands sdb d n (w_account a (\<lambda>x. x\<lparr> w_balance := w_balance x - m \<rparr>) w) evm' \<Longrightarrow> go_spec P Q (k evm')) \<Longrightarrow>
      go_spec P Q (go_bind (db_do (db_SubBalance (state_db_ops sdb) a m) evm) k)"
    "(\<And>evm'. stands sdb d n (w_account a (\<lambda>x. x\<lparr> w_nonce := u \<rparr>) w) evm' \<Longrightarrow> go_spec P Q (k evm')) \<Longrightarrow>
      go_spec P Q (go_bind (db_do (db_SetNonce (state_db_ops sdb) a u) evm) k)"
proof -
  note inv = stands_inv [OF assms, THEN conjunct1]
  have ref: "db_AddBalance (state_db_ops sdb) a m (statedb evm) = Ret s' \<Longrightarrow> refund s' = n"
    "db_SubBalance (state_db_ops sdb) a m (statedb evm) = Ret s' \<Longrightarrow> refund s' = n"
    "db_SetNonce (state_db_ops sdb) a u (statedb evm) = Ret s' \<Longrightarrow> refund s' = n" for s'
    using assms by (auto simp: state_db_ops_def stands_def)
  have w: "world_of sdb evm = w" using assms by (simp add: stands_def)
  show "go_spec P Q (go_bind (db_do (db_AddBalance (state_db_ops sdb) a m) evm) k)"
    if "\<And>evm'. stands sdb d n (w_account a (\<lambda>x. x\<lparr> w_balance := w_balance x + m \<rparr>) w) evm' \<Longrightarrow> go_spec P Q (k evm')"
    by (rule write_stands [OF assms account_writers(2) _ that]) (simp add: ref db_writes_world(1) [OF inv] w)
  show "go_spec P Q (go_bind (db_do (db_SubBalance (state_db_ops sdb) a m) evm) k)"
    if "\<And>evm'. stands sdb d n (w_account a (\<lambda>x. x\<lparr> w_balance := w_balance x - m \<rparr>) w) evm' \<Longrightarrow> go_spec P Q (k evm')"
    by (rule write_stands [OF assms account_writers(3) _ that]) (simp add: ref db_writes_world(2) [OF inv] w)
  show "go_spec P Q (go_bind (db_do (db_SetNonce (state_db_ops sdb) a u) evm) k)"
    if "\<And>evm'. stands sdb d n (w_account a (\<lambda>x. x\<lparr> w_nonce := u \<rparr>) w) evm' \<Longrightarrow> go_spec P Q (k evm')"
    by (rule write_stands [OF assms account_writers(4) _ that]) (simp add: ref db_writes_world(3) [OF inv] w)
qed

lemma snapshot_stands:
  assumes "stands sdb d n w evm" "\<And>i evm'. stands sdb d n w evm' \<Longrightarrow> go_spec P Q (k (i, evm'))"
  shows "go_spec P Q (go_bind (db_get (db_Snapshot (state_db_ops sdb)) evm) k)"
proof -
  obtain i s' where s': "Snapshot (statedb evm) = (i, s')" by fastforce
  note snap = Snapshot_inv [OF stands_inv [OF assms(1), THEN conjunct1] s']
  have "stands sdb d n w (evm\<lparr> statedb := s' \<rparr>)"
    using assms(1) snap(1) snap(3) view_refund [OF snap(3)] by (simp add: stands_def tx_ok_def)
  from assms(2) [OF this] show ?thesis using s' by (simp add: db_get_def state_db_ops_def)
qed

lemma create_stands:
  assumes "stands sdb d n w evm"
    and "\<And>evm'. stands sdb d n w evm' \<Longrightarrow> go_spec P Q (k evm')" and "\<And>evm'. C \<Longrightarrow> stands sdb d n w evm' \<Longrightarrow> go_spec P Q (k' evm')"
  shows "go_spec P Q (go_bind (db_get (db_Exist (state_db_ops sdb) a) evm) (\<lambda>(exist, evm).
    if \<not> exist \<and> C then k' evm
    else go_bind (if \<not> exist then db_do (db_CreateAccount (state_db_ops sdb) a) evm else Ret evm) k))"
proof -
  note inv = stands_inv [OF assms(1), THEN conjunct1]
  obtain s' where s': "Exist sdb a (statedb evm) = (live sdb (statedb evm) a \<noteq> None, s')" "quiet sdb (statedb evm) s'"
    "live sdb s' a = live sdb (statedb evm) a"
    by (rule get_quiet [OF state_invD(3) [OF inv], of a])
  let ?evm1 = "evm\<lparr> statedb := s' \<rparr>" and ?evm2 = "evm\<lparr> statedb := CreateAccount sdb a s' \<rparr>"
  have inv1: "state_inv sdb s'" by (rule quiet_inv [OF inv s'(2)])
  have st1: "stands sdb d n w ?evm1"
    using assms(1) inv1 s'(2) view_refund [of sdb s' "statedb evm"] by (simp add: stands_def tx_ok_def quiet_def)
  have st2: "stands sdb d n w ?evm2" if "live sdb s' a = None"
  proof -
    have "state_inv sdb (CreateAccount sdb a s')"
      using journalled_inv(1) [OF inv1 CreateAccount_journalled [OF state_invD(1,3) [OF inv1]]] by blast
    then show ?thesis
      using st1 CreateAccount_world [OF state_invD(1,3,2) [OF inv1] that] by (simp add: stands_def tx_ok_def)
  qed
  have "db_get (db_Exist (state_db_ops sdb) a) evm = Ret (live sdb (statedb evm) a \<noteq> None, ?evm1)"
    "db_do (db_CreateAccount (state_db_ops sdb) a) ?evm1 = Ret ?evm2"
    using s'(1) by (simp_all add: db_get_def db_do_def state_db_ops_def)
  then show ?thesis using assms(2) [OF st1] assms(3) [OF _ st1] assms(2) [OF st2] s'(3) by simp
qed

definition transfer_world :: "address \<Rightarrow> address \<Rightarrow> int \<Rightarrow> world \<Rightarrow> world" where
  "transfer_world a b v w = w_account b (\<lambda>x. x\<lparr> w_balance := w_balance x + v \<rparr>) (w_account a (\<lambda>x. x\<lparr> w_balance := w_balance x - v \<rparr>) w)"

lemma transfer_0: "transfer_world a b 0 w = w"
  by (simp add: transfer_world_def w_account_def)

lemma transfer_stands:
  assumes "stands sdb d n w evm" "\<And>evm'. stands sdb d n (transfer_world a b v w) evm' \<Longrightarrow> go_spec P Q (k evm')"
  shows "go_spec P Q (go_bind (db_do (chain_Transfer (state_db_ops sdb) a b v) evm) k)"
proof -
  have "go_bind (db_do (chain_Transfer (state_db_ops sdb) a b v) evm) k
      = go_bind (db_do (db_SubBalance (state_db_ops sdb) a v) evm) (\<lambda>evm. go_bind (db_do (db_AddBalance (state_db_ops sdb) b v) evm) k)"
    by (simp add: db_do_def chain_Transfer_def state_db_ops_def)
  then show ?thesis
    by (simp only:) (intro do_stands(2) [OF assms(1)] do_stands(1), assumption, rule assms(2), simp add: transfer_world_def)
qed

lemma evm_Call_plain:
  assumes E: "env_ok sdb E" and st: "stands sdb d n w evm" and d: "d \<le> 1024"
    and plain: "precompile E b = None" "w_code (fst w b) = []" and funds: "v = 0 \<or> v \<le> w_balance (fst w (ref_Address clr))"
  shows "go_spec P (\<lambda>((ret, g, err), evm'). ret = [] \<and> g = gas \<and> err = None
      \<and> stands sdb d n (transfer_world (ref_Address clr) b v w) evm') (evm_Call run E clr b input gas v evm)"
proof -
  let ?Q = "\<lambda>((ret, g, err), evm'). ret = [] \<and> g = gas \<and> err = None \<and> stands sdb d n (transfer_world (ref_Address clr) b v w) evm'"
  have depth: "\<not> depth evm > unat CallCreateDepth" using st d by (simp add: stands_def)
  have tr: "Transfer (Context E) = chain_Transfer (state_db_ops sdb)" using E by (simp add: env_ok_def)
  have code: "w_code (fst (transfer_world (ref_Address clr) b v w) b) = []"
    using plain(2) by (auto simp: transfer_world_def w_account_def)
  have callee: "go_spec P ?Q (go_bind (call_callee run E clr b input gas v evm2)
      (\<lambda>((ret, gas, err), evm). finish_call E i ret gas err evm))"
    if st2: "stands sdb d n (transfer_world (ref_Address clr) b v w) evm2" for i evm2
    unfolding call_callee_def plain option.case go_bind_assoc env_okD(1) [OF E]
  proof (rule get_stands [OF st2 code_readers(1)], goal_cases)
    case (1 c evm3)
    have inv2: "state_inv sdb (statedb evm2)" using stands_inv [OF st2] by blast
    have "c = w_code (fst (world_of sdb evm2) b)"
      using readers_world(4) [OF state_invD(1,3,2) [OF inv2], of b] 1(1) by (auto simp: state_db_ops_def)
    then have "c = []" using st2 code by (simp add: stands_def)
    then show ?case using 1(2) by (simp add: finish_call_def)
  qed
  have rest: "go_spec P ?Q (go_bind (db_get (db_Snapshot (db E)) evm1) (\<lambda>(snapshot, evm).
      let p = precompile E b in
      go_bind (db_get (db_Exist (db E) b) evm) (\<lambda>(exist, evm).
      if \<not> exist \<and> p = None \<and> v = 0 then Ret (([], gas, None), evm)
      else
      go_bind (if \<not> exist then db_do (db_CreateAccount (db E) b) evm else Ret evm) (\<lambda>evm.
      go_bind (db_do (Transfer (Context E) (ref_Address clr) b v) evm) (\<lambda>evm.
      go_bind (call_callee run E clr b input gas v evm)
        (\<lambda>((ret, gas, err), evm). finish_call E snapshot ret gas err evm))))))"
    if st1: "stands sdb d n w evm1" for evm1
    unfolding env_okD(1) [OF E] tr Let_def
  proof (rule snapshot_stands [OF st1], unfold prod.case, goal_cases)
    case (1 i evm2)
    show ?case
      by (intro create_stands [OF 1] transfer_stands, assumption, rule callee, assumption) (simp add: transfer_0)
  qed
  show ?thesis
  proof (cases "v = 0")
    case True
    then show ?thesis unfolding evm_Call_def if_not_P [OF depth] using rest [OF st] by simp
  next
    case False
    show ?thesis
      unfolding evm_Call_def if_not_P [OF depth] if_P [OF False] env_okD(2) [OF E]
    proof (rule get_stands [OF st CanTransfer_quiet], goal_cases)
      case (1 can evm1)
      have "can = (v \<le> w_balance (fst w (ref_Address clr)))"
        using 1(1) st readers_world(1) [OF state_invD(1,3,2) [OF stands_inv [OF st, THEN conjunct1]], of "ref_Address clr"]
        by (auto simp: chain_CanTransfer_def state_db_ops_def stands_def split: prod.splits)
      then show ?case unfolding prod.case using rest [OF 1(2)] funds False by simp
    qed
  qed
qed

section \<open>Accepted messages\<close>

text \<open>The fees of a message that a block with this environment takes.\<close>

definition payable :: "'s evm_env \<Rightarrow> Message \<Rightarrow> bool" where
  "payable E msg \<longleftrightarrow> (\<exists>f t b. msg_GasFeeCap msg = Some f \<and> msg_GasTipCap msg = Some t \<and> BaseFee (Context E) = Some b
     \<and> t \<le> f \<and> b \<le> f \<and> msg_GasPrice msg \<le> f \<and> \<bar>f\<bar> < 2 ^ 256 \<and> \<bar>t\<bar> < 2 ^ 256)"

lemma BitLen_bound: "\<bar>i\<bar> < 2 ^ 256 \<Longrightarrow> \<not> BitLen i > 256"
proof
  assume i: "\<bar>i\<bar> < 2 ^ 256" and b: "BitLen i > 256"
  then have "0 < nat \<bar>i\<bar>" by (cases "i = 0") (auto simp: BitLen_def bit_len.simps)
  then have "2 ^ (BitLen i - 1) \<le> nat \<bar>i\<bar>" using bit_len_bounds unfolding BitLen_def by blast
  moreover have "(2 :: nat) ^ 256 \<le> 2 ^ (BitLen i - 1)" using b by (intro power_increasing) auto
  ultimately have "(2 :: nat) ^ 256 \<le> nat \<bar>i\<bar>" by linarith
  moreover have "nat \<bar>i\<bar> < 2 ^ 256" using i by (simp add: nat_less_iff)
  ultimately show False by linarith
qed

lemma check_fees_ok:
  assumes "payable E msg"
  shows "check_fees E cc nb (NewStateTransition msg gp) = Ret None"
proof -
  obtain f t b where p: "msg_GasFeeCap msg = Some f" "msg_GasTipCap msg = Some t" "BaseFee (Context E) = Some b"
     "t \<le> f" "b \<le> f" "\<bar>f\<bar> < 2 ^ 256" "\<bar>t\<bar> < 2 ^ 256"
    using assms unfolding payable_def by blast
  note bits = BitLen_bound [OF p(6)] BitLen_bound [OF p(7)]
  show ?thesis using p(1-5) bits by (simp add: check_fees_def NewStateTransition_def big_go_def)
qed

text \<open>A sender whose account has no code.\<close>

definition sender_eoa :: "'t StateDatabase \<Rightarrow> 't state_db evm_env \<Rightarrow> address \<Rightarrow> 't state_db \<Rightarrow> bool" where
  "sender_eoa sdb E a s \<longleftrightarrow> fst (GetCodeHash sdb a s) \<in> {0, emptyCodeHash (crypto E)}"

lemma check_sender_ok:
  assumes E: "env_ok sdb E" and st: "stands sdb d n w evm" and nonce: "nonce_ok msg w"
    and eoa: "sender_eoa sdb E (msg_From msg) (statedb evm)"
  shows "go_spec P (\<lambda>(err, evm'). err = None \<and> stands sdb d n w evm') (check_sender E (NewStateTransition msg gp) evm)"
proof (cases "msg_IsFake msg")
  case True
  then show ?thesis using st by (simp add: check_sender_def NewStateTransition_def)
next
  case False
  then have notfake: "\<not> msg_IsFake (st_msg (NewStateTransition msg gp))" by (simp add: NewStateTransition_def)
  note inv = stands_inv [OF st, THEN conjunct1]
  obtain s' where s': "GetNonce sdb (msg_From msg) (statedb evm) = (case live sdb (statedb evm) (msg_From msg) of
      None \<Rightarrow> 0 | Some obj \<Rightarrow> acc_Nonce (so_data obj), s')" "live sdb s' (msg_From msg) = live sdb (statedb evm) (msg_From msg)"
    by (rule get_quiet [OF state_invD(3) [OF inv], of "msg_From msg"])
  show ?thesis
    unfolding check_sender_def env_okD(1) [OF E] if_not_P [OF notfake]
  proof (rule get_stands [OF st account_readers(2)], goal_cases)
    case (1 m evm1)
    have m: "m = msg_Nonce msg" "m \<noteq> - 1"
      using db_reads_world(2) [OF inv 1(1)] st nonce False by (simp_all add: nonce_ok_def stands_def NewStateTransition_def)
    have ev1: "statedb evm1 = s'" using 1(1) s'(1) by (simp add: state_db_ops_def NewStateTransition_def)
    have ok: "objs_ok sdb (statedb evm)" "objs_ok sdb s'"
      using state_invD(3) [OF inv] state_invD(3) [OF stands_inv [OF 1(2), THEN conjunct1]] ev1 by simp_all
    have code: "fst (GetCodeHash sdb (msg_From msg) s') = fst (GetCodeHash sdb (msg_From msg) (statedb evm))"
      by (rule get_quiet [OF ok(1), of "msg_From msg"], rule get_quiet [OF ok(2), of "msg_From msg"]) (simp add: s'(2))
    have "1 + m \<noteq> 0" using m(2) by (simp add: add_eq_0_iff)
    from unatSuc [OF this] have le: "\<not> m + 1 < m" by (simp add: word_less_nat_alt add.commute)
    have F: "\<not> m < msg_Nonce (st_msg (NewStateTransition msg gp))" "\<not> m > msg_Nonce (st_msg (NewStateTransition msg gp))"
      using m(1) by (simp_all add: NewStateTransition_def)
    show ?case
      unfolding prod.case if_not_P [OF F(1)] if_not_P [OF F(2)] if_not_P [OF le]
    proof (rule get_stands [OF 1(2) account_readers(3)], goal_cases)
      case (1 h evm2)
      then have "h \<in> {0, emptyCodeHash (crypto E)}"
        using eoa code ev1 by (auto simp: sender_eoa_def state_db_ops_def NewStateTransition_def)
      then show ?case using 1(2) by auto
    qed
  qed
qed

lemma preCheck_ok:
  assumes E: "env_ok sdb E" and st: "stands sdb d n w evm" and nonce: "nonce_ok msg w"
    and eoa: "sender_eoa sdb E (msg_From msg) (statedb evm)" and pay: "payable E msg"
    and funds: "required_balance msg \<le> w_balance (fst w (msg_From msg))" and pool: "msg_Gas msg \<le> gp"
  shows "go_spec P (\<lambda>(err, st', evm'). err = None \<and> st' = bought msg gp
      \<and> stands sdb d n (w_account (msg_From msg) (\<lambda>x. x\<lparr> w_balance := w_balance x - uint (msg_Gas msg) * msg_GasPrice msg \<rparr>) w) evm')
    (preCheck E cc nb (NewStateTransition msg gp) evm)"
  unfolding preCheck_def go_spec_bind [of _ _ "check_sender E (NewStateTransition msg gp) evm"]
proof (rule go_spec_mono [OF check_sender_ok [OF E st nonce eoa]], goal_cases)
  case (1 x)
  obtain evm1 where x: "x = (None, evm1)" and st1: "stands sdb d n w evm1" using 1 by auto
  have req: "(case st_gasFeeCap (NewStateTransition msg gp) of
      None \<Rightarrow> uint (msg_Gas (st_msg (NewStateTransition msg gp))) * st_gasPrice (NewStateTransition msg gp)
    | Some feeCap \<Rightarrow> uint (msg_Gas (st_msg (NewStateTransition msg gp))) * feeCap + st_value (NewStateTransition msg gp))
    = required_balance msg"
    by (auto simp: required_balance_def NewStateTransition_def split: option.splits)
  have sub: "SubGas (msg_Gas (st_msg (NewStateTransition msg gp))) (st_gp (NewStateTransition msg gp)) = Inr (gp - msg_Gas msg)"
    using pool by (simp add: SubGas_def NewStateTransition_def)
  show ?case
    unfolding x prod.case option.case check_fees_ok [OF pay] go_bind.simps buyGas_def Let_def env_okD(1) [OF E] req
  proof (rule get_stands [OF st1 account_readers(1)], goal_cases)
    case (1 b evm2)
    have b: "\<not> b < required_balance msg"
      using db_reads_world(1) [OF stands_inv [OF st1, THEN conjunct1] 1(1)] st1 funds by (simp add: stands_def NewStateTransition_def)
    show ?case
      unfolding prod.case if_not_P [OF b] sub sum.case
      by (rule do_stands(2) [OF 1(2)]) (simp add: bought_def NewStateTransition_def)
  qed
qed

text \<open>The machine at the start of a transaction.\<close>

definition fresh :: "'t StateDatabase \<Rightarrow> 't state_db evm \<Rightarrow> bool" where
  "fresh sdb evm \<longleftrightarrow> state_inv sdb (statedb evm) \<and> \<not> readOnly evm \<and> depth evm = 0 \<and> refund (statedb evm) = 0"

definition plain_world :: "'s evm_env \<Rightarrow> ChainConfig \<Rightarrow> Message \<Rightarrow> address \<Rightarrow> u64 \<Rightarrow> world \<Rightarrow> world" where
  "plain_world E cc msg b used w = pay_tip E cc msg used (transfer_world (msg_From msg) b (msg_Value msg)
     (w_account (msg_From msg) (\<lambda>x. x\<lparr> w_nonce := w_nonce x + 1, w_balance := w_balance x - uint used * msg_GasPrice msg \<rparr>) w))"

lemma plain_world_steps:
  assumes "uint used = uint G - uint g"
  shows "w_account a (\<lambda>x. x\<lparr> w_balance := w_balance x + uint g * p \<rparr>) (transfer_world a b v
      (w_account a (\<lambda>x. x\<lparr> w_nonce := w_nonce x + 1 \<rparr>) (w_account a (\<lambda>x. x\<lparr> w_balance := w_balance x - uint G * p \<rparr>) w)))
    = transfer_world a b v (w_account a (\<lambda>x. x\<lparr> w_nonce := w_nonce x + 1, w_balance := w_balance x - uint used * p \<rparr>) w)"
proof -
  have "uint G * p = uint g * p + uint used * p" unfolding assms by (simp add: left_diff_distrib)
  then show ?thesis by (auto simp: w_account_def transfer_world_def fun_eq_iff)
qed

lemma refundGas_plain:
  assumes E: "env_ok sdb E" and st: "stands sdb d 0 w evm" and pool: "unat (st_gp t) + unat (st_gas t) < 2 ^ 64"
  shows "go_spec P (\<lambda>(t', evm'). t' = t\<lparr> st_gp := st_gp t + st_gas t \<rparr>
      \<and> stands sdb d 0 (w_account (msg_From (st_msg t)) (\<lambda>x. x\<lparr> w_balance := w_balance x + uint (st_gas t) * st_gasPrice t \<rparr>) w) evm')
    (refundGas E q t evm)"
proof -
  have get: "db_get (db_GetRefund (state_db_ops sdb)) evm = Ret (0, evm)"
    using st by (simp add: db_get_def state_db_ops_def stands_def)
  have r: "(if gasUsed t div q > 0 then 0 else gasUsed t div q) = 0" by (simp add: word_gt_0)
  have gp: "\<not> st_gp t > - 1 - st_gas t"
    using pool unat_sub [of "st_gas t" "- 1"] by (simp add: word_less_nat_alt unsigned_minus_1_eq_mask mask_eq_exp_minus_1)
  show ?thesis
    unfolding refundGas_def Let_def env_okD(1) [OF E] get go_bind.simps prod.case r
    by (rule do_stands(1) [OF st]) (use gp in \<open>simp add: AddGas_def\<close>)
qed

lemma finish_plain:
  assumes E: "env_ok sdb E" and st: "stands sdb d 0 w evm" and pay: "payable E (st_msg t)"
    and pool: "unat (st_gp t) + unat (st_gas t) < 2 ^ 64"
    and caps: "st_gasFeeCap t = msg_GasFeeCap (st_msg t)" "st_gasTipCap t = msg_GasTipCap (st_msg t)"
      "st_gasPrice t = msg_GasPrice (st_msg t)"
    and rules: "rules = snd (cfg_Rules cc (Some (BlockNumber (Context E))) m)"
  shows "go_spec P (\<lambda>(result, t', evm'). result = \<lparr> UsedGas = gasUsed t, Err = snd r, ReturnData = fst r \<rparr>
      \<and> st_gp t' = st_gp t + st_gas t
      \<and> stands sdb d 0 (pay_tip E cc (st_msg t) (gasUsed t) (w_account (msg_From (st_msg t))
          (\<lambda>x. x\<lparr> w_balance := w_balance x + uint (st_gas t) * st_gasPrice t \<rparr>) w)) evm')
    (finish_message E rules r t evm)"
  unfolding finish_message_def go_spec_bind [of _ _ "refundGas E (if \<not> IsLondon rules then RefundQuotient else RefundQuotientEIP3529) t evm"]
proof (rule go_spec_mono [OF refundGas_plain [OF E st pool]], goal_cases)
  case (1 x)
  obtain evm1 where x: "x = (t\<lparr> st_gp := st_gp t + st_gas t \<rparr>, evm1)" and st1: "stands sdb d 0 (w_account (msg_From (st_msg t))
      (\<lambda>x. x\<lparr> w_balance := w_balance x + uint (st_gas t) * st_gasPrice t \<rparr>) w) evm1"
    using 1 by auto
  have tip: "effective_tip E rules (t\<lparr> st_gp := st_gp t + st_gas t \<rparr>) = Ret (tip_of E cc (st_msg t))"
    using pay caps by (auto simp: payable_def effective_tip_def big_go_def tip_of_def rules cfg_Rules_def)
  have used: "gasUsed (t\<lparr> st_gp := st_gp t + st_gas t \<rparr>) = gasUsed t" by (simp add: gasUsed_def)
  show ?case
    unfolding x prod.case tip go_bind.simps env_okD(1) [OF E] used
    by (rule do_stands(1) [OF st1]) (simp add: pay_tip_def)
qed

lemma execute_plain:
  assumes E: "env_ok sdb E" and st: "stands sdb d 0 w evm" and d: "d \<le> 1024" and to: "msg_To (st_msg t) = Some b"
    and plain: "precompile E b = None" "w_code (fst w b) = []"
    and funds: "st_value t = 0 \<or> st_value t \<le> w_balance (fst w (msg_From (st_msg t)))"
  shows "go_spec P (\<lambda>(r, t', evm'). r = ([], None) \<and> t' = t \<and> stands sdb d 0 (transfer_world (msg_From (st_msg t)) b (st_value t)
      (w_account (msg_From (st_msg t)) (\<lambda>x. x\<lparr> w_nonce := w_nonce x + 1 \<rparr>) w)) evm') (execute_message run E t evm)"
proof -
  have some: "msg_To (st_msg t) \<noteq> None" and b: "st_to t = b" using to by (simp_all add: st_to_def)
  show ?thesis
    unfolding execute_message_def Let_def if_not_P [OF some] env_okD(1) [OF E] b
  proof (rule get_stands [OF st account_readers(2)], unfold prod.case, rule do_stands(3), assumption, goal_cases)
    case (1 n evm1 evm2)
    have n: "n = w_nonce (fst w (msg_From (st_msg t)))"
      using db_reads_world(2) [OF stands_inv [OF st, THEN conjunct1] 1(1)] st by (simp add: stands_def)
    have st2: "stands sdb d 0 (w_account (msg_From (st_msg t)) (\<lambda>x. x\<lparr> w_nonce := w_nonce x + 1 \<rparr>) w) evm2"
      using 1(3) n by (simp add: w_account_def)
    show ?case
      unfolding go_spec_bind
      by (rule go_spec_mono [OF evm_Call_plain [OF E st2 d plain(1)]])
        (use plain(2) funds in \<open>auto simp: w_account_def\<close>)
  qed
qed

text \<open>C5: A funded transfer goes through. A message with the account's nonce, from an account without code, with
  enough balance for its gas and value and fee caps that the block takes, sent to an account
  without code, is accepted and succeeds. It uses exactly its intrinsic gas, the pool loses just that much, and
  the world changes in four places: the sender's nonce goes up by one, the sender pays for the gas used,
  the value moves to the recipient, and the coinbase gets its tip.\<close>

theorem plain_transfer:
  assumes "env_ok sdb E" "fresh sdb evm" "nonce_ok msg (world_of sdb evm)" "sender_eoa sdb E (msg_From msg) (statedb evm)"
    and "payable E msg" "required_balance msg \<le> w_balance (fst (world_of sdb evm) (msg_From msg))" "0 \<le> msg_Value msg"
    and "message_gas E cc msg = Inr g0" "g0 \<le> msg_Gas msg" "msg_Gas msg \<le> gp"
    and "msg_To msg = Some b" "precompile E b = None" "w_code (fst (world_of sdb evm) b) = []"
  shows "\<exists>st' evm'. ApplyMessage run E cc nb msg gp evm = Ret (Inr \<lparr> UsedGas = g0, Err = None, ReturnData = [] \<rparr>, st', evm')
    \<and> st_gp st' = gp - g0 \<and> state_inv sdb (statedb evm')
    \<and> world_of sdb evm' = plain_world E cc msg b g0 (world_of sdb evm)"
proof -
  note E = assms(1) and le = assms(9,10)
  let ?w = "world_of sdb evm" and ?a = "msg_From msg" and ?G = "uint (msg_Gas msg) * msg_GasPrice msg"
  let ?w1 = "w_account ?a (\<lambda>x. x\<lparr> w_balance := w_balance x - ?G \<rparr>) ?w"
  define t where "t = (bought msg gp)\<lparr> st_gas := msg_Gas msg - g0 \<rparr>"
  have t: "st_msg t = msg" "st_value t = msg_Value msg" "st_gp t = gp - msg_Gas msg" "st_gas t = msg_Gas msg - g0"
    "st_gasPrice t = msg_GasPrice msg" "st_gasFeeCap t = msg_GasFeeCap msg" "st_gasTipCap t = msg_GasTipCap msg" "gasUsed t = g0"
    by (simp_all add: t_def bought_def NewStateTransition_def gasUsed_def)
  have st: "stands sdb 0 0 ?w evm" using assms(2) by (simp add: stands_def fresh_def tx_ok_def)
  obtain f where "msg_GasFeeCap msg = Some f" "msg_GasPrice msg \<le> f" using assms(5) unfolding payable_def by blast
  then have funds: "msg_Value msg \<le> w_balance (fst ?w1 ?a)"
    using assms(6) mult_left_mono [of "msg_GasPrice msg" f "uint (msg_Gas msg)"] by (simp add: required_balance_def w_account_def)
  have code: "w_code (fst ?w1 b) = []" using assms(13) by (auto simp: w_account_def)
  have pool: "unat (st_gp t) + unat (st_gas t) < 2 ^ 64"
    using le unsigned_less [of gp, where 'a = nat] by (simp add: t unat_sub word_le_nat_alt)
  have gas: "uint g0 = uint (msg_Gas msg) - uint (msg_Gas msg - g0)" "gp - msg_Gas msg + (msg_Gas msg - g0) = gp - g0"
    using uint_sub_lem [THEN iffD1, OF le(1) [unfolded word_le_def]] by simp_all
  let ?Q = "\<lambda>(res, st', evm'). res = Inr \<lparr> UsedGas = g0, Err = None, ReturnData = [] \<rparr>
    \<and> st_gp st' = gp - g0 \<and> stands sdb 0 0 (plain_world E cc msg b g0 ?w) evm'"
  have to: "msg_To (st_msg t) = Some b" and fd: "st_value t = 0 \<or> st_value t \<le> w_balance (fst ?w1 (msg_From (st_msg t)))"
    using assms(11) funds by (simp_all add: t)
  have rest: "go_spec {} ?Q (go_bind (execute_message run E t evm1) (\<lambda>(r, st, evm).
      go_map (\<lambda>(result, t). (Inr result, t)) (finish_message E rules r st evm)))"
    if st1: "stands sdb 0 0 ?w1 evm1" and rules: "rules = snd (cfg_Rules cc (Some (BlockNumber (Context E))) m)" for evm1 rules m
    unfolding go_spec_bind
  proof (rule go_spec_mono [OF execute_plain [OF E st1 _ to assms(12) code fd]], simp, goal_cases)
    case (1 x)
    obtain evm2 where x: "x = (([], None), t, evm2)" and st2: "stands sdb 0 0 (transfer_world ?a b (msg_Value msg)
        (w_account ?a (\<lambda>x. x\<lparr> w_nonce := w_nonce x + 1 \<rparr>) ?w1)) evm2"
      using 1 by (auto simp: t)
    show ?case
      unfolding x prod.case go_spec_map
      by (rule go_spec_mono [OF finish_plain [OF E st2 _ pool _ _ _ rules]])
        (use assms(5) in \<open>auto simp: t gas(2) plain_world_def plain_world_steps [OF gas(1)]\<close>)
  qed
  have "go_spec {} ?Q (ApplyMessage run E cc nb msg gp evm)"
    unfolding ApplyMessage_def TransitionDb_def go_spec_bind [of _ _ "preCheck E cc nb (NewStateTransition msg gp) evm"]
  proof (rule go_spec_mono [OF preCheck_ok [OF E st assms(3-6,10)]], goal_cases)
    case (1 x)
    obtain evm1 where x: "x = (None, bought msg gp, evm1)" and st1: "stands sdb 0 0 ?w1 evm1" using 1 by auto
    have sel: "st_data (bought msg gp) = msg_Data msg" "st_msg (bought msg gp) = msg" "st_gas (bought msg gp) = msg_Gas msg"
      by (simp_all add: bought_def NewStateTransition_def)
    have hs: "IsHomestead (snd (cfg_Rules cc (Some (BlockNumber (Context E))) m)) = cfg_IsHomestead cc (Some (BlockNumber (Context E)))" for m
      by (simp add: cfg_Rules_def)
    have nle: "\<not> msg_Gas msg < g0" using le(1) by simp
    show ?case
    proof (cases "0 < msg_Value msg")
      case True
      show ?thesis
        unfolding x prod.case option.case Let_def sel hs assms(8) sum.case if_not_P [OF nle] t_def [symmetric] t
          if_P [OF True] env_okD(2) [OF E]
      proof (rule get_stands [OF st1 CanTransfer_quiet], goal_cases)
        case (1 can evm2)
        have can
          using 1(1) st1 funds readers_world(1) [OF state_invD(1,3,2) [OF stands_inv [OF st1, THEN conjunct1]], of ?a]
          by (auto simp: chain_CanTransfer_def state_db_ops_def stands_def split: prod.splits)
        then show ?case using rest [OF 1(2) refl] by simp
      qed
    next
      case False
      show ?thesis
        unfolding x prod.case option.case Let_def sel hs assms(8) sum.case if_not_P [OF nle] t_def [symmetric] t
          if_not_P [OF False] go_bind.simps
        using rest [OF st1 refl] by simp
    qed
  qed
  then show ?thesis unfolding go_spec_iff by (auto simp: stands_def tx_ok_def)
qed

lemma rich_world: "world_of empty_backend rich_evm = w_account 9 (\<lambda>x. x\<lparr> w_balance := w_balance x + 1000000000 \<rparr>) (\<lambda>_. no_account, \<lambda>_. [])"
proof -
  have "state_world (view empty_backend empty_state) = (\<lambda>_. no_account, \<lambda>_. [])"
    by (simp add: state_world_def view_def found_def load_account_def trie_account_def account_world_def empty_state_def New_def
        empty_backend_def fun_eq_iff)
  then show ?thesis using balance_worlds(1) [OF state_invD(1,3,2) [OF empty_state_inv]] by (simp add: rich_evm_def)
qed

theorem plain_transfer_witness:
  "\<exists>st' evm'. ApplyMessage (\<lambda>_ _ _ _. OutOfFuel) (plain_env empty_backend) some_config False (some_message 0 []) 40000 rich_evm
      = Ret (Inr \<lparr> UsedGas = 21000, Err = None, ReturnData = [] \<rparr>, st', evm')
    \<and> st_gp st' = 19000 \<and> w_balance (fst (world_of empty_backend evm') 8) = 7"
proof -
  let ?E = "plain_env empty_backend" and ?m = "some_message 0 []"
  have w: "w_nonce (fst (world_of empty_backend rich_evm) 9) = 0" "w_code (fst (world_of empty_backend rich_evm) 8) = []"
    "w_balance (fst (world_of empty_backend rich_evm) 9) = 1000000000" "w_balance (fst (world_of empty_backend rich_evm) 8) = 0"
    by (simp_all add: rich_world w_account_def no_account_def)
  have fresh: "fresh empty_backend rich_evm"
    using rich_evm_ok by (simp add: fresh_def tx_ok_def rich_evm_def start_evm_def) (simp add: empty_state_def New_def empty_backend_def)
  have "fst (GetCodeHash empty_backend 9 (statedb rich_evm)) = 0"
    by (simp add: GetCodeHash_def with_object_def getStateObject_def getDeletedStateObject_def rich_evm_def AddBalance_def GetOrNewStateObject_def
        createObject_def load_account_def trie_account_def obj_AddBalance_def obj_SetBalance_def setBalance_def setStateObject_def journal_append_def
        newObject_def empty_account_def obj_emptyCodeHash_def Let_def empty_state_def New_def empty_backend_def be_nat_def)
  then have eoa: "sender_eoa empty_backend ?E (msg_From ?m) (statedb rich_evm)" by (simp add: sender_eoa_def some_message_def)
  have ctx: "BaseFee (Context ?E) = Some 10" "Coinbase (Context ?E) = 1"
    by (simp_all add: plain_env_def NewEVM_def NewEVMBlockContext_def)
  have nonce: "nonce_ok ?m (world_of empty_backend rich_evm)" and pay: "payable ?E ?m"
    and bal: "required_balance ?m \<le> w_balance (fst (world_of empty_backend rich_evm) (msg_From ?m))"
    using w ctx by (simp_all add: nonce_ok_def payable_def required_balance_def some_message_def)
  have gas: "message_gas ?E some_config ?m = Inr 21000" "precompile ?E 8 = None"
    by (simp_all add: some_message_def IntrinsicGas_def StorageKeys_def precompile_def PrecompiledContractsHomestead_def BytesToAddress_def be_nat_def)
  obtain st' evm' where r: "ApplyMessage (\<lambda>_ _ _ _. OutOfFuel) ?E some_config False ?m 40000 rich_evm
      = Ret (Inr \<lparr> UsedGas = 21000, Err = None, ReturnData = [] \<rparr>, st', evm')" "st_gp st' = 40000 - 21000"
    "world_of empty_backend evm' = plain_world ?E some_config ?m 8 21000 (world_of empty_backend rich_evm)"
    using plain_transfer [OF plain_env_ok fresh nonce eoa pay bal _ gas(1) _ _ _ gas(2), of 40000 "\<lambda>_ _ _ _. OutOfFuel" False] w(2)
    by (auto simp: some_message_def)
  have "w_balance (fst (world_of empty_backend evm') 8) = 7"
    using w(4) by (simp add: r(3) plain_world_def pay_tip_def transfer_world_def w_account_def some_message_def ctx)
  then show ?thesis using r(1,2) by auto
qed

end
