(* ===== verification/Trie_Encoding.thy ===== *)
theory Trie_Encoding
  imports Go_Spec
begin

text \<open>
  The key encodings of \<^verbatim>\<open>src/database/trie/encoding.go\<close>: key bytes, hex (a byte per nibble, with an
  optional terminator 16) and compact (two nibbles per byte after a flag). Loops that write a
  buffer through an index are loops over the buffer, so that an index out of range panics as it
  does in the code. The lemmas show the round trips between the encodings and that the
  conversion in place agrees with the conversion into a new buffer.
\<close>

section \<open>The code\<close>

definition hasTerm :: "bytes \<Rightarrow> bool" where
  "hasTerm s = (0 < length s \<and> s ! (length s - 1) = 16)"

function prefixLen_loop :: "bytes \<Rightarrow> bytes \<Rightarrow> nat \<Rightarrow> nat \<Rightarrow> nat" where
  "prefixLen_loop a b n i =
     (if i < n then if a ! i \<noteq> b ! i then i else prefixLen_loop a b n (i + 1) else i)"
  by pat_completeness auto
termination by (relation "measure (\<lambda>(a, b, n, i). n - i)") auto

definition prefixLen :: "bytes \<Rightarrow> bytes \<Rightarrow> nat" where
  "prefixLen a b =
     prefixLen_loop a b (if length b < length a then length b else length a) 0"

function decodeNibbles_loop :: "bytes \<Rightarrow> bytes \<Rightarrow> nat \<Rightarrow> nat \<Rightarrow> bytes go" where
  "decodeNibbles_loop nibbles bs bi ni =
     (if ni < length nibbles then
        go_bind (index_go nibbles (ni + 1)) (\<lambda>lo.
        go_bind (store_go bs bi (push_bit 4 (nibbles ! ni) OR lo)) (\<lambda>bs.
        decodeNibbles_loop nibbles bs (bi + 1) (ni + 2)))
      else Ret bs)"
  by pat_completeness auto
termination by (relation "measure (\<lambda>(nibbles, bs, bi, ni). length nibbles - ni)") auto

definition decodeNibbles :: "bytes \<Rightarrow> bytes \<Rightarrow> bytes go" where
  "decodeNibbles nibbles bs = decodeNibbles_loop nibbles bs 0 0"

text \<open>Each byte of the key writes the two nibbles at twice its index.\<close>

definition keybytesToHex :: "bytes \<Rightarrow> bytes" where
  "keybytesToHex str = concat (map (\<lambda>b. [b div 16, b mod 16]) str) @ [16]"

definition hexToKeybytes :: "bytes \<Rightarrow> bytes go" where
  "hexToKeybytes hex0 =
     (let hex = (if hasTerm hex0 then take (length hex0 - 1) hex0 else hex0)
      in if length hex mod 2 \<noteq> 0 then Panic (PanicMsg ''can't convert hex key of odd length'')
         else decodeNibbles hex (replicate (length hex div 2) 0))"

text \<open>\<^verbatim>\<open>buf[1:]\<close>, which \<^verbatim>\<open>decodeNibbles\<close> fills, is the tail of the buffer.\<close>

definition hexToCompact :: "bytes \<Rightarrow> bytes go" where
  "hexToCompact hex0 =
     (let terminator = (if hasTerm hex0 then 1 else 0 :: u8);
          hex1 = (if hasTerm hex0 then take (length hex0 - 1) hex0 else hex0);
          buf = replicate (length hex1 div 2 + 1) (0 :: u8);
          flag = push_bit 5 terminator;
          (flag, hex) = (if length hex1 mod 2 = 1
                         then ((flag OR push_bit 4 1) OR hex1 ! 0, drop 1 hex1)
                         else (flag, hex1))
      in go_map ((#) flag) (decodeNibbles hex (drop 1 buf)))"

function compactInPlace_loop :: "bytes \<Rightarrow> nat \<Rightarrow> nat \<Rightarrow> nat \<Rightarrow> bytes go" where
  "compactInPlace_loop hex hexLen bi ni =
     (if ni < hexLen then
        go_bind (index_go hex (ni + 1)) (\<lambda>lo.
        go_bind (store_go hex bi (push_bit 4 (hex ! ni) OR lo)) (\<lambda>hex.
        compactInPlace_loop hex hexLen (bi + 1) (ni + 2)))
      else Ret hex)"
  by pat_completeness auto
termination by (relation "measure (\<lambda>(hex, n, bi, ni). n - ni)") auto

definition hexToCompactInPlace :: "bytes \<Rightarrow> (nat \<times> bytes) go" where
  "hexToCompactInPlace hex =
     (let isTerm = (length hex > 0 \<and> hex ! (length hex - 1) = 16);
          hexLen = (if isTerm then length hex - 1 else length hex);
          firstByte = (if isTerm then push_bit 5 1 else 0 :: u8);
          binLen = hexLen div 2 + 1;
          (firstByte, ni) = (if hexLen mod 2 = 1
                             then ((firstByte OR push_bit 4 1) OR hex ! 0, 1)
                             else (firstByte, 0))
      in go_bind (compactInPlace_loop hex hexLen 1 ni) (\<lambda>hex.
         go_bind (store_go hex 0 firstByte) (\<lambda>hex. Ret (binLen, hex))))"

definition compactToHex :: "bytes \<Rightarrow> bytes" where
  "compactToHex compact =
     (if length compact = 0 then compact
      else let base = keybytesToHex compact;
               base = (if base ! 0 < 2 then take (length base - 1) base else base);
               chop = 2 - (base ! 0 AND 1)
           in drop (unat chop) base)"

section \<open>Nibbles\<close>

text \<open>The bytes that pairs of nibbles spell.\<close>

fun pack :: "bytes \<Rightarrow> bytes" where
  "pack (a # b # r) = (push_bit 4 a OR b) # pack r"
| "pack _ = []"

definition nibbles :: "bytes \<Rightarrow> bool" where
  "nibbles xs = (\<forall>x\<in>set xs. x < 16)"

text \<open>Hex keys: nibbles with an optional terminator. Keys of entries of a trie have one.\<close>

definition hex_key :: "bytes \<Rightarrow> bool" where
  "hex_key xs = (nibbles xs \<or> xs \<noteq> [] \<and> nibbles (butlast xs) \<and> last xs = 16)"

lemma nibbles_simps [simp]:
  "nibbles []" "nibbles (x # xs) \<longleftrightarrow> x < 16 \<and> nibbles xs" "nibbles (xs @ ys) \<longleftrightarrow> nibbles xs \<and> nibbles ys"
  by (auto simp: nibbles_def)

lemma u8_less_16: "(x :: u8) < 16 \<longleftrightarrow> unat x < 16"
  by (simp add: word_less_nat_alt)

lemma nibble_or: "a < 16 \<Longrightarrow> b < 16 \<Longrightarrow> push_bit 4 a OR b = 16 * a + (b :: u8)"
proof -
  assume "a < 16" "b < 16"
  then have b: "take_bit 4 b = b"
    by (simp add: take_bit_eq_mod u8_less_16 word_arith_nat_mod)
  have "push_bit 4 a AND b = 0"
    by (subst b [symmetric]) (rule bit_eqI, auto simp: bit_simps)
  then have "push_bit 4 a OR b = push_bit 4 a + b"
    by (simp add: disjunctive_add bit_eq_iff bit_simps)
  then show ?thesis by (simp add: push_bit_eq_mult mult.commute)
qed

lemma unat_nibble_or: "a < 16 \<Longrightarrow> b < 16 \<Longrightarrow> unat (push_bit 4 a OR b :: u8) = 16 * unat a + unat b"
  by (simp add: nibble_or unat_word_ariths u8_less_16)

lemma nibble_div: "a < 16 \<Longrightarrow> b < 16 \<Longrightarrow> (push_bit 4 a OR b :: u8) div 16 = a"
  by (rule word_unat_eq_iff [THEN iffD2]) (simp add: unat_div unat_nibble_or u8_less_16)

lemma nibble_mod: "a < 16 \<Longrightarrow> b < 16 \<Longrightarrow> (push_bit 4 a OR b :: u8) mod 16 = b"
  by (rule word_unat_eq_iff [THEN iffD2]) (simp add: unat_mod unat_nibble_or u8_less_16)

lemma byte_nibbles: "(b div 16 :: u8) < 16" "(b mod 16 :: u8) < 16"
  by (simp_all add: u8_less_16 unat_div unat_mod less_mult_imp_div_less)

lemma nibbles_byte: "push_bit 4 (b div 16) OR b mod 16 = (b :: u8)"
  by (rule word_unat_eq_iff [THEN iffD2])
    (simp add: unat_nibble_or byte_nibbles unat_div unat_mod)

section \<open>The loops\<close>

declare decodeNibbles_loop.simps [simp del] compactInPlace_loop.simps [simp del]
  prefixLen_loop.simps [simp del]

lemma pack_append: "even (length xs) \<Longrightarrow> pack (xs @ ys) = pack xs @ pack ys"
  by (induction xs rule: pack.induct) auto

lemma length_pack: "length (pack xs) = length xs div 2"
  by (induction xs rule: pack.induct) auto

lemma pack_two: "pack (take 2 (drop n xs)) = [push_bit 4 (xs ! n) OR xs ! Suc n]"
  if "Suc n < length xs"
  using that by (simp add: Cons_nth_drop_Suc [symmetric] numeral_2_eq_2)

lemma pack_drop:
  "Suc n < length xs \<Longrightarrow> pack (drop n xs) = (push_bit 4 (xs ! n) OR xs ! Suc n) # pack (drop (n + 2) xs)"
  by (simp add: Cons_nth_drop_Suc [symmetric])

lemma decodeNibbles_loop_eq:
  assumes "even (length xs - ni)" "ni \<le> length xs" "length bs = bi + (length xs - ni) div 2"
  shows "decodeNibbles_loop xs bs bi ni = Ret (take bi bs @ pack (drop ni xs))"
  using assms
proof (induction xs bs bi ni rule: decodeNibbles_loop.induct)
  case (1 xs bs bi ni)
  show ?case
  proof (cases "ni < length xs")
    case True
    then have n: "Suc ni < length xs" using 1(2) by presburger
    then have bi: "bi < length bs" using 1(4) by simp
    from n have "decodeNibbles_loop xs (bs[bi := push_bit 4 (xs ! ni) OR xs ! (ni + 1)]) (bi + 1) (ni + 2)
      = Ret (take (bi + 1) (bs[bi := push_bit 4 (xs ! ni) OR xs ! (ni + 1)]) @ pack (drop (ni + 2) xs))"
      using 1(2-4) True bi by (intro 1(1)) (auto simp: go_simps)
    with n bi True show ?thesis
      by (subst decodeNibbles_loop.simps)
        (simp add: index_go_def store_go_def pack_drop take_Suc_conv_app_nth)
  qed (use 1 in \<open>subst decodeNibbles_loop.simps, auto\<close>)
qed

lemma decodeNibbles_eq:
  "even (length xs) \<Longrightarrow> length bs = length xs div 2 \<Longrightarrow> decodeNibbles xs bs = Ret (pack xs)"
  by (simp add: decodeNibbles_def decodeNibbles_loop_eq)

text \<open>The conversion in place reads ahead of what it writes.\<close>

lemma compactInPlace_loop_eq:
  assumes "even (n - ni)" "ni \<le> n" "n \<le> length hex" "bi \<le> Suc ni" "0 < bi" "ni = n \<or> bi < length hex"
  shows "\<exists>hex'. compactInPlace_loop hex n bi ni = Ret hex' \<and> length hex' = length hex
    \<and> take (bi + (n - ni) div 2) hex' = take bi hex @ pack (drop ni (take n hex))"
  using assms
proof (induction hex n bi ni rule: compactInPlace_loop.induct)
  case (1 hex n bi ni)
  show ?case
  proof (cases "ni < n")
    case True
    define b where "b = push_bit 4 (hex ! ni) OR hex ! (ni + 1)"
    have n: "Suc ni < n" using 1(2) True by presburger
    have bi: "bi < length hex" using 1(4,7) True by auto
    have "\<exists>hex'. compactInPlace_loop (hex[bi := b]) n (bi + 1) (ni + 2) = Ret hex'
      \<and> length hex' = length (hex[bi := b])
      \<and> take (bi + 1 + (n - (ni + 2)) div 2) hex' = take (bi + 1) (hex[bi := b]) @ pack (drop (ni + 2) (take n (hex[bi := b])))"
      using 1(2-) n bi True unfolding b_def by (intro 1(1)) (auto simp: go_simps)
    then obtain hex' where h: "compactInPlace_loop (hex[bi := b]) n (bi + 1) (ni + 2) = Ret hex'"
      "length hex' = length hex"
      "take (bi + 1 + (n - (ni + 2)) div 2) hex' = take (bi + 1) (hex[bi := b]) @ pack (drop (ni + 2) (take n (hex[bi := b])))"
      by auto
    have d: "drop (ni + 2) (take n (hex[bi := b])) = drop (ni + 2) (take n hex)"
      using 1(5) by (simp add: drop_take drop_update_cancel)
    have e: "bi + 1 + (n - (ni + 2)) div 2 = bi + (n - ni) div 2"
      using n 1(2) by presburger
    have "pack (drop ni (take n hex)) = b # pack (drop (ni + 2) (take n hex))"
      using n 1(4) by (subst pack_drop) (simp_all add: b_def)
    with h(3) bi have "take (bi + (n - ni) div 2) hex' = take bi hex @ pack (drop ni (take n hex))"
      unfolding e d by (simp add: take_Suc_conv_app_nth)
    moreover have "compactInPlace_loop hex n bi ni = Ret hex'"
      using h(1) bi n True 1(4)
      by (subst compactInPlace_loop.simps) (simp add: index_go_def store_go_def b_def)
    ultimately show ?thesis using h(2) by simp
  qed (use 1 in \<open>subst compactInPlace_loop.simps, auto\<close>)
qed

text \<open>\<^verbatim>\<open>prefixLen\<close> finds the longest common prefix.\<close>

lemma prefixLen_loop_spec:
  assumes "i \<le> n" "n \<le> length a" "n \<le> length b" "take i a = take i b"
  shows "prefixLen_loop a b n i \<le> n
    \<and> take (prefixLen_loop a b n i) a = take (prefixLen_loop a b n i) b
    \<and> (prefixLen_loop a b n i < n \<longrightarrow> a ! prefixLen_loop a b n i \<noteq> b ! prefixLen_loop a b n i)"
  using assms
proof (induction a b n i rule: prefixLen_loop.induct)
  case (1 a b n i)
  show ?case
  proof (cases "i < n \<and> a ! i = b ! i")
    case True
    then have "take (i + 1) a = take (i + 1) b"
      using 1(3-5) by (simp add: take_Suc_conv_app_nth)
    with True 1 show ?thesis
      by (subst (1 2 3 4 5 6) prefixLen_loop.simps) simp
  qed (use 1(2-) in \<open>subst (1 2 3 4 5 6) prefixLen_loop.simps, auto\<close>)
qed

lemma prefixLen_spec:
  "prefixLen a b \<le> length a" "prefixLen a b \<le> length b"
  "take (prefixLen a b) a = take (prefixLen a b) b"
  "prefixLen a b < length a \<Longrightarrow> prefixLen a b < length b \<Longrightarrow> a ! prefixLen a b \<noteq> b ! prefixLen a b"
  using prefixLen_loop_spec [of 0 "min (length a) (length b)" a b]
  by (auto simp: prefixLen_def min_def split: if_splits)

section \<open>Round trips\<close>

lemma hasTerm_nibbles [simp]: "nibbles xs \<Longrightarrow> \<not> hasTerm xs"
  by (cases xs rule: rev_cases) (auto simp: hasTerm_def)

lemma hasTerm_snoc [simp]: "hasTerm (xs @ [x]) \<longleftrightarrow> x = 16" "hasTerm (y # xs @ [x]) \<longleftrightarrow> x = 16"
  by (simp_all add: hasTerm_def nth_append)

abbreviation unpack :: "bytes \<Rightarrow> bytes" where
  "unpack str \<equiv> concat (map (\<lambda>b. [b div 16, b mod 16]) str)"

lemma length_unpack: "length (unpack str) = 2 * length str"
  by (induction str) simp_all

lemma pack_unpack: "pack (unpack str) = str"
  by (induction str) (simp_all add: nibbles_byte)

lemma nibbles_unpack: "nibbles (unpack str)"
  by (induction str) (simp_all add: byte_nibbles)

lemma unpack_pack: "nibbles xs \<Longrightarrow> even (length xs) \<Longrightarrow> unpack (pack xs) = xs"
  by (induction xs rule: pack.induct) (simp_all add: nibble_div nibble_mod)

lemma hex_key_cases:
  assumes "hex_key xs"
  obtains "nibbles xs" | ys where "xs = ys @ [16]" "nibbles ys"
  using assms by (metis append_butlast_last_id hex_key_def)

text \<open>The flag byte of a compact key: whether there is a terminator, whether the number of
  nibbles is odd, and the first nibble when it is.\<close>

definition compact :: "bool \<Rightarrow> bytes \<Rightarrow> bytes" where
  "compact t xs = (let f = (if t then 2 else 0 :: u8)
     in if odd (length xs) then pack ((f + 1) # xs) else pack (f # 0 # xs))"

lemma flag_byte:
  "push_bit 5 1 = push_bit 4 2 OR (0 :: u8)" "push_bit 5 0 = push_bit 4 0 OR (0 :: u8)"
  "(push_bit 5 1 OR push_bit 4 1) OR x = push_bit 4 3 OR (x :: u8)"
  "(push_bit 5 0 OR push_bit 4 1) OR x = push_bit 4 1 OR (x :: u8)"
  by simp_all

lemma hexToCompact_nibbles:
  assumes "nibbles xs"
  shows "hexToCompact (if t then xs @ [16] else xs) = Ret (compact t xs)"
proof (cases "odd (length xs)")
  case True
  then obtain y ys where xs: "xs = y # ys" by (cases xs) auto
  have "decodeNibbles ys (replicate (Suc (length ys) div 2) 0) = Ret (pack ys)"
    using True xs by (intro decodeNibbles_eq) auto
  moreover have "odd (length (y # ys))" using True xs by simp
  moreover from this have "Suc (length ys) mod 2 = 1"
    by (simp only: odd_iff_mod_2_eq_one length_Cons)
  ultimately show ?thesis
    using assms by (simp add: hexToCompact_def compact_def Let_def xs)
next
  case False
  then have "decodeNibbles xs (replicate (length xs div 2) 0) = Ret (pack xs)"
    by (intro decodeNibbles_eq) auto
  with assms False show ?thesis
    by (simp add: hexToCompact_def compact_def Let_def odd_iff_mod_2_eq_one)
qed

lemma keybytesToHex_compact:
  assumes "nibbles xs"
  shows "keybytesToHex (compact t xs) =
    (let f = (if t then 2 else 0) in if odd (length xs) then (f + 1) # xs else f # 0 # xs) @ [16]"
  using assms unpack_pack [of "((if t then 2 else 0) + 1) # xs"] unpack_pack [of "(if t then 2 else 0) # 0 # xs"]
  by (simp add: keybytesToHex_def compact_def Let_def)

lemma compactToHex_compact:
  "nibbles xs \<Longrightarrow> compactToHex (compact t xs) = (if t then xs @ [16] else xs)"
proof -
  assume xs: "nibbles xs"
  have "compact t xs \<noteq> []"
    by (cases xs) (auto simp: compact_def Let_def)
  with xs show ?thesis
    by (simp add: compactToHex_def keybytesToHex_compact Let_def)
qed

lemma length_compact: "length (compact t xs) = length xs div 2 + 1"
  by (auto simp: compact_def Let_def length_pack)

lemma compactInPlace_compact:
  assumes "nibbles xs" "t \<or> xs \<noteq> []"
  shows "\<exists>hex'. hexToCompactInPlace (if t then xs @ [16] else xs) = Ret (length (compact t xs), hex')
    \<and> take (length (compact t xs)) hex' = compact t xs"
proof -
  define hex where "hex = (if t then xs @ [16] else xs)"
  define ni where "ni = length xs mod 2"
  have len: "length xs \<le> length hex" "hex \<noteq> []" "take (length xs) hex = xs"
    using assms(2) by (auto simp: hex_def)
  have tm: "0 < length hex \<and> hex ! (length hex - 1) = 16 \<longleftrightarrow> t"
    using assms hasTerm_nibbles [of xs] by (auto simp: hex_def hasTerm_def)
  have last: "ni = length xs \<or> 1 < length hex"
    using len(1) by (cases "length xs < 2") (auto simp: ni_def)
  have n: "(if t then length hex - 1 else length hex) = length xs"
    by (simp add: hex_def)
  have "\<exists>hex'. compactInPlace_loop hex (length xs) 1 ni = Ret hex' \<and> length hex' = length hex
    \<and> take (1 + (length xs - ni) div 2) hex' = take 1 hex @ pack (drop ni (take (length xs) hex))"
    using len last by (intro compactInPlace_loop_eq) (simp_all add: ni_def minus_mod_eq_mult_div)
  then obtain hex' where h: "compactInPlace_loop hex (length xs) 1 ni = Ret hex'" "length hex' = length hex"
    "take (1 + (length xs - ni) div 2) hex' = take 1 hex @ pack (drop ni xs)"
    using len(3) by auto
  have e: "(length xs - ni) div 2 = length xs div 2"
    by (simp add: ni_def minus_mod_eq_mult_div)
  obtain x r where hx: "hex' = x # r" using h(2) len(2) by (cases hex') auto
  have tr: "take (length xs div 2) r = pack (drop ni xs)"
    using h(3) len(2) unfolding e hx by (cases hex) auto
  have "hexToCompactInPlace hex = Ret (length (compact t xs), hd (compact t xs) # r)"
  proof (cases "odd (length xs)")
    case True
    then obtain y ys where xs: "xs = y # ys" by (cases xs) auto
    then have y: "hex ! 0 = y" by (simp add: hex_def)
    have c: "hd (compact t xs) = (if t then 48 else 16) OR y"
      using True unfolding xs by (simp add: compact_def Let_def)
    show ?thesis
      using h(1) True unfolding hexToCompactInPlace_def tm n Let_def c
      by (cases t) (simp_all add: ni_def hx store_go_def length_compact odd_iff_mod_2_eq_one y)
  next
    case False
    then show ?thesis
      using h(1) unfolding hexToCompactInPlace_def tm n Let_def
      by (cases t) (simp_all add: ni_def hx store_go_def length_compact length_pack even_iff_mod_2_eq_zero compact_def)
  qed
  moreover have "compact t xs = hd (compact t xs) # pack (drop ni xs)"
    by (cases xs) (auto simp: compact_def Let_def ni_def odd_iff_mod_2_eq_one even_iff_mod_2_eq_zero)
  ultimately show ?thesis
    using tr unfolding hex_def [symmetric] by (metis length_compact take_Suc_Cons Suc_eq_plus1)
qed



end
