(* ===== verification/Trie_Ops.thy ===== *)
theory Trie_Ops
  imports Trie_Encoding
begin

text \<open>
  The Merkle Patricia trie of \<^verbatim>\<open>src/database/trie/trie.go\<close> and \<^verbatim>\<open>node.go\<close>: nodes, and lookup, insertion
  and deletion, which load nodes from the database on the way. The node database is a
  parameter: \<^verbatim>\<open>TrieDatabase.node\<close> returns a node, nil when it has none, or panics. The number of
  loads on a path is not bounded by the code (a node could refer to itself), so the recursive
  functions carry fuel. The tracer of a trie is always nil, its calls do nothing.
\<close>

section \<open>Nodes\<close>

record nodeFlag =
  fl_hash :: "bytes option"
  fl_dirty :: bool

text \<open>\<open>NilNode\<close> is the nil interface; the children of a full node are an array of 17 nodes.\<close>

datatype node =
    NilNode
  | ValueNode bytes
  | ShortNode bytes node nodeFlag
  | FullNode "node list" nodeFlag
  | HashNode bytes

record MissingNodeError =
  e_Owner :: hash
  e_NodeHash :: hash
  e_Path :: bytes

type_synonym node_db = "hash \<Rightarrow> node go"

type_synonym changed = "(bool \<times> node \<times> MissingNodeError option) go"

definition newFlag :: nodeFlag where
  "newFlag = \<lparr> fl_hash = None, fl_dirty = True \<rparr>"

definition resolveHash :: "node_db \<Rightarrow> hash \<Rightarrow> bytes \<Rightarrow> bytes \<Rightarrow> (MissingNodeError + node) go" where
  "resolveHash db owner n prefix =
     go_bind (db (BytesToHash n)) (\<lambda>nd.
       if nd \<noteq> NilNode then Ret (Inr nd)
       else Ret (Inl \<lparr> e_Owner = owner, e_NodeHash = BytesToHash n, e_Path = prefix \<rparr>))"

definition resolve :: "node_db \<Rightarrow> hash \<Rightarrow> node \<Rightarrow> bytes \<Rightarrow> (MissingNodeError + node) go" where
  "resolve db owner n prefix =
     (case n of HashNode h \<Rightarrow> resolveHash db owner h prefix | _ \<Rightarrow> Ret (Inr n))"

section \<open>Lookup\<close>

fun tryGet ::
  "node_db \<Rightarrow> hash \<Rightarrow> nat \<Rightarrow> node \<Rightarrow> bytes \<Rightarrow> nat
    \<Rightarrow> (bytes option \<times> node \<times> bool \<times> MissingNodeError option) go" where
  "tryGet db owner 0 n key pos = OutOfFuel"
| "tryGet db owner (Suc fuel) n key pos =
     (case n of
        NilNode \<Rightarrow> Ret (None, NilNode, False, None)
      | ValueNode v \<Rightarrow> Ret (Some v, n, False, None)
      | ShortNode k val fl \<Rightarrow>
          if length key < pos + length k \<or> k \<noteq> take (length k) (drop pos key)
          then Ret (None, n, False, None)
          else go_bind (tryGet db owner fuel val key (pos + length k)) (\<lambda>(v, nn, did, err).
               Ret (v, if err = None \<and> did then ShortNode k nn fl else n, did, err))
      | FullNode cs fl \<Rightarrow>
          go_bind (index_go key pos) (\<lambda>i.
          go_bind (index_go cs (unat i)) (\<lambda>c.
          go_bind (tryGet db owner fuel c key (pos + 1)) (\<lambda>(v, nn, did, err).
          Ret (v, if err = None \<and> did then FullNode (cs[unat i := nn]) fl else n, did, err))))
      | HashNode h \<Rightarrow>
          go_bind (resolveHash db owner h (take pos key)) (\<lambda>r. case r of
            Inl err \<Rightarrow> Ret (None, n, True, Some err)
          | Inr child \<Rightarrow>
              go_bind (tryGet db owner fuel child key pos) (\<lambda>(v, nn, _, err).
              Ret (v, nn, True, err))))"

section \<open>Insertion\<close>

text \<open>Storing into \<^verbatim>\<open>Children\<close> of a node that was copied, or just created.\<close>

definition set_child :: "node list \<Rightarrow> u8 \<Rightarrow> node \<Rightarrow> node list go" where
  "set_child cs i n = store_go cs (unat i) n"

fun insert_node :: "node_db \<Rightarrow> hash \<Rightarrow> nat \<Rightarrow> node \<Rightarrow> bytes \<Rightarrow> bytes \<Rightarrow> node \<Rightarrow> changed" where
  "insert_node db owner 0 n prefix key value = OutOfFuel"
| "insert_node db owner (Suc fuel) n prefix key value =
     (if length key = 0 then
        case n of
          ValueNode v \<Rightarrow> (case value of ValueNode w \<Rightarrow> Ret (v \<noteq> w, value, None) | _ \<Rightarrow> Panic RuntimeError)
        | _ \<Rightarrow> Ret (True, value, None)
      else case n of
        ShortNode k val fl \<Rightarrow>
          let matchlen = prefixLen key k
          in if matchlen = length k then
               go_bind (insert_node db owner fuel val (prefix @ take matchlen key) (drop matchlen key) value)
                 (\<lambda>(dirty, nn, err).
                   if \<not> dirty \<or> err \<noteq> None then Ret (False, n, err)
                   else Ret (True, ShortNode k nn newFlag, None))
             else
               go_bind (insert_node db owner fuel NilNode (prefix @ take (matchlen + 1) k)
                  (drop (matchlen + 1) k) val) (\<lambda>(_, old, err).
               go_bind (set_child (replicate 17 NilNode) (k ! matchlen) old) (\<lambda>branch.
               if err \<noteq> None then Ret (False, NilNode, err)
               else
               go_bind (index_go key matchlen) (\<lambda>i.
               go_bind (insert_node db owner fuel NilNode (prefix @ take (matchlen + 1) key)
                  (drop (matchlen + 1) key) value) (\<lambda>(_, new, err).
               go_bind (set_child branch i new) (\<lambda>branch.
               if err \<noteq> None then Ret (False, NilNode, err)
               else if matchlen = 0 then Ret (True, FullNode branch newFlag, None)
               else Ret (True, ShortNode (take matchlen key) (FullNode branch newFlag) newFlag, None))))))
      | FullNode cs fl \<Rightarrow>
          go_bind (index_go cs (unat (key ! 0))) (\<lambda>c.
          go_bind (insert_node db owner fuel c (prefix @ [key ! 0]) (drop 1 key) value)
            (\<lambda>(dirty, nn, err).
              if \<not> dirty \<or> err \<noteq> None then Ret (False, n, err)
              else go_bind (set_child cs (key ! 0) nn) (\<lambda>cs. Ret (True, FullNode cs newFlag, None))))
      | NilNode \<Rightarrow> Ret (True, ShortNode key value newFlag, None)
      | HashNode h \<Rightarrow>
          go_bind (resolveHash db owner h prefix) (\<lambda>r. case r of
            Inl err \<Rightarrow> Ret (False, NilNode, Some err)
          | Inr rn \<Rightarrow>
              go_bind (insert_node db owner fuel rn prefix key value) (\<lambda>(dirty, nn, err).
                if \<not> dirty \<or> err \<noteq> None then Ret (False, rn, err) else Ret (True, nn, None)))
      | ValueNode v \<Rightarrow> Panic (PanicMsg ''invalid node''))"

section \<open>Deletion\<close>

text \<open>The loop over the children of a full node: the index of the only one left, or a negative
  number.\<close>

primrec single_child :: "node list \<Rightarrow> int \<Rightarrow> int \<Rightarrow> int" where
  "single_child [] i pos = pos"
| "single_child (cld # cs) i pos =
     (if cld \<noteq> NilNode then if pos = - 1 then single_child cs (i + 1) i else - 2
      else single_child cs (i + 1) pos)"

definition concat_keys :: "bytes \<Rightarrow> bytes \<Rightarrow> bytes" where
  "concat_keys s1 s2 = s1 @ s2"

text \<open>What becomes of a full node one of whose children was removed.\<close>

definition reduce_full :: "node_db \<Rightarrow> hash \<Rightarrow> node list \<Rightarrow> bytes \<Rightarrow> changed" where
  "reduce_full db owner cs prefix =
     (let pos = single_child cs 0 (- 1); at = cs ! nat pos;
          plain = ShortNode [word_of_int pos] at newFlag
      in if pos \<ge> 0 then
           if pos \<noteq> 16 then
             go_bind (resolve db owner at prefix) (\<lambda>r. case r of
               Inl err \<Rightarrow> Ret (False, NilNode, Some err)
             | Inr cnode \<Rightarrow>
                 (case cnode of
                    ShortNode k val fl \<Rightarrow> Ret (True, ShortNode ([word_of_int pos] @ k) val newFlag, None)
                  | _ \<Rightarrow> Ret (True, plain, None)))
           else Ret (True, plain, None)
         else Ret (True, FullNode cs newFlag, None))"

fun delete_node :: "node_db \<Rightarrow> hash \<Rightarrow> nat \<Rightarrow> node \<Rightarrow> bytes \<Rightarrow> bytes \<Rightarrow> changed" where
  "delete_node db owner 0 n prefix key = OutOfFuel"
| "delete_node db owner (Suc fuel) n prefix key =
     (case n of
        ShortNode k val fl \<Rightarrow>
          let matchlen = prefixLen key k
          in if matchlen < length k then Ret (False, n, None)
             else if matchlen = length key then Ret (True, NilNode, None)
             else go_bind (delete_node db owner fuel val (prefix @ take (length k) key) (drop (length k) key))
               (\<lambda>(dirty, child, err).
                 if \<not> dirty \<or> err \<noteq> None then Ret (False, n, err)
                 else (case child of
                     ShortNode ck cval cfl \<Rightarrow> Ret (True, ShortNode (concat_keys k ck) cval newFlag, None)
                   | _ \<Rightarrow> Ret (True, ShortNode k child newFlag, None)))
      | FullNode cs fl \<Rightarrow>
          go_bind (index_go key 0) (\<lambda>i.
          go_bind (index_go cs (unat i)) (\<lambda>c.
          go_bind (delete_node db owner fuel c (prefix @ [i]) (drop 1 key)) (\<lambda>(dirty, nn, err).
            if \<not> dirty \<or> err \<noteq> None then Ret (False, n, err)
            else go_bind (set_child cs i nn) (\<lambda>cs.
                 if nn \<noteq> NilNode then Ret (True, FullNode cs newFlag, None)
                 else reduce_full db owner cs prefix))))
      | ValueNode v \<Rightarrow> Ret (True, NilNode, None)
      | NilNode \<Rightarrow> Ret (False, NilNode, None)
      | HashNode h \<Rightarrow>
          go_bind (resolveHash db owner h prefix) (\<lambda>r. case r of
            Inl err \<Rightarrow> Ret (False, NilNode, Some err)
          | Inr rn \<Rightarrow>
              go_bind (delete_node db owner fuel rn prefix key) (\<lambda>(dirty, nn, err).
                if \<not> dirty \<or> err \<noteq> None then Ret (False, rn, err) else Ret (True, nn, None))))"

section \<open>Tries\<close>

record Trie =
  t_root :: node
  t_owner :: hash
  t_unhashed :: u64

definition emptyRootHash :: hash where
  "emptyRootHash = 0x56e81f171bcc55a6ff8345e692c0f86e5b48e01b996cadc001622fb5e363b421"

definition newTrie :: "node_db \<Rightarrow> hash \<Rightarrow> hash \<Rightarrow> (MissingNodeError + Trie) go" where
  "newTrie db owner root =
     (let trie = \<lparr> t_root = NilNode, t_owner = owner, t_unhashed = 0 \<rparr>
      in if root \<noteq> 0 \<and> root \<noteq> emptyRootHash then
           go_bind (resolveHash db owner (hash_bytes root) []) (\<lambda>r. case r of
             Inl err \<Rightarrow> Ret (Inl err)
           | Inr rootnode \<Rightarrow> Ret (Inr (trie \<lparr> t_root := rootnode \<rparr>)))
         else Ret (Inr trie))"

text \<open>Each operation returns its results and the trie it leaves.\<close>

definition TryGet ::
  "node_db \<Rightarrow> nat \<Rightarrow> Trie \<Rightarrow> bytes \<Rightarrow> (bytes option \<times> MissingNodeError option \<times> Trie) go" where
  "TryGet db fuel t key =
     go_bind (tryGet db (t_owner t) fuel (t_root t) (keybytesToHex key) 0) (\<lambda>(v, newroot, did, err).
       Ret (v, err, if err = None \<and> did then t \<lparr> t_root := newroot \<rparr> else t))"

definition TryDelete :: "node_db \<Rightarrow> nat \<Rightarrow> Trie \<Rightarrow> bytes \<Rightarrow> (MissingNodeError option \<times> Trie) go" where
  "TryDelete db fuel t0 key =
     (let t = t0 \<lparr> t_unhashed := t_unhashed t0 + 1 \<rparr>; k = keybytesToHex key
      in go_bind (delete_node db (t_owner t) fuel (t_root t) [] k) (\<lambda>(_, n, err).
           if err \<noteq> None then Ret (err, t) else Ret (None, t \<lparr> t_root := n \<rparr>)))"

definition TryUpdate ::
  "node_db \<Rightarrow> nat \<Rightarrow> Trie \<Rightarrow> bytes \<Rightarrow> bytes \<Rightarrow> (MissingNodeError option \<times> Trie) go" where
  "TryUpdate db fuel t0 key value =
     (let t = t0 \<lparr> t_unhashed := t_unhashed t0 + 1 \<rparr>; k = keybytesToHex key
      in go_bind
           (if length value \<noteq> 0
            then insert_node db (t_owner t) fuel (t_root t) [] k (ValueNode value)
            else delete_node db (t_owner t) fuel (t_root t) [] k) (\<lambda>(_, n, err).
           if err \<noteq> None then Ret (err, t) else Ret (None, t \<lparr> t_root := n \<rparr>)))"

text \<open>\<^verbatim>\<open>Get\<close>, \<^verbatim>\<open>Update\<close> and \<^verbatim>\<open>Delete\<close> log the error and drop it.\<close>

definition trie_Get :: "node_db \<Rightarrow> nat \<Rightarrow> Trie \<Rightarrow> bytes \<Rightarrow> (bytes option \<times> Trie) go" where
  "trie_Get db fuel t key = go_map (\<lambda>(res, _, t). (res, t)) (TryGet db fuel t key)"

definition trie_Update :: "node_db \<Rightarrow> nat \<Rightarrow> Trie \<Rightarrow> bytes \<Rightarrow> bytes \<Rightarrow> Trie go" where
  "trie_Update db fuel t key value = go_map snd (TryUpdate db fuel t key value)"

definition trie_Delete :: "node_db \<Rightarrow> nat \<Rightarrow> Trie \<Rightarrow> bytes \<Rightarrow> Trie go" where
  "trie_Delete db fuel t key = go_map snd (TryDelete db fuel t key)"

definition trie_Reset :: "Trie \<Rightarrow> Trie" where
  "trie_Reset t = t \<lparr> t_root := NilNode, t_owner := 0, t_unhashed := 0 \<rparr>"

end
