(* ===== verification/Trie_Tree.thy ===== *)
theory Trie_Tree
  imports Trie_Encoding
begin

text \<open>
  What a trie stands for: a tree without flags and without unloaded parts, and the finite map
  from hex keys to values it spells. The well-formed trees are the minimal ones (no empty
  extension, no extension of an extension, at least two entries in a branch); a map has only
  one of them.
\<close>

datatype tree = Empty | Value bytes | Ext bytes tree | Branch "tree list"

function t_get :: "tree \<Rightarrow> bytes \<Rightarrow> bytes option" where
  "t_get Empty k = None"
| "t_get (Value v) k = (if k = [] then Some v else None)"
| "t_get (Ext p t) k = (if take (length p) k = p then t_get t (drop (length p) k) else None)"
| "t_get (Branch cs) [] = None"
| "t_get (Branch cs) (i # k) = (if unat i < length cs then t_get (cs ! unat i) k else None)"
  by pat_completeness auto
termination
  by (relation "measure (\<lambda>(t, k). size t)") (auto simp: size_list_estimation' [OF nth_mem] le_imp_less_Suc)

text \<open>The keys of entries: nibbles and the terminator.\<close>

definition entry_key :: "bytes \<Rightarrow> bool" where
  "entry_key k = (k \<noteq> [] \<and> nibbles (butlast k) \<and> last k = 16)"

definition wf_value :: "tree \<Rightarrow> bool" where
  "wf_value t = (case t of Empty \<Rightarrow> True | Value v \<Rightarrow> v \<noteq> [] | _ \<Rightarrow> False)"

definition entries :: "tree list \<Rightarrow> nat" where
  "entries cs = length (filter (\<lambda>t. t \<noteq> Empty) cs)"

inductive wf_tree :: "tree \<Rightarrow> bool" where
  wf_Empty: "wf_tree Empty"
| wf_Leaf: "nibbles p \<Longrightarrow> v \<noteq> [] \<Longrightarrow> wf_tree (Ext (p @ [16]) (Value v))"
| wf_Ext: "nibbles p \<Longrightarrow> p \<noteq> [] \<Longrightarrow> wf_tree (Branch cs) \<Longrightarrow> wf_tree (Ext p (Branch cs))"
| wf_Branch: "length cs = 17 \<Longrightarrow> (\<forall>i<16. wf_tree (cs ! i)) \<Longrightarrow> wf_value (cs ! 16) \<Longrightarrow> 2 \<le> entries cs
    \<Longrightarrow> wf_tree (Branch cs)"

inductive_cases wf_ValueE [elim!]: "wf_tree (Value v)"
inductive_cases wf_ExtE: "wf_tree (Ext p t)"
inductive_cases wf_BranchE: "wf_tree (Branch cs)"

lemma wf_Branch_iff:
  "wf_tree (Branch cs) \<longleftrightarrow>
     length cs = 17 \<and> (\<forall>i<16. wf_tree (cs ! i)) \<and> wf_value (cs ! 16) \<and> 2 \<le> entries cs"
  by (auto intro: wf_Branch elim: wf_BranchE)

section \<open>Keys\<close>

lemma entry_key_Cons: "entry_key (i # k) \<longleftrightarrow> (if k = [] then i = 16 else i < 16 \<and> entry_key k)"
  by (auto simp: entry_key_def)

lemma entry_key_Nil [simp]: "\<not> entry_key []"
  by (simp add: entry_key_def)

lemma entry_key_append: "k \<noteq> [] \<Longrightarrow> entry_key (p @ k) \<longleftrightarrow> nibbles p \<and> entry_key k"
  by (auto simp: entry_key_def butlast_append)

lemma entry_key_snoc [simp]: "entry_key (p @ [16]) \<longleftrightarrow> nibbles p"
  by (simp add: entry_key_def)

lemma entry_key_nibbles: "nibbles p \<Longrightarrow> \<not> entry_key p"
  by (cases p rule: rev_cases) (auto simp: entry_key_def)

lemma entry_key_after: "entry_key (p @ k) \<Longrightarrow> nibbles p \<Longrightarrow> entry_key k"
  by (cases "k = []") (simp_all add: entry_key_append entry_key_nibbles)

lemma entry_key_end: "entry_key (p @ 16 # k) \<Longrightarrow> k = []"
  by (rule ccontr) (auto simp: entry_key_append entry_key_Cons split: if_splits)

lemma entry_key_Cons_le: "entry_key (i # k) \<Longrightarrow> unat i < 17"
  by (auto simp: entry_key_Cons u8_less_16 split: if_splits)

lemma entry_key_keybytes: "entry_key (keybytesToHex key)"
  by (simp add: keybytesToHex_def nibbles_unpack)

lemma keybytesToHex_inj: "keybytesToHex a = keybytesToHex b \<longleftrightarrow> a = b"
proof
  assume "keybytesToHex a = keybytesToHex b"
  then have "pack (unpack a) = pack (unpack b)" by (simp only: keybytesToHex_def append_same_eq)
  then show "a = b" by (simp only: pack_unpack)
qed simp

section \<open>Entries of branches\<close>

lemma entries_Cons: "entries (t # cs) = (if t \<noteq> Empty then Suc (entries cs) else entries cs)"
  by (simp add: entries_def)

lemma entries_update:
  "i < length cs \<Longrightarrow>
    entries (cs[i := t]) + (if cs ! i \<noteq> Empty then 1 else 0) = entries cs + (if t \<noteq> Empty then 1 else 0)"
proof (induction cs arbitrary: i)
  case (Cons c cs)
  show ?case
  proof (cases i)
    case (Suc j)
    then have "entries (cs[j := t]) + (if cs ! j \<noteq> Empty then 1 else 0) = entries cs + (if t \<noteq> Empty then 1 else 0)"
      using Cons by simp
    with Suc show ?thesis by (cases "t = Empty") (simp_all add: entries_Cons)
  qed (simp add: entries_Cons)
qed simp

lemma entries_pos: "i < length cs \<Longrightarrow> cs ! i \<noteq> Empty \<Longrightarrow> 0 < entries cs"
  by (auto simp: entries_def filter_empty_conv)

lemma entries_two:
  assumes "2 \<le> entries cs"
  obtains i j where "i < j" "j < length cs" "cs ! i \<noteq> Empty" "cs ! j \<noteq> Empty"
  using assms
proof (induction cs arbitrary: thesis)
  case (Cons c cs)
  show ?case
  proof (cases "c \<noteq> Empty \<and> entries cs < 2")
    case True
    with Cons(3) have "0 < entries cs" by (auto simp: entries_Cons split: if_splits)
    then obtain j where "j < length cs" "cs ! j \<noteq> Empty"
      by (auto simp: entries_def filter_empty_conv in_set_conv_nth)
    with True show ?thesis by (intro Cons(2) [of 0 "Suc j"]) auto
  next
    case False
    with Cons(3) have "2 \<le> entries cs" by (auto simp: entries_Cons split: if_splits)
    then obtain i j where "i < j" "j < length cs" "cs ! i \<noteq> Empty" "cs ! j \<noteq> Empty"
      using Cons(1) by blast
    then show ?thesis by (intro Cons(2) [of "Suc i" "Suc j"]) auto
  qed
qed (simp add: entries_def)

lemma two_entries:
  assumes "i < j" "j < length cs" "cs ! i \<noteq> Empty" "cs ! j \<noteq> Empty"
  shows "2 \<le> entries cs"
proof -
  have "entries (cs[i := Empty]) > 0"
    using assms by (intro entries_pos [of j]) auto
  with entries_update [of i cs Empty] assms show ?thesis by simp
qed

section \<open>A map has one minimal tree\<close>

lemma t_get_Ext_append [simp]: "t_get (Ext p t) (p @ k) = t_get t k"
  by simp

lemma t_get_ExtD: "t_get (Ext p t) k \<noteq> None \<Longrightarrow> \<exists>k'. k = p @ k' \<and> t_get t k' \<noteq> None"
  by (metis append_take_drop_id t_get.simps(3))

lemma t_get_child:
  "length cs = 17 \<Longrightarrow> i < 17 \<Longrightarrow> t_get (Branch cs) (word_of_nat i # k) = t_get (cs ! i) k"
  by (simp add: unat_of_nat)

lemma wf_value_cases:
  assumes "wf_value t"
  obtains "t = Empty" | v where "t = Value v" "v \<noteq> []"
  using assms by (cases t) (auto simp: wf_value_def)

lemma wf_tree_has_key: "wf_tree t \<Longrightarrow> t \<noteq> Empty \<Longrightarrow> \<exists>k. t_get t k \<noteq> None"
proof (induction rule: wf_tree.induct)
  case (wf_Leaf p v)
  have "t_get (Ext (p @ [16]) (Value v)) ((p @ [16]) @ []) = Some v"
    by (simp only: t_get_Ext_append) simp
  then show ?case by (metis option.discI)
next
  case (wf_Ext p cs)
  then show ?case by (metis t_get_Ext_append tree.distinct(5))
next
  case (wf_Branch cs)
  obtain i where i: "i < 17" "cs ! i \<noteq> Empty"
    using entries_two [OF wf_Branch.hyps(3)] wf_Branch.hyps(1) by metis
  have "\<exists>k. t_get (cs ! i) k \<noteq> None"
  proof (cases "i < 16")
    case False
    then have "i = 16" using i by simp
    with i wf_Branch.hyps(2) have "t_get (cs ! i) [] \<noteq> None" by (auto elim: wf_value_cases)
    then show ?thesis by blast
  qed (use i wf_Branch.IH in blast)
  then show ?case by (metis i(1) t_get_child wf_Branch.hyps(1))
qed simp

lemma Branch_child_key:
  assumes "wf_tree (Branch cs)" "i < 17" "cs ! i \<noteq> Empty"
  shows "\<exists>k. t_get (Branch cs) (word_of_nat i # k) \<noteq> None"
proof -
  have "\<exists>k. t_get (cs ! i) k \<noteq> None"
  proof (cases "i = 16")
    case True
    then have "t_get (cs ! i) [] \<noteq> None"
      using assms by (auto simp: wf_Branch_iff elim: wf_value_cases)
    then show ?thesis by blast
  next
    case False
    then show ?thesis using assms by (intro wf_tree_has_key) (auto simp: wf_Branch_iff)
  qed
  then show ?thesis using assms by (metis t_get_child wf_Branch_iff)
qed

text \<open>The map of a branch splits at its first nibble; that of an extension of a branch at the end
  of the extension, and nowhere else.\<close>

definition splits_at :: "(bytes \<Rightarrow> bytes option) \<Rightarrow> bytes \<Rightarrow> bool" where
  "splits_at f p \<longleftrightarrow> (\<forall>k. f k \<noteq> None \<longrightarrow> (\<exists>k'. k = p @ k'))
     \<and> (\<exists>i j k l. i \<noteq> j \<and> f (p @ i # k) \<noteq> None \<and> f (p @ j # l) \<noteq> None)"

lemma splits_at_le:
  assumes "splits_at f p" "splits_at f q"
  shows "length q \<le> length p"
proof (rule ccontr)
  assume "\<not> length q \<le> length p"
  then have l: "length p < length q" by simp
  obtain i j k m where ij: "i \<noteq> j" "f (p @ i # k) \<noteq> None" "f (p @ j # m) \<noteq> None"
    using assms(1) unfolding splits_at_def by blast
  then obtain a b where "p @ i # k = q @ a" "p @ j # m = q @ b"
    using assms(2) unfolding splits_at_def by meson
  then have "i = q ! length p" "j = q ! length p"
    using l by (metis nth_append nth_append_length)+
  with ij(1) show False by simp
qed

lemma splits_at_unique:
  assumes "splits_at f p" "splits_at f q"
  shows "p = q"
proof -
  have l: "length p = length q"
    using splits_at_le assms by (meson order_antisym)
  obtain k where k: "f k \<noteq> None" using assms(1) unfolding splits_at_def by blast
  then obtain a b where "k = p @ a" "k = q @ b"
    using assms unfolding splits_at_def by meson
  with l show ?thesis by auto
qed

lemma Branch_splits: "wf_tree (Branch cs) \<Longrightarrow> splits_at (t_get (Branch cs)) []"
proof -
  assume wf: "wf_tree (Branch cs)"
  then obtain i j where ij: "i < j" "j < 17" "cs ! i \<noteq> Empty" "cs ! j \<noteq> Empty"
    by (metis entries_two wf_Branch_iff)
  then obtain k l where "t_get (Branch cs) (word_of_nat i # k) \<noteq> None" "t_get (Branch cs) (word_of_nat j # l) \<noteq> None"
    using Branch_child_key [OF wf] by (meson order.strict_trans)
  moreover have "(word_of_nat i :: u8) \<noteq> word_of_nat j"
  proof
    assume "(word_of_nat i :: u8) = word_of_nat j"
    then have "unat (word_of_nat i :: u8) = unat (word_of_nat j :: u8)" by simp
    with ij show False by (simp add: unat_of_nat)
  qed
  ultimately show ?thesis unfolding splits_at_def by (metis append_Nil)
qed

lemma Ext_splits: "splits_at (t_get t) q \<Longrightarrow> splits_at (t_get (Ext p t)) (p @ q)"
  unfolding splits_at_def by (metis append.assoc t_get_ExtD t_get_Ext_append)

lemma Leaf_splits: "\<not> splits_at (t_get (Ext p (Value v))) q"
  unfolding splits_at_def by (auto split: if_splits)

lemma t_get_inject_Branch:
  assumes "length cs = 17" "length ds = 17" "t_get (Branch cs) = t_get (Branch ds)" "i < 17"
  shows "t_get (cs ! i) = t_get (ds ! i)"
  using assms by (metis ext t_get_child)

lemma wf_value_unique: "wf_value t \<Longrightarrow> wf_value u \<Longrightarrow> t_get t = t_get u \<Longrightarrow> t = u"
  by (drule fun_cong [of _ _ "[]"]) (auto elim!: wf_value_cases)

lemma wf_tree_unique:
  assumes "wf_tree t" "wf_tree u" "t_get t = t_get u"
  shows "t = u"
  using assms
proof (induction arbitrary: u rule: wf_tree.induct)
  case wf_Empty
  then show ?case using wf_tree_has_key [of u] by (metis t_get.simps(1))
next
  case (wf_Leaf p v)
  let ?k = "(p @ [16]) @ []"
  have v: "t_get u ?k = Some v"
    by (subst wf_Leaf.prems(2) [symmetric], subst t_get_Ext_append) simp
  have n: "\<not> splits_at (t_get u) q" for q
    unfolding wf_Leaf.prems(2) [symmetric] by (rule Leaf_splits)
  from wf_Leaf.prems(1) show ?case
  proof (cases rule: wf_tree.cases)
    case (wf_Leaf q w)
    with v show ?thesis by (auto split: if_splits)
  next
    case wf_Empty
    with v show ?thesis by simp
  next
    case (wf_Ext q ds)
    with n Ext_splits [OF Branch_splits] show ?thesis by blast
  next
    case (wf_Branch ds)
    then have "wf_tree (Branch ds)" using wf_Leaf.prems(1) by simp
    with n Branch_splits wf_Branch(1) show ?thesis by blast
  qed
next
  case (wf_Ext p cs)
  have s: "splits_at (t_get u) p"
    using Ext_splits [OF Branch_splits [OF wf_Ext.hyps(3)], of p] wf_Ext.prems(2) by simp
  from wf_Ext.prems(1) s show ?case
  proof (cases rule: wf_tree.cases)
    case wf_Empty
    with s show ?thesis by (simp add: splits_at_def)
  next
    case (wf_Leaf q w)
    with s show ?thesis by (simp add: Leaf_splits)
  next
    case u: (wf_Ext q ds)
    have "q = p"
      using splits_at_unique s Ext_splits [OF Branch_splits [OF u(4)], of q] u(1) by fastforce
    moreover from this have "t_get (Branch cs) = t_get (Branch ds)"
      using wf_Ext.prems(2) u(1) by (metis t_get_Ext_append ext)
    ultimately show ?thesis using wf_Ext.IH [OF u(4)] u(1) by simp
  next
    case (wf_Branch ds)
    then have "p = []" using splits_at_unique s Branch_splits wf_Ext.prems(1) by metis
    with wf_Ext.hyps(2) show ?thesis by simp
  qed
next
  case (wf_Branch cs)
  have "wf_tree (Branch cs)" using wf_Branch by (intro wf_tree.wf_Branch) auto
  then have s: "splits_at (t_get u) []"
    using Branch_splits wf_Branch.prems(2) by metis
  from wf_Branch.prems(1) s show ?case
  proof (cases rule: wf_tree.cases)
    case wf_Empty
    with s show ?thesis by (simp add: splits_at_def)
  next
    case (wf_Leaf q w)
    with s show ?thesis by (simp add: Leaf_splits)
  next
    case (wf_Ext q ds)
    then have "q = []"
      using splits_at_unique [OF s] Ext_splits [OF Branch_splits] by fastforce
    with wf_Ext(3) show ?thesis by simp
  next
    case u: (wf_Branch ds)
    have g: "t_get (cs ! i) = t_get (ds ! i)" if "i < 17" for i
      using t_get_inject_Branch wf_Branch.hyps(1) wf_Branch.prems(2) u that by blast
    have "cs ! i = ds ! i" if "i < 17" for i
    proof (cases "i = 16")
      case True
      then show ?thesis using wf_value_unique g [of 16] wf_Branch.hyps(2) u(4) by simp
    next
      case False
      then have "i < 16" using that by simp
      then show ?thesis using wf_Branch.IH u(3) g that by simp
    qed
    then show ?thesis using wf_Branch.hyps(1) u by (simp add: nth_equalityI)
  qed
qed

section \<open>Changes of trees\<close>

text \<open>An extension by no nibbles is no extension.\<close>

definition ext_by :: "bytes \<Rightarrow> tree \<Rightarrow> tree" where
  "ext_by p t = (if p = [] then t else Ext p t)"

lemma get_Ext_Nil: "t_get (Ext [] t) = t_get t"
  by auto

lemma get_ext_by: "t_get (ext_by p t) = t_get (Ext p t)"
  by (auto simp: ext_by_def)

lemma get_Ext_Ext: "t_get (Ext (p @ q) t) = t_get (Ext p (Ext q t))"
proof
  fix k
  show "t_get (Ext (p @ q) t) k = t_get (Ext p (Ext q t)) k"
    by (auto simp: take_add add.commute) (metis append_eq_conv_conj take_add append_take_drop_id length_take min.absorb2 nat_le_linear take_all)+
qed

lemma get_Ext_upd:
  assumes "t_get t' = (t_get t)(k := w)"
  shows "t_get (Ext p t') = (t_get (Ext p t))(p @ k := w)"
proof
  fix x
  show "t_get (Ext p t') x = ((t_get (Ext p t))(p @ k := w)) x"
    using assms by (auto) (metis append_eq_conv_conj)+
qed

lemma get_Branch_upd:
  assumes "unat i < length cs" "t_get t' = (t_get (cs ! unat i))(k := w)"
  shows "t_get (Branch (cs[unat i := t'])) = (t_get (Branch cs))(i # k := w)"
proof
  fix x
  show "t_get (Branch (cs[unat i := t'])) x = ((t_get (Branch cs))(i # k := w)) x"
  proof (cases x)
    case (Cons j y)
    then show ?thesis
      using assms by (cases "j = i") (auto simp: nth_list_update word_unat_eq_iff)
  qed simp
qed

lemma get_single:
  assumes "unat i < length cs" "\<And>j. j < length cs \<Longrightarrow> j \<noteq> unat i \<Longrightarrow> cs ! j = Empty"
  shows "t_get (Branch cs) = t_get (Ext [i] (cs ! unat i))"
proof
  fix x
  show "t_get (Branch cs) x = t_get (Ext [i] (cs ! unat i)) x"
  proof (cases x)
    case (Cons j y)
    then show ?thesis
      using assms by (cases "j = i") (auto simp: word_unat_eq_iff)
  qed simp
qed

lemma get_leaf: "t_get (Ext k (Value v)) = Map.empty(k \<mapsto> v)"
proof
  fix x
  show "t_get (Ext k (Value v)) x = (Map.empty(k \<mapsto> v)) x"
    by auto
qed

lemma get_Empty: "t_get Empty = Map.empty" and get_Value: "t_get (Value v) = [[] \<mapsto> v]"
  by auto

section \<open>Parts of minimal trees\<close>

definition child_ok :: "u8 \<Rightarrow> tree \<Rightarrow> bool" where
  "child_ok i t \<longleftrightarrow> (if i = 16 then wf_value t else i < 16 \<and> wf_tree t)"

definition wf_children :: "tree list \<Rightarrow> bool" where
  "wf_children cs \<longleftrightarrow> length cs = 17 \<and> (\<forall>i<16. wf_tree (cs ! i)) \<and> wf_value (cs ! 16)"

lemma wf_Branch_children: "wf_tree (Branch cs) \<longleftrightarrow> wf_children cs \<and> 2 \<le> entries cs"
  by (auto simp: wf_Branch_iff wf_children_def)

lemma wf_children_nth: "wf_children cs \<Longrightarrow> unat i < 17 \<Longrightarrow> child_ok i (cs ! unat i)"
  by (cases "unat i = 16") (auto simp: wf_children_def child_ok_def u8_less_16 word_unat_eq_iff)

lemma wf_children_upd:
  assumes "wf_children cs" "child_ok i t"
  shows "wf_children (cs[unat i := t])"
proof (cases "i = 16")
  case False
  then have "unat i < 16" using assms(2) by (simp add: child_ok_def u8_less_16)
  with False assms show ?thesis
    by (auto simp: wf_children_def child_ok_def nth_list_update)
qed (use assms in \<open>auto simp: wf_children_def child_ok_def\<close>)

lemma wf_children_Empty: "wf_children (replicate 17 Empty)"
  by (auto simp: wf_children_def wf_value_def intro: wf_Empty)

lemma entries_replicate [simp]: "entries (replicate n Empty) = 0"
  by (simp add: entries_def)

lemma child_ok_less: "child_ok i t \<Longrightarrow> unat i < 17"
  by (auto simp: child_ok_def u8_less_16 split: if_splits)

lemma wf_two:
  assumes "i \<noteq> j" "child_ok i s" "s \<noteq> Empty" "child_ok j t" "t \<noteq> Empty"
  shows "wf_tree (Branch ((replicate 17 Empty)[unat i := s, unat j := t]))"
proof -
  have "unat i \<noteq> unat j" using assms(1) by (simp add: word_unat_eq_iff)
  then have "2 \<le> entries ((replicate 17 Empty)[unat i := s, unat j := t])"
    using child_ok_less [OF assms(2)] child_ok_less [OF assms(4)] assms(3,5)
      entries_update [of "unat j" "(replicate 17 Empty)[unat i := s]" t]
      entries_update [of "unat i" "replicate 17 Empty" s]
    by simp
  then show ?thesis
    using assms by (simp add: wf_Branch_children wf_children_upd wf_children_Empty)
qed

lemma wf_ext_by_Branch: "nibbles p \<Longrightarrow> wf_tree (Branch cs) \<Longrightarrow> wf_tree (ext_by p (Branch cs))"
  by (simp add: ext_by_def wf_Ext)

lemma wf_Ext_butlast: "wf_tree (Ext k t) \<Longrightarrow> k \<noteq> [] \<and> nibbles (butlast k)"
  by (erule wf_ExtE) (auto simp: nibbles_def dest: in_set_butlastD)

text \<open>What is left of an extension after one of its nibbles.\<close>

lemma wf_Ext_suffix:
  assumes "wf_tree (Ext (p @ i # q) t)"
  shows "nibbles p \<and> child_ok i (ext_by q t) \<and> ext_by q t \<noteq> Empty"
  using assms
proof (cases rule: wf_tree.cases)
  case (wf_Leaf r v)
  show ?thesis
  proof (cases q rule: rev_cases)
    case Nil
    with wf_Leaf show ?thesis by (simp add: child_ok_def ext_by_def wf_value_def)
  next
    case (snoc q' x)
    with wf_Leaf(1) have "(p @ i # q') @ [x] = r @ [16]" by simp
    then have "r = p @ i # q'" "x = 16" by blast+
    with wf_Leaf snoc show ?thesis by (auto simp: child_ok_def ext_by_def intro: wf_tree.wf_Leaf)
  qed
next
  case (wf_Ext cs)
  then show ?thesis by (auto simp: child_ok_def ext_by_def intro: wf_tree.wf_Ext)
qed

lemma wf_Ext_append:
  assumes "wf_tree (Ext q t)" "nibbles p"
  shows "wf_tree (Ext (p @ q) t)"
  using assms(1)
proof (cases rule: wf_tree.cases)
  case (wf_Leaf r v)
  with assms(2) wf_tree.wf_Leaf [of "p @ r" v] show ?thesis by simp
next
  case (wf_Ext cs)
  with assms(2) show ?thesis by (auto intro: wf_tree.wf_Ext)
qed

end
