(* ===== verification/Trie_Correct.thy ===== *)
theory Trie_Correct
  imports Trie_Ops Trie_Tree
begin

text \<open>
  The operations of the trie implement a finite map. \<open>loads ok full b n t\<close> says that the node \<open>n\<close>, with
  its unloaded parts looked up in \<open>full\<close>, is the tree \<open>t\<close>, and that the hashes in it, whether they
  stand for an unloaded part or are cached in a node, are right for their part in the sense of
  \<open>ok\<close>; \<open>b\<close> tells whether \<open>n\<close> is the root. The database \<open>db\<close> an operation works with
  may lack nodes of \<open>full\<close>; the operation then reports a node that is missing, and the trie
  stays what it was. Otherwise the operation has the effect on the map it is meant to have, and
  the tree stays minimal.
\<close>

section \<open>Nodes and trees\<close>

text \<open>The nodes of a database know their hash.\<close>

definition stored :: "node \<Rightarrow> bool" where
  "stored n = (case n of ShortNode _ _ fl \<Rightarrow> fl_hash fl \<noteq> None | FullNode _ fl \<Rightarrow> fl_hash fl \<noteq> None | _ \<Rightarrow> False)"

definition has_hash :: "node \<Rightarrow> bool" where
  "has_hash n = (case n of ShortNode _ _ fl \<Rightarrow> fl_hash fl \<noteq> None | FullNode _ fl \<Rightarrow> fl_hash fl \<noteq> None | _ \<Rightarrow> True)"

lemma has_hash_simps [simp]:
  "has_hash NilNode" "has_hash (ValueNode v)" "has_hash (HashNode h)"
  "has_hash (ShortNode k c fl) \<longleftrightarrow> fl_hash fl \<noteq> None" "has_hash (FullNode cs fl) \<longleftrightarrow> fl_hash fl \<noteq> None"
  "stored n \<Longrightarrow> has_hash n"
  by (auto simp: has_hash_def stored_def split: node.splits)

text \<open>\<open>ok b t h d\<close>: the cached hash \<open>h\<close>, if there is one, is right for the tree \<open>t\<close>, at the root if \<open>b\<close>, in
  a node that is dirty if \<open>d\<close>. The children of a node with a cached hash have one, too, or are of
  the kind that need none.\<close>

type_synonym hash_ok = "bool \<Rightarrow> tree \<Rightarrow> bytes option \<Rightarrow> bool \<Rightarrow> bool"

definition flag_ok :: "hash_ok \<Rightarrow> bool \<Rightarrow> tree \<Rightarrow> nodeFlag \<Rightarrow> bool" where
  "flag_ok ok b t fl \<longleftrightarrow> fl_hash fl = None \<and> fl_dirty fl \<or> ok b t (fl_hash fl) (fl_dirty fl)"

definition link_ok :: "hash_ok \<Rightarrow> nodeFlag \<Rightarrow> node \<Rightarrow> tree \<Rightarrow> bool" where
  "link_ok ok fl n t \<longleftrightarrow> fl_hash fl = None \<or> has_hash n \<or> ok False t None False"

lemma flag_ok_new [simp]: "flag_ok ok b t newFlag" "link_ok ok newFlag n t" "link_ok ok newFlag = (\<lambda>n t. True)"
  by (simp_all add: flag_ok_def link_ok_def newFlag_def fun_eq_iff)

lemma list_all2_True [simp]: "list_all2 (\<lambda>x y. True) xs ys \<longleftrightarrow> length xs = length ys"
  by (simp add: list_all2_conv_all_nth)

inductive loads :: "hash_ok \<Rightarrow> node_db \<Rightarrow> bool \<Rightarrow> node \<Rightarrow> tree \<Rightarrow> bool" for ok full where
  loads_Nil: "loads ok full b NilNode Empty"
| loads_Value: "loads ok full b (ValueNode v) (Value v)"
| loads_Short: "loads ok full False n t \<Longrightarrow> flag_ok ok b (Ext k t) fl \<Longrightarrow> link_ok ok fl n t
    \<Longrightarrow> loads ok full b (ShortNode k n fl) (Ext k t)"
| loads_Full: "list_all2 (loads ok full False) cs ts \<Longrightarrow> flag_ok ok b (Branch ts) fl \<Longrightarrow> list_all2 (link_ok ok fl) cs ts
    \<Longrightarrow> loads ok full b (FullNode cs fl) (Branch ts)"
| loads_Hash: "ok b t (Some h) False \<Longrightarrow> full (BytesToHash h) = Ret n \<Longrightarrow> stored n \<Longrightarrow> loads ok full b n t
    \<Longrightarrow> loads ok full b (HashNode h) t"

inductive_simps loads_simps [simp]:
  "loads ok full b NilNode t" "loads ok full b (ValueNode v) t" "loads ok full b (ShortNode k n fl) t"
  "loads ok full b (FullNode cs fl) t"

inductive_cases loads_HashE: "loads ok full b (HashNode h) t"

definition part_of :: "node_db \<Rightarrow> node_db \<Rightarrow> bool" where
  "part_of db full = (\<forall>h. db h = full h \<or> db h = Ret NilNode)"

definition missing :: "node_db \<Rightarrow> node_db \<Rightarrow> MissingNodeError \<Rightarrow> bool" where
  "missing db full e = (db (e_NodeHash e) = Ret NilNode \<and> full (e_NodeHash e) \<noteq> Ret NilNode)"

definition is_hash :: "node \<Rightarrow> bool" where
  "is_hash n = (case n of HashNode _ \<Rightarrow> True | _ \<Rightarrow> False)"

lemma is_hash_simps [simp]:
  "\<not> is_hash NilNode" "\<not> is_hash (ValueNode v)" "\<not> is_hash (ShortNode k c fl)" "\<not> is_hash (FullNode cs fl)"
  "is_hash (HashNode h)"
  by (simp_all add: is_hash_def)

lemma is_hashE: "is_hash n \<Longrightarrow> (\<And>h. n = HashNode h \<Longrightarrow> P) \<Longrightarrow> P"
  by (cases n) auto

lemma stored_simps [simp]: "stored n \<Longrightarrow> n \<noteq> NilNode" "stored n \<Longrightarrow> \<not> is_hash n" "\<not> stored (ValueNode v)"
  by (auto simp: stored_def is_hash_def split: node.splits)

lemma loads_Empty: "loads ok full b n Empty \<longleftrightarrow> n = NilNode"
  by (cases n) (auto elim!: loads_HashE simp: stored_def split: node.splits)

lemma loads_ValueD: "loads ok full b n (Value v) \<longleftrightarrow> n = ValueNode v"
  by (cases n) (auto elim!: loads_HashE simp: stored_def split: node.splits)

lemma loads_nil_iff: "loads ok full b n t \<Longrightarrow> n = NilNode \<longleftrightarrow> t = Empty"
  by (metis loads_Empty loads_simps(1))

lemma loads_ExtD: "loads ok full b n (Ext k t) \<Longrightarrow> \<not> is_hash n \<Longrightarrow> \<exists>c fl. n = ShortNode k c fl \<and> loads ok full False c t
    \<and> flag_ok ok b (Ext k t) fl \<and> link_ok ok fl c t"
  by (cases n) auto

lemma loads_BranchD:
  "loads ok full b n (Branch ts) \<Longrightarrow> \<not> is_hash n \<Longrightarrow> \<exists>cs fl. n = FullNode cs fl \<and> list_all2 (loads ok full False) cs ts
    \<and> flag_ok ok b (Branch ts) fl \<and> list_all2 (link_ok ok fl) cs ts"
  by (cases n) auto

lemma resolveHash_spec:
  assumes "part_of db full" "loads ok full b (HashNode h) t"
  shows "(\<exists>e. resolveHash db ow h pre = Ret (Inl e) \<and> missing db full e)
    \<or> (\<exists>n. resolveHash db ow h pre = Ret (Inr n) \<and> loads ok full b n t \<and> stored n)"
proof -
  obtain n where n: "full (BytesToHash h) = Ret n" "stored n" "loads ok full b n t"
    using assms(2) by (auto elim: loads_HashE)
  from assms(1) consider "db (BytesToHash h) = Ret NilNode" | "db (BytesToHash h) = Ret n"
    unfolding part_of_def by (metis n(1))
  then show ?thesis
    using n by cases (auto simp: resolveHash_def missing_def)
qed

text \<open>The fuel that is enough for a key: two calls for each nibble, since between two nodes that
  use up a nibble there is at most one that is not loaded.\<close>

definition enough :: "nat \<Rightarrow> node \<Rightarrow> nat \<Rightarrow> bool" where
  "enough fuel n l \<longleftrightarrow> 2 * l + (if is_hash n then 2 else 1) \<le> fuel"

lemma enough_step: "enough fuel n l \<Longrightarrow> l' < l \<Longrightarrow> \<exists>f. fuel = Suc f \<and> enough f n' l'"
  by (cases fuel) (auto simp: enough_def split: if_splits)

lemma enough_load: "enough fuel (HashNode h) l \<Longrightarrow> \<not> is_hash n \<Longrightarrow> \<exists>f. fuel = Suc f \<and> enough f n l"
  by (cases fuel) (auto simp: enough_def)

lemma enough_Suc: "enough fuel n l \<Longrightarrow> \<exists>f. fuel = Suc f"
  by (cases fuel) (auto simp: enough_def split: if_splits)

section \<open>Lookup\<close>

definition get_post ::
  "hash_ok \<Rightarrow> node_db \<Rightarrow> node_db \<Rightarrow> bool \<Rightarrow> node \<Rightarrow> tree \<Rightarrow> bytes
    \<Rightarrow> bytes option \<times> node \<times> bool \<times> MissingNodeError option \<Rightarrow> bool" where
  "get_post ok db full b n t k = (\<lambda>(v, nn, did, err). case err of
      Some e \<Rightarrow> missing db full e
    | None \<Rightarrow> v = t_get t k \<and> loads ok full b nn t \<and> (has_hash n \<longrightarrow> has_hash nn))"

lemma tryGet_hash:
  assumes "part_of db full" "loads ok full b n t" "enough fuel n l"
    and core: "\<And>f n. \<not> is_hash n \<Longrightarrow> loads ok full b n t \<Longrightarrow> enough f n l
      \<Longrightarrow> go_spec {} (get_post ok db full b n t (drop pos key)) (tryGet db ow f n key pos)"
  shows "go_spec {} (get_post ok db full b n t (drop pos key)) (tryGet db ow fuel n key pos)"
proof (cases "is_hash n")
  case True
  then obtain h where h: "n = HashNode h" by (rule is_hashE)
  from resolveHash_spec [OF assms(1) assms(2) [unfolded h], of ow "take pos key"] show ?thesis
  proof
    assume "\<exists>e. resolveHash db ow h (take pos key) = Ret (Inl e) \<and> missing db full e"
    then show ?thesis
      using enough_Suc [OF assms(3)] by (auto simp: h get_post_def)
  next
    assume "\<exists>n. resolveHash db ow h (take pos key) = Ret (Inr n) \<and> loads ok full b n t \<and> stored n"
    then obtain c where c: "resolveHash db ow h (take pos key) = Ret (Inr c)" "loads ok full b c t" "\<not> is_hash c" "has_hash c"
      by auto
    then obtain f where f: "fuel = Suc f" "enough f c l"
      using enough_load assms(3) h by blast
    from core [OF c(3,2) f(2)] show ?thesis
      by (auto simp: h f c(1,4) get_post_def elim!: go_spec_mono split: option.splits)
  qed
qed (use core assms in blast)

lemma tryGet_short:
  assumes n: "loads ok full b (ShortNode p c fl) (Ext p t)" and p: "p \<noteq> []" and pos: "pos < length key"
    and en: "enough fuel (ShortNode p c fl) (length key - pos)"
    and IH: "\<And>f. drop pos key = p @ drop (pos + length p) key \<Longrightarrow> enough f c (length key - (pos + length p))
      \<Longrightarrow> go_spec {} (get_post ok db full False c t (drop (pos + length p) key)) (tryGet db ow f c key (pos + length p))"
  shows "go_spec {} (get_post ok db full b (ShortNode p c fl) (Ext p t) (drop pos key)) (tryGet db ow fuel (ShortNode p c fl) key pos)"
proof -
  have "length key - (pos + length p) < length key - pos"
    using p pos by (intro diff_less_mono2) auto
  then obtain f where f: "fuel = Suc f" "enough f c (length key - (pos + length p))"
    using enough_step [OF en] by blast
  show ?thesis
  proof (cases "length key < pos + length p \<or> p \<noteq> take (length p) (drop pos key)")
    case True
    then have "t_get (Ext p t) (drop pos key) = None" using p pos by auto
    with True n show ?thesis by (simp add: f get_post_def del: t_get.simps)
  next
    case False
    then have d: "drop pos key = p @ drop (pos + length p) key"
      by (metis add.commute append_take_drop_id drop_drop)
    then have "t_get (Ext p t) (drop pos key) = t_get t (drop (pos + length p) key)"
      by (metis t_get_Ext_append)
    with IH [OF d f(2)] False n show ?thesis
      by (auto simp: f get_post_def link_ok_def simp del: t_get.simps elim!: go_spec_mono split: option.splits)
  qed
qed

lemma list_all2_loads_update:
  "list_all2 (loads ok full False) cs ts \<Longrightarrow> loads ok full False n t \<Longrightarrow> list_all2 (loads ok full False) (cs[i := n]) (ts[i := t])"
  by (rule list_all2_update_cong)

lemma tryGet_full:
  assumes n: "list_all2 (loads ok full False) cs ts" and fl: "flag_ok ok b (Branch ts) fl" "list_all2 (link_ok ok fl) cs ts"
    and key: "pos < length key" "unat (key ! pos) < length ts"
    and en: "enough fuel (FullNode cs fl) (length key - pos)"
    and IH: "\<And>f. enough f (cs ! unat (key ! pos)) (length key - (pos + 1))
      \<Longrightarrow> go_spec {} (get_post ok db full False (cs ! unat (key ! pos)) (ts ! unat (key ! pos)) (drop (pos + 1) key)) (tryGet db ow f (cs ! unat (key ! pos)) key (pos + 1))"
  shows "go_spec {} (get_post ok db full b (FullNode cs fl) (Branch ts) (drop pos key)) (tryGet db ow fuel (FullNode cs fl) key pos)"
proof -
  let ?i = "unat (key ! pos)"
  have "length key - (pos + 1) < length key - pos"
    using key by (intro diff_less_mono2) auto
  then obtain f where f: "fuel = Suc f" "enough f (cs ! ?i) (length key - (pos + 1))"
    using enough_step [OF en] by blast
  have d: "drop pos key = key ! pos # drop (pos + 1) key"
    using key by (simp add: Cons_nth_drop_Suc)
  have l: "length cs = length ts" using n by (rule list_all2_lengthD)
  have u: "list_all2 (loads ok full False) (cs[?i := c]) ts" if "loads ok full False c (ts ! ?i)" for c
    using list_all2_loads_update [OF n that, of ?i] by simp
  have k: "list_all2 (link_ok ok fl) (cs[?i := c]) ts" if "has_hash (cs ! ?i) \<longrightarrow> has_hash c" for c
  proof -
    have "link_ok ok fl (cs ! ?i) (ts ! ?i)" using fl(2) key(2) l by (simp add: list_all2_conv_all_nth)
    then have "link_ok ok fl c (ts ! ?i)" using that by (auto simp: link_ok_def)
    from list_all2_update_cong [OF fl(2) this, of ?i] show ?thesis by simp
  qed
  from IH [OF f(2)] show ?thesis
    unfolding d using key l n u fl k
    by (auto simp: f(1) get_post_def elim!: go_spec_mono split: option.splits)
qed

lemma tryGet_value:
  assumes "wf_value t" "loads ok full b n t" "enough fuel n l"
  shows "go_spec {} (get_post ok db full b n t []) (tryGet db ow fuel n key pos)"
  using assms(1)
proof (cases rule: wf_value_cases)
  case 1
  with assms(2) enough_Suc [OF assms(3)] show ?thesis by (auto simp: loads_Empty get_post_def)
next
  case (2 v)
  with assms(2) enough_Suc [OF assms(3)] show ?thesis by (auto simp: loads_ValueD get_post_def)
qed

lemma tryGet_spec:
  assumes "part_of db full" "wf_tree t" "loads ok full b n t" "entry_key (drop pos key)"
    "enough fuel n (length key - pos)"
  shows "go_spec {} (get_post ok db full b n t (drop pos key)) (tryGet db ow fuel n key pos)"
  using assms(2-)
proof (induction arbitrary: n b pos fuel rule: wf_tree.induct)
  case wf_Empty
  with enough_Suc [OF wf_Empty(3)] show ?case by (auto simp: loads_Empty get_post_def)
next
  case (wf_Leaf p v)
  have pos: "pos < length key" using wf_Leaf.prems(2) by (cases "pos < length key") auto
  show ?case
  proof (rule tryGet_hash [OF assms(1) wf_Leaf.prems(1,3)])
    fix f m assume m: "\<not> is_hash m" "loads ok full b m (Ext (p @ [16]) (Value v))" "enough f m (length key - pos)"
    then obtain c fl where c: "m = ShortNode (p @ [16]) c fl" "loads ok full False c (Value v)"
      using loads_ExtD by blast
    show "go_spec {} (get_post ok db full b m (Ext (p @ [16]) (Value v)) (drop pos key)) (tryGet db ow f m key pos)"
      unfolding c(1)
    proof (rule tryGet_short)
      fix f assume d: "drop pos key = (p @ [16]) @ drop (pos + length (p @ [16])) key"
        and en: "enough f c (length key - (pos + length (p @ [16])))"
      have "drop (pos + length (p @ [16])) key = []"
        using entry_key_end [of p "drop (pos + length (p @ [16])) key"] wf_Leaf.prems(2) d by simp
      then show "go_spec {} (get_post ok db full False c (Value v) (drop (pos + length (p @ [16])) key))
          (tryGet db ow f c key (pos + length (p @ [16])))"
        using tryGet_value [OF _ c(2) en] wf_Leaf.hyps(2) by (simp add: wf_value_def)
    qed (use m c pos in auto)
  qed
next
  case (wf_Ext p cs)
  have pos: "pos < length key" using wf_Ext.prems(2) by (cases "pos < length key") auto
  show ?case
  proof (rule tryGet_hash [OF assms(1) wf_Ext.prems(1,3)])
    fix f m assume m: "\<not> is_hash m" "loads ok full b m (Ext p (Branch cs))" "enough f m (length key - pos)"
    then obtain c fl where c: "m = ShortNode p c fl" "loads ok full False c (Branch cs)"
      using loads_ExtD by blast
    show "go_spec {} (get_post ok db full b m (Ext p (Branch cs)) (drop pos key)) (tryGet db ow f m key pos)"
      unfolding c(1)
    proof (rule tryGet_short)
      fix f assume d: "drop pos key = p @ drop (pos + length p) key"
        and en: "enough f c (length key - (pos + length p))"
      have "entry_key (drop (pos + length p) key)"
        using wf_Ext.prems(2) wf_Ext.hyps(1) d entry_key_after by metis
      then show "go_spec {} (get_post ok db full False c (Branch cs) (drop (pos + length p) key))
          (tryGet db ow f c key (pos + length p))"
        using wf_Ext.IH c(2) en by blast
    qed (use m c pos wf_Ext.hyps in auto)
  qed
next
  case (wf_Branch ts)
  have pos: "pos < length key" using wf_Branch.prems(2) by (cases "pos < length key") auto
  then have d: "drop pos key = key ! pos # drop (pos + 1) key"
    by (simp add: Cons_nth_drop_Suc)
  let ?i = "unat (key ! pos)"
  have i: "?i < 17" using wf_Branch.prems(2) entry_key_Cons_le unfolding d by blast
  show ?case
  proof (rule tryGet_hash [OF assms(1) wf_Branch.prems(1,3)])
    fix f m assume m: "\<not> is_hash m" "loads ok full b m (Branch ts)" "enough f m (length key - pos)"
    then obtain cs fl where c: "m = FullNode cs fl" "list_all2 (loads ok full False) cs ts" "flag_ok ok b (Branch ts) fl"
      "list_all2 (link_ok ok fl) cs ts"
      using loads_BranchD by blast
    have l: "loads ok full False (cs ! ?i) (ts ! ?i)"
      using c(2) i wf_Branch.hyps(1) by (metis list_all2_conv_all_nth)
    show "go_spec {} (get_post ok db full b m (Branch ts) (drop pos key)) (tryGet db ow f m key pos)"
      unfolding c(1)
    proof (rule tryGet_full [OF c(2-4) pos])
      fix f assume en: "enough f (cs ! ?i) (length key - (pos + 1))"
      show "go_spec {} (get_post ok db full False (cs ! ?i) (ts ! ?i) (drop (pos + 1) key)) (tryGet db ow f (cs ! ?i) key (pos + 1))"
      proof (cases "drop (pos + 1) key = []")
        case True
        then have "?i = 16" using wf_Branch.prems(2) unfolding d by (simp add: entry_key_Cons)
        with True l en wf_Branch.hyps(2) show ?thesis by (metis tryGet_value)
      next
        case False
        then have "?i < 16" "entry_key (drop (pos + 1) key)"
          using wf_Branch.prems(2) unfolding d by (simp_all add: entry_key_Cons u8_less_16)
        with l en wf_Branch.IH show ?thesis by blast
      qed
    qed (use m c i wf_Branch.hyps in auto)
  qed
qed

end
