(* ===== verification/Trie_Update.thy ===== *)
theory Trie_Update
  imports Trie_Correct
begin

text \<open>
  Insertion into and deletion from a trie, as updates of the map the trie stands for.
\<close>

section \<open>Changes\<close>

text \<open>The outcome of a change of the tree \<open>t\<close> into one with the map \<open>f\<close> and the property \<open>S\<close>.\<close>

definition change_post ::
  "hash_ok \<Rightarrow> node_db \<Rightarrow> node_db \<Rightarrow> bool \<Rightarrow> (tree \<Rightarrow> bool) \<Rightarrow> tree \<Rightarrow> (bytes \<Rightarrow> bytes option)
    \<Rightarrow> bool \<times> node \<times> MissingNodeError option \<Rightarrow> bool" where
  "change_post ok db full b S t f = (\<lambda>(dirty, nn, err). case err of
      Some e \<Rightarrow> missing db full e
    | None \<Rightarrow> \<exists>t'. loads ok full b nn t' \<and> S t' \<and> t_get t' = f \<and> (if dirty then \<not> is_hash nn else t' = t))"

lemma change_Ret:
  "loads ok full b nn t' \<Longrightarrow> \<not> is_hash nn \<Longrightarrow> S t' \<Longrightarrow> t_get t' = f
    \<Longrightarrow> go_spec {} (change_post ok db full b S t f) (Ret (True, nn, None))"
  by (auto simp: change_post_def)

lemma change_same:
  "loads ok full b n t \<Longrightarrow> S t \<Longrightarrow> t_get t = f \<Longrightarrow> go_spec {} (change_post ok db full b S t f) (Ret (False, n, None))"
  by (auto simp: change_post_def)

text \<open>How every caller treats the outcome of a change of a part: an error or an unchanged part
  leave the node as it was.\<close>

lemma change_lift:
  assumes m: "go_spec {} (change_post ok db full a S t f) m" and n: "loads ok full b n T"
    and same: "S t \<Longrightarrow> t_get t = f \<Longrightarrow> S' T \<and> t_get T = F"
    and K: "\<And>nn t'. loads ok full a nn t' \<Longrightarrow> \<not> is_hash nn \<Longrightarrow> S t' \<Longrightarrow> t_get t' = f \<Longrightarrow> go_spec {} (change_post ok db full b S' T F) (K nn)"
  shows "go_spec {} (change_post ok db full b S' T F)
    (go_bind m (\<lambda>(dirty, nn, err). if \<not> dirty \<or> err \<noteq> None then Ret (False, n, err) else K nn))"
proof -
  have "go_spec {} (change_post ok db full b S' T F)
      (if \<not> dirty \<or> err \<noteq> None then Ret (False, n, err) else K nn)"
    if p: "change_post ok db full a S t f (dirty, nn, err)" for dirty nn err
  proof (cases err)
    case (Some e)
    with p show ?thesis by (simp add: change_post_def)
  next
    case None
    with p obtain t' where "loads ok full a nn t'" "S t'" "t_get t' = f" "if dirty then \<not> is_hash nn else t' = t"
      by (auto simp: change_post_def)
    with None same n K show ?thesis
      by (cases dirty) (auto simp: change_post_def)
  qed
  with m show ?thesis by (auto elim!: go_spec_mono)
qed

lemma change_hash:
  assumes "part_of db full" "loads ok full b (HashNode h) t" "enough fuel (HashNode h) l"
    and core: "\<And>f n. \<not> is_hash n \<Longrightarrow> loads ok full b n t \<Longrightarrow> enough f n l \<Longrightarrow> go_spec {} (change_post ok db full b S t F) (op f n)"
  shows "\<exists>f. fuel = Suc f \<and> go_spec {} (change_post ok db full b S t F)
    (go_bind (resolveHash db ow h pre) (\<lambda>r. case r of
        Inl err \<Rightarrow> Ret (False, NilNode, Some err)
      | Inr rn \<Rightarrow> go_bind (op f rn) (\<lambda>(dirty, nn, err).
          if \<not> dirty \<or> err \<noteq> None then Ret (False, rn, err) else Ret (True, nn, None))))"
  using resolveHash_spec [OF assms(1,2), of ow pre]
proof
  assume "\<exists>e. resolveHash db ow h pre = Ret (Inl e) \<and> missing db full e"
  then show ?thesis
    using enough_Suc [OF assms(3)] by (auto simp: change_post_def)
next
  assume "\<exists>n. resolveHash db ow h pre = Ret (Inr n) \<and> loads ok full b n t \<and> stored n"
  then obtain n where n: "resolveHash db ow h pre = Ret (Inr n)" "loads ok full b n t" "\<not> is_hash n"
    by auto
  then obtain f where f: "fuel = Suc f" "enough f n l"
    using enough_load assms(3) by blast
  have "go_spec {} (change_post ok db full b S t F) (go_bind (op f n) (\<lambda>(dirty, nn, err).
          if \<not> dirty \<or> err \<noteq> None then Ret (False, n, err) else Ret (True, nn, None)))"
    by (rule change_lift [OF core [OF n(3,2) f(2)] n(2)]) (auto simp: change_post_def)
  with f n(1) show ?thesis by simp
qed

section \<open>Insertion\<close>

definition is_branch :: "tree \<Rightarrow> bool" where
  "is_branch t = (case t of Branch _ \<Rightarrow> True | _ \<Rightarrow> False)"

lemma is_branch_simps [simp]:
  "\<not> is_branch Empty" "\<not> is_branch (Value v)" "\<not> is_branch (Ext p t)" "is_branch (Branch cs)"
  by (simp_all add: is_branch_def)

definition inserted :: "tree \<Rightarrow> tree \<Rightarrow> bool" where
  "inserted t t' \<longleftrightarrow> wf_tree t' \<and> t' \<noteq> Empty \<and> (is_branch t \<longrightarrow> is_branch t')"

definition ext_node :: "bytes \<Rightarrow> node \<Rightarrow> node" where
  "ext_node p n = (if p = [] then n else ShortNode p n newFlag)"

lemma loads_ext_node: "loads ok full False n t \<Longrightarrow> loads ok full b n t \<Longrightarrow> loads ok full b (ext_node p n) (ext_by p t)"
  by (simp add: ext_node_def ext_by_def)

lemma insert_nil: "insert_node db ow (Suc f) NilNode pre k val = Ret (True, ext_node k val, None)"
  by (simp add: ext_node_def)

lemma insert_value:
  assumes "wf_value t" "loads ok full b n t" "enough fuel n l"
  shows "go_spec {} (change_post ok db full b (\<lambda>t'. t' = Value v) t ((t_get t)([] \<mapsto> v)))
    (insert_node db ow fuel n pre [] (ValueNode v))"
  using assms(1)
proof (cases rule: wf_value_cases)
  case 1
  with assms(2) enough_Suc [OF assms(3)] show ?thesis
    by (auto simp: loads_Empty change_post_def get_Empty get_Value)
next
  case (2 w)
  with assms(2) enough_Suc [OF assms(3)] show ?thesis
    by (auto simp: loads_ValueD change_post_def get_Value intro!: exI [of _ "Value v"])
qed

text \<open>Two keys that differ: where they part, and that neither ends there.\<close>

lemma keys_part:
  assumes "prefixLen key k \<noteq> length k" "entry_key key" "nibbles (butlast k)"
  obtains p i q j r where "k = p @ i # q" "key = p @ j # r" "i \<noteq> j" "length p = prefixLen key k"
proof -
  define m where "m = prefixLen key k"
  have m: "m < length k" "m \<le> length key" "take m key = take m k"
    using assms(1) prefixLen_spec [of key k] by (simp_all add: m_def)
  have "m \<noteq> length key"
  proof
    assume "m = length key"
    then have "key = take m (butlast k)" using m by (simp add: take_butlast)
    then have "nibbles key" using assms(3) by (metis nibbles_def in_set_takeD)
    with assms(2) show False by (simp add: entry_key_nibbles)
  qed
  then have "m < length key" using m by simp
  moreover have "key ! m \<noteq> k ! m"
    using prefixLen_spec(4) [of key k] m calculation by (simp add: m_def)
  ultimately show thesis
    using m id_take_nth_drop [of m k] id_take_nth_drop [of m key]
    by (intro that [of "take m k" "k ! m" "drop (Suc m) k" "key ! m" "drop (Suc m) key"]) (simp_all add: m_def)
qed

lemma loads_replicate: "list_all2 (loads ok full False) (replicate n NilNode) (replicate n Empty)"
  by (simp add: list_all2_conv_all_nth)

lemma insert_branch_out:
  assumes wf: "wf_tree (Ext k t)" and n: "loads ok full False c t" and key: "entry_key key" and v: "v \<noteq> []"
    and part: "prefixLen key k \<noteq> length k"
  shows "go_spec {} (change_post ok db full b (inserted (Ext k t)) (Ext k t) ((t_get (Ext k t))(key \<mapsto> v)))
    (insert_node db ow (Suc (Suc f)) (ShortNode k c fl) pre key (ValueNode v))"
proof -
  obtain p i q j r where k: "k = p @ i # q" "key = p @ j # r" "i \<noteq> j" "length p = prefixLen key k"
    using keys_part [OF part key] wf_Ext_butlast [OF wf] by metis
  let ?old = "ext_by q t" and ?new = "ext_by r (Value v)"
  let ?ts = "(replicate 17 Empty)[unat i := ?old, unat j := ?new]"
  let ?cs = "(replicate 17 NilNode)[unat i := ext_node q c, unat j := ext_node r (ValueNode v)]"
  have "wf_tree (Ext key (Value v))"
    using key v by (metis append_butlast_last_id entry_key_def wf_Leaf)
  then have ok: "nibbles p" "child_ok i ?old" "?old \<noteq> Empty" "child_ok j ?new" "?new \<noteq> Empty"
    using wf_Ext_suffix wf k by metis+
  then have ij: "unat i < 17" "unat j < 17" using child_ok_less by blast+
  have "wf_tree (Branch ?ts)" using wf_two k(3) ok by blast
  then have ins: "inserted (Ext k t) (ext_by p (Branch ?ts))"
    using wf_ext_by_Branch ok(1) by (simp add: inserted_def ext_by_def)
  have ld: "loads ok full b (ext_node p (FullNode ?cs newFlag)) (ext_by p (Branch ?ts))"
    by (intro loads_ext_node) (simp_all add: list_all2_loads_update loads_replicate loads_ext_node n)
  have one: "t_get (Branch ((replicate 17 Empty)[unat i := ?old])) = t_get (Ext [i] (Ext q t))"
    using ij by (subst get_single [of i]) (auto simp: nth_list_update fun_eq_iff get_ext_by)
  have "t_get (Branch ?ts) = (t_get (Ext (i # q) t))(j # r \<mapsto> v)"
    using k(3) ij one get_Ext_Ext [of "[i]" q t]
    by (subst get_Branch_upd [where k = r and w = "Some v"])
      (auto simp: get_ext_by get_leaf get_Empty word_unat_eq_iff nth_list_update)
  then have "t_get (ext_by p (Branch ?ts)) = (t_get (Ext k t))(key \<mapsto> v)"
    unfolding k(1,2) get_ext_by get_Ext_Ext [of p] by (rule get_Ext_upd)
  moreover have "insert_node db ow (Suc (Suc f)) (ShortNode k c fl) pre key (ValueNode v)
      = Ret (True, ext_node p (FullNode ?cs newFlag), None)"
  proof -
    have m: "prefixLen key k = length p" "length p \<noteq> length k" "length key \<noteq> 0"
      "key ! length p = j" "k ! length p = i" "drop (length p + 1) k = q" "drop (length p + 1) key = r"
      "take (length p) key = p" "length p < length key"
      using k(4) [symmetric] by (simp_all add: k(1,2) nth_append)
    show ?thesis
      unfolding insert_node.simps(2) [of _ _ "Suc f"] node.case Let_def m(1) if_not_P [OF m(2)]
        if_not_P [OF m(3)] insert_nil m(4-8) go_bind.simps(1) prod.case
      using ij m(4,9) by (simp add: set_child_def store_go_def index_go_def insert_nil ext_node_def del: insert_node.simps)
  qed
  moreover have "\<not> is_hash (ext_node p (FullNode ?cs newFlag))" by (simp add: ext_node_def)
  ultimately show ?thesis using change_Ret ins ld by metis
qed

lemma insert_short:
  assumes wf: "wf_tree (Ext p t)" and n: "loads ok full False c t" and fl: "flag_ok ok b (Ext p t) fl" "link_ok ok fl c t" and key: "entry_key key" and v: "v \<noteq> []"
    and en: "enough fuel (ShortNode p c fl) (length key)"
    and S: "\<And>t'. S t' \<Longrightarrow> wf_tree (Ext p t')"
    and IH: "\<And>f k pre. key = p @ k \<Longrightarrow> enough f c (length k)
      \<Longrightarrow> go_spec {} (change_post ok db full False S t ((t_get t)(k \<mapsto> v))) (insert_node db ow f c pre k (ValueNode v))"
  shows "go_spec {} (change_post ok db full b (inserted (Ext p t)) (Ext p t) ((t_get (Ext p t))(key \<mapsto> v)))
    (insert_node db ow fuel (ShortNode p c fl) pre key (ValueNode v))"
proof (cases "prefixLen key p = length p")
  case True
  then have k: "key = p @ drop (length p) key"
    using prefixLen_spec(3) [of key p] by (metis append_take_drop_id take_all_iff order_refl)
  have "length (drop (length p) key) < length key"
    using wf_Ext_butlast [OF wf] k key by (cases key) auto
  then obtain f where f: "fuel = Suc f" "enough f c (length (drop (length p) key))"
    using enough_step [OF en] by blast
  have ne: "length key \<noteq> 0" using key by auto
  have upd: "t_get (Ext p t') = (t_get (Ext p t))(key \<mapsto> v)"
    if "t_get t' = (t_get t)(drop (length p) key \<mapsto> v)" for t'
    using get_Ext_upd [OF that] k by simp
  show ?thesis
    unfolding f(1) insert_node.simps(2) if_not_P [OF ne] node.case Let_def True if_P [OF refl]
  proof (rule change_lift [OF IH [OF k f(2)]])
    show "loads ok full b (ShortNode p c fl) (Ext p t)" using n fl by simp
  next
    assume "t_get t = (t_get t)(drop (length p) key \<mapsto> v)"
    from upd [OF this] wf show "inserted (Ext p t) (Ext p t) \<and> t_get (Ext p t) = (t_get (Ext p t))(key \<mapsto> v)"
      by (simp add: inserted_def del: t_get.simps)
  next
    fix nn t'
    assume "loads ok full False nn t'" "S t'" "t_get t' = (t_get t)(drop (length p) key \<mapsto> v)"
    then show "go_spec {} (change_post ok db full b (inserted (Ext p t)) (Ext p t) ((t_get (Ext p t))(key \<mapsto> v)))
        (Ret (True, ShortNode p nn newFlag, None))"
      using S upd by (intro change_Ret [of ok full b _ "Ext p t'"]) (auto simp: inserted_def simp del: t_get.simps)
  qed
next
  case False
  have "3 \<le> fuel" using en key by (cases key) (auto simp: enough_def)
  then have "fuel = Suc (Suc (fuel - 2))" by simp
  then show ?thesis using insert_branch_out [OF wf n key v False, where f = "fuel - 2"] by metis
qed

lemma insert_full:
  assumes wf: "wf_tree (Branch ts)" and n: "list_all2 (loads ok full False) cs ts" and fl: "flag_ok ok b (Branch ts) fl" "list_all2 (link_ok ok fl) cs ts" and key: "entry_key (i # k)"
    and en: "enough fuel (FullNode cs fl) (length (i # k))"
    and S: "\<And>t'. S t' \<Longrightarrow> child_ok i t' \<and> t' \<noteq> Empty"
    and IH: "\<And>f pre. enough f (cs ! unat i) (length k) \<Longrightarrow>
      go_spec {} (change_post ok db full False S (ts ! unat i) ((t_get (ts ! unat i))(k \<mapsto> v)))
        (insert_node db ow f (cs ! unat i) pre k (ValueNode v))"
  shows "go_spec {} (change_post ok db full b (inserted (Branch ts)) (Branch ts) ((t_get (Branch ts))(i # k \<mapsto> v)))
    (insert_node db ow fuel (FullNode cs fl) pre (i # k) (ValueNode v))"
proof -
  have i: "unat i < 17" using entry_key_Cons_le [OF key] .
  have l: "length ts = 17" "length cs = 17"
    using wf n by (simp_all add: wf_Branch_iff list_all2_lengthD)
  obtain f where f: "fuel = Suc f" "enough f (cs ! unat i) (length k)"
    using enough_step [OF en, of "length k"] by auto
  have upd: "t_get (Branch (ts[unat i := t'])) = (t_get (Branch ts))(i # k \<mapsto> v)"
    if "t_get t' = (t_get (ts ! unat i))(k \<mapsto> v)" for t'
    using get_Branch_upd [OF _ that] i l by simp
  have *: "go_spec {} (change_post ok db full b (inserted (Branch ts)) (Branch ts) ((t_get (Branch ts))(i # k \<mapsto> v)))
    (go_bind (insert_node db ow f (cs ! unat i) (pre @ [i]) k (ValueNode v)) (\<lambda>(dirty, nn, err).
       if \<not> dirty \<or> err \<noteq> None then Ret (False, FullNode cs fl, err)
       else go_bind (set_child cs i nn) (\<lambda>cs. Ret (True, FullNode cs newFlag, None))))"
  proof (rule change_lift [OF IH [OF f(2)]])
    show "loads ok full b (FullNode cs fl) (Branch ts)" using n fl by simp
  next
    assume "t_get (ts ! unat i) = (t_get (ts ! unat i))(k \<mapsto> v)"
    from upd [OF this] wf show "inserted (Branch ts) (Branch ts) \<and> t_get (Branch ts) = (t_get (Branch ts))(i # k \<mapsto> v)"
      by (simp add: inserted_def del: t_get.simps)
  next
    fix nn t'
    assume t': "loads ok full False nn t'" "S t'" "t_get t' = (t_get (ts ! unat i))(k \<mapsto> v)"
    have "wf_tree (Branch (ts[unat i := t']))"
      using wf S [OF t'(2)] wf_children_upd [of ts i t'] entries_update [of "unat i" ts t'] i l
      by (auto simp: wf_Branch_children split: if_splits)
    then show "go_spec {} (change_post ok db full b (inserted (Branch ts)) (Branch ts) ((t_get (Branch ts))(i # k \<mapsto> v)))
        (go_bind (set_child cs i nn) (\<lambda>cs. Ret (True, FullNode cs newFlag, None)))"
      using upd [OF t'(3)] list_all2_loads_update [OF n t'(1)] i l
      by (auto simp: set_child_def store_go_def inserted_def intro!: change_Ret [of ok full b _ "Branch (ts[unat i := t'])", simplified])
  qed
  moreover have "index_go cs (unat i) = Ret (cs ! unat i)" "length (i # k) \<noteq> 0" "drop 1 (i # k) = k"
    using i l by (simp_all add: index_go_def)
  ultimately show ?thesis
    unfolding f(1) insert_node.simps(2) node.case by (simp only: nth_Cons_0 if_False go_bind.simps)
qed

lemma insert_any:
  assumes "part_of db full" "loads ok full b n t" "enough fuel n (length key)" "key \<noteq> []"
    and core: "\<And>f n. \<not> is_hash n \<Longrightarrow> loads ok full b n t \<Longrightarrow> enough f n (length key)
      \<Longrightarrow> go_spec {} (change_post ok db full b S t F) (insert_node db ow f n pre key v)"
  shows "go_spec {} (change_post ok db full b S t F) (insert_node db ow fuel n pre key v)"
proof (cases "is_hash n")
  case True
  then obtain h where h: "n = HashNode h" by (rule is_hashE)
  have ne: "length key \<noteq> 0" using assms(4) by simp
  obtain f where f: "fuel = Suc f" "go_spec {} (change_post ok db full b S t F)
    (go_bind (resolveHash db ow h pre) (\<lambda>r. case r of
        Inl err \<Rightarrow> Ret (False, NilNode, Some err)
      | Inr rn \<Rightarrow> go_bind (insert_node db ow f rn pre key v) (\<lambda>(dirty, nn, err).
          if \<not> dirty \<or> err \<noteq> None then Ret (False, rn, err) else Ret (True, nn, None))))"
    using change_hash [OF assms(1) assms(2,3) [unfolded h], of S F "\<lambda>f n. insert_node db ow f n pre key v" ow pre] core
    by blast
  from f(2) show ?thesis
    unfolding h f(1) insert_node.simps(2) if_not_P [OF ne] node.case .
qed (use core assms in blast)

lemma insert_spec:
  assumes "part_of db full" "wf_tree t" "loads ok full b n t" "entry_key key" "v \<noteq> []" "enough fuel n (length key)"
  shows "go_spec {} (change_post ok db full b (inserted t) t ((t_get t)(key \<mapsto> v)))
    (insert_node db ow fuel n pre key (ValueNode v))"
  using assms(2-)
proof (induction arbitrary: n b key fuel pre rule: wf_tree.induct)
  case wf_Empty
  have k: "key \<noteq> []" "wf_tree (Ext key (Value v))"
    using wf_Empty by (auto simp: entry_key_def) (metis append_butlast_last_id wf_Leaf)
  then have "go_spec {} (change_post ok db full b (inserted Empty) Empty ((t_get Empty)(key \<mapsto> v)))
      (Ret (True, ShortNode key (ValueNode v) newFlag, None))"
    by (intro change_Ret [where t' = "Ext key (Value v)"]) (simp_all add: inserted_def get_leaf get_Empty del: t_get.simps)
  moreover obtain f where "fuel = Suc f" using enough_Suc [OF wf_Empty.prems(4)] by blast
  moreover have "n = NilNode" using wf_Empty.prems(1) by (simp only: loads_Empty)
  ultimately show ?case using k(1) by (simp only: insert_nil ext_node_def if_False)
next
  case (wf_Leaf p w)
  let ?t = "Ext (p @ [16]) (Value w)"
  have wf: "wf_tree ?t" using wf_Leaf by (intro wf_tree.wf_Leaf)
  show ?case
  proof (rule insert_any [OF assms(1) wf_Leaf.prems(1,4)])
    fix f m assume m: "\<not> is_hash m" "loads ok full b m ?t" "enough f m (length key)"
    then obtain c fl where c: "m = ShortNode (p @ [16]) c fl" "loads ok full False c (Value w)" "flag_ok ok b ?t fl" "link_ok ok fl c (Value w)"
      using loads_ExtD by blast
    have w: "wf_value (Value w)" using wf_Leaf.hyps(2) by (simp add: wf_value_def)
    show "go_spec {} (change_post ok db full b (inserted ?t) ?t ((t_get ?t)(key \<mapsto> v))) (insert_node db ow f m pre key (ValueNode v))"
      unfolding c(1)
    proof (rule insert_short [OF wf c(2-4) wf_Leaf.prems(2,3) m(3) [unfolded c(1)], where S = "\<lambda>t'. t' = Value v"])
      fix f k pre assume k: "key = (p @ [16]) @ k" "enough f c (length k)"
      then have "k = []" using entry_key_end [of p k] wf_Leaf.prems(2) by simp
      with insert_value [OF w c(2) k(2)] show "go_spec {} (change_post ok db full False (\<lambda>t'. t' = Value v) (Value w)
          ((t_get (Value w))(k \<mapsto> v))) (insert_node db ow f c pre k (ValueNode v))" by simp
    qed (use wf_Leaf in \<open>auto intro: wf_tree.wf_Leaf\<close>)
  qed (use wf_Leaf.prems in auto)
next
  case (wf_Ext p ts)
  let ?t = "Ext p (Branch ts)"
  have wf: "wf_tree ?t" using wf_Ext by (intro wf_tree.wf_Ext)
  show ?case
  proof (rule insert_any [OF assms(1) wf_Ext.prems(1,4)])
    fix f m assume m: "\<not> is_hash m" "loads ok full b m ?t" "enough f m (length key)"
    then obtain c fl where c: "m = ShortNode p c fl" "loads ok full False c (Branch ts)" "flag_ok ok b ?t fl" "link_ok ok fl c (Branch ts)"
      using loads_ExtD by blast
    show "go_spec {} (change_post ok db full b (inserted ?t) ?t ((t_get ?t)(key \<mapsto> v))) (insert_node db ow f m pre key (ValueNode v))"
      unfolding c(1)
    proof (rule insert_short [OF wf c(2-4) wf_Ext.prems(2,3) m(3) [unfolded c(1)], where S = "inserted (Branch ts)"])
      fix f k pre assume k: "key = p @ k" "enough f c (length k)"
      then have "entry_key k" using entry_key_after wf_Ext.prems(2) wf_Ext.hyps(1) by metis
      then show "go_spec {} (change_post ok db full False (inserted (Branch ts)) (Branch ts)
          ((t_get (Branch ts))(k \<mapsto> v))) (insert_node db ow f c pre k (ValueNode v))"
        using wf_Ext.IH c(2) wf_Ext.prems(3) k(2) by blast
    next
      fix t' assume "inserted (Branch ts) t'"
      then show "wf_tree (Ext p t')"
        using wf_Ext.hyps by (cases t') (auto simp: inserted_def intro: wf_tree.wf_Ext)
    qed
  qed (use wf_Ext.prems in auto)
next
  case (wf_Branch ts)
  have wf: "wf_tree (Branch ts)" using wf_Branch by (intro wf_tree.wf_Branch) auto
  obtain i k where key: "key = i # k" using wf_Branch.prems(2) by (cases key) auto
  have i: "unat i < 17" using wf_Branch.prems(2) entry_key_Cons_le unfolding key by blast
  show ?case
    unfolding key
  proof (rule insert_any [OF assms(1) wf_Branch.prems(1) wf_Branch.prems(4) [unfolded key]])
    fix f m assume m: "\<not> is_hash m" "loads ok full b m (Branch ts)" "enough f m (length (i # k))"
    then obtain cs fl where c: "m = FullNode cs fl" "list_all2 (loads ok full False) cs ts" "flag_ok ok b (Branch ts) fl"
      "list_all2 (link_ok ok fl) cs ts"
      using loads_BranchD by blast
    have l: "loads ok full False (cs ! unat i) (ts ! unat i)"
      using c(2) i wf_Branch.hyps(1) by (metis list_all2_conv_all_nth)
    note full = insert_full [OF wf c(2-4) wf_Branch.prems(2) [unfolded key] m(3) [unfolded c(1)]]
    show "go_spec {} (change_post ok db full b (inserted (Branch ts)) (Branch ts) ((t_get (Branch ts))(i # k \<mapsto> v)))
        (insert_node db ow f m pre (i # k) (ValueNode v))"
      unfolding c(1)
    proof (cases "k = []")
      case True
      then have i16: "i = 16" using wf_Branch.prems(2) by (simp add: key entry_key_Cons)
      show "go_spec {} (change_post ok db full b (inserted (Branch ts)) (Branch ts) ((t_get (Branch ts))(i # k \<mapsto> v)))
        (insert_node db ow f (FullNode cs fl) pre (i # k) (ValueNode v))"
      proof (rule full [where S = "\<lambda>t'. t' = Value v"])
        show "go_spec {} (change_post ok db full False (\<lambda>t'. t' = Value v) (ts ! unat i) ((t_get (ts ! unat i))(k \<mapsto> v)))
          (insert_node db ow f (cs ! unat i) pre k (ValueNode v))" if "enough f (cs ! unat i) (length k)" for f pre
          using insert_value [OF _ l that] wf_Branch.hyps(2) True i16 by simp
      qed (use i16 wf_Branch.prems(3) in \<open>simp add: child_ok_def wf_value_def\<close>)
    next
      case False
      then have i16: "i < 16" "entry_key k" "unat i < 16"
        using wf_Branch.prems(2) by (simp_all add: key entry_key_Cons flip: u8_less_16)
      show "go_spec {} (change_post ok db full b (inserted (Branch ts)) (Branch ts) ((t_get (Branch ts))(i # k \<mapsto> v)))
        (insert_node db ow f (FullNode cs fl) pre (i # k) (ValueNode v))"
      proof (rule full [where S = "inserted (ts ! unat i)"])
        show "go_spec {} (change_post ok db full False (inserted (ts ! unat i)) (ts ! unat i) ((t_get (ts ! unat i))(k \<mapsto> v)))
          (insert_node db ow f (cs ! unat i) pre k (ValueNode v))" if "enough f (cs ! unat i) (length k)" for f pre
          using wf_Branch.IH l i16 that wf_Branch.prems(3) by blast
      qed (use i16 in \<open>auto simp: child_ok_def inserted_def\<close>)
    qed
  qed simp
qed

section \<open>Deletion\<close>

definition deleted :: "tree \<Rightarrow> tree \<Rightarrow> bool" where
  "deleted t t' \<longleftrightarrow> wf_tree t' \<and> (is_branch t \<longrightarrow> t' \<noteq> Empty)"

lemma get_upd_None: "t_get t k = None \<Longrightarrow> (t_get t)(k := None) = t_get t"
  by (rule fun_upd_idem)

lemma delete_value:
  assumes "wf_value t" "loads ok full b n t" "enough fuel n l"
  shows "go_spec {} (change_post ok db full b (\<lambda>t'. t' = Empty) t ((t_get t)([] := None)))
    (delete_node db ow fuel n pre [])"
  using assms(1)
proof (cases rule: wf_value_cases)
  case 1
  with assms(2) enough_Suc [OF assms(3)] show ?thesis
    by (auto simp: loads_Empty change_post_def fun_eq_iff)
next
  case (2 w)
  with assms(2) enough_Suc [OF assms(3)] show ?thesis
    by (auto simp: loads_ValueD change_post_def fun_eq_iff)
qed

lemma single_child_found:
  "pos \<noteq> - 1 \<Longrightarrow> single_child cs i pos = (if \<forall>c\<in>set cs. c = NilNode then pos else - 2)"
  by (induction cs arbitrary: i) auto

lemma single_child_cases:
  assumes "0 \<le> i"
  obtains (none) "single_child cs i (- 1) = - 1" "\<forall>c\<in>set cs. c = NilNode"
  | (one) j where "single_child cs i (- 1) = i + int j" "j < length cs" "cs ! j \<noteq> NilNode"
      "\<And>l. l < length cs \<Longrightarrow> l \<noteq> j \<Longrightarrow> cs ! l = NilNode"
  | (more) j l where "single_child cs i (- 1) = - 2" "j < l" "l < length cs" "cs ! j \<noteq> NilNode" "cs ! l \<noteq> NilNode"
  using assms
proof (induction cs arbitrary: i thesis)
  case (Cons c cs)
  show ?case
  proof (cases "c = NilNode")
    case True
    show ?thesis
    proof (rule Cons.IH [of "i + 1"])
      fix j assume "single_child cs (i + 1) (- 1) = i + 1 + int j" "j < length cs" "cs ! j \<noteq> NilNode"
        "\<And>l. l < length cs \<Longrightarrow> l \<noteq> j \<Longrightarrow> cs ! l = NilNode"
      with True show ?thesis by (intro Cons.prems(2) [of "Suc j"]) (auto simp: nth_Cons split: nat.splits)
    next
      fix j l assume "single_child cs (i + 1) (- 1) = - 2" "j < l" "l < length cs" "cs ! j \<noteq> NilNode" "cs ! l \<noteq> NilNode"
      with True show ?thesis by (intro Cons.prems(3) [of "Suc j" "Suc l"]) auto
    qed (use Cons.prems True in auto)
  next
    case False
    show ?thesis
    proof (cases "\<forall>c\<in>set cs. c = NilNode")
      case True
      with False Cons.prems(4) show ?thesis
        by (intro Cons.prems(2) [of 0]) (auto simp: single_child_found nth_Cons split: nat.splits)
    next
      case more: False
      then obtain l where "l < length cs" "cs ! l \<noteq> NilNode" by (metis in_set_conv_nth)
      with False more Cons.prems(4) show ?thesis
        by (intro Cons.prems(3) [of 0 "Suc l"]) (auto simp: single_child_found)
    qed
  qed
qed simp

lemma resolve_spec:
  assumes "part_of db full" "loads ok full b n t"
  shows "(\<exists>e. resolve db ow n pre = Ret (Inl e) \<and> missing db full e)
    \<or> (\<exists>c. resolve db ow n pre = Ret (Inr c) \<and> loads ok full b c t \<and> \<not> is_hash c)"
  using assms resolveHash_spec [of db full ok b] stored_simps(2) by (cases n) (fastforce simp: resolve_def)+

lemma reduce_full_spec:
  assumes db: "part_of db full" and n: "list_all2 (loads ok full False) cs ts"
    and wf: "wf_children ts" and e: "0 < entries ts"
  shows "go_spec {} (change_post ok db full b (deleted (Branch T)) (Branch T) (t_get (Branch ts))) (reduce_full db ow cs pre)"
    (is "go_spec {} ?Q _")
proof -
  have len: "length ts = 17" "length cs = 17"
    using wf n by (simp_all add: wf_children_def list_all2_lengthD)
  have ld: "loads ok full False (cs ! j) (ts ! j)" if "j < 17" for j
    using n len that by (metis list_all2_conv_all_nth)
  have nil: "cs ! j = NilNode \<longleftrightarrow> ts ! j = Empty" if "j < 17" for j
    using loads_nil_iff ld that by blast
  show ?thesis
  proof (cases rule: single_child_cases [of 0 cs, simplified, case_names none one more])
    case none
    then have "\<forall>j<17. ts ! j = Empty" using nil len by (metis nth_mem)
    then have "entries ts = 0" using len by (auto simp: entries_def filter_empty_conv in_set_conv_nth)
    with e show ?thesis by simp
  next
    case (more j l)
    then have "wf_tree (Branch ts)"
      using two_entries [of j l ts] nil len wf by (simp add: wf_Branch_children)
    with more n len show ?thesis
      by (auto simp: reduce_full_def Let_def deleted_def simp del: t_get.simps intro!: change_Ret [of ok full b _ "Branch ts", simplified])
  next
    case (one j)
    define i :: u8 where "i = word_of_nat j"
    have j: "j < 17" "unat i = j" using one(2) len by (simp_all add: i_def unat_of_nat)
    have i: "(word_of_int (int j) :: u8) = i" by (simp add: i_def)
    have ne: "ts ! j \<noteq> Empty" using one(3) nil j by blast
    have get: "t_get (Branch ts) = t_get (Ext [i] (ts ! j))"
      using get_single [of i ts] one(4) nil j len by simp
    have ok: "child_ok i (ts ! j)" using wf_children_nth [OF wf, of i] j by simp
    have plain: "go_spec {} ?Q (Ret (True, ShortNode [i] (cs ! j) newFlag, None))" if "wf_tree (Ext [i] (ts ! j))"
      using that ld [OF j(1)] get by (intro change_Ret [of ok full b _ "Ext [i] (ts ! j)"]) (simp_all add: deleted_def del: t_get.simps)
    show ?thesis
    proof (cases "j = 16")
      case True
      then have i16: "i = 16" by (simp add: i_def)
      then obtain v where "ts ! j = Value v" "v \<noteq> []"
        using ok ne by (auto simp: child_ok_def elim: wf_value_cases)
      with wf_Leaf [of "[]" v] i16 plain True one(1) show ?thesis
        by (simp add: reduce_full_def Let_def del: t_get.simps)
    next
      case False
      then have "i \<noteq> 16" using j by auto
      then have i16: "nibbles [i]" and wf': "wf_tree (ts ! j)" using ok by (auto simp: child_ok_def)
      have br: "wf_tree (Ext [i] (Branch us))" if "ts ! j = Branch us" for us
        using wf' that i16 by (auto intro: wf_Ext)
      have core: "go_spec {} ?Q (case c of ShortNode k val fl \<Rightarrow> Ret (True, ShortNode ([i] @ k) val newFlag, None)
          | _ \<Rightarrow> Ret (True, ShortNode [i] (cs ! j) newFlag, None))" if c: "loads ok full False c (ts ! j)" "\<not> is_hash c" for c
      proof (cases "ts ! j")
        case (Ext q u)
        then obtain d fl where d: "c = ShortNode q d fl" "loads ok full False d u" using loads_ExtD c by metis
        have "t_get (Ext ([i] @ q) u) = t_get (Branch ts)" unfolding get_Ext_Ext get Ext by (simp add: fun_eq_iff)
        with d wf_Ext_append [of q u "[i]"] wf' Ext i16 show ?thesis
          by (auto simp: deleted_def simp del: t_get.simps intro!: change_Ret [of ok full b _ "Ext ([i] @ q) u", simplified])
      next
        case (Branch us)
        then obtain ds fl where "c = FullNode ds fl" using loads_BranchD c by metis
        with plain br Branch show ?thesis by simp
      qed (use ne wf' in auto)
      have red: "reduce_full db ow cs pre = go_bind (resolve db ow (cs ! j) pre) (\<lambda>r. case r of
          Inl err \<Rightarrow> Ret (False, NilNode, Some err)
        | Inr c \<Rightarrow> (case c of ShortNode k val fl \<Rightarrow> Ret (True, ShortNode ([i] @ k) val newFlag, None)
            | _ \<Rightarrow> Ret (True, ShortNode [i] (cs ! j) newFlag, None)))"
      proof -
        have "(int j \<ge> 0) = True" "(int j \<noteq> 16) = True" using False by simp_all
        then show ?thesis by (simp only: reduce_full_def Let_def one(1) i nat_int if_True)
      qed
      from resolve_spec [OF db ld [OF j(1)], of ow pre] show ?thesis
      proof
        assume "\<exists>e. resolve db ow (cs ! j) pre = Ret (Inl e) \<and> missing db full e"
        then show ?thesis by (auto simp: red change_post_def)
      next
        assume "\<exists>c. resolve db ow (cs ! j) pre = Ret (Inr c) \<and> loads ok full False c (ts ! j) \<and> \<not> is_hash c"
        with core show ?thesis unfolding red by (auto simp only: go_bind.simps sum.case)
      qed
    qed
  qed
qed

text \<open>A short node over a part that became a short node is merged with it.\<close>

lemma delete_merge:
  assumes nn: "loads ok full False nn t'" "\<not> is_hash nn" and t': "wf_tree t'" "t' \<noteq> Empty"
    and p: "nibbles p" "p \<noteq> []" and get: "t_get (Ext p t') = F"
  shows "go_spec {} (change_post ok db full b (deleted (Ext p t)) T F) (case nn of
      ShortNode ck cval cfl \<Rightarrow> Ret (True, ShortNode (concat_keys p ck) cval newFlag, None)
    | _ \<Rightarrow> Ret (True, ShortNode p nn newFlag, None))"
proof (cases t')
  case (Ext q u)
  then obtain d fl where "nn = ShortNode q d fl" "loads ok full False d u" using loads_ExtD nn by metis
  moreover have "t_get (Ext (p @ q) u) = F"
    using get Ext get_Ext_Ext [of p q u] by simp
  ultimately show ?thesis
    using wf_Ext_append [of q u p] t' Ext p(1)
    by (simp only: node.case concat_keys_def)
      (intro change_Ret [where t' = "Ext (p @ q) u"], simp_all add: deleted_def del: t_get.simps)
next
  case (Branch us)
  then obtain ds fl where "nn = FullNode ds fl" using loads_BranchD nn by metis
  then show ?thesis
    using t' Branch p nn get
    by (simp only: node.case)
      (intro change_Ret [where t' = "Ext p t'"], auto simp: deleted_def simp del: t_get.simps intro: wf_Ext)
qed (use t' in auto)

lemma delete_short:
  assumes wf: "wf_tree (Ext p t)" and n: "loads ok full False c t" and fl: "flag_ok ok b (Ext p t) fl" "link_ok ok fl c t" and key: "entry_key key"
    and en: "enough fuel (ShortNode p c fl) (length key)"
    and IH: "\<And>f k pre. key = p @ k \<Longrightarrow> nibbles p \<Longrightarrow> is_branch t \<Longrightarrow> entry_key k \<Longrightarrow> enough f c (length k)
      \<Longrightarrow> go_spec {} (change_post ok db full False (deleted t) t ((t_get t)(k := None))) (delete_node db ow f c pre k)"
  shows "go_spec {} (change_post ok db full b (deleted (Ext p t)) (Ext p t) ((t_get (Ext p t))(key := None)))
    (delete_node db ow fuel (ShortNode p c fl) pre key)"
    (is "go_spec {} ?Q _")
proof -
  have ld: "loads ok full b (ShortNode p c fl) (Ext p t)" using n fl by simp
  have del: "deleted (Ext p t) (Ext p t)" using wf by (simp add: deleted_def)
  obtain f0 where f0: "fuel = Suc f0" using enough_Suc [OF en] by blast
  consider (no) "prefixLen key p < length p" | (match) k where "key = p @ k" "prefixLen key p = length p"
    using prefixLen_spec(2,3) [of key p] by (metis append_take_drop_id le_neq_implies_less take_all_iff order_refl)
  then show ?thesis
  proof cases
    case no
    have "t_get (Ext p t) key = None"
    proof (rule ccontr)
      assume "t_get (Ext p t) key \<noteq> None"
      then obtain k where "key = p @ k" using t_get_ExtD by blast
      with no prefixLen_spec(4) [of key p] show False by (simp add: nth_append)
    qed
    with no ld del show ?thesis
      by (simp add: f0 change_same get_upd_None del: t_get.simps go_spec.simps)
  next
    case (match k)
    show ?thesis
    proof (cases "k = []")
      case True
      then obtain v where "t = Value v"
        using wf key match(1) by (cases rule: wf_ExtE) (auto simp: entry_key_nibbles)
      with match True show ?thesis
        by (auto simp: f0 get_leaf deleted_def get_Empty fun_eq_iff simp del: t_get.simps go_spec.simps intro!: change_Ret [where t' = Empty] wf_Empty)
    next
      case False
      then have p: "nibbles p" "p \<noteq> []" "is_branch t"
        using wf key match(1) entry_key_end by (auto elim!: wf_ExtE)
      then have k: "entry_key k" using entry_key_after key match(1) by metis
      obtain f where f: "fuel = Suc f" "enough f c (length k)"
        using enough_step [OF en, of "length k"] p(2) match(1) by auto
      have upd: "t_get (Ext p t') = (t_get (Ext p t))(key := None)" if "t_get t' = (t_get t)(k := None)" for t'
        using get_Ext_upd [OF that] match(1) by simp
      have "length p \<noteq> length key" "take (length p) key = p" "drop (length p) key = k"
        using match(1) False by auto
      note simps = this
      have "go_spec {} ?Q (go_bind (delete_node db ow f c (pre @ p) k) (\<lambda>(dirty, child, err).
           if \<not> dirty \<or> err \<noteq> None then Ret (False, ShortNode p c fl, err)
           else (case child of
               ShortNode ck cval cfl \<Rightarrow> Ret (True, ShortNode (concat_keys p ck) cval newFlag, None)
             | _ \<Rightarrow> Ret (True, ShortNode p child newFlag, None))))"
      proof (rule change_lift [OF IH [OF match(1) p(1,3) k f(2)] ld])
        assume "t_get t = (t_get t)(k := None)"
        from upd [OF this] del show "deleted (Ext p t) (Ext p t) \<and> t_get (Ext p t) = (t_get (Ext p t))(key := None)"
          by simp
      next
        fix nn t'
        assume nn: "loads ok full False nn t'" "\<not> is_hash nn" and t': "deleted t t'" "t_get t' = (t_get t)(k := None)"
        show "go_spec {} ?Q (case nn of
               ShortNode ck cval cfl \<Rightarrow> Ret (True, ShortNode (concat_keys p ck) cval newFlag, None)
             | _ \<Rightarrow> Ret (True, ShortNode p nn newFlag, None))"
          using t'(1) p upd [OF t'(2)] by (intro delete_merge [OF nn]) (simp_all add: deleted_def del: t_get.simps)
      qed
      then show ?thesis
        unfolding f(1) delete_node.simps(2) node.case Let_def match(2) if_not_P [OF less_irrefl]
          if_not_P [OF simps(1)] simps(2,3) .
    qed
  qed
qed

lemma delete_full:
  assumes db: "part_of db full" and wf: "wf_tree (Branch ts)" and n: "list_all2 (loads ok full False) cs ts" and fl: "flag_ok ok b (Branch ts) fl" "list_all2 (link_ok ok fl) cs ts"
    and key: "entry_key (i # k)" and en: "enough fuel (FullNode cs fl) (length (i # k))"
    and IH: "\<And>f pre. enough f (cs ! unat i) (length k) \<Longrightarrow>
      go_spec {} (change_post ok db full False (child_ok i) (ts ! unat i) ((t_get (ts ! unat i))(k := None)))
        (delete_node db ow f (cs ! unat i) pre k)"
  shows "go_spec {} (change_post ok db full b (deleted (Branch ts)) (Branch ts) ((t_get (Branch ts))(i # k := None)))
    (delete_node db ow fuel (FullNode cs fl) pre (i # k))"
    (is "go_spec {} ?Q _")
proof -
  have i: "unat i < 17" using entry_key_Cons_le [OF key] .
  have l: "length ts = 17" "length cs = 17"
    using wf n by (simp_all add: wf_Branch_iff list_all2_lengthD)
  obtain f where f: "fuel = Suc f" "enough f (cs ! unat i) (length k)"
    using enough_step [OF en, of "length k"] by auto
  have upd: "t_get (Branch (ts[unat i := t'])) = (t_get (Branch ts))(i # k := None)"
    if "t_get t' = (t_get (ts ! unat i))(k := None)" for t'
    using get_Branch_upd [OF _ that] i l by simp
  have "go_spec {} ?Q (go_bind (delete_node db ow f (cs ! unat i) (pre @ [i]) k) (\<lambda>(dirty, nn, err).
       if \<not> dirty \<or> err \<noteq> None then Ret (False, FullNode cs fl, err)
       else go_bind (set_child cs i nn) (\<lambda>cs.
            if nn \<noteq> NilNode then Ret (True, FullNode cs newFlag, None) else reduce_full db ow cs pre)))"
  proof (rule change_lift [OF IH [OF f(2)]])
    show "loads ok full b (FullNode cs fl) (Branch ts)" using n fl by simp
  next
    assume "t_get (ts ! unat i) = (t_get (ts ! unat i))(k := None)"
    from upd [OF this] wf show "deleted (Branch ts) (Branch ts) \<and> t_get (Branch ts) = (t_get (Branch ts))(i # k := None)"
      by (simp add: deleted_def del: t_get.simps)
  next
    fix nn t'
    assume t': "loads ok full False nn t'" "child_ok i t'" "t_get t' = (t_get (ts ! unat i))(k := None)"
    let ?ts = "ts[unat i := t']"
    have wf': "wf_children ?ts" using wf wf_children_upd t'(2) by (simp add: wf_Branch_children)
    have ld: "list_all2 (loads ok full False) (cs[unat i := nn]) ?ts" using list_all2_loads_update [OF n t'(1)] .
    have e: "entries ts \<le> entries ?ts + (if t' = Empty then 1 else 0)" "2 \<le> entries ts"
      using entries_update [of "unat i" ts t'] i l wf by (auto simp: wf_Branch_iff split: if_splits)
    have store: "set_child cs i nn = Ret (cs[unat i := nn])" using i l by (simp add: set_child_def store_go_def)
    show "go_spec {} ?Q (go_bind (set_child cs i nn) (\<lambda>cs.
        if nn \<noteq> NilNode then Ret (True, FullNode cs newFlag, None) else reduce_full db ow cs pre))"
      unfolding store go_bind.simps
    proof (cases "nn = NilNode")
      case True
      then have "0 < entries ?ts" using e loads_nil_iff [OF t'(1)] by simp
      then show "go_spec {} ?Q (if nn \<noteq> NilNode then Ret (True, FullNode (cs[unat i := nn]) newFlag, None)
          else reduce_full db ow (cs[unat i := nn]) pre)"
        using reduce_full_spec [OF db ld wf', of b ts ow pre] upd [OF t'(3)] True by (simp del: t_get.simps)
    next
      case False
      then have "wf_tree (Branch ?ts)" using e loads_nil_iff [OF t'(1)] wf' by (simp add: wf_Branch_children)
      then show "go_spec {} ?Q (if nn \<noteq> NilNode then Ret (True, FullNode (cs[unat i := nn]) newFlag, None)
          else reduce_full db ow (cs[unat i := nn]) pre)"
        using False ld l upd [OF t'(3)]
        unfolding if_P [OF False]
        by (intro change_Ret [where t' = "Branch ?ts"]) (simp_all add: deleted_def del: t_get.simps)
    qed
  qed
  moreover have "index_go (i # k) 0 = Ret i" "index_go cs (unat i) = Ret (cs ! unat i)" "drop 1 (i # k) = k"
    using i l by (simp_all add: index_go_def)
  ultimately show ?thesis
    unfolding f(1) delete_node.simps(2) node.case by (simp only: go_bind.simps)
qed

lemma delete_any:
  assumes "part_of db full" "loads ok full b n t" "enough fuel n (length key)"
    and core: "\<And>f n. \<not> is_hash n \<Longrightarrow> loads ok full b n t \<Longrightarrow> enough f n (length key)
      \<Longrightarrow> go_spec {} (change_post ok db full b S t F) (delete_node db ow f n pre key)"
  shows "go_spec {} (change_post ok db full b S t F) (delete_node db ow fuel n pre key)"
proof (cases "is_hash n")
  case True
  then obtain h where h: "n = HashNode h" by (rule is_hashE)
  obtain f where f: "fuel = Suc f" "go_spec {} (change_post ok db full b S t F)
    (go_bind (resolveHash db ow h pre) (\<lambda>r. case r of
        Inl err \<Rightarrow> Ret (False, NilNode, Some err)
      | Inr rn \<Rightarrow> go_bind (delete_node db ow f rn pre key) (\<lambda>(dirty, nn, err).
          if \<not> dirty \<or> err \<noteq> None then Ret (False, rn, err) else Ret (True, nn, None))))"
    using change_hash [OF assms(1) assms(2,3) [unfolded h], of S F "\<lambda>f n. delete_node db ow f n pre key" ow pre] core
    by blast
  from f(2) show ?thesis
    unfolding h f(1) delete_node.simps(2) node.case .
qed (use core assms in blast)

lemma change_mono:
  "go_spec {} (change_post ok db full b S t F) m \<Longrightarrow> (\<And>t'. S t' \<Longrightarrow> S' t') \<Longrightarrow> go_spec {} (change_post ok db full b S' t F) m"
  by (erule go_spec_mono) (auto simp: change_post_def split: option.splits)

lemma delete_spec:
  assumes "part_of db full" "wf_tree t" "loads ok full b n t" "entry_key key" "enough fuel n (length key)"
  shows "go_spec {} (change_post ok db full b (deleted t) t ((t_get t)(key := None))) (delete_node db ow fuel n pre key)"
  using assms(2-)
proof (induction arbitrary: n b key fuel pre rule: wf_tree.induct)
  case wf_Empty
  obtain f where f: "fuel = Suc f" using enough_Suc [OF wf_Empty.prems(3)] by blast
  have "n = NilNode" using wf_Empty.prems(1) by (simp only: loads_Empty)
  then show ?case
    unfolding f delete_node.simps(2)
    by (simp only: node.case) (rule change_same, simp_all add: deleted_def wf_tree.wf_Empty fun_eq_iff)
next
  case (wf_Leaf p w)
  let ?t = "Ext (p @ [16]) (Value w)"
  have wf: "wf_tree ?t" using wf_Leaf by (intro wf_tree.wf_Leaf)
  show ?case
  proof (rule delete_any [OF assms(1) wf_Leaf.prems(1,3)])
    fix f m assume m: "\<not> is_hash m" "loads ok full b m ?t" "enough f m (length key)"
    then obtain c fl where c: "m = ShortNode (p @ [16]) c fl" "loads ok full False c (Value w)" "flag_ok ok b ?t fl" "link_ok ok fl c (Value w)"
      using loads_ExtD by blast
    from delete_short [OF wf c(2-4) wf_Leaf.prems(2) m(3) [unfolded c(1)]]
    show "go_spec {} (change_post ok db full b (deleted ?t) ?t ((t_get ?t)(key := None))) (delete_node db ow f m pre key)"
      unfolding c(1) by (simp del: t_get.simps)
  qed
next
  case (wf_Ext p ts)
  let ?t = "Ext p (Branch ts)"
  have wf: "wf_tree ?t" using wf_Ext by (intro wf_tree.wf_Ext)
  show ?case
  proof (rule delete_any [OF assms(1) wf_Ext.prems(1,3)])
    fix f m assume m: "\<not> is_hash m" "loads ok full b m ?t" "enough f m (length key)"
    then obtain c fl where c: "m = ShortNode p c fl" "loads ok full False c (Branch ts)" "flag_ok ok b ?t fl" "link_ok ok fl c (Branch ts)"
      using loads_ExtD by blast
    show "go_spec {} (change_post ok db full b (deleted ?t) ?t ((t_get ?t)(key := None))) (delete_node db ow f m pre key)"
      unfolding c(1)
      by (rule delete_short [OF wf c(2-4) wf_Ext.prems(2) m(3) [unfolded c(1)]]) (rule wf_Ext.IH [OF c(2)])
  qed
next
  case (wf_Branch ts)
  have wf: "wf_tree (Branch ts)" using wf_Branch by (intro wf_tree.wf_Branch) auto
  obtain i k where key: "key = i # k" using wf_Branch.prems(2) by (cases key) auto
  have i: "unat i < 17" using wf_Branch.prems(2) entry_key_Cons_le unfolding key by blast
  show ?case
    unfolding key
  proof (rule delete_any [OF assms(1) wf_Branch.prems(1) wf_Branch.prems(3) [unfolded key]])
    fix f m assume m: "\<not> is_hash m" "loads ok full b m (Branch ts)" "enough f m (length (i # k))"
    then obtain cs fl where c: "m = FullNode cs fl" "list_all2 (loads ok full False) cs ts" "flag_ok ok b (Branch ts) fl"
      "list_all2 (link_ok ok fl) cs ts"
      using loads_BranchD by blast
    have l: "loads ok full False (cs ! unat i) (ts ! unat i)"
      using c(2) i wf_Branch.hyps(1) by (metis list_all2_conv_all_nth)
    show "go_spec {} (change_post ok db full b (deleted (Branch ts)) (Branch ts) ((t_get (Branch ts))(i # k := None)))
        (delete_node db ow f m pre (i # k))"
      unfolding c(1)
    proof (rule delete_full [OF assms(1) wf c(2-4) wf_Branch.prems(2) [unfolded key] m(3) [unfolded c(1)]])
      fix f pre assume en: "enough f (cs ! unat i) (length k)"
      show "go_spec {} (change_post ok db full False (child_ok i) (ts ! unat i) ((t_get (ts ! unat i))(k := None)))
        (delete_node db ow f (cs ! unat i) pre k)"
      proof (cases "k = []")
        case True
        then have "i = 16" using wf_Branch.prems(2) by (simp add: key entry_key_Cons)
        with True wf_Branch.hyps(2) have "go_spec {} (change_post ok db full False (\<lambda>t'. t' = Empty) (ts ! unat i)
            ((t_get (ts ! unat i))(k := None))) (delete_node db ow f (cs ! unat i) pre k)"
          using delete_value [OF _ l en, of db ow pre] by simp
        then show ?thesis by (rule change_mono) (simp add: \<open>i = 16\<close> child_ok_def wf_value_def)
      next
        case False
        then have i16: "i < 16" "entry_key k" "unat i < 16"
          using wf_Branch.prems(2) by (simp_all add: key entry_key_Cons flip: u8_less_16)
        then have "go_spec {} (change_post ok db full False (deleted (ts ! unat i)) (ts ! unat i) ((t_get (ts ! unat i))(k := None)))
            (delete_node db ow f (cs ! unat i) pre k)"
          using wf_Branch.IH l en by blast
        then show ?thesis using i16(1) by (auto simp: child_ok_def deleted_def elim!: change_mono)
      qed
    qed
  qed
qed

end
