(* ===== verification/Trie_Map.thy ===== *)
theory Trie_Map
  imports Trie_Update
begin

text \<open>
  A trie as a finite map from keys to values: \<^verbatim>\<open>TryGet\<close>, \<^verbatim>\<open>TryUpdate\<close> and \<^verbatim>\<open>TryDelete\<close> read and change the
  map, whatever parts of the trie are loaded, and the structure of a trie depends on its map
  only.
\<close>

text \<open>The minimal tree \<open>t\<close> has the entries of \<open>m\<close>.\<close>

definition represents :: "tree \<Rightarrow> (bytes \<Rightarrow> bytes option) \<Rightarrow> bool" where
  "represents t m \<longleftrightarrow> wf_tree t
     \<and> (\<forall>key. t_get t (keybytesToHex key) = m key)
     \<and> (\<forall>k. t_get t k \<noteq> None \<longrightarrow> (\<exists>key. k = keybytesToHex key))"

lemma represents_unique:
  assumes "represents t m" "represents u m"
  shows "t = u"
proof -
  have "t_get t k = t_get u k" for k
  proof (cases "\<exists>key. k = keybytesToHex key")
    case True
    then show ?thesis using assms by (auto simp: represents_def)
  next
    case False
    then have "t_get t k = None" "t_get u k = None" using assms by (auto simp: represents_def)
    then show ?thesis by simp
  qed
  then have "t_get t = t_get u" by (rule ext)
  then show ?thesis using assms by (intro wf_tree_unique) (simp_all add: represents_def)
qed

text \<open>The trie \<open>tr\<close>, with its unloaded parts in \<open>full\<close>, is minimal, its entries are those of \<open>m\<close>, and the
  hashes in it are right.\<close>

definition trie_holds :: "hash_ok \<Rightarrow> node_db \<Rightarrow> Trie \<Rightarrow> (bytes \<Rightarrow> bytes option) \<Rightarrow> bool" where
  "trie_holds ok full tr m \<longleftrightarrow> (\<exists>t. loads ok full True (t_root tr) t \<and> represents t m)"

lemma length_keybytesToHex: "length (keybytesToHex key) = 2 * length key + 1"
  by (simp add: keybytesToHex_def length_unpack)

lemma enough_key: "4 * length key + 4 \<le> fuel \<Longrightarrow> enough fuel n (length (keybytesToHex key))"
  by (simp add: enough_def length_keybytesToHex)

lemma trie_holds_upd:
  assumes "loads ok full True (t_root tr) t'" "wf_tree t'" "t_get t' = (t_get t)(keybytesToHex key := w)"
    and "\<forall>key. t_get t (keybytesToHex key) = m key" "\<forall>k. t_get t k \<noteq> None \<longrightarrow> (\<exists>key. k = keybytesToHex key)"
  shows "trie_holds ok full tr (m(key := w))"
  unfolding trie_holds_def represents_def using assms by (intro exI [of _ t']) (auto simp: keybytesToHex_inj)

text \<open>The outcome of an update of the map.\<close>

definition update_post ::
  "hash_ok \<Rightarrow> node_db \<Rightarrow> node_db \<Rightarrow> Trie \<Rightarrow> (bytes \<Rightarrow> bytes option) \<Rightarrow> MissingNodeError option \<times> Trie \<Rightarrow> bool" where
  "update_post ok db full tr m = (\<lambda>(err, tr'). case err of
      Some e \<Rightarrow> missing db full e \<and> t_root tr' = t_root tr
    | None \<Rightarrow> trie_holds ok full tr' m)"

lemma update_via:
  assumes "go_spec {} (change_post ok db full True S t ((t_get t)(keybytesToHex key := w))) op" "\<And>t'. S t' \<Longrightarrow> wf_tree t'"
    and "\<forall>key. t_get t (keybytesToHex key) = m key" "\<forall>k. t_get t k \<noteq> None \<longrightarrow> (\<exists>key. k = keybytesToHex key)"
    and "t_root tr1 = t_root tr"
  shows "go_spec {} (update_post ok db full tr (m(key := w))) (go_bind op (\<lambda>(_, n, err).
    if err \<noteq> None then Ret (err, tr1) else Ret (None, tr1 \<lparr> t_root := n \<rparr>)))"
proof -
  have "go_spec {} (update_post ok db full tr (m(key := w)))
      (if err \<noteq> None then Ret (err, tr1) else Ret (None, tr1 \<lparr> t_root := n \<rparr>))"
    if p: "change_post ok db full True S t ((t_get t)(keybytesToHex key := w)) (d, n, err)" for d n err
  proof (cases err)
    case (Some e)
    with p assms(5) show ?thesis by (simp add: change_post_def update_post_def)
  next
    case None
    with p obtain t' where "loads ok full True n t'" "S t'" "t_get t' = (t_get t)(keybytesToHex key := w)"
      by (auto simp: change_post_def)
    with trie_holds_upd [of ok full "tr1 \<lparr> t_root := n \<rparr>" t' t key w m] assms(2-4) None show ?thesis
      by (simp add: update_post_def)
  qed
  with assms(1) show ?thesis by (auto elim!: go_spec_mono)
qed

lemma TryDelete_spec:
  assumes "part_of db full" "trie_holds ok full tr m" "4 * length key + 4 \<le> fuel"
  shows "go_spec {} (update_post ok db full tr (m(key := None))) (TryDelete db fuel tr key)"
proof -
  obtain t where t: "loads ok full True (t_root tr) t" "wf_tree t" "\<forall>key. t_get t (keybytesToHex key) = m key"
    "\<forall>k. t_get t k \<noteq> None \<longrightarrow> (\<exists>key. k = keybytesToHex key)"
    using assms(2) by (auto simp: trie_holds_def represents_def)
  from update_via [OF delete_spec [OF assms(1) t(2,1) entry_key_keybytes enough_key [OF assms(3)]] _ t(3,4)]
  show ?thesis by (simp add: TryDelete_def Let_def deleted_def del: go_spec_bind)
qed

lemma TryUpdate_spec:
  assumes "part_of db full" "trie_holds ok full tr m" "4 * length key + 4 \<le> fuel"
  shows "go_spec {} (update_post ok db full tr (m(key := if value = [] then None else Some value)))
    (TryUpdate db fuel tr key value)"
proof -
  obtain t where t: "loads ok full True (t_root tr) t" "wf_tree t" "\<forall>key. t_get t (keybytesToHex key) = m key"
    "\<forall>k. t_get t k \<noteq> None \<longrightarrow> (\<exists>key. k = keybytesToHex key)"
    using assms(2) by (auto simp: trie_holds_def represents_def)
  show ?thesis
  proof (cases "value = []")
    case True
    from update_via [OF delete_spec [OF assms(1) t(2,1) entry_key_keybytes enough_key [OF assms(3)]] _ t(3,4)]
    show ?thesis by (simp add: TryUpdate_def Let_def deleted_def True del: go_spec_bind)
  next
    case False
    from update_via [OF insert_spec [OF assms(1) t(2,1) entry_key_keybytes False enough_key [OF assms(3)]] _ t(3,4)] False
    show ?thesis by (simp add: TryUpdate_def Let_def inserted_def del: go_spec_bind)
  qed
qed

lemma TryGet_spec:
  assumes "part_of db full" "trie_holds ok full tr m" "4 * length key + 4 \<le> fuel"
  shows "go_spec {} (\<lambda>(v, err, tr'). case err of
      Some e \<Rightarrow> missing db full e \<and> tr' = tr
    | None \<Rightarrow> v = m key \<and> trie_holds ok full tr' m) (TryGet db fuel tr key)"
proof -
  obtain t where t: "loads ok full True (t_root tr) t" "wf_tree t" "\<forall>key. t_get t (keybytesToHex key) = m key"
    "\<forall>k. t_get t k \<noteq> None \<longrightarrow> (\<exists>key. k = keybytesToHex key)"
    using assms(2) by (auto simp: trie_holds_def represents_def)
  have h: "trie_holds ok full (tr \<lparr> t_root := n \<rparr>) m" if "loads ok full True n t" for n
    using that t by (auto simp: trie_holds_def represents_def)
  have "go_spec {} (get_post ok db full True (t_root tr) t (keybytesToHex key)) (tryGet db (t_owner tr) fuel (t_root tr) (keybytesToHex key) 0)"
    using tryGet_spec [OF assms(1) t(2,1), of 0 "keybytesToHex key" fuel] entry_key_keybytes enough_key [OF assms(3)] by simp
  then show ?thesis
    using t(3) assms(2) h
    by (auto simp: TryGet_def get_post_def elim!: go_spec_mono split: option.splits)
qed

section \<open>The trie is a map\<close>

text \<open>C10: A trie whose entries are those of the map \<open>m\<close> implements \<open>m\<close>, whatever parts of it are
  loaded. A lookup returns the value of the key and only loads parts of the trie. An update sets
  the key, or removes it if the value is empty; a deletion removes it; the trie stays minimal and
  the hashes cached in it stay right.
  When a node is not in the database, the operation reports one that is indeed missing, and the
  trie is what it was. None of them panics, and four steps of fuel for each byte of the key and
  four more are enough.\<close>

theorem trie_refines_map:
  assumes "part_of db full" "trie_holds ok full tr m" "4 * length key + 4 \<le> fuel"
  shows "(\<exists>v err tr'. TryGet db fuel tr key = Ret (v, err, tr')
      \<and> (case err of Some e \<Rightarrow> missing db full e \<and> tr' = tr | None \<Rightarrow> v = m key \<and> trie_holds ok full tr' m))
    \<and> (\<exists>err tr'. TryUpdate db fuel tr key value = Ret (err, tr')
      \<and> (case err of Some e \<Rightarrow> missing db full e \<and> t_root tr' = t_root tr
         | None \<Rightarrow> trie_holds ok full tr' (m(key := if value = [] then None else Some value))))
    \<and> (\<exists>err tr'. TryDelete db fuel tr key = Ret (err, tr')
      \<and> (case err of Some e \<Rightarrow> missing db full e \<and> t_root tr' = t_root tr
         | None \<Rightarrow> trie_holds ok full tr' (m(key := None))))"
  using TryGet_spec [OF assms] TryUpdate_spec [OF assms, of "value"] TryDelete_spec [OF assms]
  by (simp only: go_spec_iff update_post_def split_paired_Ex prod.case empty_iff simp_thms)

text \<open>A trie with the one entry 1, which is not loaded.\<close>

definition one_entry :: node where
  "one_entry = ShortNode (keybytesToHex [1]) (ValueNode [9]) \<lparr> fl_hash = Some [7], fl_dirty = False \<rparr>"

definition one_db :: node_db where
  "one_db h = Ret (if h = 7 then one_entry else NilNode)"

definition one_trie :: Trie where
  "one_trie = \<lparr> t_root = HashNode [7], t_owner = 0, t_unhashed = 0 \<rparr>"

lemma hash_7: "BytesToHash [7] = 7"
  by (simp add: BytesToHash_def be_nat_def)

lemma one_trie_holds: "trie_holds (\<lambda>_ _ _ _. True) one_db one_trie [[1] \<mapsto> [9]]"
proof -
  have "loads (\<lambda>_ _ _ _. True) one_db True (HashNode [7]) (Ext (keybytesToHex [1]) (Value [9]))"
    by (rule loads_Hash [where n = one_entry]) (simp_all add: one_db_def one_entry_def stored_def hash_7 flag_ok_def link_ok_def)
  moreover have "wf_tree (Ext (keybytesToHex [1]) (Value [9]))"
    unfolding keybytesToHex_def by (rule wf_Leaf) (simp_all add: nibbles_unpack)
  ultimately show ?thesis
    unfolding trie_holds_def represents_def by (intro exI conjI) (auto simp: one_trie_def get_leaf keybytesToHex_inj simp del: t_get.simps split: if_splits)
qed

theorem trie_refines_map_witness:
  "part_of one_db one_db \<and> trie_holds (\<lambda>_ _ _ _. True) one_db one_trie [[1] \<mapsto> [9]]
    \<and> (\<exists>tr'. TryGet one_db 8 one_trie [1] = Ret (Some [9], None, tr') \<and> trie_holds (\<lambda>_ _ _ _. True) one_db tr' [[1] \<mapsto> [9]])
    \<and> (\<exists>tr'. TryUpdate one_db 8 one_trie [2] [5] = Ret (None, tr') \<and> trie_holds (\<lambda>_ _ _ _. True) one_db tr' [[1] \<mapsto> [9], [2] \<mapsto> [5]])
    \<and> (\<exists>e tr'. TryDelete (\<lambda>_. Ret NilNode) 8 one_trie [1] = Ret (Some e, tr') \<and> t_root tr' = HashNode [7])"
proof -
  have p: "part_of one_db one_db" "part_of (\<lambda>_. Ret NilNode) one_db" by (simp_all add: part_of_def)
  have d: "delete_node (\<lambda>_. Ret NilNode) 0 (Suc 7) (HashNode [7]) [] k =
      Ret (False, NilNode, Some \<lparr> e_Owner = 0, e_NodeHash = 7, e_Path = [] \<rparr>)" for k
    by (subst delete_node.simps(2)) (simp add: resolveHash_def hash_7)
  have e: "TryDelete (\<lambda>_. Ret NilNode) 8 one_trie [1] =
      Ret (Some \<lparr> e_Owner = 0, e_NodeHash = 7, e_Path = [] \<rparr>, one_trie \<lparr> t_unhashed := 1 \<rparr>)"
    using d by (simp add: TryDelete_def one_trie_def)
  have full: "\<not> missing one_db one_db e" for e by (simp add: missing_def)
  have g: "\<exists>tr'. TryGet one_db 8 one_trie [1] = Ret (Some [9], None, tr') \<and> trie_holds (\<lambda>_ _ _ _. True) one_db tr' [[1] \<mapsto> [9]]"
    using trie_refines_map [OF p(1) one_trie_holds, of "[1]" 8, THEN conjunct1] full
    by (auto split: option.splits)
  have u: "\<exists>tr'. TryUpdate one_db 8 one_trie [2] [5] = Ret (None, tr') \<and> trie_holds (\<lambda>_ _ _ _. True) one_db tr' [[1] \<mapsto> [9], [2] \<mapsto> [5]]"
    using trie_refines_map [OF p(1) one_trie_holds, of "[2]" 8 "[5]", THEN conjunct2, THEN conjunct1] full
    by (auto split: option.splits)
  from p(1) one_trie_holds g u e show ?thesis by (simp add: one_trie_def)
qed

section \<open>The structure of a trie\<close>

text \<open>A history of updates of a trie, and the map it leaves.\<close>

primrec updates :: "node_db \<Rightarrow> nat \<Rightarrow> Trie \<Rightarrow> (bytes \<times> bytes) list \<Rightarrow> Trie go" where
  "updates db fuel tr [] = Ret tr"
| "updates db fuel tr (u # us) =
     go_bind (trie_Update db fuel tr (fst u) (snd u)) (\<lambda>tr. updates db fuel tr us)"

definition updated :: "(bytes \<Rightarrow> bytes option) \<Rightarrow> (bytes \<times> bytes) list \<Rightarrow> bytes \<Rightarrow> bytes option" where
  "updated m us = foldl (\<lambda>m (k, v). m(k := if v = [] then None else Some v)) m us"

lemma updates_spec:
  assumes "trie_holds ok db tr m" "\<forall>(k, v)\<in>set us. 4 * length k + 4 \<le> fuel"
  shows "go_spec {} (\<lambda>tr'. trie_holds ok db tr' (updated m us)) (updates db fuel tr us)"
  using assms
proof (induction us arbitrary: tr m)
  case Nil
  then show ?case by (simp add: updated_def)
next
  case (Cons u us)
  obtain k v where u: "u = (k, v)" by (cases u)
  have "part_of db db" by (simp add: part_of_def)
  from TryUpdate_spec [OF this Cons.prems(1), of k fuel v] Cons.prems(2) u
  have "go_spec {} (\<lambda>(err, tr'). trie_holds ok db tr' (m(k := if v = [] then None else Some v))) (TryUpdate db fuel tr k v)"
    by (auto simp: update_post_def missing_def elim!: go_spec_mono split: option.splits)
  then have "go_spec {} (\<lambda>(err, tr'). go_spec {} (\<lambda>tr'. trie_holds ok db tr' (updated m (u # us))) (updates db fuel tr' us))
      (TryUpdate db fuel tr k v)"
    by (rule go_spec_mono) (use Cons u in \<open>auto simp: updated_def\<close>)
  then show ?case by (simp add: trie_Update_def u split_def)
qed

text \<open>A trie built from nothing by one history has the same structure as the one built by
  another history that leaves the same entries.\<close>

lemma trie_holds_tree:
  assumes "trie_holds ok full tr m" "trie_holds ok full' tr' m"
  shows "\<exists>t. loads ok full True (t_root tr) t \<and> loads ok full' True (t_root tr') t \<and> wf_tree t"
proof -
  obtain t u where t: "loads ok full True (t_root tr) t" "represents t m"
    and u: "loads ok full' True (t_root tr') u" "represents u m"
    using assms by (auto simp: trie_holds_def)
  moreover have "t = u" using represents_unique t(2) u(2) .
  ultimately show ?thesis by (auto simp: represents_def)
qed

definition empty_trie :: Trie where
  "empty_trie = \<lparr> t_root = NilNode, t_owner = 0, t_unhashed = 0 \<rparr>"

lemma empty_trie_holds: "trie_holds ok full empty_trie Map.empty"
  by (auto simp: trie_holds_def represents_def empty_trie_def intro: wf_Empty)

text \<open>C14: The structure of a trie depends on its entries only: two histories of updates and
  removals of an empty trie that leave the same entries run without a panic and end in the same
  tree of nodes, whatever the order and the detours. The hash of the root is computed from this
  tree.\<close>

theorem trie_canonical:
  assumes "updated Map.empty us = updated Map.empty ws" "\<forall>(k, v)\<in>set (us @ ws). 4 * length k + 4 \<le> fuel"
  shows "\<exists>tr tr' t. updates db fuel empty_trie us = Ret tr \<and> updates db fuel empty_trie ws = Ret tr'
    \<and> loads ok db True (t_root tr) t \<and> loads ok db True (t_root tr') t \<and> wf_tree t"
proof -
  have "\<exists>tr. updates db fuel empty_trie us = Ret tr \<and> trie_holds ok db tr (updated Map.empty us)"
    "\<exists>tr. updates db fuel empty_trie ws = Ret tr \<and> trie_holds ok db tr (updated Map.empty ws)"
    using updates_spec [OF empty_trie_holds, of us fuel ok db] updates_spec [OF empty_trie_holds, of ws fuel ok db] assms(2)
    by (auto simp: go_spec_iff)
  then show ?thesis
    using trie_holds_tree assms(1) by metis
qed

theorem trie_canonical_witness:
  "\<exists>tr tr' t. updates one_db 8 empty_trie [([1], [5]), ([2], [6]), ([2], [])] = Ret tr
    \<and> updates one_db 8 empty_trie [([1], [4]), ([1], [5])] = Ret tr'
    \<and> loads (\<lambda>_ _ _ _. True) one_db True (t_root tr) t \<and> loads (\<lambda>_ _ _ _. True) one_db True (t_root tr') t \<and> wf_tree t"
proof (rule trie_canonical)
  show "updated Map.empty [([1], [5]), ([2], [6]), ([2], [])] = updated Map.empty [([1], [4]), ([1], [5])]"
    by (simp add: updated_def fun_eq_iff)
qed simp

end
