(* ===== verification/Trie_Coding.thy ===== *)
theory Trie_Coding
  imports Trie_Map Rlp_Correct
begin

text \<open>
  The encoding of trie nodes: \<^verbatim>\<open>src/database/trie/node_enc.go\<close> and the decoder of \<^verbatim>\<open>node.go\<close>. The
  reference is the definition of the trie by its hashes: a node is the RLP list of its parts,
  and a part that takes 32 bytes or more is replaced by its hash. The hash function is a
  parameter. The lemmas show that the decoder reads the encoding of a tree as the node that
  stands for the tree.
\<close>

section \<open>The encoder\<close>

text \<open>\<^verbatim>\<open>encode\<close> is not called on a nil node.\<close>

fun node_encode :: "node \<Rightarrow> encBuffer \<Rightarrow> encBuffer go"
and encode_children :: "node list \<Rightarrow> encBuffer \<Rightarrow> encBuffer go" where
  "node_encode NilNode w = Panic RuntimeError"
| "node_encode (FullNode cs fl) w =
     (let (offset, w) = rlp_list w in go_bind (encode_children cs w) (listEnd offset))"
| "node_encode (ShortNode k v fl) w =
     (let (offset, w) = rlp_list w; w = writeBytes k w
      in go_bind (if v \<noteq> NilNode then node_encode v w else Ret (append_str [0x80] w)) (listEnd offset))"
| "node_encode (HashNode h) w = Ret (writeBytes h w)"
| "node_encode (ValueNode v) w = Ret (writeBytes v w)"
| "encode_children [] w = Ret w"
| "encode_children (c # cs) w =
     go_bind (if c \<noteq> NilNode then node_encode c w else Ret (append_str [0x80] w)) (encode_children cs)"

definition nodeToBytes :: "node \<Rightarrow> bytes go" where
  "nodeToBytes n = go_map makeBytes (node_encode n empty_encBuffer)"

section \<open>The decoder\<close>

text \<open>The errors of the decoder, without the path that \<^verbatim>\<open>wrapError\<close> adds for messages.\<close>

datatype decode_error =
  DecodeEOF | DecodeRlp split_error | InvalidCount nat | OversizedNode nat | InvalidSize nat

type_synonym decoder = "bytes option \<Rightarrow> bytes \<Rightarrow> (decode_error + node) go"

text \<open>\<^verbatim>\<open>decodeNode\<close> calls itself through \<^verbatim>\<open>decodeRef\<close> for the nodes that are embedded in a node; the
  parts of the decoder take this call as an argument.\<close>

definition decodeRef :: "decoder \<Rightarrow> bytes \<Rightarrow> (decode_error + node \<times> bytes) go" where
  "decodeRef dec buf = go_bind (Split buf) (\<lambda>r. case r of
     Inl e \<Rightarrow> Ret (Inl (DecodeRlp e))
   | Inr (kind, val, rest) \<Rightarrow>
       if kind = List then
         let sz = length buf - length rest
         in if sz > 32 then Ret (Inl (OversizedNode sz))
            else go_map (map_sum id (\<lambda>n. (n, rest))) (dec None buf)
       else if kind = String \<and> length val = 0 then Ret (Inr (NilNode, rest))
       else if kind = String \<and> length val = 32 then Ret (Inr (HashNode val, rest))
       else Ret (Inl (InvalidSize (length val))))"

definition decodeShort :: "decoder \<Rightarrow> bytes option \<Rightarrow> bytes \<Rightarrow> (decode_error + node) go" where
  "decodeShort dec hash elems = go_bind (SplitString elems) (\<lambda>r. case r of
     Inl e \<Rightarrow> Ret (Inl (DecodeRlp e))
   | Inr (kbuf, rest) \<Rightarrow>
       let flag = \<lparr> fl_hash = hash, fl_dirty = False \<rparr>; key = compactToHex kbuf
       in if hasTerm key then
            go_map (\<lambda>r. case r of Inl e \<Rightarrow> Inl (DecodeRlp e)
              | Inr (val, _) \<Rightarrow> Inr (ShortNode key (ValueNode val) flag)) (SplitString rest)
          else go_map (map_sum id (\<lambda>(r, _). ShortNode key r flag)) (decodeRef dec rest))"

primrec decodeFull_loop :: "decoder \<Rightarrow> nat \<Rightarrow> bytes \<Rightarrow> (decode_error + node list \<times> bytes) go" where
  "decodeFull_loop dec 0 elems = Ret (Inr ([], elems))"
| "decodeFull_loop dec (Suc n) elems = go_bind (decodeRef dec elems) (\<lambda>r. case r of
     Inl e \<Rightarrow> Ret (Inl e)
   | Inr (cld, rest) \<Rightarrow>
       go_map (map_sum id (\<lambda>(cs, elems). (cld # cs, elems))) (decodeFull_loop dec n rest))"

definition decodeFull :: "decoder \<Rightarrow> bytes option \<Rightarrow> bytes \<Rightarrow> (decode_error + node) go" where
  "decodeFull dec hash elems = go_bind (decodeFull_loop dec 16 elems) (\<lambda>r. case r of
     Inl e \<Rightarrow> Ret (Inl e)
   | Inr (cs, elems) \<Rightarrow>
       go_map (\<lambda>r. case r of Inl e \<Rightarrow> Inl (DecodeRlp e)
         | Inr (val, _) \<Rightarrow>
             Inr (FullNode (cs @ [if length val > 0 then ValueNode val else NilNode])
               \<lparr> fl_hash = hash, fl_dirty = False \<rparr>)) (SplitString elems))"

text \<open>An embedded node is shorter than the node it is in, so that one more than the length of the
  input bounds the depth. \<^verbatim>\<open>CountValues\<close> counts 0 values when it fails.\<close>

primrec decodeNode_fuel :: "nat \<Rightarrow> bytes option \<Rightarrow> bytes \<Rightarrow> (decode_error + node) go" where
  "decodeNode_fuel 0 hash buf = OutOfFuel"
| "decodeNode_fuel (Suc fuel) hash buf =
     (if length buf = 0 then Ret (Inl DecodeEOF)
      else go_bind (SplitList buf) (\<lambda>r. case r of
        Inl e \<Rightarrow> Ret (Inl (DecodeRlp e))
      | Inr (elems, _) \<Rightarrow> go_bind (CountValues elems) (\<lambda>r.
          let c = (case r of Inl e \<Rightarrow> 0 | Inr c \<Rightarrow> c)
          in if c = 2 then decodeShort (decodeNode_fuel fuel) hash elems
             else if c = 17 then decodeFull (decodeNode_fuel fuel) hash elems
             else Ret (Inl (InvalidCount c)))))"

definition decodeNode :: "bytes option \<Rightarrow> bytes \<Rightarrow> (decode_error + node) go" where
  "decodeNode hash buf = decodeNode_fuel (Suc (length buf)) hash buf"

definition mustDecodeNode :: "bytes \<Rightarrow> bytes \<Rightarrow> node go" where
  "mustDecodeNode hash buf = go_bind (decodeNode (Some hash) buf) (\<lambda>r. case r of
     Inl e \<Rightarrow> Panic (PanicMsg ''node'')
   | Inr n \<Rightarrow> Ret n)"

section \<open>The encoding of trees\<close>

type_synonym keccak = "bytes \<Rightarrow> hash"

definition is_node :: "tree \<Rightarrow> bool" where
  "is_node t = (case t of Ext _ _ \<Rightarrow> True | Branch _ \<Rightarrow> True | _ \<Rightarrow> False)"

lemma is_node_simps [simp]:
  "\<not> is_node Empty" "\<not> is_node (Value v)" "is_node (Ext p t)" "is_node (Branch cs)"
  by (simp_all add: is_node_def)

text \<open>The compact form of a hex key.\<close>

definition ckey :: "bytes \<Rightarrow> bytes" where
  "ckey k = compact (hasTerm k) (if hasTerm k then butlast k else k)"

text \<open>How the parent of the tree \<open>t\<close>, whose encoding is \<open>e\<close>, refers to it.\<close>

definition ref_rlp :: "keccak \<Rightarrow> tree \<Rightarrow> bytes \<Rightarrow> bytes" where
  "ref_rlp kc t e = (if is_node t \<and> 32 \<le> length e then rlp_string (hash_bytes (kc e)) else e)"

fun node_rlp :: "keccak \<Rightarrow> tree \<Rightarrow> bytes" where
  "node_rlp kc Empty = rlp_string []"
| "node_rlp kc (Value v) = rlp_string v"
| "node_rlp kc (Ext k t) = rlp_seq (rlp_string (ckey k) @ ref_rlp kc t (node_rlp kc t))"
| "node_rlp kc (Branch ts) = rlp_seq (concat (map (\<lambda>t. ref_rlp kc t (node_rlp kc t)) ts))"

definition tree_hash :: "keccak \<Rightarrow> tree \<Rightarrow> bytes" where
  "tree_hash kc t = hash_bytes (kc (node_rlp kc t))"

text \<open>The node that stands for a tree when only the parts that are embedded are loaded.\<close>

definition ref_node :: "keccak \<Rightarrow> tree \<Rightarrow> node \<Rightarrow> node" where
  "ref_node kc t n = (if is_node t \<and> 32 \<le> length (node_rlp kc t) then HashNode (tree_hash kc t) else n)"

fun expanded :: "keccak \<Rightarrow> bytes option \<Rightarrow> tree \<Rightarrow> node" where
  "expanded kc h Empty = NilNode"
| "expanded kc h (Value v) = ValueNode v"
| "expanded kc h (Ext k t) =
     ShortNode k (ref_node kc t (expanded kc None t)) \<lparr> fl_hash = h, fl_dirty = False \<rparr>"
| "expanded kc h (Branch ts) =
     FullNode (map (\<lambda>t. ref_node kc t (expanded kc None t)) ts) \<lparr> fl_hash = h, fl_dirty = False \<rparr>"

section \<open>Decoding what was encoded\<close>

lemma hasTerm_iff: "hasTerm k \<longleftrightarrow> k \<noteq> [] \<and> last k = 16"
  by (cases k rule: rev_cases) (simp_all add: hasTerm_def)

lemma ckey_hex:
  assumes "hex_key k"
  shows "hexToCompact k = Ret (ckey k)" "compactToHex (ckey k) = k"
  using assms
proof (atomize (full), cases rule: hex_key_cases)
  case 1
  then show "hexToCompact k = Ret (ckey k) \<and> compactToHex (ckey k) = k"
    using hexToCompact_nibbles [of k False] compactToHex_compact [of k False] by (simp add: ckey_def)
next
  case (2 ys)
  then show "hexToCompact k = Ret (ckey k) \<and> compactToHex (ckey k) = k"
    using hexToCompact_nibbles [of ys True] compactToHex_compact [of ys True] by (simp add: ckey_def)
qed

lemma wf_Ext_hex: "wf_tree (Ext k t) \<Longrightarrow> hex_key k"
  by (erule wf_ExtE) (simp_all add: hex_key_def)

lemma node_rlp_seq: "is_node t \<Longrightarrow> \<exists>P. node_rlp kc t = rlp_seq P"
  by (cases t) auto

lemma wf_tree_is_node: "wf_tree t \<Longrightarrow> t = Empty \<or> is_node t"
  by (cases t) auto

lemma rlp_value [simp]: "is_value (rlp_string c)" "is_value (rlp_seq c)"
  using spells_string spells_list by (auto simp: is_value_def)

lemma node_rlp_value [simp]: "is_value (node_rlp kc t)" "is_value (ref_rlp kc t (node_rlp kc t))"
  by (cases t; simp add: ref_rlp_def)+

lemma single_byte_hash [simp]:
  "\<not> single_byte (hash_bytes h)" "\<not> single_byte []" "hash_bytes h \<noteq> []"
  using length_hash_bytes [of h] by (auto simp: single_byte_def simp del: length_hash_bytes)

lemma Split_string:
  "length (rlp_string c @ rest) < 2 ^ 63 \<Longrightarrow> \<not> single_byte c
    \<Longrightarrow> Split (rlp_string c @ rest) = Ret (Inr (String, c, rest))"
  using Split_complete [OF spells_string [of c]] by simp

lemma Split_seq:
  "length (rlp_seq c @ rest) < 2 ^ 63 \<Longrightarrow> Split (rlp_seq c @ rest) = Ret (Inr (List, c, rest))"
  by (rule Split_complete [OF spells_list])

text \<open>A reference to a tree is read as the node that stands for it.\<close>

lemma decodeRef_ref:
  assumes "t = Empty \<or> is_node t" "length (ref_rlp kc t (node_rlp kc t) @ rest) < 2 ^ 63"
    and dec: "is_node t \<Longrightarrow> length (node_rlp kc t) < 32
      \<Longrightarrow> dec None (node_rlp kc t @ rest) = Ret (Inr (expanded kc None t))"
  shows "decodeRef dec (ref_rlp kc t (node_rlp kc t) @ rest)
    = Ret (Inr (ref_node kc t (expanded kc None t), rest))"
proof -
  consider "t = Empty" | "is_node t" "32 \<le> length (node_rlp kc t)" | "is_node t" "length (node_rlp kc t) < 32"
    using assms(1) by force
  then show ?thesis
  proof cases
    case 1
    with assms(2) show ?thesis
      using Split_string [of "[]" rest] by (simp add: decodeRef_def ref_rlp_def ref_node_def)
  next
    case 2
    with assms(2) show ?thesis
      using Split_string [of "hash_bytes (kc (node_rlp kc t))" rest]
      by (simp add: decodeRef_def ref_rlp_def ref_node_def tree_hash_def)
  next
    case 3
    then obtain P where P: "node_rlp kc t = rlp_seq P" using node_rlp_seq by blast
    with 3 assms(2) dec show ?thesis
      using Split_seq [of P rest] by (simp add: decodeRef_def ref_rlp_def ref_node_def Let_def)
  qed
qed

lemma decodeFull_loop_refs:
  assumes "length (concat (map (\<lambda>t. ref_rlp kc t (node_rlp kc t)) ts) @ rest) < 2 ^ 63"
    and "\<And>t rest'. t \<in> set ts \<Longrightarrow> length (ref_rlp kc t (node_rlp kc t) @ rest') < 2 ^ 63
      \<Longrightarrow> decodeRef dec (ref_rlp kc t (node_rlp kc t) @ rest') = Ret (Inr (ref_node kc t (expanded kc None t), rest'))"
  shows "decodeFull_loop dec (length ts) (concat (map (\<lambda>t. ref_rlp kc t (node_rlp kc t)) ts) @ rest)
    = Ret (Inr (map (\<lambda>t. ref_node kc t (expanded kc None t)) ts, rest))"
  using assms
proof (induction ts)
  case (Cons t ts)
  then show ?case by simp
qed simp

text \<open>The values of a list with its parts.\<close>

lemma decode_list:
  assumes "length (rlp_seq (concat es) @ rest) < 2 ^ 63" "list_all is_value es"
  shows "decodeNode_fuel (Suc f) h (rlp_seq (concat es) @ rest) =
    (if length es = 2 then decodeShort (decodeNode_fuel f) h (concat es)
     else if length es = 17 then decodeFull (decodeNode_fuel f) h (concat es)
     else Ret (Inl (InvalidCount (length es))))"
proof -
  have "rlp_seq (concat es) \<noteq> []" by (simp add: rlp_seq_def rlp_head_def)
  moreover have "length (concat es) < 2 ^ 63"
    using assms(1) length_rlp_seq [of "concat es"] by simp
  ultimately show ?thesis
    using SplitList_complete [OF assms(1)] CountValues_correct [OF assms(2)] by (simp add: Let_def)
qed

lemma length_concat_member: "e \<in> set es \<Longrightarrow> length e \<le> length (concat es)"
  by (induction es) auto

lemma length_rlp_seq_less: "length P < length (rlp_seq P)"
  by (simp add: rlp_seq_def rlp_head_def)

lemma length_ref_rlp: "t = Empty \<or> is_node t \<Longrightarrow> ref_rlp kc t e = e \<or> length (ref_rlp kc t e) = 33"
  by (auto simp: ref_rlp_def rlp_string_def single_byte_def rlp_head_def)

lemma decodeNode_tree:
  assumes "wf_tree t" "t \<noteq> Empty" "length (node_rlp kc t @ rest) < 2 ^ 63" "length (node_rlp kc t) < f"
  shows "decodeNode_fuel f h (node_rlp kc t @ rest) = Ret (Inr (expanded kc h t))"
  using assms
proof (induction arbitrary: f h rest rule: wf_tree.induct)
  case (wf_Leaf p v)
  let ?k = "p @ [16]"
  obtain f' where f: "f = Suc f'" using wf_Leaf.prems(3) by (cases f) auto
  have k: "compactToHex (ckey ?k) = ?k"
    using wf_Leaf.hyps(1) by (intro ckey_hex) (simp add: hex_key_def)
  let ?es = "[rlp_string (ckey ?k), rlp_string v]"
  have e: "node_rlp kc (Ext ?k (Value v)) = rlp_seq (concat ?es)" by (simp add: ref_rlp_def)
  have l: "length (concat ?es) < 2 ^ 63"
    using wf_Leaf.prems(2) length_rlp_seq [of "concat ?es"] unfolding e by simp
  then have "SplitString (rlp_string (ckey ?k) @ rlp_string v) = Ret (Inr (ckey ?k, rlp_string v))"
    "SplitString (rlp_string v @ []) = Ret (Inr (v, []))"
    by (intro SplitString_complete; simp)+
  then have "decodeShort (decodeNode_fuel f') h (concat ?es) = Ret (Inr (expanded kc h (Ext ?k (Value v))))"
    using k by (simp add: decodeShort_def Let_def ref_node_def)
  then show ?case
    unfolding f e using decode_list [of ?es rest f' h] wf_Leaf.prems(2) [unfolded e] by simp
next
  case (wf_Ext p ts)
  let ?t = "Branch ts" and ?r = "ref_rlp kc (Branch ts) (node_rlp kc (Branch ts))"
  obtain f' where f: "f = Suc f'" using wf_Ext.prems(3) by (cases f) auto
  have k: "compactToHex (ckey p) = p" "\<not> hasTerm p"
    using wf_Ext.hyps(1) ckey_hex(2) [of p] by (simp_all add: hex_key_def)
  let ?es = "[rlp_string (ckey p), ?r]"
  have v: "list_all is_value ?es" using node_rlp_value(2) [of kc ?t] by (simp del: node_rlp.simps)
  have e: "node_rlp kc (Ext p ?t) = rlp_seq (concat ?es)" by simp
  have l: "length (concat ?es) < 2 ^ 63" "length (concat ?es) < length (node_rlp kc (Ext p ?t))"
    using wf_Ext.prems(2) length_rlp_seq_less [of "concat ?es"] unfolding e by simp_all
  have "decodeRef (decodeNode_fuel f') (?r @ []) = Ret (Inr (ref_node kc ?t (expanded kc None ?t), []))"
  proof (rule decodeRef_ref)
    assume "length (node_rlp kc ?t) < 32"
    then have "?r = node_rlp kc ?t" by (simp add: ref_rlp_def)
    with l f wf_Ext.prems(3) have "length (node_rlp kc ?t @ []) < 2 ^ 63" "length (node_rlp kc ?t) < f'"
      by simp_all
    then show "decodeNode_fuel f' None (node_rlp kc ?t @ []) = Ret (Inr (expanded kc None ?t))"
      by (rule wf_Ext.IH [OF tree.distinct(6)])
  qed (use l in simp_all)
  moreover have "SplitString (rlp_string (ckey p) @ ?r) = Ret (Inr (ckey p, ?r))"
    using l by (intro SplitString_complete) simp
  ultimately have "decodeShort (decodeNode_fuel f') h (concat ?es) = Ret (Inr (expanded kc h (Ext p ?t)))"
    using k by (simp add: decodeShort_def Let_def)
  then show ?case
    unfolding f e decode_list [OF wf_Ext.prems(2) [unfolded e] v] by simp
next
  case (wf_Branch ts)
  let ?ref = "\<lambda>t. ref_rlp kc t (node_rlp kc t)"
  obtain f' where f: "f = Suc f'" using wf_Branch.prems(3) by (cases f) auto
  have e: "node_rlp kc (Branch ts) = rlp_seq (concat (map ?ref ts))" by simp
  have l: "length (concat (map ?ref ts)) < 2 ^ 63" "length (concat (map ?ref ts)) < length (node_rlp kc (Branch ts))"
    using wf_Branch.prems(2) length_rlp_seq_less [of "concat (map ?ref ts)"] unfolding e by simp_all
  have ts: "ts = take 16 ts @ [ts ! 16]"
    using wf_Branch.hyps(1) take_Suc_conv_app_nth [of 16 ts] by simp
  have c: "concat (map ?ref ts) = concat (map ?ref (take 16 ts)) @ ?ref (ts ! 16)"
    using arg_cong [OF ts, of "\<lambda>ts. concat (map ?ref ts)"]
    by (simp only: map_append concat_append list.map concat.simps append_Nil2)
  have "decodeFull_loop (decodeNode_fuel f') (length (take 16 ts)) (concat (map ?ref (take 16 ts)) @ ?ref (ts ! 16))
    = Ret (Inr (map (\<lambda>t. ref_node kc t (expanded kc None t)) (take 16 ts), ?ref (ts ! 16)))"
  proof (rule decodeFull_loop_refs)
    show "length (concat (map ?ref (take 16 ts)) @ ?ref (ts ! 16)) < 2 ^ 63"
      using l(1) c by simp
  next
    fix t rest' assume t: "t \<in> set (take 16 ts)" "length (?ref t @ rest') < 2 ^ 63"
    then obtain i where i: "i < 16" "t = ts ! i" using wf_Branch.hyps(1) by (auto simp: in_set_conv_nth)
    then have "t = Empty \<or> is_node t" using wf_Branch.IH wf_tree_is_node by blast
    then show "decodeRef (decodeNode_fuel f') (?ref t @ rest') = Ret (Inr (ref_node kc t (expanded kc None t), rest'))"
    proof (rule decodeRef_ref [OF _ t(2)])
      assume n: "is_node t" "length (node_rlp kc t) < 32"
      then have r: "?ref t = node_rlp kc t" by (simp add: ref_rlp_def)
      have "?ref t \<in> set (map ?ref ts)" using t(1) by (auto dest: in_set_takeD)
      then have "length (?ref t) \<le> length (concat (map ?ref ts))"
        by (rule length_concat_member)
      then have "length (node_rlp kc t) < f'" using r l f wf_Branch.prems(3) by simp
      with n(1) i wf_Branch.IH t(2) r show "decodeNode_fuel f' None (node_rlp kc t @ rest') = Ret (Inr (expanded kc None t))"
        by auto
    qed
  qed
  moreover have "SplitString (?ref (ts ! 16)) = Ret (Inr (case ts ! 16 of Value v \<Rightarrow> v | _ \<Rightarrow> [], []))"
  proof -
    have "length (?ref (ts ! 16)) < 2 ^ 63"
      using l(1) c by simp
    with wf_Branch.hyps(2) show ?thesis
      using SplitString_complete [of "[]" "[]"] SplitString_complete [of _ "[]"]
      by (auto elim!: wf_value_cases simp: ref_rlp_def)
  qed
  ultimately have "decodeFull (decodeNode_fuel f') h (concat (map ?ref (take 16 ts)) @ ?ref (ts ! 16))
      = Ret (Inr (FullNode (map (\<lambda>t. ref_node kc t (expanded kc None t)) (take 16 ts @ [ts ! 16])) \<lparr> fl_hash = h, fl_dirty = False \<rparr>))"
    using wf_Branch.hyps(1,2) by (auto simp: decodeFull_def ref_node_def elim!: wf_value_cases)
  then have "decodeFull (decodeNode_fuel f') h (concat (map ?ref ts)) = Ret (Inr (expanded kc h (Branch ts)))"
    unfolding c ts [symmetric] by simp
  then show ?case
    unfolding f e using decode_list [of "map ?ref ts" rest f' h] wf_Branch.prems(2) [unfolded e] wf_Branch.hyps(1)
    by (simp add: list_all_iff)
qed simp

end
