(* ===== verification/Trie_Hasher.thy ===== *)
theory Trie_Hasher
  imports Trie_Coding
begin

text \<open>
  The root hash of a trie: \<^verbatim>\<open>src/database/trie/hasher.go\<close> and \<^verbatim>\<open>Trie.Hash\<close>. The hasher computes the
  hashes bottom up, reuses the hashes cached in the nodes, and caches the new ones. With more
  than a hundred changes the children of the root are hashed in goroutines that write to
  different children; the model hashes them one after the other. The lemmas show that the
  result is the hash of the tree by the definition of \<open>node_rlp\<close>, whatever is loaded and cached.
\<close>

section \<open>The code\<close>

definition node_cache :: "node \<Rightarrow> (bytes option \<times> bool) go" where
  "node_cache n = (case n of
     ShortNode _ _ fl \<Rightarrow> Ret (fl_hash fl, fl_dirty fl)
   | FullNode _ fl \<Rightarrow> Ret (fl_hash fl, fl_dirty fl)
   | HashNode _ \<Rightarrow> Ret (None, True)
   | ValueNode _ \<Rightarrow> Ret (None, True)
   | NilNode \<Rightarrow> Panic RuntimeError)"

definition hashData :: "keccak \<Rightarrow> bytes \<Rightarrow> bytes" where
  "hashData kc data = hash_bytes (kc data)"

text \<open>\<^verbatim>\<open>shortnodeToHash\<close> and \<^verbatim>\<open>fullnodeToHash\<close>, which have the same body.\<close>

definition nodeToHash :: "keccak \<Rightarrow> node \<Rightarrow> bool \<Rightarrow> node go" where
  "nodeToHash kc n force = go_bind (node_encode n empty_encBuffer) (\<lambda>w.
     let enc = makeBytes w
     in if length enc < 32 \<and> \<not> force then Ret n else Ret (HashNode (hashData kc enc)))"

definition cached_flag :: "nodeFlag \<Rightarrow> node \<Rightarrow> nodeFlag" where
  "cached_flag fl hashed = fl\<lparr> fl_hash := (case hashed of HashNode hn \<Rightarrow> Some hn | _ \<Rightarrow> None) \<rparr>"

text \<open>\<^verbatim>\<open>hash\<close> returns the collapsed node and the copy of the node to keep. The first 16 children of a
  full node are hashed; a missing one is encoded as an empty value.\<close>

fun hash_node :: "keccak \<Rightarrow> node \<Rightarrow> bool \<Rightarrow> (node \<times> node) go"
and hash_children :: "keccak \<Rightarrow> nat \<Rightarrow> node list \<Rightarrow> (node list \<times> node list) go" where
  "hash_node kc (ShortNode k v fl) force = (case fl_hash fl of
     Some h \<Rightarrow> Ret (HashNode h, ShortNode k v fl)
   | None \<Rightarrow>
       go_bind (hexToCompact k) (\<lambda>key.
       go_bind (case v of
            FullNode _ _ \<Rightarrow> hash_node kc v False
          | ShortNode _ _ _ \<Rightarrow> hash_node kc v False
          | _ \<Rightarrow> Ret (v, v)) (\<lambda>(val, kept).
       go_bind (nodeToHash kc (ShortNode key val fl) force) (\<lambda>hashed.
       Ret (hashed, ShortNode k kept (cached_flag fl hashed))))))"
| "hash_node kc (FullNode cs fl) force = (case fl_hash fl of
     Some h \<Rightarrow> Ret (HashNode h, FullNode cs fl)
   | None \<Rightarrow>
       go_bind (hash_children kc 16 cs) (\<lambda>(vals, kept).
       go_bind (nodeToHash kc (FullNode vals fl) force) (\<lambda>hashed.
       Ret (hashed, FullNode kept (cached_flag fl hashed)))))"
| "hash_node kc (HashNode h) force = Ret (HashNode h, HashNode h)"
| "hash_node kc (ValueNode v) force = Ret (ValueNode v, ValueNode v)"
| "hash_node kc NilNode force = Panic RuntimeError"
| "hash_children kc 0 cs = Ret (cs, cs)"
| "hash_children kc (Suc i) [] = Panic RuntimeError"
| "hash_children kc (Suc i) (c # cs) =
     go_bind (if c \<noteq> NilNode then hash_node kc c False else Ret (ValueNode [], NilNode)) (\<lambda>(val, kept).
     go_bind (hash_children kc i cs) (\<lambda>(vals, kepts). Ret (val # vals, kept # kepts)))"

definition hashRoot :: "keccak \<Rightarrow> Trie \<Rightarrow> (node \<times> node \<times> Trie) go" where
  "hashRoot kc t =
     (if t_root t = NilNode then Ret (HashNode (hash_bytes emptyRootHash), NilNode, t)
      else go_bind (hash_node kc (t_root t) True) (\<lambda>(hashed, cached).
           Ret (hashed, cached, t\<lparr> t_unhashed := 0 \<rparr>)))"

definition trie_Hash :: "keccak \<Rightarrow> Trie \<Rightarrow> (hash \<times> Trie) go" where
  "trie_Hash kc t = go_bind (hashRoot kc t) (\<lambda>(hash, cached, t).
     case hash of HashNode h \<Rightarrow> Ret (BytesToHash h, t\<lparr> t_root := cached \<rparr>) | _ \<Rightarrow> Panic RuntimeError)"

section \<open>Encoding of collapsed nodes\<close>

text \<open>The node \<open>n\<close> is written as the bytes \<open>e\<close>; a nil node is written by its parent.\<close>

definition writes :: "node \<Rightarrow> bytes \<Rightarrow> bool" where
  "writes n e \<longleftrightarrow> (\<forall>w. \<exists>w'.
     (if n \<noteq> NilNode then node_encode n w else Ret (append_str [0x80] w)) = Ret w' \<and> emits w e w')"

lemma rlp_string_Nil: "rlp_string [] = [0x80]"
  by (simp add: rlp_string_def rlp_head_def)

lemma writes_simple [simp]:
  "writes NilNode (rlp_string [])"
  "length v < 2 ^ 64 \<Longrightarrow> writes (ValueNode v) (rlp_string v)"
  "length h < 2 ^ 64 \<Longrightarrow> writes (HashNode h) (rlp_string h)"
  by (simp_all add: writes_def rlp_string_Nil writeBytes_correct emits_append_str)

lemma writes_short:
  assumes "writes v e" "length (rlp_string k @ e) < 2 ^ 64"
  shows "writes (ShortNode k v fl) (rlp_seq (rlp_string k @ e))"
  unfolding writes_def
proof
  fix w
  have "length k < 2 ^ 64" using assms(2) length_rlp_string [of k] by simp
  then have 1: "emits (snd (rlp_list w)) (rlp_string k) (writeBytes k (snd (rlp_list w)))"
    by (simp add: writeBytes_correct emits_append_str)
  obtain w1 where w1: "(if v \<noteq> NilNode then node_encode v (writeBytes k (snd (rlp_list w)))
      else Ret (append_str [0x80] (writeBytes k (snd (rlp_list w))))) = Ret w1"
    "emits (writeBytes k (snd (rlp_list w))) e w1"
    using assms(1) unfolding writes_def by blast
  from emits_list [OF emits_trans [OF 1 w1(2)] assms(2)] w1(1)
  show "\<exists>w'. (if ShortNode k v fl \<noteq> NilNode then node_encode (ShortNode k v fl) w else Ret (append_str [0x80] w)) = Ret w'
      \<and> emits w (rlp_seq (rlp_string k @ e)) w'"
    by (auto simp: split_def Let_def)
qed

lemma writes_children:
  assumes "list_all2 writes cs es"
  shows "\<exists>w'. encode_children cs w = Ret w' \<and> emits w (concat es) w'"
  using assms
proof (induction arbitrary: w rule: list_all2_induct)
  case Nil
  then show ?case by (simp add: emits_Nil)
next
  case (Cons c cs e es)
  obtain w1 where w1: "(if c \<noteq> NilNode then node_encode c w else Ret (append_str [0x80] w)) = Ret w1" "emits w e w1"
    using Cons.hyps(1) unfolding writes_def by blast
  moreover obtain w2 where "encode_children cs w1 = Ret w2" "emits w1 (concat es) w2"
    using Cons.IH by blast
  ultimately show ?case using emits_trans by (auto split: if_splits)
qed

lemma writes_full:
  assumes "list_all2 writes cs es" "length (concat es) < 2 ^ 64"
  shows "writes (FullNode cs fl) (rlp_seq (concat es))"
  unfolding writes_def
proof
  fix w
  obtain w1 where w1: "encode_children cs (snd (rlp_list w)) = Ret w1" "emits (snd (rlp_list w)) (concat es) w1"
    using writes_children [OF assms(1)] by blast
  from emits_list [OF w1(2) assms(2)] w1(1)
  show "\<exists>w'. (if FullNode cs fl \<noteq> NilNode then node_encode (FullNode cs fl) w else Ret (append_str [0x80] w)) = Ret w'
      \<and> emits w (rlp_seq (concat es)) w'"
    by (auto simp: split_def)
qed

lemma emits_empty: "emits empty_encBuffer e w \<Longrightarrow> makeBytes w = e"
  by (auto simp: emits_def empty_encBuffer_def makeBytes_def copyTo_merge)

lemma nodeToHash_writes:
  assumes "writes n e" "n \<noteq> NilNode"
  shows "nodeToHash kc n force = Ret (if length e < 32 \<and> \<not> force then n else HashNode (hash_bytes (kc e)))"
proof -
  obtain w where "node_encode n empty_encBuffer = Ret w" "emits empty_encBuffer e w"
    using assms unfolding writes_def by (metis (full_types))
  then show ?thesis by (simp add: nodeToHash_def emits_empty hashData_def Let_def)
qed

lemma nodeToBytes_writes: "writes n e \<Longrightarrow> n \<noteq> NilNode \<Longrightarrow> nodeToBytes n = Ret e"
  unfolding writes_def nodeToBytes_def by (metis (full_types) emits_empty go_map.simps(1))

section \<open>Hashes of trees\<close>

text \<open>All encodings have a length that fits an \<^verbatim>\<open>int\<close>.\<close>

fun fits :: "keccak \<Rightarrow> tree \<Rightarrow> bool" where
  "fits kc Empty = True"
| "fits kc (Value v) = (length (rlp_string v) < 2 ^ 63)"
| "fits kc (Ext k t) = (length (node_rlp kc (Ext k t)) < 2 ^ 63 \<and> fits kc t)"
| "fits kc (Branch ts) = (length (node_rlp kc (Branch ts)) < 2 ^ 63 \<and> list_all (fits kc) ts)"

lemma fits_length: "fits kc t \<Longrightarrow> length (node_rlp kc t) < 2 ^ 63"
  by (cases t) (simp_all add: rlp_string_Nil)

text \<open>When a cached hash is right. A tree has a hash of its own if it is the root or its encoding
  takes 32 bytes or more. A node with its hash that is not dirty is in the database (\<open>P\<close>); only
  nodes that are embedded have neither a hash nor changes.\<close>

definition own_hash :: "keccak \<Rightarrow> bool \<Rightarrow> tree \<Rightarrow> bool" where
  "own_hash kc b t \<longleftrightarrow> b \<or> 32 \<le> length (node_rlp kc t)"

definition trie_ok :: "keccak \<Rightarrow> (tree \<Rightarrow> bool) \<Rightarrow> hash_ok" where
  "trie_ok kc P b t ho d = (case ho of
     Some h \<Rightarrow> h = tree_hash kc t \<and> own_hash kc b t \<and> (d \<or> P t)
   | None \<Rightarrow> \<not> d \<and> \<not> own_hash kc b t)"

text \<open>What the hasher returns for a tree: how the parent refers to it, and the node with its
  hashes.\<close>

definition hash_post :: "keccak \<Rightarrow> (tree \<Rightarrow> bool) \<Rightarrow> node_db \<Rightarrow> bool \<Rightarrow> tree \<Rightarrow> node \<times> node \<Rightarrow> bool" where
  "hash_post kc P full b t = (\<lambda>(hashed, cached).
     (if own_hash kc b t then hashed = HashNode (tree_hash kc t)
      else writes hashed (node_rlp kc t) \<and> \<not> is_hash hashed)
     \<and> loads (trie_ok kc P) full b cached t \<and> (has_hash cached \<or> \<not> own_hash kc b t))"

lemma hash_post_ref:
  assumes "hash_post kc P full False t (hashed, cached)" "is_node t"
  shows "writes hashed (ref_rlp kc t (node_rlp kc t))"
  using assms by (auto simp: hash_post_def own_hash_def ref_rlp_def tree_hash_def split: if_splits)

text \<open>The hasher at a node whose parts are collapsed.\<close>

lemma hash_collapsed:
  assumes w: "writes n (node_rlp kc t)" "n \<noteq> NilNode" "\<not> is_hash n"
    and fl: "fl_hash fl = None" "flag_ok (trie_ok kc P) b t fl"
    and kept: "\<And>fl. flag_ok (trie_ok kc P) b t fl \<Longrightarrow> loads (trie_ok kc P) full b (c fl) t" "\<And>fl. has_hash (c fl) \<longleftrightarrow> fl_hash fl \<noteq> None"
  shows "go_spec {} (hash_post kc P full b t) (go_bind (nodeToHash kc n b) (\<lambda>hashed. Ret (hashed, c (cached_flag fl hashed))))"
proof (cases "own_hash kc b t")
  case True
  then have "nodeToHash kc n b = Ret (HashNode (tree_hash kc t))"
    using nodeToHash_writes [OF w(1,2)] by (auto simp: own_hash_def tree_hash_def)
  moreover have "flag_ok (trie_ok kc P) b t (cached_flag fl (HashNode (tree_hash kc t)))"
    using fl True by (auto simp: flag_ok_def cached_flag_def trie_ok_def)
  ultimately show ?thesis using True kept by (simp add: hash_post_def cached_flag_def)
next
  case False
  then have "nodeToHash kc n b = Ret n"
    using nodeToHash_writes [OF w(1,2)] by (simp add: own_hash_def)
  moreover have "cached_flag fl n = fl"
    using fl(1) w(3) by (cases n) (simp_all add: cached_flag_def)
  ultimately show ?thesis using False kept fl w by (simp add: hash_post_def)
qed

lemma hash_cached:
  assumes "loads (trie_ok kc P) full b n t" "\<not> is_hash n" "n = ShortNode k c fl \<or> n = FullNode cs fl" "fl_hash fl = Some h"
  shows "hash_post kc P full b t (HashNode h, n)"
proof -
  have "trie_ok kc P b t (Some h) (fl_dirty fl)"
    using assms by (auto simp: flag_ok_def)
  with assms show ?thesis by (auto simp: hash_post_def trie_ok_def)
qed

lemma hash_hashnode:
  assumes "loads (trie_ok kc P) full b (HashNode h) t"
  shows "hash_post kc P full b t (HashNode h, HashNode h)"
  using assms by (auto simp: hash_post_def trie_ok_def elim!: loads_HashE)

text \<open>The children of a full node.\<close>

lemma hash_children_spec:
  assumes "list_all2 (loads (trie_ok kc P) full False) cs ts" "n \<le> length cs"
    and "\<And>i. i < n \<Longrightarrow> ts ! i = Empty \<or> is_node (ts ! i)"
    and "\<And>i. i < n \<Longrightarrow> is_node (ts ! i) \<Longrightarrow> go_spec {} (hash_post kc P full False (ts ! i)) (hash_node kc (cs ! i) False)"
    and "\<And>i. n \<le> i \<Longrightarrow> i < length cs \<Longrightarrow> writes (cs ! i) (ref_rlp kc (ts ! i) (node_rlp kc (ts ! i))) \<and> has_hash (cs ! i)"
  shows "\<exists>vals kept. hash_children kc n cs = Ret (vals, kept)
    \<and> list_all2 writes vals (map (\<lambda>t. ref_rlp kc t (node_rlp kc t)) ts)
    \<and> list_all2 (loads (trie_ok kc P) full False) kept ts
    \<and> list_all2 (\<lambda>c t. has_hash c \<or> \<not> own_hash kc False t) kept ts"
  using assms
proof (induction n arbitrary: cs ts)
  case 0
  then show ?case by (auto simp: list_all2_conv_all_nth)
next
  case (Suc n)
  obtain c cs' t ts' where c: "cs = c # cs'" "ts = t # ts'" "loads (trie_ok kc P) full False c t"
    "list_all2 (loads (trie_ok kc P) full False) cs' ts'"
    using Suc.prems(1,2) by (cases cs; cases ts) auto
  have "\<exists>vals kept. hash_children kc n cs' = Ret (vals, kept)
    \<and> list_all2 writes vals (map (\<lambda>t. ref_rlp kc t (node_rlp kc t)) ts')
    \<and> list_all2 (loads (trie_ok kc P) full False) kept ts'
    \<and> list_all2 (\<lambda>c t. has_hash c \<or> \<not> own_hash kc False t) kept ts'"
  proof (rule Suc.IH [OF c(4)])
    fix i assume "i < n"
    then show "ts' ! i = Empty \<or> is_node (ts' ! i)" using Suc.prems(3) [of "Suc i"] c by simp
  next
    fix i assume "i < n" "is_node (ts' ! i)"
    then show "go_spec {} (hash_post kc P full False (ts' ! i)) (hash_node kc (cs' ! i) False)"
      using Suc.prems(4) [of "Suc i"] c by simp
  next
    fix i assume "n \<le> i" "i < length cs'"
    then show "writes (cs' ! i) (ref_rlp kc (ts' ! i) (node_rlp kc (ts' ! i))) \<and> has_hash (cs' ! i)"
      using Suc.prems(5) [of "Suc i"] c by simp
  qed (use Suc.prems(2) c in simp)
  moreover have "\<exists>val kept. (if c \<noteq> NilNode then hash_node kc c False else Ret (ValueNode [], NilNode)) = Ret (val, kept)
    \<and> writes val (ref_rlp kc t (node_rlp kc t)) \<and> loads (trie_ok kc P) full False kept t \<and> (has_hash kept \<or> \<not> own_hash kc False t)"
  proof (cases "t = Empty")
    case True
    with c(3) show ?thesis by (simp add: loads_Empty ref_rlp_def)
  next
    case False
    then have n: "is_node t" "c \<noteq> NilNode" using Suc.prems(3) [of 0] c loads_nil_iff by auto
    then have "go_spec {} (hash_post kc P full False t) (hash_node kc c False)" using Suc.prems(4) [of 0] c by simp
    with n show ?thesis using hash_post_ref [of kc P full t] by (auto simp: go_spec_iff hash_post_def)
  qed
  ultimately show ?case unfolding c(1,2) by auto
qed

lemma link_of_has_hash:
  "has_hash n \<or> \<not> own_hash kc False t \<Longrightarrow> link_ok (trie_ok kc P) fl n t"
  by (auto simp: link_ok_def trie_ok_def)

lemma hash_short:
  assumes wf: "wf_tree (Ext k t)" and ft: "fits kc (Ext k t)"
    and n: "loads (trie_ok kc P) full b (ShortNode k c fl) (Ext k t)"
    and IH: "is_branch t \<Longrightarrow> go_spec {} (hash_post kc P full False t) (hash_node kc c False)"
  shows "go_spec {} (hash_post kc P full b (Ext k t)) (hash_node kc (ShortNode k c fl) b)"
proof (cases "fl_hash fl")
  case (Some h)
  with hash_cached [OF n] show ?thesis by simp
next
  case None
  have fl: "flag_ok (trie_ok kc P) b (Ext k t) fl" and c: "loads (trie_ok kc P) full False c t"
    using n by auto
  obtain val kept where v: "(case c of FullNode _ _ \<Rightarrow> hash_node kc c False | ShortNode _ _ _ \<Rightarrow> hash_node kc c False
      | _ \<Rightarrow> Ret (c, c)) = Ret (val, kept)"
    "writes val (ref_rlp kc t (node_rlp kc t))" "loads (trie_ok kc P) full False kept t" "has_hash kept \<or> \<not> own_hash kc False t"
  proof (cases "is_branch t")
    case True
    then have "is_node t" by (cases t) auto
    obtain hashed cached where h: "hash_node kc c False = Ret (hashed, cached)" "hash_post kc P full False t (hashed, cached)"
      using IH [OF True] by (auto simp: go_spec_iff)
    from True c have "is_hash c \<or> (\<exists>cs fl. c = FullNode cs fl)" by (cases c; cases t) auto
    then have "(case c of FullNode _ _ \<Rightarrow> hash_node kc c False | ShortNode _ _ _ \<Rightarrow> hash_node kc c False
      | _ \<Rightarrow> Ret (c, c)) = Ret (hashed, cached)"
      using h(1) by (cases c) auto
    moreover have "writes hashed (ref_rlp kc t (node_rlp kc t))"
      using hash_post_ref [OF h(2)] \<open>is_node t\<close> by simp
    ultimately show ?thesis using h(2) that by (simp add: hash_post_def)
  next
    case False
    with wf obtain v where "t = Value v" by (auto elim: wf_ExtE)
    moreover from this c have "c = ValueNode v" by (simp add: loads_ValueD)
    moreover have "length v < 2 ^ 64" using ft length_rlp_string [of v] \<open>t = Value v\<close> by simp
    ultimately show ?thesis by (intro that [of c c]) (auto simp: ref_rlp_def)
  qed
  have w: "writes (ShortNode (ckey k) val fl) (node_rlp kc (Ext k t))"
    unfolding node_rlp.simps
    using ft length_rlp_seq [of "rlp_string (ckey k) @ ref_rlp kc t (node_rlp kc t)"] by (intro writes_short v(2)) simp
  have "go_spec {} (hash_post kc P full b (Ext k t)) (go_bind (nodeToHash kc (ShortNode (ckey k) val fl) b)
      (\<lambda>hashed. Ret (hashed, ShortNode k kept (cached_flag fl hashed))))"
    using v(3) link_of_has_hash [OF v(4)] by (intro hash_collapsed [OF w _ _ None fl]) auto
  then show ?thesis
    using v(1) None ckey_hex(1) [OF wf_Ext_hex [OF wf]] by (simp del: node_rlp.simps go_spec_bind)
qed

lemma hash_full:
  assumes wf: "wf_tree (Branch ts)" and ft: "fits kc (Branch ts)"
    and n: "loads (trie_ok kc P) full b (FullNode cs fl) (Branch ts)"
    and IH: "\<And>i. i < 16 \<Longrightarrow> is_node (ts ! i) \<Longrightarrow> go_spec {} (hash_post kc P full False (ts ! i)) (hash_node kc (cs ! i) False)"
  shows "go_spec {} (hash_post kc P full b (Branch ts)) (hash_node kc (FullNode cs fl) b)"
proof (cases "fl_hash fl")
  case (Some h)
  with hash_cached [OF n] show ?thesis by simp
next
  case None
  have fl: "flag_ok (trie_ok kc P) b (Branch ts) fl" and c: "list_all2 (loads (trie_ok kc P) full False) cs ts"
    using n by auto
  have l: "length ts = 17" "length cs = 17" using wf list_all2_lengthD [OF c] by (simp_all add: wf_Branch_iff)
  have v: "wf_value (ts ! 16)" "loads (trie_ok kc P) full False (cs ! 16) (ts ! 16)" "fits kc (ts ! 16)"
    using wf c ft l by (simp_all add: wf_Branch_iff list_all2_conv_all_nth list_all_length)
  have last: "writes (cs ! 16) (ref_rlp kc (ts ! 16) (node_rlp kc (ts ! 16))) \<and> has_hash (cs ! 16)"
    using v(1)
  proof (cases rule: wf_value_cases)
    case 1
    with v(2) show ?thesis by (simp add: loads_Empty ref_rlp_def)
  next
    case (2 w)
    with v(2,3) length_rlp_string [of w] show ?thesis by (simp add: loads_ValueD ref_rlp_def)
  qed
  have "\<exists>vals kept. hash_children kc 16 cs = Ret (vals, kept)
    \<and> list_all2 writes vals (map (\<lambda>t. ref_rlp kc t (node_rlp kc t)) ts)
    \<and> list_all2 (loads (trie_ok kc P) full False) kept ts
    \<and> list_all2 (\<lambda>c t. has_hash c \<or> \<not> own_hash kc False t) kept ts"
  proof (rule hash_children_spec [OF c])
    fix i :: nat assume "i < 16"
    then show "ts ! i = Empty \<or> is_node (ts ! i)" using wf wf_tree_is_node by (simp add: wf_Branch_iff)
  next
    fix i :: nat assume "16 \<le> i" "i < length cs"
    then have "i = 16" using l by simp
    with last show "writes (cs ! i) (ref_rlp kc (ts ! i) (node_rlp kc (ts ! i))) \<and> has_hash (cs ! i)" by simp
  qed (use IH l in simp_all)
  then obtain vals kept where k: "hash_children kc 16 cs = Ret (vals, kept)"
    "list_all2 writes vals (map (\<lambda>t. ref_rlp kc t (node_rlp kc t)) ts)" "list_all2 (loads (trie_ok kc P) full False) kept ts"
    "list_all2 (\<lambda>c t. has_hash c \<or> \<not> own_hash kc False t) kept ts" by blast
  have link: "list_all2 (link_ok (trie_ok kc P) fl) kept ts" for fl
    using k(4) by (rule list_all2_mono) (rule link_of_has_hash)
  have w: "writes (FullNode vals fl) (node_rlp kc (Branch ts))"
    unfolding node_rlp.simps
    using ft length_rlp_seq [of "concat (map (\<lambda>t. ref_rlp kc t (node_rlp kc t)) ts)"] by (intro writes_full k(2)) simp
  have "go_spec {} (hash_post kc P full b (Branch ts)) (go_bind (nodeToHash kc (FullNode vals fl) b)
      (\<lambda>hashed. Ret (hashed, FullNode kept (cached_flag fl hashed))))"
    using k(3) link by (intro hash_collapsed [OF w _ _ None fl]) auto
  then show ?thesis using k(1) None by (simp del: node_rlp.simps go_spec_bind)
qed

lemma hash_spec:
  assumes "wf_tree t" "t \<noteq> Empty" "fits kc t" "loads (trie_ok kc P) full b n t"
  shows "go_spec {} (hash_post kc P full b t) (hash_node kc n b)"
  using assms
proof (induction arbitrary: n b rule: wf_tree.induct)
  case (wf_Leaf p v)
  let ?t = "Ext (p @ [16]) (Value v)"
  have wf: "wf_tree ?t" using wf_Leaf by (intro wf_tree.wf_Leaf)
  show ?case
  proof (cases "is_hash n")
    case True
    then show ?thesis using wf_Leaf.prems(3) hash_hashnode by (auto elim!: is_hashE)
  next
    case False
    then obtain c fl where "n = ShortNode (p @ [16]) c fl" using loads_ExtD wf_Leaf.prems(3) by blast
    with hash_short [OF wf] wf_Leaf.prems show ?thesis by simp
  qed
next
  case (wf_Ext p ts)
  let ?t = "Ext p (Branch ts)"
  have wf: "wf_tree ?t" using wf_Ext by (intro wf_tree.wf_Ext)
  show ?case
  proof (cases "is_hash n")
    case True
    then show ?thesis using wf_Ext.prems(3) hash_hashnode by (auto elim!: is_hashE)
  next
    case False
    then obtain c fl where c: "n = ShortNode p c fl" "loads (trie_ok kc P) full False c (Branch ts)"
      using loads_ExtD wf_Ext.prems(3) by blast
    have "fits kc (Branch ts)" using wf_Ext.prems(2) by simp
    then show ?thesis
      unfolding c(1) using wf_Ext.prems(2,3) c
      by (intro hash_short [OF wf] wf_Ext.IH) simp_all
  qed
next
  case (wf_Branch ts)
  have wf: "wf_tree (Branch ts)" using wf_Branch by (intro wf_tree.wf_Branch) auto
  show ?case
  proof (cases "is_hash n")
    case True
    then show ?thesis using wf_Branch.prems(3) hash_hashnode by (auto elim!: is_hashE)
  next
    case False
    then obtain cs fl where c: "n = FullNode cs fl" "list_all2 (loads (trie_ok kc P) full False) cs ts"
      using loads_BranchD wf_Branch.prems(3) by blast
    show ?thesis
      unfolding c(1)
    proof (rule hash_full [OF wf wf_Branch.prems(2)])
      fix i :: nat assume i: "i < 16" "is_node (ts ! i)"
      then have "ts ! i \<noteq> Empty" "fits kc (ts ! i)" "loads (trie_ok kc P) full False (cs ! i) (ts ! i)"
        using wf_Branch.prems(2) c(2) wf_Branch.hyps(1) by (auto simp: list_all_length list_all2_conv_all_nth)
      with i wf_Branch.IH show "go_spec {} (hash_post kc P full False (ts ! i)) (hash_node kc (cs ! i) False)" by blast
    qed (use wf_Branch.prems(3) c(1) in simp)
  qed
qed simp

section \<open>Sizes\<close>

lemma rlp_string_size: "length c < 2 ^ 62 \<Longrightarrow> length (rlp_string c) \<le> length c + 9"
  using byte_len_le_8 [of "length c"] by (auto simp: rlp_string_def rlp_head_def)

lemma rlp_seq_size: "length c < 2 ^ 62 \<Longrightarrow> length (rlp_seq c) \<le> length c + 9"
  using byte_len_le_8 [of "length c"] by (auto simp: rlp_seq_def rlp_head_def)

lemma ref_size: "t = Empty \<or> is_node t \<Longrightarrow> length (ref_rlp kc t (node_rlp kc t)) \<le> 33"
  by (auto simp: ref_rlp_def rlp_string_Nil rlp_string_def single_byte_def rlp_head_def)

lemma ckey_size: "length (ckey k) \<le> length k + 1"
  by (auto simp: ckey_def length_compact)

lemma Ext_size:
  assumes "length k < 2 ^ 60" "length (ref_rlp kc t (node_rlp kc t)) < 2 ^ 60 + 40"
  shows "length (node_rlp kc (Ext k t)) < 2 ^ 63"
proof -
  have "length (rlp_string (ckey k)) \<le> 2 ^ 60 + 10"
    using rlp_string_size [of "ckey k"] ckey_size [of k] assms(1) by simp
  then show ?thesis
    using rlp_seq_size [of "rlp_string (ckey k) @ ref_rlp kc t (node_rlp kc t)"] assms(2) by simp
qed

lemma concat_size: "(\<And>x. x \<in> set xs \<Longrightarrow> length x \<le> n) \<Longrightarrow> length (concat xs) \<le> n * length xs"
  by (induction xs) (auto simp: add_mono)

lemma Branch_size:
  assumes "length ts = 17" "\<forall>i<16. wf_tree (ts ! i)" "length (ref_rlp kc (ts ! 16) (node_rlp kc (ts ! 16))) < 2 ^ 60 + 40"
  shows "length (node_rlp kc (Branch ts)) < 2 ^ 63"
proof -
  let ?ref = "\<lambda>t. ref_rlp kc t (node_rlp kc t)"
  have ts: "ts = take 16 ts @ [ts ! 16]"
    using assms(1) take_Suc_conv_app_nth [of 16 ts] by simp
  have "length (concat (map ?ref (take 16 ts))) \<le> 33 * length (map ?ref (take 16 ts))"
  proof (rule concat_size)
    fix x assume "x \<in> set (map ?ref (take 16 ts))"
    then obtain i where "i < 16" "x = ?ref (ts ! i)" using assms(1) by (auto simp: in_set_conv_nth)
    then show "length x \<le> 33" using ref_size [OF wf_tree_is_node] assms(2) by simp
  qed
  moreover have "concat (map ?ref ts) = concat (map ?ref (take 16 ts)) @ ?ref (ts ! 16)"
    using arg_cong [OF ts, of "\<lambda>ts. concat (map ?ref ts)"]
    by (simp only: map_append concat_append list.map concat.simps append_Nil2)
  ultimately have "length (concat (map ?ref ts)) \<le> 528 + (2 ^ 60 + 40)"
    using assms(1,3) by simp
  then show ?thesis using rlp_seq_size [of "concat (map ?ref ts)"] by simp
qed

lemma Value_size: "length v < 2 ^ 60 \<Longrightarrow> length (ref_rlp kc (Value v) (node_rlp kc (Value v))) < 2 ^ 60 + 40"
  using rlp_string_size [of v] by (simp add: ref_rlp_def)

text \<open>The encodings of a tree fit if its keys and values are not longer than any memory.\<close>

lemma tree_fits:
  assumes "wf_tree t" "\<And>k v. t_get t k = Some v \<Longrightarrow> length k < 2 ^ 60 \<and> length v < 2 ^ 60"
  shows "fits kc t"
  using assms
proof (induction rule: wf_tree.induct)
  case (wf_Leaf p v)
  have "t_get (Ext (p @ [16]) (Value v)) (p @ [16]) = Some v" by (simp add: get_leaf del: t_get.simps)
  then have s: "length (p @ [16]) < 2 ^ 60" "length v < 2 ^ 60" using wf_Leaf.prems by blast+
  with Ext_size [OF s(1) Value_size [OF s(2)]] rlp_string_size [of v] show ?case
    by (simp del: node_rlp.simps)
next
  case (wf_Ext p cs)
  obtain k where k: "t_get (Branch cs) k \<noteq> None" using wf_tree_has_key wf_Ext.hyps(3) by blast
  then have "t_get (Ext p (Branch cs)) (p @ k) \<noteq> None" by (subst t_get_Ext_append)
  then have "length p < 2 ^ 60" using wf_Ext.prems by fastforce
  moreover have "length (ref_rlp kc (Branch cs) (node_rlp kc (Branch cs))) \<le> 33" by (rule ref_size) simp
  moreover have "fits kc (Branch cs)"
  proof (rule wf_Ext.IH)
    fix k v assume "t_get (Branch cs) k = Some v"
    then have "t_get (Ext p (Branch cs)) (p @ k) = Some v" by (simp only: t_get_Ext_append)
    from wf_Ext.prems [OF this] show "length k < 2 ^ 60 \<and> length v < 2 ^ 60" by simp
  qed
  ultimately show ?case using Ext_size [of p kc "Branch cs"] by (simp del: node_rlp.simps)
next
  case (wf_Branch ts)
  have sub: "length k < 2 ^ 60 \<and> length v < 2 ^ 60" if "i < 17" "t_get (ts ! i) k = Some v" for i k v
    using wf_Branch.prems [of "word_of_nat i # k" v] t_get_child [OF wf_Branch.hyps(1) that(1)] that(2)
    by (simp del: t_get.simps)
  have last: "length (ref_rlp kc (ts ! 16) (node_rlp kc (ts ! 16))) < 2 ^ 60 + 40 \<and> fits kc (ts ! 16)"
    using wf_Branch.hyps(2)
  proof (cases rule: wf_value_cases)
    case (2 v)
    then have "length v < 2 ^ 60" using sub [of 16 "[]" v] by simp
    with 2 Value_size [of v] rlp_string_size [of v] show ?thesis by simp
  qed (simp add: ref_rlp_def rlp_string_Nil)
  have "fits kc (ts ! i)" if "i < 17" for i
  proof (cases "i = 16")
    case False
    then have "i < 16" using that by simp
    with wf_Branch.IH sub that show ?thesis by blast
  qed (use last in simp)
  then show ?case
    using Branch_size [OF wf_Branch.hyps(1)] wf_Branch.IH last wf_Branch.hyps(1)
    by (simp add: list_all_length del: node_rlp.simps)
qed simp

section \<open>The root hash\<close>

text \<open>Entries of a size that a memory can hold.\<close>

definition small_entries :: "(bytes \<Rightarrow> bytes option) \<Rightarrow> bool" where
  "small_entries m \<longleftrightarrow> (\<forall>k v. m k = Some v \<longrightarrow> length k < 2 ^ 58 \<and> length v < 2 ^ 60)"

lemma represents_fits:
  assumes "represents t m" "small_entries m"
  shows "fits kc t"
proof (rule tree_fits)
  show "wf_tree t" using assms(1) by (simp add: represents_def)
next
  fix k v assume k: "t_get t k = Some v"
  then obtain key where key: "k = keybytesToHex key" using assms(1) by (auto simp: represents_def)
  then have "m key = Some v" using k assms(1) by (simp add: represents_def)
  then have "length key < 2 ^ 58" "length v < 2 ^ 60" using assms(2) by (auto simp: small_entries_def)
  then show "length k < 2 ^ 60 \<and> length v < 2 ^ 60" by (simp add: key length_keybytesToHex)
qed

lemma trie_Hash_spec:
  assumes n: "loads (trie_ok kc P) full True (t_root tr) t" and t: "wf_tree t" "fits kc t"
  shows "\<exists>tr'. trie_Hash kc tr = Ret (if t = Empty then emptyRootHash else kc (node_rlp kc t), tr')
    \<and> loads (trie_ok kc P) full True (t_root tr') t"
proof (cases "t = Empty")
  case True
  with n have "t_root tr = NilNode" by (simp add: loads_Empty)
  with True show ?thesis by (simp add: trie_Hash_def hashRoot_def)
next
  case False
  then obtain hashed cached where h: "hash_node kc (t_root tr) True = Ret (hashed, cached)"
    "hash_post kc P full True t (hashed, cached)"
    using hash_spec [OF t(1) _ t(2) n] by (auto simp: go_spec_iff)
  moreover have "t_root tr \<noteq> NilNode" using False n loads_nil_iff by blast
  ultimately show ?thesis
    using False by (simp add: trie_Hash_def hashRoot_def hash_post_def own_hash_def tree_hash_def)
qed

text \<open>C11: The root hash is a function of the entries: for a trie with the entries \<open>m\<close>, whatever
  parts of it are loaded, hashed or changed, \<^verbatim>\<open>Hash\<close> returns the hash of the encoding of the one
  minimal tree with these entries, and the hash of the empty trie if there are none. It does
  not change the entries and keeps the cached hashes right. In particular two tries with the
  same entries have the same root hash.\<close>

theorem root_hash:
  assumes "trie_holds (trie_ok kc P) full tr m" "small_entries m"
  shows "\<exists>t tr'. represents t m \<and> (\<forall>u. represents u m \<longrightarrow> u = t)
    \<and> trie_Hash kc tr = Ret (if t = Empty then emptyRootHash else kc (node_rlp kc t), tr')
    \<and> trie_holds (trie_ok kc P) full tr' m"
proof -
  obtain t where t: "loads (trie_ok kc P) full True (t_root tr) t" "represents t m"
    using assms(1) by (auto simp: trie_holds_def)
  have wf: "wf_tree t" using t(2) by (simp add: represents_def)
  obtain tr' where h: "trie_Hash kc tr = Ret (if t = Empty then emptyRootHash else kc (node_rlp kc t), tr')"
    and l: "loads (trie_ok kc P) full True (t_root tr') t"
    using trie_Hash_spec [OF t(1) wf represents_fits [OF t(2) assms(2)]] by blast
  have "trie_holds (trie_ok kc P) full tr' m"
    unfolding trie_holds_def using l t(2) by (intro exI conjI)
  moreover have "\<forall>u. represents u m \<longrightarrow> u = t" using represents_unique [OF _ t(2)] by blast
  ultimately show ?thesis using h t(2) by (intro exI conjI)
qed

text \<open>A trie that was updated since it was created.\<close>

definition new_trie :: Trie where
  "new_trie = \<lparr> t_root = ShortNode (keybytesToHex [1]) (ValueNode [9]) newFlag, t_owner = 0, t_unhashed = 1 \<rparr>"

lemma represents_one: "represents (Ext (keybytesToHex [1]) (Value [9])) [[1] \<mapsto> [9]]"
proof -
  have "wf_tree (Ext (keybytesToHex [1]) (Value [9]))"
    unfolding keybytesToHex_def by (rule wf_Leaf) (simp_all add: nibbles_unpack)
  then show ?thesis
    by (auto simp: represents_def get_leaf keybytesToHex_inj simp del: t_get.simps split: if_splits)
qed

theorem root_hash_witness:
  "\<exists>tr'. trie_Hash (\<lambda>b. word_of_nat (be_nat b)) new_trie
      = Ret (word_of_nat (be_nat (node_rlp (\<lambda>b. word_of_nat (be_nat b)) (Ext (keybytesToHex [1]) (Value [9])))), tr')
    \<and> trie_holds (trie_ok (\<lambda>b. word_of_nat (be_nat b)) (\<lambda>_. True)) (\<lambda>_. Ret NilNode) tr' [[1] \<mapsto> [9]]"
proof -
  let ?kc = "\<lambda>b. word_of_nat (be_nat b)"
  have "trie_holds (trie_ok ?kc (\<lambda>_. True)) (\<lambda>_. Ret NilNode) new_trie [[1] \<mapsto> [9]]"
    using represents_one by (auto simp: trie_holds_def new_trie_def)
  moreover have "small_entries [[1] \<mapsto> [9]]" by (simp add: small_entries_def)
  ultimately obtain t tr' where t: "\<forall>u. represents u [[1] \<mapsto> [9]] \<longrightarrow> u = t"
    and h: "trie_Hash ?kc new_trie = Ret (if t = Empty then emptyRootHash else ?kc (node_rlp ?kc t), tr')"
    and l: "trie_holds (trie_ok ?kc (\<lambda>_. True)) (\<lambda>_. Ret NilNode) tr' [[1] \<mapsto> [9]]"
    using root_hash [of ?kc "\<lambda>_. True" "\<lambda>_. Ret NilNode" new_trie "[[1] \<mapsto> [9]]"] by blast
  have "t = Ext (keybytesToHex [1]) (Value [9])" using t represents_one by blast
  with h l show ?thesis by (intro exI conjI) simp_all
qed

end
