(* ===== verification/Trie_Reopen.thy ===== *)
theory Trie_Reopen
  imports Trie_Hasher
begin

text \<open>Opening a trie again from its root hash: the nodes that a database with nothing in its caches
  (\<^verbatim>\<open>src/database/trie/database.go\<close>) reads from disk. A disk that holds the encodings of the nodes of a
  trie under their hashes gives back its entries, so the root hash stands for the entries.\<close>

section \<open>Reading nodes from disk\<close>

type_synonym disk = "hash \<Rightarrow> bytes option"

definition database_node :: "disk \<Rightarrow> node_db" where
  "database_node diskdb hash = (case diskdb hash of
     None \<Rightarrow> Ret NilNode
   | Some enc \<Rightarrow> mustDecodeNode (hash_bytes hash) enc)"

section \<open>Tries on disk\<close>

definition on_disk :: "keccak \<Rightarrow> disk \<Rightarrow> tree \<Rightarrow> bool" where
  "on_disk kc disk t \<longleftrightarrow> disk (kc (node_rlp kc t)) = Some (node_rlp kc t)"

text \<open>The parts of a tree that its encoding refers to by their hash are on disk.\<close>

fun parts_on_disk :: "keccak \<Rightarrow> disk \<Rightarrow> tree \<Rightarrow> bool" where
  "parts_on_disk kc disk (Ext k t) \<longleftrightarrow>
     (is_node t \<and> 32 \<le> length (node_rlp kc t) \<longrightarrow> on_disk kc disk t) \<and> parts_on_disk kc disk t"
| "parts_on_disk kc disk (Branch ts) \<longleftrightarrow>
     list_all (\<lambda>t. (is_node t \<and> 32 \<le> length (node_rlp kc t) \<longrightarrow> on_disk kc disk t) \<and> parts_on_disk kc disk t) ts"
| "parts_on_disk kc disk _ \<longleftrightarrow> True"

definition saved :: "keccak \<Rightarrow> disk \<Rightarrow> tree \<Rightarrow> bool" where
  "saved kc disk t \<longleftrightarrow> on_disk kc disk t \<and> parts_on_disk kc disk t"

lemma database_node_tree:
  assumes "on_disk kc disk t" "wf_tree t" "t \<noteq> Empty" "fits kc t"
  shows "database_node disk (kc (node_rlp kc t)) = Ret (expanded kc (Some (tree_hash kc t)) t)"
  using assms decodeNode_tree [of t kc "[]" "Suc (length (node_rlp kc t))"] fits_length [OF assms(4)]
  by (simp add: database_node_def on_disk_def mustDecodeNode_def decodeNode_def tree_hash_def)

lemma stored_expanded: "is_node t \<Longrightarrow> stored (expanded kc (Some h) t)"
  by (cases t) (simp_all add: stored_def)

text \<open>The hash that a node is loaded with.\<close>

definition own_ref :: "keccak \<Rightarrow> bool \<Rightarrow> tree \<Rightarrow> bytes option" where
  "own_ref kc b t = (if own_hash kc b t then Some (tree_hash kc t) else None)"

abbreviation disk_ok :: "keccak \<Rightarrow> disk \<Rightarrow> hash_ok" where
  "disk_ok kc disk \<equiv> trie_ok kc (saved kc disk)"

lemma disk_ok_own:
  assumes "parts_on_disk kc disk t" "own_hash kc b t \<Longrightarrow> on_disk kc disk t"
  shows "flag_ok (disk_ok kc disk) b t \<lparr> fl_hash = own_ref kc b t, fl_dirty = False \<rparr>"
  using assms by (simp add: flag_ok_def trie_ok_def own_ref_def saved_def)

lemma load_ref:
  assumes "wf_tree t" "is_node t" "fits kc t" "parts_on_disk kc disk t"
    "32 \<le> length (node_rlp kc t) \<Longrightarrow> on_disk kc disk t"
    and n: "loads (disk_ok kc disk) (database_node disk) False (expanded kc (own_ref kc False t) t) t"
  shows "loads (disk_ok kc disk) (database_node disk) False (ref_node kc t (expanded kc None t)) t"
    and "link_ok (disk_ok kc disk) fl (ref_node kc t (expanded kc None t)) t"
proof -
  have "t \<noteq> Empty" using assms(2) by auto
  moreover have "BytesToHash (tree_hash kc t) = kc (node_rlp kc t)" by (simp add: tree_hash_def)
  ultimately show "loads (disk_ok kc disk) (database_node disk) False (ref_node kc t (expanded kc None t)) t"
    using assms database_node_tree [of kc disk t] stored_expanded [of t]
    by (auto simp: ref_node_def own_ref_def own_hash_def trie_ok_def saved_def intro!: loads_Hash)
  show "link_ok (disk_ok kc disk) fl (ref_node kc t (expanded kc None t)) t"
    using assms(2) by (simp add: link_ok_def ref_node_def trie_ok_def own_hash_def)
qed

lemma load_part:
  assumes "wf_tree t \<or> wf_value t" "fits kc t"
    "is_node t \<and> 32 \<le> length (node_rlp kc t) \<longrightarrow> on_disk kc disk t" "parts_on_disk kc disk t"
    and IH: "wf_tree t \<Longrightarrow> is_node t
      \<Longrightarrow> loads (disk_ok kc disk) (database_node disk) False (expanded kc (own_ref kc False t) t) t"
  shows "loads (disk_ok kc disk) (database_node disk) False (ref_node kc t (expanded kc None t)) t
    \<and> link_ok (disk_ok kc disk) fl (ref_node kc t (expanded kc None t)) t"
proof (cases "is_node t")
  case True
  then have wf: "wf_tree t" using assms(1) by (cases t) (auto simp: wf_value_def)
  show ?thesis using load_ref [OF wf True assms(2,4) _ IH [OF wf True]] True assms(3) by blast
next
  case False
  then show ?thesis by (cases t) (simp_all add: ref_node_def link_ok_def)
qed

lemma load_expanded:
  assumes "wf_tree t" "t \<noteq> Empty" "fits kc t" "parts_on_disk kc disk t" "own_hash kc b t \<Longrightarrow> on_disk kc disk t"
  shows "loads (disk_ok kc disk) (database_node disk) b (expanded kc (own_ref kc b t) t) t"
  using assms
proof (induction arbitrary: b rule: wf_tree.induct)
  case (wf_Leaf p v)
  then show ?case using disk_ok_own [OF wf_Leaf.prems(3,4)] by (simp add: ref_node_def link_ok_def)
next
  case (wf_Ext p ts)
  let ?t = "Branch ts"
  have t: "fits kc ?t" "parts_on_disk kc disk ?t"
    "is_node ?t \<and> 32 \<le> length (node_rlp kc ?t) \<longrightarrow> on_disk kc disk ?t"
    using wf_Ext.prems(2,3) unfolding fits.simps(3) parts_on_disk.simps(1) by blast+
  have "loads (disk_ok kc disk) (database_node disk) False (expanded kc (own_ref kc False ?t) ?t) ?t"
    using t(3) by (intro wf_Ext.IH [OF tree.distinct(6) t(1,2)]) (simp add: own_hash_def)
  from load_part [OF disjI1 [OF wf_Ext.hyps(3)] t(1,3,2) this] disk_ok_own [OF wf_Ext.prems(3,4)]
  show ?case unfolding expanded.simps(3) by (intro loads_Short) blast+
next
  case (wf_Branch ts)
  have "loads (disk_ok kc disk) (database_node disk) False (ref_node kc (ts ! i) (expanded kc None (ts ! i))) (ts ! i)
      \<and> link_ok (disk_ok kc disk) fl (ref_node kc (ts ! i) (expanded kc None (ts ! i))) (ts ! i)" if i: "i < 17" for i fl
  proof (rule load_part)
    have c16: "i < 16 \<or> i = 16" using i by arith
    show w: "wf_tree (ts ! i) \<or> wf_value (ts ! i)"
      using c16 wf_Branch.IH wf_Branch.hyps(2) by auto
    show f: "fits kc (ts ! i)" "is_node (ts ! i) \<and> 32 \<le> length (node_rlp kc (ts ! i)) \<longrightarrow> on_disk kc disk (ts ! i)"
      "parts_on_disk kc disk (ts ! i)"
      using wf_Branch.prems(2,3) wf_Branch.hyps(1) i by (auto simp: list_all_length)
    assume n: "wf_tree (ts ! i)" "is_node (ts ! i)"
    have "i < 16" using c16 wf_Branch.hyps(2) n(2) by (cases "ts ! 16") (auto simp: wf_value_def)
    then show "loads (disk_ok kc disk) (database_node disk) False (expanded kc (own_ref kc False (ts ! i)) (ts ! i)) (ts ! i)"
      using wf_Branch.IH n f by (auto simp: own_hash_def)
  qed
  then show ?case
    using disk_ok_own [OF wf_Branch.prems(3,4)] wf_Branch.hyps(1)
    unfolding expanded.simps(4) by (intro loads_Full) (auto simp: list_all2_conv_all_nth)
qed simp

section \<open>Opening a trie\<close>

lemma newTrie_saved:
  assumes "represents t m" "small_entries m" "t \<noteq> Empty" "saved kc disk t"
    "kc (node_rlp kc t) \<noteq> 0" "kc (node_rlp kc t) \<noteq> emptyRootHash"
  shows "\<exists>tr. newTrie (database_node disk) owner (kc (node_rlp kc t)) = Ret (Inr tr)
    \<and> trie_holds (disk_ok kc disk) (database_node disk) tr m"
proof -
  let ?n = "expanded kc (own_ref kc True t) t"
  have wf: "wf_tree t" using assms(1) by (simp add: represents_def)
  have f: "fits kc t" using represents_fits assms(1,2) by blast
  have d: "on_disk kc disk t" "parts_on_disk kc disk t" using assms(4) by (simp_all add: saved_def)
  have l: "loads (disk_ok kc disk) (database_node disk) True ?n t"
    by (rule load_expanded [OF wf assms(3) f d(2,1)])
  have "database_node disk (kc (node_rlp kc t)) = Ret ?n"
    using database_node_tree [OF d(1) wf assms(3) f] by (simp add: own_ref_def own_hash_def)
  moreover have "?n \<noteq> NilNode" using assms(3) wf_tree_is_node [OF wf] by (cases t) auto
  ultimately have "newTrie (database_node disk) owner (kc (node_rlp kc t))
      = Ret (Inr \<lparr> t_root = ?n, t_owner = owner, t_unhashed = 0 \<rparr>)"
    using assms(5,6) by (simp add: newTrie_def resolveHash_def)
  then show ?thesis using l assms(1) by (auto simp: trie_holds_def simp del: expanded.simps)
qed

text \<open>The nodes of a trie are on disk, and its root hash is not one of the two that stand for the
  empty trie.\<close>

definition persisted :: "keccak \<Rightarrow> disk \<Rightarrow> tree \<Rightarrow> bool" where
  "persisted kc disk t \<longleftrightarrow> t \<noteq> Empty \<longrightarrow>
     saved kc disk t \<and> kc (node_rlp kc t) \<noteq> 0 \<and> kc (node_rlp kc t) \<noteq> emptyRootHash"

definition root_of :: "keccak \<Rightarrow> tree \<Rightarrow> hash" where
  "root_of kc t = (if t = Empty then emptyRootHash else kc (node_rlp kc t))"

lemma newTrie_persisted:
  assumes "represents t m" "small_entries m" "persisted kc disk t"
  shows "\<exists>tr. newTrie (database_node disk) owner (root_of kc t) = Ret (Inr tr)
    \<and> trie_holds (disk_ok kc disk) (database_node disk) tr m"
proof (cases "t = Empty")
  case True
  then show ?thesis
    using assms(1) loads_Nil by (auto simp: root_of_def newTrie_def trie_holds_def)
next
  case False
  then show ?thesis
    using newTrie_saved [OF assms(1,2) False] assms(3) by (simp add: root_of_def persisted_def)
qed

lemma trie_Hash_root:
  assumes "trie_holds (trie_ok kc P) full tr m" "small_entries m" "represents t m"
  shows "\<exists>tr'. trie_Hash kc tr = Ret (root_of kc t, tr')"
proof -
  obtain u where u: "loads (trie_ok kc P) full True (t_root tr) u" "represents u m"
    using assms(1) by (auto simp: trie_holds_def)
  have "u = t" using represents_unique [OF u(2) assms(3)] .
  then show ?thesis
    using trie_Hash_spec [OF u(1) _ represents_fits [OF u(2) assms(2)]] u(2)
    by (auto simp: root_of_def represents_def)
qed

lemma trie_holds_entries:
  assumes "trie_holds ok full tr m" "trie_holds ok full tr m'"
  shows "m = m'"
proof
  fix key
  have p: "part_of full full" by (simp add: part_of_def)
  have no: "\<not> missing full full e" for e by (simp add: missing_def)
  have "go_spec {} (\<lambda>(v, err, tr'). v = m key) (TryGet full (4 * length key + 4) tr key)"
    using TryGet_spec [OF p assms(1) order_refl, of key] no
    by (auto elim!: go_spec_mono split: option.splits)
  moreover have "go_spec {} (\<lambda>(v, err, tr'). v = m' key) (TryGet full (4 * length key + 4) tr key)"
    using TryGet_spec [OF p assms(2) order_refl, of key] no
    by (auto elim!: go_spec_mono split: option.splits)
  ultimately show "m key = m' key" by (auto simp: go_spec_iff)
qed

text \<open>A disk with the trie of one entry, and a hash function that has no collisions on it.\<close>

definition one_tree :: tree where
  "one_tree = Ext (keybytesToHex [1]) (Value [9])"

definition num_hash :: keccak where
  "num_hash b = word_of_nat (be_nat b)"

definition one_disk :: disk where
  "one_disk h = (if h = num_hash [0xc4, 0x82, 0x20, 0x01, 0x09] then Some [0xc4, 0x82, 0x20, 0x01, 0x09] else None)"

lemma one_tree_rlp: "node_rlp num_hash one_tree = [0xc4, 0x82, 0x20, 0x01, 0x09]"
  by code_simp

lemma one_tree_persisted: "persisted num_hash one_disk one_tree"
proof -
  have "num_hash [0xc4, 0x82, 0x20, 0x01, 0x09] \<noteq> 0" "num_hash [0xc4, 0x82, 0x20, 0x01, 0x09] \<noteq> emptyRootHash"
    by (simp_all add: num_hash_def be_nat_def emptyRootHash_def)
  moreover have "parts_on_disk num_hash one_disk one_tree" by (simp add: one_tree_def)
  ultimately show ?thesis
    by (simp add: persisted_def saved_def on_disk_def one_tree_rlp one_disk_def)
qed

lemma one_tree_entries: "represents one_tree [[1] \<mapsto> [9]]" "small_entries [[1] \<mapsto> [9]]"
  using represents_one by (simp_all add: one_tree_def small_entries_def)

lemma new_trie_entries: "trie_holds (trie_ok num_hash (\<lambda>_. True)) (\<lambda>_. Ret NilNode) new_trie [[1] \<mapsto> [9]]"
  using represents_one by (auto simp: trie_holds_def new_trie_def)

text \<open>C13: A trie can be opened again from its root hash: if the disk holds the encodings of the
  nodes of the trie under their hashes, the trie that \<^verbatim>\<open>New\<close> opens at the hash that \<^verbatim>\<open>Hash\<close> returned
  has the same entries, with nothing but its root and what is embedded in it loaded.\<close>

theorem reopen_trie:
  assumes "trie_holds (trie_ok kc P) full tr m" "small_entries m" "represents t m" "persisted kc disk t"
  shows "\<exists>root tr' tr''. trie_Hash kc tr = Ret (root, tr')
    \<and> newTrie (database_node disk) owner root = Ret (Inr tr'')
    \<and> trie_holds (disk_ok kc disk) (database_node disk) tr'' m"
  using trie_Hash_root [OF assms(1-3)] newTrie_persisted [OF assms(3,2,4), of owner] by blast

theorem reopen_trie_witness:
  "\<exists>root tr' tr''. trie_Hash num_hash new_trie = Ret (root, tr')
    \<and> newTrie (database_node one_disk) 0 root = Ret (Inr tr'')
    \<and> trie_holds (disk_ok num_hash one_disk) (database_node one_disk) tr'' [[1] \<mapsto> [9]]"
  by (rule reopen_trie [OF new_trie_entries one_tree_entries(2,1) one_tree_persisted])

text \<open>C12: The root hash commits to the entries: two tries with the same root hash have the same
  entries, as long as one disk can hold the encodings of the nodes of both, that is, no two of
  these encodings have the same hash.\<close>

theorem root_hash_binding:
  assumes "trie_holds (trie_ok kc P) full tr m" "small_entries m" "represents t m" "persisted kc disk t"
    and "trie_holds (trie_ok kc P') full' tr' m'" "small_entries m'" "represents t' m'" "persisted kc disk t'"
    and "trie_Hash kc tr = Ret (root, tr1)" "trie_Hash kc tr' = Ret (root, tr2)"
  shows "m = m'"
proof -
  have r: "root_of kc t = root_of kc t'"
    using trie_Hash_root [OF assms(1-3)] trie_Hash_root [OF assms(5-7)] assms(9,10) by auto
  obtain tr3 where n: "newTrie (database_node disk) 0 (root_of kc t) = Ret (Inr tr3)"
    and m: "trie_holds (disk_ok kc disk) (database_node disk) tr3 m"
    using newTrie_persisted [OF assms(3,2,4), of 0] by blast
  have "trie_holds (disk_ok kc disk) (database_node disk) tr3 m'"
    using newTrie_persisted [OF assms(7,6,8), of 0] n r by auto
  with m show ?thesis by (rule trie_holds_entries)
qed

text \<open>The trie of \<open>new_trie\<close> as it is read from disk.\<close>

definition closed_trie :: Trie where
  "closed_trie = \<lparr> t_root = expanded num_hash (Some (tree_hash num_hash one_tree)) one_tree, t_owner = 0, t_unhashed = 0 \<rparr>"

lemma closed_trie_entries:
  "trie_holds (disk_ok num_hash one_disk) (database_node one_disk) closed_trie [[1] \<mapsto> [9]]"
proof -
  have "wf_tree one_tree" using one_tree_entries(1) by (simp add: represents_def)
  moreover have "one_tree \<noteq> Empty" by (simp add: one_tree_def)
  ultimately have "loads (disk_ok num_hash one_disk) (database_node one_disk) True
      (expanded num_hash (own_ref num_hash True one_tree) one_tree) one_tree"
    using load_expanded represents_fits [OF one_tree_entries] one_tree_persisted
    by (simp add: persisted_def saved_def)
  then show ?thesis
    using one_tree_entries(1) by (auto simp: trie_holds_def closed_trie_def own_ref_def own_hash_def)
qed

theorem root_hash_binding_witness:
  "(\<exists>root tr1 tr2. trie_Hash num_hash new_trie = Ret (root, tr1) \<and> trie_Hash num_hash closed_trie = Ret (root, tr2))
    \<and> [[1 :: u8] \<mapsto> [9 :: u8]] = [[1] \<mapsto> [9]]"
proof -
  obtain tr1 tr2 where h: "trie_Hash num_hash new_trie = Ret (root_of num_hash one_tree, tr1)"
    "trie_Hash num_hash closed_trie = Ret (root_of num_hash one_tree, tr2)"
    using trie_Hash_root [OF new_trie_entries one_tree_entries(2,1)]
      trie_Hash_root [OF closed_trie_entries one_tree_entries(2,1)] by blast
  have "[[1 :: u8] \<mapsto> [9 :: u8]] = [[1] \<mapsto> [9]]"
    by (rule root_hash_binding [OF new_trie_entries one_tree_entries(2,1) one_tree_persisted
          closed_trie_entries one_tree_entries(2,1) one_tree_persisted h])
  with h show ?thesis by blast
qed

end
