(* ===== verification/Spec2Isabelle.thy ===== *)
theory Spec2Isabelle
  imports Rlp_Correct Chain_Access Transition_Plain Trie_Reopen
begin

text \<open>
  Verification of go-entropy, a Go node of an Ethereum-like chain (sources under \<^verbatim>\<open>src/\<close>). The
  development covers what decides the outcome of a transaction and the root of the state: the
  virtual machine, the journalled state database, the application of messages, the
  serialisation format RLP and the Merkle Patricia trie.

  \<^bold>\<open>How the parts interact.\<close> \<^verbatim>\<open>ApplyMessage\<close> checks a message, buys gas and calls the virtual machine,
  which runs code through its interpreter and changes accounts through the interface
  \<^verbatim>\<open>evm.StateDB\<close>. The state database caches accounts over an underlying database, journals every
  change and reverts to snapshots. Accounts and storage are kept in tries, whose nodes are
  encoded with RLP, hashed, and loaded by their hash.

  \<^bold>\<open>Conventions.\<close> \<open>Prelude\<close> has the machine types (words), slices with their bounds checks and the
  result type \<open>'a go\<close> of a Go call: it returns, panics, or the model runs out of fuel. Errors that
  the code returns are values. \<open>Go_Spec\<close> has the total-correctness triple \<open>go_spec\<close>: the call
  returns with the postcondition or panics in one of the listed ways, and never runs out of
  fuel. Code outside \<^verbatim>\<open>src/\<close> is a parameter: hash functions, the elliptic curve precompiles, the
  database below the state. \<open>Uint256\<close> defines the operations of the package \<^verbatim>\<open>uint256\<close> as
  arithmetic on 256-bit words.

  \<^bold>\<open>Serialisation\<close> (\<^verbatim>\<open>common/rlp\<close>). \<open>Rlp\<close> models the encoder buffer of \<^verbatim>\<open>encbuffer.go\<close> and the splitting
  functions of \<^verbatim>\<open>raw.go\<close>. \<open>Rlp_Correct\<close> shows that the encoder writes the format, although it inserts
  the headers of lists afterwards, and that splitting accepts the canonical spellings and no others.

  \<^bold>\<open>Virtual machine\<close> (\<^verbatim>\<open>evm/\<close>).
  \<^item> \<open>Evm_Analysis\<close>, \<open>Evm_Memory\<close>, \<open>Evm_Contract\<close>, \<open>Evm_Env\<close>: jump destinations (\<^verbatim>\<open>analysis.go\<close>), stack and
    memory, the contract of a call, the \<^verbatim>\<open>StateDB\<close> interface and the contexts. The bitmap marks
    exactly the instruction starts.
  \<^item> \<open>Evm_Gas\<close>, \<open>Evm_Call\<close>, \<open>Evm_Instructions\<close>, \<open>Evm_Jump_Table\<close>, \<open>Evm_Interpreter\<close>: gas functions
    (\<^verbatim>\<open>gas_table.go\<close>, \<^verbatim>\<open>operations_acl.go\<close>), calls and creation (\<^verbatim>\<open>evm.go\<close>), all instructions, the tables of
    every fork and the loop of \<^verbatim>\<open>interpreter.go\<close>. \<open>Protocol\<close> has the constants of \<^verbatim>\<open>config/protocol.go\<close>.
  \<^item> \<open>Evm_Machine\<close> states in the locale \<open>evm_machine\<close> what the machine relies on. \<open>Evm_Exec\<close>,
    \<open>Evm_Frames\<close>, \<open>Evm_Charge\<close>, \<open>Evm_Run\<close> and \<open>Evm_Tables\<close> prove inside it that instructions, calls, gas
    functions, turns of the loop and whole runs are safe, terminate, never create gas and undo
    what they did when they fail.

  \<^bold>\<open>State\<close> (\<^verbatim>\<open>blockchain/state/\<close>). \<open>State_Access_List\<close>, \<open>State_Object\<close> and \<open>State_DB\<close> model the access list,
  the account objects, the database and its journal. \<open>State_View\<close> defines the observable state;
  \<open>State_Journal\<close>, \<open>State_Ops\<close> and \<open>State_Revert\<close> show that journalled changes are undone; \<open>State_World\<close> and
  \<open>State_Refine\<close> that readers and writers act on an abstract world of accounts; \<open>State_Steps\<close> lifts
  this to sequences of calls; \<open>State_Machine\<close> proves the laws of \<open>evm_machine\<close> for the database.

  \<^bold>\<open>Chain\<close> (\<^verbatim>\<open>config/config.go\<close>, \<^verbatim>\<open>blockchain/evm.go\<close>, \<^verbatim>\<open>blockchain/state_transition.go\<close>). \<open>Chain_Config\<close>,
  \<open>Block_Header\<close> and \<open>Chain_Evm\<close> model the fork schedule, headers and block contexts.
  \<open>Chain_Machine\<close> interprets \<open>evm_machine\<close> on the state database and draws the conclusions for the
  real machine. \<open>State_Transition\<close> models the application of messages; \<open>Transition_Correct\<close> and
  \<open>Transition_Plain\<close> show the accounting of gas, the effect of failed and rejected messages and
  of plain transfers. \<open>Chain_Access\<close> shows that SSTORE panics from London on when the access list
  was not prepared.

  \<^bold>\<open>Trie\<close> (\<^verbatim>\<open>database/trie/\<close>).
  \<^item> \<open>Trie_Encoding\<close> and \<open>Trie_Ops\<close>: key encodings, nodes, lookup, insertion and deletion, with nodes
    loaded from a node database. \<open>Trie_Tree\<close> has the abstract trees; \<open>Trie_Correct\<close>, \<open>Trie_Update\<close> and
    \<open>Trie_Map\<close> show that a trie is a finite map and that its shape depends on its entries only.
  \<^item> \<open>Trie_Coding\<close>, \<open>Trie_Hasher\<close>: the encoder and decoder of nodes, the hasher and \<^verbatim>\<open>Trie.Hash\<close>. The root
    hash is the hash of the minimal tree of the entries, whatever is cached.
  \<^item> \<open>Trie_Reopen\<close>: reading nodes from disk (\<^verbatim>\<open>database.go\<close>). A trie opened at its root hash has its entries
    again, and without collisions the root hash determines the entries.

  \<^bold>\<open>Fuel.\<close> The interpreter takes fuel; every turn that goes on and every nested call costs gas, so that
  more fuel than gas is enough. The operations of a trie need four units per byte of the key and four
  more. The node decoder takes one more than the length of its input, as embedded nodes are
  shorter than the node they are in. All these bounds are proved to be enough.

  \<^bold>\<open>Bounds.\<close> The theorems on root hashes are for keys below \<open>2 ^ 58\<close> and values below \<open>2 ^ 60\<close> bytes, so
  that lengths of encodings do not overflow an \<^verbatim>\<open>int\<close>.

  \<^bold>\<open>Not modelled.\<close> The connection of the state database to its tries (\<^verbatim>\<open>state_database.go\<close>): the accounts
  and slots below its caches are a parameter of the state model. Committing tries and the caches and reference counts of the node database, proofs
  and iterators; reflection in RLP; consensus engines; the loop over a block, the transaction pool
  and chain management; storage engines, network, remote interfaces, key stores and tools. They
  are input and output, concurrent, or clients of the modelled parts. Locks, metrics and logging
  are left out of modelled functions; goroutines of the hasher run one after the other, as they
  write to different places.
\<close>

end
